(* ===== verification/Prelude.thy ===== *)
theory Prelude
  imports Complex_Main "HOL-Library.Word" "HOL-Library.List_Lexorder" "HOL-Library.Char_ord"
    "HOL-Library.AList" "HOL-Library.Multiset"
begin

text \<open>
  Shared vocabulary of the development: the Rust-shaped result type, the machine types the crates
  use (UUIDs, 32 and 64 bit integers, timestamps), JSON values, and the two standard-library
  containers the code relies on. A \<^verbatim>\<open>BTreeMap\<close> is an association list sorted by key; a
  \<^verbatim>\<open>HashMap\<close> is an association list with distinct keys. The generic lemmas about them, and about
  rows of tables, are collected here so that the component theories share them.
\<close>

section \<open>Collections of facts\<close>

named_theorems result_simps \<open>case distinctions on results\<close>
named_theorems row_simps \<open>how table operations act on the rows of a table\<close>

section \<open>Types\<close>

text \<open>A Rust \<^verbatim>\<open>String\<close> or byte slice is the list of its bytes; a string is UTF-8 encoded.\<close>

type_synonym bytes = string

text \<open>A UUID is a 128-bit value. A timestamp is a whole number of microseconds since the Unix
  epoch, the resolution of the \<^verbatim>\<open>TIMESTAMPTZ\<close> columns.\<close>

type_synonym uuid = "128 word"
type_synonym timestamp = int

datatype ('a, 'e) result = Ok 'a | Err 'e

definition is_ok :: "('a, 'e) result \<Rightarrow> bool" where
  "is_ok r = (case r of Ok _ \<Rightarrow> True | Err _ \<Rightarrow> False)"

fun map_err :: "('e \<Rightarrow> 'f) \<Rightarrow> ('a, 'e) result \<Rightarrow> ('a, 'f) result" where
  "map_err f (Ok a) = Ok a"
| "map_err f (Err e) = Err (f e)"

fun and_then :: "('a, 'e) result \<Rightarrow> ('a \<Rightarrow> ('b, 'e) result) \<Rightarrow> ('b, 'e) result" where
  "and_then (Ok a) k = k a"
| "and_then (Err e) k = Err e"

text \<open>\<^verbatim>\<open>iter().map(f).collect::<Result<Vec<_>, _>>()\<close>: the first error wins.\<close>

fun collect_results :: "('a \<Rightarrow> ('b, 'e) result) \<Rightarrow> 'a list \<Rightarrow> ('b list, 'e) result" where
  "collect_results f [] = Ok []"
| "collect_results f (x # xs) =
     (case f x of Err e \<Rightarrow> Err e
      | Ok y \<Rightarrow> (case collect_results f xs of Err e \<Rightarrow> Err e | Ok ys \<Rightarrow> Ok (y # ys)))"

text \<open>A \<^verbatim>\<open>serde_json::Value\<close>; every JSON number is a rational.\<close>

datatype json =
    JNull
  | JBool bool
  | JNumber rat
  | JString string
  | JArray "json list"
  | JObject "(string \<times> json) list"

abbreviation jint :: "int \<Rightarrow> json" where
  "jint n \<equiv> JNumber (of_int n)"

definition jopt :: "('a \<Rightarrow> json) \<Rightarrow> 'a option \<Rightarrow> json" where
  "jopt f x = (case x of None \<Rightarrow> JNull | Some a \<Rightarrow> f a)"

section \<open>Machine integers\<close>

definition i32_min :: int where "i32_min = - (2 ^ 31)"
definition i32_max :: int where "i32_max = 2 ^ 31 - 1"

definition is_i32 :: "int \<Rightarrow> bool" where
  "is_i32 n \<longleftrightarrow> i32_min \<le> n \<and> n \<le> i32_max"

definition i32_saturating_add :: "int \<Rightarrow> int \<Rightarrow> int" where
  "i32_saturating_add a b = max i32_min (min i32_max (a + b))"

text \<open>Rust's \<^verbatim>\<open>+\<close> on \<^verbatim>\<open>i32\<close> in a release build: two's complement wrap-around.\<close>

definition i32_add :: "int \<Rightarrow> int \<Rightarrow> int" where
  "i32_add a b = (a + b + 2 ^ 31) mod 2 ^ 32 - 2 ^ 31"

lemma i32_add_exact: "is_i32 (a + b) \<Longrightarrow> i32_add a b = a + b"
  by (simp add: is_i32_def i32_min_def i32_max_def i32_add_def)

lemma i32_saturating_add_exact: "is_i32 (a + b) \<Longrightarrow> i32_saturating_add a b = a + b"
  by (simp add: is_i32_def i32_saturating_add_def)

text \<open>\<^verbatim>\<open>usize as i64\<close>: the same 64 bits read as two's complement.\<close>

definition usize_as_i64 :: "nat \<Rightarrow> int" where
  "usize_as_i64 n = (int n + 2 ^ 63) mod 2 ^ 64 - 2 ^ 63"

lemma usize_as_i64_small: "n < 2 ^ 63 \<Longrightarrow> usize_as_i64 n = int n"
  by (simp add: usize_as_i64_def)

section \<open>Ordered maps\<close>

text \<open>\<^verbatim>\<open>entry(k).and_modify(f).or_insert(v)\<close> on a \<^verbatim>\<open>BTreeMap\<close>.\<close>

fun bt_upsert :: "'k::linorder \<Rightarrow> ('v \<Rightarrow> 'v) \<Rightarrow> 'v \<Rightarrow> ('k \<times> 'v) list \<Rightarrow> ('k \<times> 'v) list" where
  "bt_upsert k f v [] = [(k, v)]"
| "bt_upsert k f v ((a, b) # m) =
     (if k < a then (k, v) # (a, b) # m
      else if k = a then (a, f b) # m
      else (a, b) # bt_upsert k f v m)"

text \<open>\<^verbatim>\<open>insert\<close> overwrites, \<^verbatim>\<open>entry(k).or_insert(v)\<close> keeps what is there.\<close>

definition bt_insert :: "'k::linorder \<Rightarrow> 'v \<Rightarrow> ('k \<times> 'v) list \<Rightarrow> ('k \<times> 'v) list" where
  "bt_insert k v m = bt_upsert k (\<lambda>_. v) v m"

definition bt_or_insert :: "'k::linorder \<Rightarrow> 'v \<Rightarrow> ('k \<times> 'v) list \<Rightarrow> ('k \<times> 'v) list" where
  "bt_or_insert k v m = bt_upsert k (\<lambda>b. b) v m"

text \<open>\<^verbatim>\<open>json!({...})\<close>: a \<^verbatim>\<open>serde_json::Map\<close> is a \<^verbatim>\<open>BTreeMap\<close>, so objects are sorted by key.\<close>

definition jobj :: "(string \<times> json) list \<Rightarrow> json" where
  "jobj kvs = JObject (fold (\<lambda>(k, v). bt_insert k v) kvs [])"

abbreviation bt_sorted :: "('k::linorder \<times> 'v) list \<Rightarrow> bool" where
  "bt_sorted m \<equiv> sorted_wrt (<) (map fst m)"

lemma set_fst_bt_upsert [simp]: "fst ` set (bt_upsert k f v m) = insert k (fst ` set m)"
  by (induction k f v m rule: bt_upsert.induct) auto

lemma bt_sorted_upsert [intro]: "bt_sorted m \<Longrightarrow> bt_sorted (bt_upsert k f v m)"
proof (induction k f v m rule: bt_upsert.induct)
  case (2 k f v a b m)
  have "\<forall>x \<in> fst ` set (bt_upsert k f v m). a < x" if "a < k"
    using that "2.prems" unfolding set_fst_bt_upsert by auto
  then show ?case using 2 by (cases "a < k") auto
qed simp

lemma map_of_None_if_below: "bt_sorted ((a, b) # m) \<Longrightarrow> k \<le> a \<Longrightarrow> map_of m k = None"
  by (force simp: map_of_eq_None_iff)

lemma map_of_bt_upsert:
  "bt_sorted m \<Longrightarrow>
   map_of (bt_upsert k f v m) = (map_of m)(k \<mapsto> (case map_of m k of None \<Rightarrow> v | Some b \<Rightarrow> f b))"
proof (induction k f v m rule: bt_upsert.induct)
  case (2 k f v a b m)
  then show ?case
    using map_of_None_if_below[OF "2.prems", of k] by (auto simp: fun_eq_iff)
qed simp

lemma bt_sorted_insert [intro]: "bt_sorted m \<Longrightarrow> bt_sorted (bt_insert k v m)"
  by (simp add: bt_insert_def bt_sorted_upsert)

lemma map_of_bt_insert: "bt_sorted m \<Longrightarrow> map_of (bt_insert k v m) = (map_of m)(k \<mapsto> v)"
  by (simp add: bt_insert_def map_of_bt_upsert split: option.split)

lemma map_of_bt_or_insert:
  "bt_sorted m \<Longrightarrow>
   map_of (bt_or_insert k v m) = (if map_of m k = None then (map_of m)(k \<mapsto> v) else map_of m)"
  by (auto simp: bt_or_insert_def map_of_bt_upsert fun_eq_iff split: option.split)

lemma bt_sorted_distinct: "bt_sorted m \<Longrightarrow> distinct (map fst m)"
  by (simp add: strict_sorted_iff)

lemma bt_sorted_values: "bt_sorted m \<Longrightarrow> set (map snd m) = ran (map_of m)"
  using ran_distinct[OF bt_sorted_distinct, of m] by simp

section \<open>Rows of a table\<close>

lemma and_then_Ok_iff: "and_then r k = Ok b \<longleftrightarrow> (\<exists>a. r = Ok a \<and> k a = Ok b)"
  by (cases r) simp_all

lemma and_then_Err: "and_then r k = Err e \<longleftrightarrow> r = Err e \<or> (\<exists>a. r = Ok a \<and> k a = Err e)"
  by (cases r) simp_all

lemma and_then_OkE: "and_then r k = Ok b \<Longrightarrow> (\<And>a. r = Ok a \<Longrightarrow> k a = Ok b \<Longrightarrow> P) \<Longrightarrow> P"
  by (cases r) simp_all

lemma collect_results_Ok_iff:
  "collect_results f xs = Ok ys \<longleftrightarrow> list_all2 (\<lambda>x y. f x = Ok y) xs ys"
  by (induction xs arbitrary: ys)
    (auto simp: list_all2_Cons1 split: result.splits, metis result.inject(1))

lemma collect_results_all_Ok:
  "(\<And>x. x \<in> set xs \<Longrightarrow> f x = Ok (g x)) \<Longrightarrow> collect_results f xs = Ok (map g xs)"
  by (induction xs) simp_all

lemma list_all2_source: "list_all2 P xs ys \<Longrightarrow> y \<in> set ys \<Longrightarrow> \<exists>x \<in> set xs. P x y"
  by (induction rule: list_all2_induct) auto

lemma list_all2_image: "list_all2 P xs ys \<Longrightarrow> a \<in> set xs \<Longrightarrow> \<exists>y \<in> set ys. P a y"
  by (induction rule: list_all2_induct) auto

lemma find_distinct_key:
  "distinct (map key xs) \<Longrightarrow> x \<in> set xs \<Longrightarrow> find (\<lambda>y. key y = key x) xs = Some x"
  by (induction xs) auto

lemma find_key_Some:
  "find (\<lambda>y. key y = k) xs = Some x \<Longrightarrow> x \<in> set xs \<and> key x = k"
  by (metis (mono_tags) find_Some_iff nth_mem)

end
