(* ===== verification/Float64.thy ===== *)
theory Float64
  imports Prelude "HOL-Library.Log_Nat"
begin

text \<open>
  The \<^verbatim>\<open>f64\<close> arithmetic the retry code uses: IEEE 754 binary64 values as exact rationals plus the two
  infinities and NaN, with one rounding to nearest, ties to even, per operation. The sign of zero
  is not kept: no operation used here observes it. A \<^verbatim>\<open>std::time::Duration\<close> is its number of
  nanoseconds. Shown: every integer of at most 53 bits is representable, so whole seconds convert
  to \<^verbatim>\<open>f64\<close> and back without loss; rounding is odd and monotone, the conversion back is monotone, and
  doubling is exact.
\<close>

section \<open>Values and rounding\<close>

datatype f64 = Fin rat | PInf | NInf | NaN

text \<open>\<open>ilog2 x\<close> is the binary exponent of a positive \<open>x\<close>: \<open>2 powi ilog2 x \<le> x < 2 powi (ilog2 x + 1)\<close>.\<close>

definition ilog2 :: "rat \<Rightarrow> int" where
  "ilog2 x = (if 1 \<le> x then int (floorlog 2 (nat \<lfloor>x\<rfloor>)) - 1
              else - int (floorlog 2 (nat (\<lceil>1 / x\<rceil> - 1))))"

definition round_half_even :: "rat \<Rightarrow> int" where
  "round_half_even x =
     (let f = \<lfloor>x\<rfloor>; d = x - of_int f in
      if d < 1 / 2 then f else if d > 1 / 2 then f + 1 else if even f then f else f + 1)"

definition f64_ulp :: "rat \<Rightarrow> rat" where
  "f64_ulp x = 2 powi (max (- 1074) (ilog2 \<bar>x\<bar> - 52))"

definition f64_round :: "rat \<Rightarrow> f64" where
  "f64_round x =
     (if x = 0 then Fin 0 else
      let u = f64_ulp x; r = of_int (round_half_even (x / u)) * u in
      if 2 ^ 1024 \<le> r then PInf else if r \<le> - (2 ^ 1024) then NInf else Fin r)"

section \<open>Operations\<close>

fun f64_is_finite :: "f64 \<Rightarrow> bool" where
  "f64_is_finite (Fin _) = True"
| "f64_is_finite _ = False"

text \<open>Comparison is false whenever an operand is NaN.\<close>

fun f64_lt :: "f64 \<Rightarrow> f64 \<Rightarrow> bool" where
  "f64_lt (Fin a) (Fin b) = (a < b)"
| "f64_lt NInf (Fin _) = True"
| "f64_lt NInf PInf = True"
| "f64_lt (Fin _) PInf = True"
| "f64_lt _ _ = False"

definition f64_le :: "f64 \<Rightarrow> f64 \<Rightarrow> bool" where
  "f64_le a b \<longleftrightarrow> f64_lt a b \<or> (a = b \<and> a \<noteq> NaN)"

fun f64_neg :: "f64 \<Rightarrow> f64" where
  "f64_neg (Fin a) = Fin (- a)"
| "f64_neg PInf = NInf"
| "f64_neg NInf = PInf"
| "f64_neg NaN = NaN"

definition f64_inf_of_sign :: "rat \<Rightarrow> f64" where
  "f64_inf_of_sign a = (if 0 < a then PInf else if a < 0 then NInf else NaN)"

fun f64_mul :: "f64 \<Rightarrow> f64 \<Rightarrow> f64" where
  "f64_mul (Fin a) (Fin b) = f64_round (a * b)"
| "f64_mul NaN _ = NaN"
| "f64_mul _ NaN = NaN"
| "f64_mul (Fin a) PInf = f64_inf_of_sign a"
| "f64_mul (Fin a) NInf = f64_inf_of_sign (- a)"
| "f64_mul PInf (Fin b) = f64_inf_of_sign b"
| "f64_mul NInf (Fin b) = f64_inf_of_sign (- b)"
| "f64_mul PInf PInf = PInf"
| "f64_mul PInf NInf = NInf"
| "f64_mul NInf PInf = NInf"
| "f64_mul NInf NInf = PInf"

fun f64_add :: "f64 \<Rightarrow> f64 \<Rightarrow> f64" where
  "f64_add (Fin a) (Fin b) = f64_round (a + b)"
| "f64_add NaN _ = NaN"
| "f64_add _ NaN = NaN"
| "f64_add PInf NInf = NaN"
| "f64_add NInf PInf = NaN"
| "f64_add PInf _ = PInf"
| "f64_add _ PInf = PInf"
| "f64_add NInf _ = NInf"
| "f64_add _ NInf = NInf"

text \<open>\<^verbatim>\<open>a.mul_add(b, c)\<close> rounds once; only the finite case differs from multiply-then-add.\<close>

fun f64_mul_add :: "f64 \<Rightarrow> f64 \<Rightarrow> f64 \<Rightarrow> f64" where
  "f64_mul_add (Fin a) (Fin b) (Fin c) = f64_round (a * b + c)"
| "f64_mul_add a b c = f64_add (f64_mul a b) c"

text \<open>\<^verbatim>\<open>f64::min\<close> and \<^verbatim>\<open>f64::max\<close> return the other operand when one is NaN.\<close>

definition f64_min :: "f64 \<Rightarrow> f64 \<Rightarrow> f64" where
  "f64_min a b = (if a = NaN then b else if b = NaN then a else if f64_lt b a then b else a)"

definition f64_max :: "f64 \<Rightarrow> f64 \<Rightarrow> f64" where
  "f64_max a b = (if a = NaN then b else if b = NaN then a else if f64_lt a b then b else a)"

definition f64_clamp :: "f64 \<Rightarrow> f64 \<Rightarrow> f64 \<Rightarrow> f64" where
  "f64_clamp x lo hi = (if f64_lt x lo then lo else if f64_lt hi x then hi else x)"

section \<open>Durations\<close>

type_synonym duration = nat

definition nanos_per_sec :: nat where "nanos_per_sec = 1000000000"

definition duration_from_secs :: "nat \<Rightarrow> duration" where
  "duration_from_secs s = s * nanos_per_sec"

definition duration_as_secs :: "duration \<Rightarrow> nat" where
  "duration_as_secs d = d div nanos_per_sec"

text \<open>\<^verbatim>\<open>as_secs_f64\<close>: whole seconds plus the fractional nanoseconds, each step rounded.\<close>

definition as_secs_f64 :: "duration \<Rightarrow> f64" where
  "as_secs_f64 d =
     f64_add (f64_round (of_nat (d div nanos_per_sec)))
             (f64_round (of_nat (d mod nanos_per_sec) / of_nat nanos_per_sec))"

text \<open>
  \<^verbatim>\<open>Duration::from_secs_f64\<close>: the nearest number of nanoseconds, ties to even. It panics
  (\<open>None\<close>) on a negative, too large or non-finite argument.
\<close>

fun from_secs_f64 :: "f64 \<Rightarrow> duration option" where
  "from_secs_f64 (Fin x) =
     (if x < 0 \<or> 2 ^ 64 \<le> x then None
      else let n = nat (round_half_even (x * of_nat nanos_per_sec)) in
           if n < 2 ^ 64 * nanos_per_sec then Some n else None)"
| "from_secs_f64 _ = None"

section \<open>Exactness\<close>

lemma ilog2_bounds_ge1:
  assumes "1 \<le> x"
  shows "2 powi ilog2 x \<le> x \<and> x < 2 powi (ilog2 x + 1)"
proof -
  let ?n = "nat \<lfloor>x\<rfloor>" let ?k = "floorlog 2 ?n"
  have n: "0 < ?n" using assms by (simp add: le_floor_iff)
  have b: "2 ^ (?k - 1) \<le> ?n \<and> ?n < 2 ^ ?k"
    using floorlog_bounds[of ?n 2] n by simp
  then have k: "0 < ?k" using n by (cases ?k) auto
  have x: "of_nat ?n \<le> x \<and> x < of_nat ?n + 1"
    using assms floor_correct[of x] by simp
  have lo: "(2::rat) ^ (?k - 1) \<le> of_nat ?n"
    using b by (metis of_nat_le_iff of_nat_numeral of_nat_power)
  have "?n + 1 \<le> 2 ^ ?k" using b by linarith
  then have "of_nat (?n + 1) \<le> (2::rat) ^ ?k"
    by (metis of_nat_le_iff of_nat_numeral of_nat_power)
  then have hi: "of_nat ?n + 1 \<le> (2::rat) ^ ?k" by simp
  have e: "ilog2 x = int (?k - 1)" using assms k by (simp add: ilog2_def of_nat_diff)
  have s: "int (?k - 1) + 1 = int ?k" using k by simp
  show ?thesis
    using x lo hi unfolding e s power_int_of_nat by linarith
qed

lemma round_half_even_of_int [simp]: "round_half_even (of_int n) = n"
  by (simp add: round_half_even_def Let_def)

lemma round_half_even_mono: "x \<le> y \<Longrightarrow> round_half_even x \<le> round_half_even y"
proof -
  assume xy: "x \<le> y"
  then have f: "\<lfloor>x\<rfloor> \<le> \<lfloor>y\<rfloor>" by (rule floor_mono)
  show ?thesis
  proof (cases "\<lfloor>x\<rfloor> = \<lfloor>y\<rfloor>")
    case True
    then show ?thesis using xy by (auto simp: round_half_even_def Let_def)
  next
    case False
    then have "\<lfloor>x\<rfloor> + 1 \<le> \<lfloor>y\<rfloor>" using f by simp
    then show ?thesis by (auto simp: round_half_even_def Let_def)
  qed
qed

text \<open>An integer of at most 53 bits is a multiple of its own unit in the last place.\<close>

lemma ilog2_nat_range:
  assumes "n \<noteq> 0" and "n \<le> 2 ^ 53"
  shows "0 \<le> ilog2 (of_nat n)" and "ilog2 (of_nat n) \<le> 53"
proof -
  let ?x = "of_nat n :: rat"
  have n1: "1 \<le> ?x" using assms(1) by simp
  note b = ilog2_bounds_ge1[OF n1]
  show "0 \<le> ilog2 ?x"
  proof (rule ccontr)
    assume "\<not> 0 \<le> ilog2 ?x"
    then have "(2::rat) powi (ilog2 ?x + 1) \<le> 2 powi 0" by (intro power_int_increasing) auto
    then show False using b n1 by simp
  qed
  show "ilog2 ?x \<le> 53"
  proof (rule ccontr)
    assume "\<not> ilog2 ?x \<le> 53"
    then have "(2::rat) powi 54 \<le> 2 powi (ilog2 ?x)" by (intro power_int_increasing) auto
    also have "\<dots> \<le> ?x" using b by simp
    also have "?x \<le> 2 ^ 53" using assms(2) by (metis of_nat_le_iff of_nat_numeral of_nat_power)
    finally show False by simp
  qed
qed

text \<open>A natural number of at most 53 bits is a whole number of units in the last place.\<close>

lemma nat_in_ulps:
  assumes "n \<noteq> 0" and "n \<le> 2 ^ 53"
  obtains m where "of_nat n / 2 powi (ilog2 (of_nat n) - 52) = (of_int m :: rat)"
proof -
  let ?x = "of_nat n :: rat" let ?e = "ilog2 ?x - 52"
  have "\<exists>m. ?x / 2 powi ?e = of_int m"
  proof (cases "?e < 0")
    case True
    then have "?x / 2 powi ?e = of_int (int n * 2 ^ nat (- ?e))"
      by (simp add: power_int_def field_simps)
    then show ?thesis by blast
  next
    case False
    then consider "?e = 0" | "ilog2 ?x = 53" using ilog2_nat_range[OF assms] by linarith
    then show ?thesis
    proof cases
      case 1
      then have "?x / 2 powi ?e = of_int (int n)" by simp
      then show ?thesis by blast
    next
      case 2
      then have "(2::rat) ^ 53 \<le> ?x"
        using ilog2_bounds_ge1[of ?x] assms(1) by (simp add: power_int_def)
      then have "2 ^ 53 \<le> n" by (metis of_nat_le_iff of_nat_numeral of_nat_power)
      then have "?x / 2 powi ?e = of_int (2 ^ 52)" using assms(2) 2 by simp
      then show ?thesis by blast
    qed
  qed
  then show ?thesis using that by blast
qed

lemma f64_round_nat:
  assumes "n \<le> 2 ^ 53"
  shows "f64_round (of_nat n) = Fin (of_nat n)"
proof (cases "n = 0")
  case False
  let ?x = "of_nat n :: rat" let ?e = "ilog2 ?x - 52"
  obtain m where m: "?x / 2 powi ?e = of_int m" by (rule nat_in_ulps[OF False assms])
  have u: "f64_ulp ?x = 2 powi ?e"
    using ilog2_nat_range(1)[OF False assms] False by (simp add: f64_ulp_def)
  have "of_int (round_half_even (?x / f64_ulp ?x)) * f64_ulp ?x = ?x"
    unfolding u m round_half_even_of_int by (simp add: m[symmetric])
  moreover have "?x < 2 ^ 1024"
  proof -
    have "?x \<le> 2 ^ 53" using assms by (metis of_nat_le_iff of_nat_numeral of_nat_power)
    also have "(2::rat) ^ 53 < 2 ^ 1024" by (rule power_strict_increasing) simp_all
    finally show ?thesis .
  qed
  ultimately show ?thesis using False by (simp add: f64_round_def Let_def)
qed (simp add: f64_round_def)

lemma f64_round_0 [simp]: "f64_round 0 = Fin 0"
  by (simp add: f64_round_def)

lemma as_secs_f64_whole:
  assumes "s \<le> 2 ^ 53"
  shows "as_secs_f64 (duration_from_secs s) = Fin (of_nat s)"
  using assms by (simp add: as_secs_f64_def duration_from_secs_def nanos_per_sec_def f64_round_nat)

lemma from_secs_f64_whole:
  assumes "s < 2 ^ 64"
  shows "from_secs_f64 (Fin (of_nat s)) = Some (duration_from_secs s)"
proof -
  have "of_nat s * of_nat nanos_per_sec = (of_int (int (s * nanos_per_sec)) :: rat)" by simp
  then have "round_half_even (of_nat s * of_nat nanos_per_sec) = int (s * nanos_per_sec)"
    by (metis round_half_even_of_int)
  moreover have "(of_nat s :: rat) < 2 ^ 64"
    using assms by (metis of_nat_less_iff of_nat_numeral of_nat_power)
  moreover have "s * nanos_per_sec < 2 ^ 64 * nanos_per_sec"
    using assms by (simp add: nanos_per_sec_def)
  moreover have "nat (int (s * nanos_per_sec)) = s * nanos_per_sec" by (rule nat_int)
  ultimately show ?thesis by (simp add: duration_from_secs_def Let_def not_le del: of_nat_mult)
qed

lemma from_secs_f64_bounded:
  assumes "0 \<le> x" and "x \<le> of_nat s" and "s < 2 ^ 64"
  shows "\<exists>d. from_secs_f64 (Fin x) = Some d \<and> d \<le> duration_from_secs s"
proof -
  let ?n = "nat (round_half_even (x * of_nat nanos_per_sec))"
  have "round_half_even (x * of_nat nanos_per_sec) \<le>
        round_half_even (of_nat s * of_nat nanos_per_sec)"
    using assms(2) by (intro round_half_even_mono mult_right_mono) auto
  also have "of_nat s * of_nat nanos_per_sec = (of_int (int (s * nanos_per_sec)) :: rat)" by simp
  finally have n: "?n \<le> s * nanos_per_sec"
    using round_half_even_of_int[where n = "int (s * nanos_per_sec)"] by linarith
  have "(of_nat s :: rat) < 2 ^ 64"
    using assms by (metis of_nat_less_iff of_nat_numeral of_nat_power)
  then have x: "\<not> (x < 0 \<or> 2 ^ 64 \<le> x)" using assms by auto
  have "s * nanos_per_sec < 2 ^ 64 * nanos_per_sec" using assms by (simp add: nanos_per_sec_def)
  then have "?n < 2 ^ 64 * nanos_per_sec" using n by linarith
  then show ?thesis using x n by (simp add: Let_def duration_from_secs_def)
qed

section \<open>Rounding is monotone\<close>

lemma ilog2_bounds_lt1:
  assumes "0 < x" and "x < 1"
  shows "2 powi ilog2 x \<le> x \<and> x < 2 powi (ilog2 x + 1)"
proof -
  let ?n = "nat (\<lceil>1 / x\<rceil> - 1)" let ?k = "floorlog 2 ?n"
  have "1 < 1 / x" using assms by simp
  then have c: "2 \<le> \<lceil>1 / x\<rceil>" by linarith
  then have n: "0 < ?n" by simp
  have "of_nat ?n = (of_int (\<lceil>1 / x\<rceil> - 1) :: rat)" by (rule of_nat_nat) (use c in linarith)
  then have x: "of_nat ?n < 1 / x" "1 / x \<le> of_nat ?n + 1" using ceiling_correct[of "1 / x"] by simp_all
  have b: "2 ^ (?k - 1) \<le> ?n \<and> ?n < 2 ^ ?k" using floorlog_bounds[of ?n 2] n by simp
  then have k: "0 < ?k" using n by (cases ?k) auto
  have lo: "(2::rat) ^ (?k - 1) \<le> of_nat ?n" using b by (metis of_nat_le_iff of_nat_numeral of_nat_power)
  have "?n + 1 \<le> 2 ^ ?k" using b by linarith
  then have "of_nat (?n + 1) \<le> (2::rat) ^ ?k" by (metis of_nat_le_iff of_nat_numeral of_nat_power)
  then have hi: "1 / x \<le> 2 ^ ?k" using x(2) by simp
  have e: "ilog2 x = - int ?k" using assms(2) by (simp add: ilog2_def)
  have "2 powi ilog2 x \<le> x" using hi assms(1) unfolding e by (simp add: power_int_minus field_simps)
  moreover have "2 powi (ilog2 x + 1) = inverse ((2::rat) ^ (?k - 1))"
  proof -
    have "ilog2 x + 1 = - int (?k - 1)" using k unfolding e by (simp add: of_nat_diff)
    then show ?thesis by (simp add: power_int_minus)
  qed
  moreover have "x < inverse (2 ^ (?k - 1))"
  proof -
    have "2 ^ (?k - 1) < 1 / x" using lo x(1) by (rule le_less_trans)
    then have "inverse (1 / x) < inverse (2 ^ (?k - 1))" by (rule less_imp_inverse_less) simp
    then show ?thesis by simp
  qed
  ultimately show ?thesis by simp
qed

lemma ilog2_bounds: "0 < x \<Longrightarrow> 2 powi ilog2 x \<le> x \<and> x < 2 powi (ilog2 x + 1)"
  using ilog2_bounds_ge1 ilog2_bounds_lt1 by (cases "1 \<le> x") auto

lemma ilog2_mono:
  assumes "0 < x" and "x \<le> y" shows "ilog2 x \<le> ilog2 y"
proof (rule ccontr)
  assume "\<not> ilog2 x \<le> ilog2 y"
  then have "(2::rat) powi (ilog2 y + 1) \<le> 2 powi ilog2 x" by (intro power_int_increasing) auto
  then show False using ilog2_bounds[of x] ilog2_bounds[of y] assms by linarith
qed

definition ulps :: "rat \<Rightarrow> rat" where
  "ulps x = of_int (round_half_even (x / f64_ulp x)) * f64_ulp x"

text \<open>A power of two on or above the grid of \<open>x\<close> bounds the rounding of \<open>x\<close> when it bounds \<open>x\<close>.\<close>

lemma power_on_grid:
  assumes "f64_ulp x = 2 powi e" and "e \<le> k"
  shows "of_int (round_half_even (2 powi k / f64_ulp x)) * f64_ulp x = 2 powi k"
proof -
  have "(2::rat) powi k / 2 powi e = 2 powi (k - e)" by (simp add: power_int_diff)
  also have "\<dots> = of_int (2 ^ nat (k - e))" using assms(2) by (simp add: power_int_def)
  finally have "(2::rat) powi k / 2 powi e = of_int (2 ^ nat (k - e))" .
  then have "of_int (round_half_even (2 powi k / 2 powi e)) = (2::rat) powi k / 2 powi e"
    using round_half_even_of_int by metis
  then show ?thesis unfolding assms(1) by simp
qed

lemma round_to_grid_mono: "0 < u \<Longrightarrow> a \<le> b \<Longrightarrow>
  of_int (round_half_even (a / u)) * u \<le> of_int (round_half_even (b / u)) * (u :: rat)"
  by (intro mult_right_mono) (auto intro!: round_half_even_mono divide_right_mono)

lemma ulps_mono:
  assumes "0 < x" and "x \<le> y" shows "ulps x \<le> ulps y"
proof (cases "f64_ulp x = f64_ulp y")
  case False
  let ?ex = "max (- 1074) (ilog2 x - 52)" and ?ey = "max (- 1074) (ilog2 y - 52)" and ?k = "ilog2 y"
  have ux: "f64_ulp x = 2 powi ?ex" and uy: "f64_ulp y = 2 powi ?ey" using assms by (simp_all add: f64_ulp_def)
  have ne: "?ex \<noteq> ?ey" using False ux uy by metis
  have lt: "ilog2 x < ?k" and ge: "?ey = ?k - 52" and ek: "?ex \<le> ?k"
    using ne ilog2_mono[OF assms] by (auto simp: max_def split: if_splits)
  have yk: "?ey \<le> ?k" using ge by linarith
  have pos: "0 < f64_ulp x" "0 < f64_ulp y" by (simp_all add: f64_ulp_def)
  have "(2::rat) powi (ilog2 x + 1) \<le> 2 powi ?k" using lt by (intro power_int_increasing) auto
  then have "x \<le> 2 powi ?k" using ilog2_bounds[OF assms(1)] by linarith
  then have "ulps x \<le> 2 powi ?k"
    using round_to_grid_mono[OF pos(1)] power_on_grid[OF ux ek] by (metis ulps_def)
  moreover have "2 powi ?k \<le> y" using ilog2_bounds[of y] assms by simp
  then have "2 powi ?k \<le> ulps y"
    using round_to_grid_mono[OF pos(2)] power_on_grid[OF uy yk] by (metis ulps_def)
  ultimately show ?thesis by linarith
next
  case True
  have "0 < f64_ulp y" by (simp add: f64_ulp_def)
  then show ?thesis using round_to_grid_mono[OF _ assms(2)] True by (simp add: ulps_def)
qed

lemma ulps_nonneg: assumes "0 < x" shows "0 \<le> ulps x"
proof -
  have "0 < f64_ulp x" by (simp add: f64_ulp_def)
  then show ?thesis
    using round_to_grid_mono[of "f64_ulp x" 0 x] round_half_even_of_int[of 0] assms by (simp add: ulps_def)
qed

text \<open>Rounding is monotone on the non-negative rationals.\<close>

lemma f64_round_mono:
  assumes "0 \<le> x" and "x \<le> y"
  shows "f64_le (f64_round x) (f64_round y)"
proof (cases "x = 0")
  case True
  then show ?thesis using ulps_nonneg[of y] assms
    by (cases "y = 0") (auto simp: f64_round_def f64_le_def Let_def simp flip: ulps_def)
next
  case False
  then have "ulps x \<le> ulps y" "0 \<le> ulps x" using ulps_mono ulps_nonneg assms by auto
  then show ?thesis using False assms
    by (auto simp: f64_round_def f64_le_def Let_def simp flip: ulps_def)
qed

lemma f64_round_bounded:
  assumes "0 \<le> x" and "x \<le> of_nat n" and "n \<le> 2 ^ 53"
  shows "\<exists>r. f64_round x = Fin r \<and> 0 \<le> r \<and> r \<le> of_nat n"
  using f64_round_mono[OF assms(1,2)] f64_round_mono[of 0 x] f64_round_nat[OF assms(3)] assms(1)
  by (cases "f64_round x") (auto simp: f64_le_def)

section \<open>Symmetry, doubling and evaluation\<close>

lemma round_half_even_uminus: "round_half_even (- x) = - round_half_even x"
proof (cases "x = of_int \<lfloor>x\<rfloor>")
  case True
  then show ?thesis by (metis of_int_minus round_half_even_of_int)
next
  case False
  have "\<lfloor>- x\<rfloor> = - \<lfloor>x\<rfloor> - 1" using False by linarith
  then show ?thesis by (auto simp: round_half_even_def Let_def)
qed

lemma f64_ulp_uminus: "f64_ulp (- x) = f64_ulp x" by (simp add: f64_ulp_def)

lemma f64_round_uminus: "f64_round (- x) = f64_neg (f64_round x)"
proof (cases "x = 0")
  case False
  then show ?thesis
    by (auto simp: f64_round_def f64_ulp_uminus round_half_even_uminus Let_def)
qed (simp add: f64_round_def)

lemma f64_le_neg: "f64_le (f64_neg a) (f64_neg b) \<longleftrightarrow> f64_le b a"
  by (cases a; cases b) (auto simp: f64_le_def)

lemma f64_round_mono_all:
  assumes "x \<le> y" shows "f64_le (f64_round x) (f64_round y)"
proof -
  consider "0 \<le> x" | "y \<le> 0" | "x \<le> 0" "0 \<le> y" by linarith
  then show ?thesis
  proof cases
    case 1
    then show ?thesis using assms by (rule f64_round_mono)
  next
    case 2
    then have "f64_le (f64_round (- y)) (f64_round (- x))" using assms by (intro f64_round_mono) auto
    then show ?thesis by (simp add: f64_round_uminus f64_le_neg)
  next
    case 3
    then have "f64_le (f64_round 0) (f64_round y)" "f64_le (f64_round 0) (f64_round (- x))"
      using f64_round_mono[of 0 y] f64_round_mono[of 0 "- x"] by simp_all
    then have "f64_le (Fin 0) (f64_round y)" "f64_le (f64_round x) (Fin 0)"
      using f64_le_neg[of "f64_round (- x)" "Fin 0"] f64_round_uminus[of "- x"] by simp_all
    then show ?thesis by (cases "f64_round x"; cases "f64_round y") (auto simp: f64_le_def)
  qed
qed

lemma ilog2_eqI:
  assumes "2 powi k \<le> x" and "x < 2 powi (k + 1)" shows "ilog2 x = k"
proof (rule ccontr)
  have "(0::rat) < 2 powi k" by simp
  then have x: "0 < x" using assms(1) by linarith
  assume "ilog2 x \<noteq> k"
  then consider "ilog2 x + 1 \<le> k" | "k + 1 \<le> ilog2 x" by linarith
  then show False
  proof cases
    case 1
    then have "(2::rat) powi (ilog2 x + 1) \<le> 2 powi k" by (intro power_int_increasing) auto
    then show False using ilog2_bounds[OF x] assms by linarith
  next
    case 2
    then have "(2::rat) powi (k + 1) \<le> 2 powi ilog2 x" by (intro power_int_increasing) auto
    then show False using ilog2_bounds[OF x] assms by linarith
  qed
qed

lemma powi_succ: "(2::rat) powi (k + 1) = 2 * 2 powi k"
  by (simp add: power_int_add)

lemma ilog2_double: assumes "0 < x" shows "ilog2 (2 * x) = ilog2 x + 1"
proof (rule ilog2_eqI)
  show "2 powi (ilog2 x + 1) \<le> 2 * x" using ilog2_bounds[OF assms] powi_succ by simp
  show "2 * x < 2 powi (ilog2 x + 1 + 1)" using ilog2_bounds[OF assms] powi_succ[of "ilog2 x + 1"] by simp
qed

text \<open>Doubling a double is exact.\<close>

lemma f64_round_double:
  assumes "0 < x" and "f64_round x = Fin x" and "2 * x < 2 ^ 1024"
  shows "f64_round (2 * x) = Fin (2 * x)"
proof -
  have u: "0 < f64_ulp x" "0 < f64_ulp (2 * x)" by (simp_all add: f64_ulp_def)
  let ?k = "round_half_even (x / f64_ulp x)"
  have "of_int ?k * f64_ulp x = x" using assms(1,2) by (auto simp: f64_round_def Let_def split: if_splits)
  then have k: "x = of_int ?k * f64_ulp x" by simp
  have "f64_ulp (2 * x) = (if - 1074 \<le> ilog2 x - 52 then 2 * f64_ulp x else f64_ulp x)"
  proof (cases "- 1074 \<le> ilog2 x - 52")
    case True
    then have "max (- 1074) (ilog2 (2 * x) - 52) = max (- 1074) (ilog2 x - 52) + 1"
      using assms(1) by (simp add: ilog2_double)
    then have "f64_ulp (2 * x) = 2 * f64_ulp x"
      using assms(1) unfolding f64_ulp_def by (simp only: abs_of_pos powi_succ mult_pos_pos zero_less_numeral)
    then show ?thesis using True by simp
  next
    case False
    then have "max (- 1074) (ilog2 (2 * x) - 52) = max (- 1074) (ilog2 x - 52)"
      using assms(1) by (simp add: ilog2_double)
    then show ?thesis using False assms(1) by (simp add: f64_ulp_def)
  qed
  then have "2 * x / f64_ulp (2 * x) = of_int (if - 1074 \<le> ilog2 x - 52 then ?k else 2 * ?k)"
    using k u(1) by (auto simp: field_simps)
  then have "of_int (round_half_even (2 * x / f64_ulp (2 * x))) * f64_ulp (2 * x) = 2 * x"
    using u(2) round_half_even_of_int by (metis nonzero_eq_divide_eq less_irrefl)
  moreover have "- (2 ^ 1024) < (0 :: rat)" "0 < 2 * x" using assms(1) by simp_all
  then have "\<not> 2 * x \<le> - (2 ^ 1024)" by linarith
  ultimately show ?thesis using assms(1,3) unfolding f64_round_def Let_def by (simp only: not_le if_False) simp
qed

lemma from_secs_f64_mono:
  assumes "0 \<le> x" and "x \<le> y" and "y \<le> of_nat s" and "s < 2 ^ 64"
  shows "\<exists>d e. from_secs_f64 (Fin x) = Some d \<and> from_secs_f64 (Fin y) = Some e \<and> d \<le> e"
proof -
  obtain d where d: "from_secs_f64 (Fin x) = Some d" using from_secs_f64_bounded[of x s] assms by auto
  obtain e where e: "from_secs_f64 (Fin y) = Some e" using from_secs_f64_bounded[of y s] assms by auto
  have "round_half_even (x * of_nat nanos_per_sec) \<le> round_half_even (y * of_nat nanos_per_sec)"
    using assms(2) by (intro round_half_even_mono mult_right_mono) auto
  then have "d \<le> e" using d e by (auto simp: Let_def split: if_splits)
  then show ?thesis using d e by blast
qed

text \<open>The rounding of a number whose binary exponent is known.\<close>

lemma f64_round_eval:
  assumes "2 powi k \<le> x" and "x < 2 powi (k + 1)" and "- 1022 \<le> k" and "k \<le> 52"
  shows "f64_round x = Fin (of_int (round_half_even (x * 2 ^ nat (52 - k))) / 2 ^ nat (52 - k))"
proof -
  have "(0::rat) < 2 powi k" by simp
  then have x: "0 < x" using assms(1) by linarith
  have "f64_ulp x = 2 powi (k - 52)" using ilog2_eqI[OF assms(1,2)] x assms(3) by (simp add: f64_ulp_def)
  also have "\<dots> = 1 / 2 powi (int (nat (52 - k)))"
    using assms(4) power_int_minus[of "2::rat" "52 - k"] by (simp add: divide_inverse)
  finally have u: "f64_ulp x = 1 / 2 ^ nat (52 - k)" by (simp only: power_int_of_nat)
  have big: "x < 2 ^ 53"
    using assms(2,4) power_int_increasing[of "k + 1" 53 "2::rat"] by simp
  then have "f64_le (f64_round x) (f64_round (of_nat (2 ^ 53)))" using x by (intro f64_round_mono_all) simp
  moreover have "f64_le (f64_round 0) (f64_round x)" using x by (intro f64_round_mono_all) simp
  ultimately obtain r where r: "f64_round x = Fin r"
    using f64_round_nat[of "2 ^ 53"] by (cases "f64_round x") (auto simp: f64_le_def)
  have "r = of_int (round_half_even (x / f64_ulp x)) * f64_ulp x"
    using r x by (auto simp: f64_round_def Let_def split: if_splits)
  then show ?thesis using r u by simp
qed

lemma round_half_even_near: "\<bar>x - of_int n\<bar> < 1 / 2 \<Longrightarrow> round_half_even x = n"
proof -
  assume a: "\<bar>x - of_int n\<bar> < 1 / 2"
  show ?thesis
  proof (cases "of_int n \<le> x")
    case True
    then have "\<lfloor>x\<rfloor> = n" "x - of_int n < 1 / 2" using a by (auto intro: floor_unique)
    then show ?thesis by (simp add: round_half_even_def Let_def)
  next
    case False
    then have "\<lfloor>x\<rfloor> = n - 1" "1 / 2 < x - of_int (n - 1)" using a by (auto intro: floor_unique)
    then show ?thesis by (simp add: round_half_even_def Let_def)
  qed
qed

lemma round_half_even_tie: "x = of_int n - 1 / 2 \<Longrightarrow> even n \<Longrightarrow> round_half_even x = n"
proof -
  assume a: "x = of_int n - 1 / 2" "even n"
  then have "\<lfloor>x\<rfloor> = n - 1" by (intro floor_unique) auto
  then show ?thesis using a by (auto simp: round_half_even_def Let_def)
qed

end
