(* ===== verification/Domain.thy ===== *)
theory Domain
  imports Float64
begin

text \<open>
  The domain types of the core crate (\<^verbatim>\<open>crates/hookbox/src/state.rs\<close>, \<^verbatim>\<open>types.rs\<close>, \<^verbatim>\<open>error.rs\<close>,
  \<^verbatim>\<open>hash.rs\<close>): receipts, deliveries, their state enums with the \<^verbatim>\<open>snake_case\<close> names serde derives for
  them, retry policies, filters and errors. Third-party functions the crates call (SHA-256, HMAC,
  hex, Base64, JSON parsing, header decoding, UUID printing, RSA) are the fields of the record
  \<open>externals\<close>: every definition that uses one takes that record as an argument.
\<close>

section \<open>Third-party functions\<close>

record externals =
  x_sha256 :: "bytes \<Rightarrow> bytes"
  x_hmac_sha256 :: "bytes \<Rightarrow> bytes \<Rightarrow> bytes option" \<comment> \<open>key, message; \<open>None\<close>: key refused\<close>
  x_hex_encode :: "bytes \<Rightarrow> string"
  x_hex_decode :: "string \<Rightarrow> bytes option"
  x_b64_encode :: "bytes \<Rightarrow> string"
  x_b64_decode :: "string \<Rightarrow> bytes option"
  x_header_to_str :: "bytes \<Rightarrow> string option"
  x_json_from_slice :: "bytes \<Rightarrow> json option"
  x_uuid_to_string :: "uuid \<Rightarrow> string"
  x_rsa_from_pem :: "string \<Rightarrow> bytes option" \<comment> \<open>the key, in some encoding\<close>
  x_rsa_signature :: "bytes \<Rightarrow> bytes option" \<comment> \<open>\<^verbatim>\<open>Signature::try_from\<close>\<close>
  x_rsa_verify :: "bytes \<Rightarrow> bytes \<Rightarrow> bytes \<Rightarrow> bool" \<comment> \<open>key, message, signature\<close>

section \<open>Identifiers\<close>

datatype receiptid = ReceiptId (rid_uuid: uuid)

datatype deliveryid = DeliveryId (did_uuid: uuid)

section \<open>State enums\<close>

datatype processing_state =
    PS_Received | PS_Verified | PS_VerificationFailed | PS_Duplicate | PS_Stored
  | PS_Emitted | PS_Processed | PS_EmitFailed | PS_DeadLettered | PS_Replayed

datatype verification_status = VS_Verified | VS_Failed | VS_Skipped

record verification_result =
  vr_status :: verification_status
  vr_reason :: "string option"

datatype dedupe_decision = DD_New | DD_Duplicate | DD_Conflict

datatype store_result = SR_Stored | SR_Duplicate receiptid

datatype ingest_result =
    IR_Accepted receiptid
  | IR_Duplicate receiptid
  | IR_VerificationFailed string

datatype delivery_state = DS_Pending | DS_InFlight | DS_Emitted | DS_Failed | DS_DeadLettered

text \<open>The \<^verbatim>\<open>#[serde(rename_all = "snake_case")]\<close> names, and \<^verbatim>\<open>Display for DeliveryState\<close>.\<close>

fun processing_state_name :: "processing_state \<Rightarrow> string" where
  "processing_state_name PS_Received = ''received''"
| "processing_state_name PS_Verified = ''verified''"
| "processing_state_name PS_VerificationFailed = ''verification_failed''"
| "processing_state_name PS_Duplicate = ''duplicate''"
| "processing_state_name PS_Stored = ''stored''"
| "processing_state_name PS_Emitted = ''emitted''"
| "processing_state_name PS_Processed = ''processed''"
| "processing_state_name PS_EmitFailed = ''emit_failed''"
| "processing_state_name PS_DeadLettered = ''dead_lettered''"
| "processing_state_name PS_Replayed = ''replayed''"

fun verification_status_name :: "verification_status \<Rightarrow> string" where
  "verification_status_name VS_Verified = ''verified''"
| "verification_status_name VS_Failed = ''failed''"
| "verification_status_name VS_Skipped = ''skipped''"

fun delivery_state_name :: "delivery_state \<Rightarrow> string" where
  "delivery_state_name DS_Pending = ''pending''"
| "delivery_state_name DS_InFlight = ''in_flight''"
| "delivery_state_name DS_Emitted = ''emitted''"
| "delivery_state_name DS_Failed = ''failed''"
| "delivery_state_name DS_DeadLettered = ''dead_lettered''"

definition all_processing_states :: "processing_state list" where
  "all_processing_states =
     [PS_Received, PS_Verified, PS_VerificationFailed, PS_Duplicate, PS_Stored,
      PS_Emitted, PS_Processed, PS_EmitFailed, PS_DeadLettered, PS_Replayed]"

definition all_verification_statuses :: "verification_status list" where
  "all_verification_statuses = [VS_Verified, VS_Failed, VS_Skipped]"

definition all_delivery_states :: "delivery_state list" where
  "all_delivery_states = [DS_Pending, DS_InFlight, DS_Emitted, DS_Failed, DS_DeadLettered]"

lemma set_all_processing_states: "set all_processing_states = UNIV"
  unfolding all_processing_states_def using processing_state.exhaust by auto

lemma set_all_verification_statuses: "set all_verification_statuses = UNIV"
  unfolding all_verification_statuses_def using verification_status.exhaust by auto

lemma set_all_delivery_states: "set all_delivery_states = UNIV"
  unfolding all_delivery_states_def using delivery_state.exhaust by auto

lemma processing_state_name_eq [simp]:
  "processing_state_name s = processing_state_name t \<longleftrightarrow> s = t"
  by (cases s; cases t) simp_all

lemma verification_status_name_eq [simp]:
  "verification_status_name s = verification_status_name t \<longleftrightarrow> s = t"
  by (cases s; cases t) simp_all

lemma delivery_state_name_eq [simp]:
  "delivery_state_name s = delivery_state_name t \<longleftrightarrow> s = t"
  by (cases s; cases t) simp_all

section \<open>Receipts, events, deliveries\<close>

record webhook_receipt =
  receipt_id :: receiptid
  provider_name :: string
  provider_event_id :: "string option"
  external_reference :: "string option"
  dedupe_key :: string
  payload_hash :: string
  raw_body :: bytes
  parsed_payload :: "json option"
  raw_headers :: json
  normalized_event_type :: "string option"
  verification_status :: verification_status
  verification_reason :: "string option"
  processing_state :: processing_state
  emit_count :: int
  last_error :: "string option"
  received_at :: timestamp
  processed_at :: "timestamp option"
  metadata :: json

record normalized_event =
  ne_receipt_id :: receiptid
  ne_provider_name :: string
  ne_event_type :: "string option"
  ne_external_reference :: "string option"
  ne_parsed_payload :: "json option"
  ne_payload_hash :: string
  ne_received_at :: timestamp
  ne_metadata :: json

definition from_receipt :: "webhook_receipt \<Rightarrow> normalized_event" where
  "from_receipt r =
     \<lparr>ne_receipt_id = receipt_id r,
      ne_provider_name = provider_name r,
      ne_event_type = normalized_event_type r,
      ne_external_reference = external_reference r,
      ne_parsed_payload = parsed_payload r,
      ne_payload_hash = payload_hash r,
      ne_received_at = received_at r,
      ne_metadata = metadata r\<rparr>"

record receipt_filter =
  rf_provider_name :: "string option"
  rf_processing_state :: "processing_state option"
  rf_external_reference :: "string option"
  rf_provider_event_id :: "string option"
  rf_limit :: "int option"
  rf_offset :: "int option"

definition receipt_filter_default :: receipt_filter where
  "receipt_filter_default =
     \<lparr>rf_provider_name = None, rf_processing_state = None, rf_external_reference = None,
      rf_provider_event_id = None, rf_limit = None, rf_offset = None\<rparr>"

record webhook_delivery =
  wd_delivery_id :: deliveryid
  wd_receipt_id :: receiptid
  wd_emitter_name :: string
  wd_state :: delivery_state
  wd_attempt_count :: int
  wd_last_error :: "string option"
  wd_last_attempt_at :: "timestamp option"
  wd_next_attempt_at :: timestamp
  wd_emitted_at :: "timestamp option"
  wd_immutable :: bool
  wd_created_at :: timestamp

record retry_policy =
  max_attempts :: int
  initial_backoff :: duration
  max_backoff :: duration
  backoff_multiplier :: f64
  jitter :: f64

definition retry_policy_default :: retry_policy where
  "retry_policy_default =
     \<lparr>max_attempts = 5,
      initial_backoff = duration_from_secs 30,
      max_backoff = duration_from_secs 3600,
      backoff_multiplier = f64_round 2,
      jitter = f64_round (1 / 5)\<rparr>"

section \<open>Errors\<close>

text \<open>The payload of an error variant is the message of the underlying library.\<close>

datatype storage_error = SE_Internal string | SE_Serialization string | SE_FanOutNotImplemented

datatype dedupe_error = DE_Internal string

datatype emit_error = EE_Downstream string | EE_Timeout string

datatype verification_error = VE_Internal string

datatype ingest_error =
    IE_Storage storage_error
  | IE_Dedupe dedupe_error
  | IE_Emit emit_error
  | IE_Verification verification_error

text \<open>The \<^verbatim>\<open>#[error("...")]\<close> messages of thiserror.\<close>

fun storage_error_to_string :: "storage_error \<Rightarrow> string" where
  "storage_error_to_string (SE_Internal e) = ''storage error: '' @ e"
| "storage_error_to_string (SE_Serialization e) = ''serialization error: '' @ e"
| "storage_error_to_string SE_FanOutNotImplemented =
     ''fan-out not implemented by this Storage backend; override store_with_deliveries to transactionally insert delivery rows''"

fun emit_error_to_string :: "emit_error \<Rightarrow> string" where
  "emit_error_to_string (EE_Downstream e) = ''emit error: '' @ e"
| "emit_error_to_string (EE_Timeout e) = ''emit timeout: '' @ e"

section \<open>Payload hash\<close>

definition compute_payload_hash :: "externals \<Rightarrow> bytes \<Rightarrow> string" where
  "compute_payload_hash x body = x_hex_encode x (x_sha256 x body)"

end
