(* ===== verification/Transitions.thy ===== *)
theory Transitions
  imports Domain
begin

text \<open>
  The pure decision functions of \<^verbatim>\<open>crates/hookbox/src/transitions.rs\<close>: metrics labels, the
  receipt-level retry rule, exponential backoff with jitter, and the derivation of a receipt's
  visible state from its delivery rows. Shown: the backoff never exceeds its cap nor panics in a
  release build, whatever the multiplier, jitter, power function and random sample; the latest row
  per emitter is the first of the newest rows; the aggregate state follows the documented
  precedence.
\<close>

section \<open>Labels\<close>

definition LABEL_ACCEPTED :: string where "LABEL_ACCEPTED = ''accepted''"
definition LABEL_DUPLICATE :: string where "LABEL_DUPLICATE = ''duplicate''"
definition LABEL_VERIFICATION_FAILED :: string where
  "LABEL_VERIFICATION_FAILED = ''verification_failed''"
definition LABEL_STORE_FAILED :: string where "LABEL_STORE_FAILED = ''store_failed''"
definition LABEL_DEDUPE_FAILED :: string where "LABEL_DEDUPE_FAILED = ''dedupe_failed''"

definition INGEST_RESULT_LABELS :: "string list" where
  "INGEST_RESULT_LABELS =
     [LABEL_ACCEPTED, LABEL_DUPLICATE, LABEL_VERIFICATION_FAILED, LABEL_STORE_FAILED,
      LABEL_DEDUPE_FAILED]"

fun verification_status_label :: "verification_status \<Rightarrow> string" where
  "verification_status_label VS_Verified = ''verified''"
| "verification_status_label VS_Failed = ''failed''"
| "verification_status_label VS_Skipped = ''skipped''"

fun dedupe_decision_label :: "dedupe_decision \<Rightarrow> string" where
  "dedupe_decision_label DD_New = ''new''"
| "dedupe_decision_label DD_Duplicate = ''duplicate''"
| "dedupe_decision_label DD_Conflict = ''conflict''"

section \<open>Receipt-level retry rule\<close>

definition retry_next_state :: "int \<Rightarrow> int \<Rightarrow> int \<times> processing_state" where
  "retry_next_state emit_cnt max_att =
     (let new_count = i32_saturating_add emit_cnt 1 in
      (new_count, if new_count \<ge> max_att then PS_DeadLettered else PS_EmitFailed))"

definition reset_state :: "int \<times> processing_state" where
  "reset_state = (0, PS_EmitFailed)"

definition is_findable_by_worker :: "int \<Rightarrow> processing_state \<Rightarrow> int \<Rightarrow> bool" where
  "is_findable_by_worker emit_cnt st max_att \<longleftrightarrow> st = PS_EmitFailed \<and> emit_cnt < max_att"

section \<open>Backoff\<close>

text \<open>
  \<open>debug\<close> says whether debug assertions are compiled in; \<open>None\<close> is a panic. \<open>powi_fn\<close> is
  \<^verbatim>\<open>f64::powi\<close>, whose precision Rust leaves unspecified, and \<open>sample\<close> the value \<^verbatim>\<open>fastrand::f64()\<close>
  returned.
\<close>

definition compute_backoff ::
  "bool \<Rightarrow> (f64 \<Rightarrow> int \<Rightarrow> f64) \<Rightarrow> f64 \<Rightarrow> int \<Rightarrow> retry_policy \<Rightarrow> duration option" where
  "compute_backoff debug powi_fn sample attempt p =
     (if debug \<and> \<not> (attempt > 0
          \<and> f64_le (Fin 0) (jitter p) \<and> f64_le (jitter p) (Fin 1)
          \<and> f64_is_finite (backoff_multiplier p) \<and> f64_lt (Fin 0) (backoff_multiplier p))
      then None
      else if attempt \<le> 0 then Some (initial_backoff p)
      else if \<not> f64_is_finite (backoff_multiplier p) \<or> f64_le (backoff_multiplier p) (Fin 0)
      then Some (min (initial_backoff p) (max_backoff p))
      else
       (let exponent = attempt - 1;
            max_secs = as_secs_f64 (max_backoff p);
            base_secs = f64_mul (as_secs_f64 (initial_backoff p))
                                (powi_fn (backoff_multiplier p) exponent);
            base_secs = f64_min base_secs max_secs;
            jitter_factor =
              (if f64_lt (Fin 0) (jitter p)
               then f64_add (Fin 1)
                      (f64_mul_add sample (f64_mul (Fin 2) (jitter p)) (f64_neg (jitter p)))
               else Fin 1);
            jitter_factor = f64_max jitter_factor (Fin 0);
            jittered = f64_min (f64_mul base_secs jitter_factor) max_secs;
            jittered = (if f64_is_finite jittered then f64_clamp jittered (Fin 0) max_secs
                        else max_secs)
        in from_secs_f64 jittered))"

section \<open>Aggregation over delivery rows\<close>

definition aggregate_from_states ::
  "delivery_state list \<Rightarrow> processing_state \<Rightarrow> processing_state" where
  "aggregate_from_states states fallback =
     (if states = [] then fallback
      else if DS_DeadLettered \<in> set states then PS_DeadLettered
      else if DS_Failed \<in> set states then PS_EmitFailed
      else if list_all (\<lambda>s. s = DS_Emitted) states then PS_Emitted
      else PS_Stored)"

text \<open>The loop body: skip immutable rows, otherwise keep the newer of the two states.\<close>

definition latest_step ::
  "webhook_delivery \<Rightarrow> (string \<times> timestamp \<times> delivery_state) list
     \<Rightarrow> (string \<times> timestamp \<times> delivery_state) list" where
  "latest_step d m =
     (if wd_immutable d then m
      else bt_upsert (wd_emitter_name d)
             (\<lambda>(ts, st). if wd_created_at d > ts then (wd_created_at d, wd_state d) else (ts, st))
             (wd_created_at d, wd_state d) m)"

definition latest_mutable_per_emitter ::
  "webhook_delivery list \<Rightarrow> (string \<times> delivery_state) list" where
  "latest_mutable_per_emitter deliveries =
     map (\<lambda>(k, _, s). (k, s)) (fold latest_step deliveries [])"

definition receipt_aggregate_state ::
  "webhook_delivery list \<Rightarrow> processing_state \<Rightarrow> processing_state" where
  "receipt_aggregate_state deliveries fallback =
     aggregate_from_states (map snd (latest_mutable_per_emitter deliveries)) fallback"

definition receipt_deliveries_summary ::
  "webhook_delivery list \<Rightarrow> (string \<times> delivery_state) list" where
  "receipt_deliveries_summary deliveries = latest_mutable_per_emitter deliveries"

section \<open>Backoff is capped\<close>

lemma f64_clamp_bounds:
  assumes "0 \<le> (hi :: rat)"
  shows "\<exists>x. f64_clamp (Fin a) (Fin 0) (Fin hi) = Fin x \<and> 0 \<le> x \<and> x \<le> hi"
  using assms by (auto simp: f64_clamp_def)

lemma compute_backoff_bounded:
  assumes "0 < attempt" and cap: "max_backoff p = duration_from_secs s" "s \<le> 2 ^ 53"
  shows "\<exists>d. compute_backoff False powi_fn sample attempt p = Some d \<and> d \<le> max_backoff p"
proof (cases "\<not> f64_is_finite (backoff_multiplier p) \<or> f64_le (backoff_multiplier p) (Fin 0)")
  case True
  then show ?thesis using assms by (simp add: compute_backoff_def)
next
  case False
  have ms: "as_secs_f64 (max_backoff p) = Fin (of_nat s)"
    unfolding cap(1) by (rule as_secs_f64_whole) (rule cap(2))
  have s64: "s < 2 ^ 64" using cap(2) by (rule le_less_trans) simp
  have fits: "\<exists>d. from_secs_f64 (if f64_is_finite j then f64_clamp j (Fin 0) (Fin (of_nat s))
                     else Fin (of_nat s)) = Some d \<and> d \<le> max_backoff p" for j
  proof (cases j)
    case (Fin a)
    then show ?thesis
      using f64_clamp_bounds[of "of_nat s" a] from_secs_f64_bounded[OF _ _ s64] cap(1) by force
  qed (use from_secs_f64_whole[OF s64] cap(1) in auto)
  show ?thesis using assms(1) False unfolding compute_backoff_def Let_def ms
    by (simp add: fits del: from_secs_f64.simps)
qed

text \<open>C38. In a release build, from the first failure on and with a cap of at most \<open>2^53\<close> whole
  seconds, \<^verbatim>\<open>compute_backoff\<close> never panics and never exceeds \<^verbatim>\<open>max_backoff\<close>, for every multiplier
  and jitter (NaN and infinities included), every power function and every random sample.\<close>

theorem compute_backoff_capped:
  assumes "0 < attempt" and "max_backoff p = duration_from_secs s" and "s \<le> 2 ^ 53"
  shows "\<exists>d. compute_backoff False powi_fn sample attempt p = Some d \<and> d \<le> max_backoff p"
  using assms by (rule compute_backoff_bounded)

definition policy_nan :: retry_policy where
  "policy_nan = retry_policy_default\<lparr>jitter := NaN\<rparr>"

theorem compute_backoff_capped_witness:
  "\<exists>d. compute_backoff False (\<lambda>_ _. PInf) NaN 7 policy_nan = Some d \<and> d \<le> duration_from_secs 3600"
  using compute_backoff_capped[of 7 policy_nan 3600 "\<lambda>_ _. PInf" NaN]
  by (simp add: policy_nan_def retry_policy_default_def)

text \<open>Without jitter, the first failure waits for exactly \<^verbatim>\<open>initial_backoff\<close>, cut to
  \<^verbatim>\<open>max_backoff\<close>, for whole-second settings; \<^verbatim>\<open>powi(m, 0)\<close> is 1.\<close>

lemma compute_backoff_first:
  assumes "backoff_multiplier p = Fin m" "0 < m" "jitter p = Fin 0" "powi_fn (Fin m) 0 = Fin 1"
    and "initial_backoff p = duration_from_secs i" "i \<le> 2 ^ 53"
    and "max_backoff p = duration_from_secs s" "s \<le> 2 ^ 53"
  shows "compute_backoff debug powi_fn sample 1 p = Some (min (initial_backoff p) (max_backoff p))"
proof -
  have i: "as_secs_f64 (initial_backoff p) = Fin (of_nat i)" and
       s: "as_secs_f64 (max_backoff p) = Fin (of_nat s)"
    using assms by (simp_all add: as_secs_f64_whole)
  let ?n = "min i s"
  have "?n < 2 ^ 64" using assms(6) by (simp add: min_def)
  note whole = from_secs_f64_whole[OF this]
  have one: "f64_mul (Fin (of_nat n)) (Fin 1) = Fin (of_nat n)" if "n \<le> 2 ^ 53" for n
    using f64_round_nat[OF that] by simp
  have n53: "?n \<le> 2 ^ 53" using assms(6) by simp
  have mins: "f64_min (Fin (of_nat i)) (Fin (of_nat s)) = Fin (of_nat ?n)"
    "f64_min (Fin (of_nat ?n)) (Fin (of_nat s)) = Fin (of_nat ?n)"
    "f64_clamp (Fin (of_nat ?n)) (Fin 0) (Fin (of_nat s)) = Fin (of_nat ?n)"
    by (simp_all add: f64_min_def f64_clamp_def min_def)
  have d: "duration_from_secs ?n = min (initial_backoff p) (max_backoff p)"
    unfolding assms by (simp add: duration_from_secs_def nanos_per_sec_def min_def)
  have guards: "f64_le (Fin 0) (jitter p)" "f64_le (jitter p) (Fin 1)" "\<not> f64_lt (Fin 0) (jitter p)"
    "f64_is_finite (backoff_multiplier p)" "f64_lt (Fin 0) (backoff_multiplier p)"
    "\<not> f64_le (backoff_multiplier p) (Fin 0)" "f64_max (Fin 1) (Fin 0) = Fin 1"
    "powi_fn (backoff_multiplier p) (1 - 1) = Fin 1"
    using assms(1-4) by (simp_all add: f64_le_def f64_max_def)
  show ?thesis
    unfolding compute_backoff_def Let_def i s
    using guards one[OF assms(6)] one[OF n53] mins whole d
    by (simp del: from_secs_f64.simps f64_mul.simps)
qed

definition policy_no_jitter :: retry_policy where
  "policy_no_jitter = retry_policy_default\<lparr>jitter := Fin 0, backoff_multiplier := Fin 2\<rparr>"

section \<open>The latest row per emitter\<close>

definition emitter_rows :: "string \<Rightarrow> webhook_delivery list \<Rightarrow> webhook_delivery list" where
  "emitter_rows e ds = filter (\<lambda>d. \<not> wd_immutable d \<and> wd_emitter_name d = e) ds"

fun newer :: "webhook_delivery \<Rightarrow> webhook_delivery option \<Rightarrow> webhook_delivery option" where
  "newer d None = Some d"
| "newer d (Some c) = (if wd_created_at d > wd_created_at c then Some d else Some c)"

definition first_newest :: "webhook_delivery list \<Rightarrow> webhook_delivery option" where
  "first_newest rows = fold newer rows None"

lemma first_newest_snoc [simp]: "first_newest (rows @ [d]) = newer d (first_newest rows)"
  by (simp add: first_newest_def)

lemma first_newest_Nil [simp]: "first_newest [] = None"
  by (simp add: first_newest_def)

lemma first_newest_single [simp]: "first_newest [x] = Some x"
  by (simp add: first_newest_def)

lemma emitter_rows_snoc:
  "emitter_rows e (ds @ [d]) =
     emitter_rows e ds @ (if \<not> wd_immutable d \<and> wd_emitter_name d = e then [d] else [])"
  by (simp add: emitter_rows_def)

lemma map_of_latest_step:
  "bt_sorted m \<Longrightarrow> map_of (latest_step d m) e =
     (if wd_immutable d \<or> wd_emitter_name d \<noteq> e then map_of m e
      else Some (case map_of m e of None \<Rightarrow> (wd_created_at d, wd_state d)
        | Some (ts, st) \<Rightarrow>
            if wd_created_at d > ts then (wd_created_at d, wd_state d) else (ts, st)))"
  by (auto simp: latest_step_def map_of_bt_upsert split: option.split)

text \<open>The first of the newest rows, by its position.\<close>

definition newest_at :: "webhook_delivery list \<Rightarrow> webhook_delivery \<Rightarrow> bool" where
  "newest_at rows d \<longleftrightarrow>
     (\<exists>pre post. rows = pre @ d # post
        \<and> (\<forall>x \<in> set pre. wd_created_at x < wd_created_at d)
        \<and> (\<forall>x \<in> set post. wd_created_at x \<le> wd_created_at d))"

lemma newest_at_last:
  "\<forall>y \<in> set rows. wd_created_at y < wd_created_at x \<Longrightarrow> newest_at (rows @ [x]) x"
  unfolding newest_at_def by (intro exI[of _ rows] exI[of _ "[]"]) simp

lemma newest_at_keep:
  assumes "newest_at rows d" and "wd_created_at x \<le> wd_created_at d"
  shows "newest_at (rows @ [x]) d"
proof -
  obtain pre post where "rows = pre @ d # post" "\<forall>x \<in> set pre. wd_created_at x < wd_created_at d"
    "\<forall>x \<in> set post. wd_created_at x \<le> wd_created_at d"
    using assms(1) by (auto simp: newest_at_def)
  then show ?thesis
    using assms(2) unfolding newest_at_def by (intro exI[of _ pre] exI[of _ "post @ [x]"]) auto
qed

lemma newest_at_bound: "newest_at rows d \<Longrightarrow> y \<in> set rows \<Longrightarrow> wd_created_at y \<le> wd_created_at d"
  by (fastforce simp: newest_at_def)

lemma newest_at_snocE:
  assumes "newest_at (rows @ [x]) d"
  obtains (Last) "x = d" "\<forall>y \<in> set rows. wd_created_at y < wd_created_at d"
  | (Keep) "newest_at rows d" "wd_created_at x \<le> wd_created_at d"
proof -
  obtain pre post where d: "rows @ [x] = pre @ d # post"
    "\<forall>y \<in> set pre. wd_created_at y < wd_created_at d"
    "\<forall>y \<in> set post. wd_created_at y \<le> wd_created_at d"
    using assms by (auto simp: newest_at_def)
  show ?thesis
  proof (cases post rule: rev_cases)
    case Nil
    then show ?thesis using Last d by simp
  next
    case (snoc ys y)
    then have "rows = pre @ d # ys" "x = y" using d(1) by simp_all
    then show ?thesis using Keep d(2,3) snoc unfolding newest_at_def by auto
  qed
qed

lemma first_newest_None: "first_newest rows = None \<longleftrightarrow> rows = []"
proof (cases rows rule: rev_cases)
  case (snoc ys y)
  then show ?thesis by (cases "first_newest ys") simp_all
qed simp

lemma first_newest_iff: "first_newest rows = Some d \<longleftrightarrow> newest_at rows d"
proof (induction rows arbitrary: d rule: rev_induct)
  case Nil
  then show ?case by (simp add: newest_at_def)
next
  case (snoc x rows)
  show ?case
  proof
    assume L: "first_newest (rows @ [x]) = Some d"
    show "newest_at (rows @ [x]) d"
    proof (cases "first_newest rows")
      case None
      then show ?thesis using L newest_at_last[of rows x] by (simp add: first_newest_None)
    next
      case (Some c)
      then have c: "newest_at rows c" using snoc.IH by simp
      have "\<forall>y \<in> set rows. wd_created_at y < wd_created_at x" if "wd_created_at c < wd_created_at x"
        using newest_at_bound[OF c] that by (meson order_le_less_trans)
      then show ?thesis
        using L Some newest_at_keep[OF c] newest_at_last[of rows x] by (auto split: if_splits)
    qed
  next
    assume "newest_at (rows @ [x]) d"
    then show "first_newest (rows @ [x]) = Some d"
    proof (cases rule: newest_at_snocE)
      case Last
      have "wd_created_at c < wd_created_at d" if "first_newest rows = Some c" for c
        using snoc.IH[of c] that Last(2) by (auto simp: newest_at_def)
      then show ?thesis using Last(1) by (cases "first_newest rows") auto
    next
      case Keep
      then show ?thesis using snoc.IH[of d] by simp
    qed
  qed
qed

lemma latest_fold:
  "bt_sorted (fold latest_step ds []) \<and>
   map_of (fold latest_step ds []) e =
     map_option (\<lambda>d. (wd_created_at d, wd_state d)) (first_newest (emitter_rows e ds))"
proof (induction ds arbitrary: e rule: rev_induct)
  case (snoc d ds)
  let ?m = "fold latest_step ds []"
  have sorted: "bt_sorted ?m" using snoc.IH by blast
  then have "bt_sorted (latest_step d ?m)" by (auto simp: latest_step_def)
  moreover have "map_of (latest_step d ?m) e =
    map_option (\<lambda>d. (wd_created_at d, wd_state d)) (first_newest (emitter_rows e (ds @ [d])))"
    using conjunct2[OF snoc.IH[of e]]
    by (cases "first_newest (emitter_rows e ds)")
      (simp_all add: map_of_latest_step[OF sorted] emitter_rows_snoc)
  ultimately show ?case by simp
qed (simp add: emitter_rows_def)

lemma map_of_latest:
  "map_of (latest_mutable_per_emitter ds) e = map_option wd_state (first_newest (emitter_rows e ds))"
proof -
  have "map_of (map (\<lambda>(k, _, s). (k, s)) m) e = map_option snd (map_of m e)"
    for m :: "(string \<times> timestamp \<times> delivery_state) list"
    by (induction m) auto
  then show ?thesis
    using latest_fold[of ds e] by (simp add: latest_mutable_per_emitter_def option.map_comp comp_def)
qed

lemma latest_keys: "map fst (latest_mutable_per_emitter ds) = map fst (fold latest_step ds [])"
  by (simp add: latest_mutable_per_emitter_def case_prod_beta comp_def)

lemma latest_sorted: "bt_sorted (latest_mutable_per_emitter ds)"
  using latest_fold[of ds] by (simp add: latest_keys)

lemma latest_states: "set (map snd (latest_mutable_per_emitter ds)) =
   {s. \<exists>e. map_of (latest_mutable_per_emitter ds) e = Some s}"
  using bt_sorted_values[OF latest_sorted, of ds] by (simp add: ran_def)

text \<open>The summary holds one entry per emitter with a mutable row, in name order, and the entry
  is the state of the newest mutable row of that emitter (the first one among equal timestamps).\<close>

lemma deliveries_summary_latest:
  "sorted_wrt (<) (map fst (receipt_deliveries_summary ds)) \<and>
   (map_of (receipt_deliveries_summary ds) e = Some s \<longleftrightarrow>
     (\<exists>d pre post. emitter_rows e ds = pre @ d # post \<and> wd_state d = s
        \<and> (\<forall>x \<in> set pre. wd_created_at x < wd_created_at d)
        \<and> (\<forall>x \<in> set post. wd_created_at x \<le> wd_created_at d)))"
proof -
  have "map_of (receipt_deliveries_summary ds) e = Some s \<longleftrightarrow>
        (\<exists>d. first_newest (emitter_rows e ds) = Some d \<and> wd_state d = s)"
    by (auto simp: receipt_deliveries_summary_def map_of_latest)
  then show ?thesis
    using latest_sorted[of ds] by (simp add: first_newest_iff newest_at_def receipt_deliveries_summary_def) blast
qed

definition sample_delivery :: "string \<Rightarrow> delivery_state \<Rightarrow> timestamp \<Rightarrow> webhook_delivery" where
  "sample_delivery name st t =
     \<lparr>wd_delivery_id = DeliveryId 0, wd_receipt_id = ReceiptId 0, wd_emitter_name = name,
      wd_state = st, wd_attempt_count = 0, wd_last_error = None, wd_last_attempt_at = None,
      wd_next_attempt_at = t, wd_emitted_at = None, wd_immutable = False, wd_created_at = t\<rparr>"

definition replayed_deliveries :: "webhook_delivery list" where
  "replayed_deliveries =
     [sample_delivery ''kafka'' DS_DeadLettered 1, sample_delivery ''sqs'' DS_Emitted 1,
      sample_delivery ''kafka'' DS_Emitted 2]"

lemma filter_splitD:
  "filter P xs = pre @ x # post \<Longrightarrow>
   \<exists>us vs. xs = us @ x # vs \<and> P x \<and> filter P us = pre \<and> filter P vs = post"
proof (induction xs arbitrary: pre)
  case (Cons a xs)
  show ?case
  proof (cases "P a \<and> pre = []")
    case True
    then show ?thesis using Cons.prems by (intro exI[of _ "[]"] exI[of _ xs]) simp
  next
    case False
    then obtain pre' where pre': "filter P xs = pre' @ x # post" "pre = (if P a then a # pre' else pre')"
      using Cons.prems by (cases pre) (auto split: if_splits)
    from Cons.IH[OF pre'(1)] obtain us vs where "xs = us @ x # vs" "P x" "filter P us = pre'" "filter P vs = post" by blast
    then show ?thesis using pre'(2) by (intro exI[of _ "a # us"] exI[of _ vs]) simp
  qed
qed simp

lemma filter_split:
  "(\<exists>pre post. filter P xs = pre @ x # post \<and> list_all A pre \<and> list_all B post) \<longleftrightarrow>
   (\<exists>pre post. xs = pre @ x # post \<and> P x \<and> list_all (\<lambda>y. P y \<longrightarrow> A y) pre \<and> list_all (\<lambda>y. P y \<longrightarrow> B y) post)"
proof
  assume "\<exists>pre post. filter P xs = pre @ x # post \<and> list_all A pre \<and> list_all B post"
  then obtain pre post where f: "filter P xs = pre @ x # post" "list_all A pre" "list_all B post" by blast
  from filter_splitD[OF f(1)] obtain us vs where "xs = us @ x # vs" "P x" "filter P us = pre" "filter P vs = post" by blast
  then show "\<exists>pre post. xs = pre @ x # post \<and> P x \<and> list_all (\<lambda>y. P y \<longrightarrow> A y) pre \<and> list_all (\<lambda>y. P y \<longrightarrow> B y) post"
    using f(2,3) by (intro exI[of _ us] exI[of _ vs]) (auto simp: list_all_iff)
next
  assume "\<exists>pre post. xs = pre @ x # post \<and> P x \<and> list_all (\<lambda>y. P y \<longrightarrow> A y) pre \<and> list_all (\<lambda>y. P y \<longrightarrow> B y) post"
  then obtain pre post where "xs = pre @ x # post" "P x" "list_all (\<lambda>y. P y \<longrightarrow> A y) pre"
    "list_all (\<lambda>y. P y \<longrightarrow> B y) post" by blast
  then show "\<exists>pre post. filter P xs = pre @ x # post \<and> list_all A pre \<and> list_all B post"
    by (intro exI[of _ "filter P pre"] exI[of _ "filter P post"]) (auto simp: list_all_iff)
qed

text \<open>The current delivery of its emitter: mutable, newer than the mutable ones of that emitter before it in
  the list, and at least as new as those after it.\<close>

definition is_current :: "webhook_delivery list \<Rightarrow> webhook_delivery \<Rightarrow> bool" where
  "is_current ds d \<longleftrightarrow>
     \<not> wd_immutable d \<and>
     (\<exists>pre post. ds = pre @ d # post
        \<and> (\<forall>x \<in> set pre. \<not> wd_immutable x \<and> wd_emitter_name x = wd_emitter_name d \<longrightarrow> wd_created_at x < wd_created_at d)
        \<and> (\<forall>x \<in> set post. \<not> wd_immutable x \<and> wd_emitter_name x = wd_emitter_name d \<longrightarrow> wd_created_at x \<le> wd_created_at d))"

lemma first_newest_is_current:
  "first_newest (emitter_rows e ds) = Some d \<longleftrightarrow> is_current ds d \<and> wd_emitter_name d = e"
proof -
  have "first_newest (emitter_rows e ds) = Some d \<longleftrightarrow>
    (\<exists>pre post. emitter_rows e ds = pre @ d # post \<and> list_all (\<lambda>x. wd_created_at x < wd_created_at d) pre
       \<and> list_all (\<lambda>x. wd_created_at x \<le> wd_created_at d) post)"
    by (simp add: first_newest_iff newest_at_def list_all_iff)
  then show ?thesis
    unfolding emitter_rows_def filter_split by (auto simp: is_current_def list_all_iff)
qed

lemma latest_states_are_current:
  "set (map snd (latest_mutable_per_emitter ds)) = {wd_state d | d. is_current ds d}"
  unfolding latest_states by (auto simp: map_of_latest first_newest_is_current)

lemma some_delivery_is_current: "(\<exists>d. is_current ds d) \<longleftrightarrow> (\<exists>d \<in> set ds. \<not> wd_immutable d)"
proof
  assume "\<exists>d \<in> set ds. \<not> wd_immutable d"
  then obtain d where "d \<in> set (emitter_rows (wd_emitter_name d) ds)" by (auto simp: emitter_rows_def)
  then have "emitter_rows (wd_emitter_name d) ds \<noteq> []" by force
  then have "first_newest (emitter_rows (wd_emitter_name d) ds) \<noteq> None" by (simp add: first_newest_None)
  then show "\<exists>d. is_current ds d" using first_newest_is_current by blast
qed (auto simp: is_current_def)

text \<open>C37. The visible state of a receipt is decided by the current delivery of each emitter, which is the
  newest one that is not history: dead-lettered if any is, else failed if any is, else emitted if all
  are, else stored; if all its deliveries are history, it is the stored state. Older deliveries, which
  a replay has superseded, have no say.\<close>

theorem aggregate_precedence:
  "receipt_aggregate_state ds fallback =
     (if \<forall>d \<in> set ds. wd_immutable d then fallback
      else if \<exists>d. is_current ds d \<and> wd_state d = DS_DeadLettered then PS_DeadLettered
      else if \<exists>d. is_current ds d \<and> wd_state d = DS_Failed then PS_EmitFailed
      else if \<forall>d. is_current ds d \<longrightarrow> wd_state d = DS_Emitted then PS_Emitted
      else PS_Stored)"
proof -
  let ?S = "set (map snd (latest_mutable_per_emitter ds))"
  have S: "?S = {wd_state d | d. is_current ds d}" by (rule latest_states_are_current)
  then have empty: "map snd (latest_mutable_per_emitter ds) = [] \<longleftrightarrow> (\<forall>d \<in> set ds. wd_immutable d)"
  proof -
    have "map snd (latest_mutable_per_emitter ds) = [] \<longleftrightarrow> ?S = {}" by simp
    also have "\<dots> \<longleftrightarrow> \<not> (\<exists>d. is_current ds d)" unfolding S by blast
    finally show ?thesis using some_delivery_is_current[of ds] by blast
  qed
  have mem: "x \<in> ?S \<longleftrightarrow> (\<exists>d. is_current ds d \<and> wd_state d = x)" for x unfolding S by blast
  have all: "list_all P (map snd (latest_mutable_per_emitter ds)) \<longleftrightarrow> (\<forall>d. is_current ds d \<longrightarrow> P (wd_state d))" for P
    unfolding list_all_iff S by blast
  show ?thesis
    unfolding receipt_aggregate_state_def aggregate_from_states_def empty mem all by simp
qed

text \<open>A delivery of history that failed, one that was dead-lettered and then replayed, and one that went well.\<close>

definition history_delivery :: webhook_delivery where
  "history_delivery = (sample_delivery ''legacy'' DS_DeadLettered 9)\<lparr>wd_immutable := True\<rparr>"

theorem aggregate_precedence_witness:
  "receipt_aggregate_state (history_delivery # replayed_deliveries) PS_Received = PS_Emitted"
proof -
  let ?ds = "history_delivery # replayed_deliveries"
  have "{wd_state d | d. is_current ?ds d} = {DS_Emitted}"
    unfolding latest_states_are_current[symmetric]
    by (simp add: latest_mutable_per_emitter_def latest_step_def history_delivery_def replayed_deliveries_def sample_delivery_def)
  then have "\<forall>d. is_current ?ds d \<longrightarrow> wd_state d = DS_Emitted" by blast
  moreover have "\<not> (\<forall>d \<in> set ?ds. wd_immutable d)" by (simp add: replayed_deliveries_def sample_delivery_def)
  ultimately show ?thesis unfolding aggregate_precedence by auto
qed

end
