(* ===== verification/Postgres.thy ===== *)
theory Postgres
  imports Transitions
begin

text \<open>
  The tables of \<^verbatim>\<open>crates/hookbox-postgres/migrations\<close> and the receipt half of
  \<^verbatim>\<open>crates/hookbox-postgres/src/storage.rs\<close> (\<^verbatim>\<open>impl Storage for PostgresStorage\<close> and the ops
  queries). A table is the list of its rows, a row is the struct the code decodes it into, and each
  SQL statement of the source is one definition: a function from the database to a value and the
  new database, or the error of a violated constraint. A statement that is sent to the server may
  fail before it runs, or run and lose its reply; \<open>io\<close> says which. Uncommitted statements of a
  transaction act on a copy that only \<^verbatim>\<open>COMMIT\<close> publishes. Shown: the table invariant and its
  preservation, the row round trip, the atomicity of the fan-out insert, pagination, and that the
  SQL retry rule is the pure one of \<open>Transitions\<close>.
\<close>

section \<open>Rows and tables\<close>

record receipt_row =
  rr_receipt_id :: uuid
  rr_provider_name :: string
  rr_provider_event_id :: "string option"
  rr_external_reference :: "string option"
  rr_dedupe_key :: string
  rr_payload_hash :: string
  rr_raw_body :: bytes
  rr_parsed_payload :: "json option"
  rr_raw_headers :: json
  rr_normalized_event_type :: "string option"
  rr_verification_status :: string
  rr_verification_reason :: "string option"
  rr_processing_state :: string
  rr_emit_count :: int
  rr_last_error :: "string option"
  rr_received_at :: timestamp
  rr_processed_at :: "timestamp option"
  rr_metadata :: json

record delivery_row =
  dr_delivery_id :: uuid
  dr_receipt_id :: uuid
  dr_emitter_name :: string
  dr_state :: string
  dr_attempt_count :: int
  dr_last_error :: "string option"
  dr_last_attempt_at :: "timestamp option"
  dr_next_attempt_at :: timestamp
  dr_emitted_at :: "timestamp option"
  dr_immutable :: bool
  dr_created_at :: timestamp

record db =
  receipts :: "receipt_row list"
  deliveries :: "delivery_row list"

section \<open>Statements, faults and transactions\<close>

datatype io = IO_Ok | IO_Failed string | IO_Lost string

text \<open>
  What one call of a storage method meets: the database clock, the UUIDs \<^verbatim>\<open>gen_random_uuid()\<close>
  draws, the outcome of the k-th round trip, and the delivery rows other transactions hold locked.
\<close>

record dbenv =
  e_now :: timestamp
  e_uuid :: "nat \<Rightarrow> uuid"
  e_io :: "nat \<Rightarrow> io"
  e_locked :: "uuid list"

type_synonym 'a stmt = "db \<Rightarrow> ('a \<times> db, string) result"
type_synonym 'a answer = "('a, storage_error) result"

definition exec_stmt :: "io \<Rightarrow> 'a stmt \<Rightarrow> db \<Rightarrow> 'a answer \<times> db" where
  "exec_stmt out s d =
     (case out of
        IO_Failed e \<Rightarrow> (Err (SE_Internal e), d)
      | IO_Ok \<Rightarrow> (case s d of Ok (a, d') \<Rightarrow> (Ok a, d') | Err e \<Rightarrow> (Err (SE_Internal e), d))
      | IO_Lost e \<Rightarrow> (case s d of Ok (a, d') \<Rightarrow> (Err (SE_Internal e), d')
                                | Err e' \<Rightarrow> (Err (SE_Internal e'), d)))"

definition read_stmt :: "io \<Rightarrow> (db \<Rightarrow> ('a, string) result) \<Rightarrow> db \<Rightarrow> 'a answer" where
  "read_stmt out q d =
     (case out of IO_Failed e \<Rightarrow> Err (SE_Internal e) | IO_Lost e \<Rightarrow> Err (SE_Internal e)
      | IO_Ok \<Rightarrow> map_err SE_Internal (q d))"

definition tx_stmt :: "io \<Rightarrow> 'a stmt \<Rightarrow> db \<Rightarrow> ('a \<times> db) answer" where
  "tx_stmt out s tx =
     (case out of IO_Failed e \<Rightarrow> Err (SE_Internal e) | IO_Lost e \<Rightarrow> Err (SE_Internal e)
      | IO_Ok \<Rightarrow> map_err SE_Internal (s tx))"

text \<open>\<^verbatim>\<open>COMMIT\<close> publishes the transaction's copy; a lost reply leaves it published.\<close>

definition commit_tx :: "io \<Rightarrow> 'a \<Rightarrow> db \<Rightarrow> db \<Rightarrow> 'a answer \<times> db" where
  "commit_tx out a tx d =
     (case out of IO_Ok \<Rightarrow> (Ok a, tx) | IO_Failed e \<Rightarrow> (Err (SE_Internal e), d)
      | IO_Lost e \<Rightarrow> (Err (SE_Internal e), tx))"

section \<open>Enums as text\<close>

text \<open>
  \<^verbatim>\<open>serialize_enum\<close> writes a unit variant as its name; \<^verbatim>\<open>deserialize_enum\<close> finds the variant with
  that name and otherwise fails with serde's message, which carries the offending text.
\<close>

definition serialize_enum :: "('a \<Rightarrow> string) \<Rightarrow> 'a \<Rightarrow> string answer" where
  "serialize_enum name v = Ok (name v)"

definition deserialize_enum :: "('a \<Rightarrow> string) \<Rightarrow> 'a list \<Rightarrow> string \<Rightarrow> 'a answer" where
  "deserialize_enum name variants s =
     (case find (\<lambda>v. name v = s) variants of Some v \<Rightarrow> Ok v | None \<Rightarrow> Err (SE_Serialization s))"

abbreviation parse_processing_state_name :: "string \<Rightarrow> processing_state answer" where
  "parse_processing_state_name \<equiv> deserialize_enum processing_state_name all_processing_states"

abbreviation parse_verification_status_name :: "string \<Rightarrow> verification_status answer" where
  "parse_verification_status_name \<equiv>
     deserialize_enum verification_status_name all_verification_statuses"

abbreviation parse_delivery_state_name :: "string \<Rightarrow> delivery_state answer" where
  "parse_delivery_state_name \<equiv> deserialize_enum delivery_state_name all_delivery_states"

definition receipt_from_row :: "receipt_row \<Rightarrow> webhook_receipt answer" where
  "receipt_from_row row =
     and_then (parse_verification_status_name (rr_verification_status row)) (\<lambda>vstatus.
     and_then (parse_processing_state_name (rr_processing_state row)) (\<lambda>pstate.
       Ok \<lparr>receipt_id = ReceiptId (rr_receipt_id row),
           provider_name = rr_provider_name row,
           provider_event_id = rr_provider_event_id row,
           external_reference = rr_external_reference row,
           dedupe_key = rr_dedupe_key row,
           payload_hash = rr_payload_hash row,
           raw_body = rr_raw_body row,
           parsed_payload = rr_parsed_payload row,
           raw_headers = rr_raw_headers row,
           normalized_event_type = rr_normalized_event_type row,
           verification_status = vstatus,
           verification_reason = rr_verification_reason row,
           processing_state = pstate,
           emit_count = rr_emit_count row,
           last_error = rr_last_error row,
           received_at = rr_received_at row,
           processed_at = rr_processed_at row,
           metadata = rr_metadata row\<rparr>))"

text \<open>The values an \<^verbatim>\<open>INSERT\<close> binds, in column order.\<close>

definition receipt_to_row :: "string \<Rightarrow> string \<Rightarrow> webhook_receipt \<Rightarrow> receipt_row" where
  "receipt_to_row vstatus pstate r =
     \<lparr>rr_receipt_id = rid_uuid (receipt_id r),
      rr_provider_name = provider_name r,
      rr_provider_event_id = provider_event_id r,
      rr_external_reference = external_reference r,
      rr_dedupe_key = dedupe_key r,
      rr_payload_hash = payload_hash r,
      rr_raw_body = raw_body r,
      rr_parsed_payload = parsed_payload r,
      rr_raw_headers = raw_headers r,
      rr_normalized_event_type = normalized_event_type r,
      rr_verification_status = vstatus,
      rr_verification_reason = verification_reason r,
      rr_processing_state = pstate,
      rr_emit_count = emit_count r,
      rr_last_error = last_error r,
      rr_received_at = received_at r,
      rr_processed_at = processed_at r,
      rr_metadata = metadata r\<rparr>"

section \<open>Receipt statements\<close>

definition has_key :: "string \<Rightarrow> db \<Rightarrow> bool" where
  "has_key k d = list_ex (\<lambda>r. rr_dedupe_key r = k) (receipts d)"

definition has_receipt :: "uuid \<Rightarrow> db \<Rightarrow> bool" where
  "has_receipt u d = list_ex (\<lambda>r. rr_receipt_id r = u) (receipts d)"

definition has_delivery :: "uuid \<Rightarrow> db \<Rightarrow> bool" where
  "has_delivery u d = list_ex (\<lambda>r. dr_delivery_id r = u) (deliveries d)"

text \<open>\<^verbatim>\<open>INSERT INTO webhook_receipts ... ON CONFLICT (dedupe_key) DO NOTHING RETURNING receipt_id\<close>;
  a clash on the primary key is an error.\<close>

definition insert_receipt :: "receipt_row \<Rightarrow> uuid option stmt" where
  "insert_receipt row d =
     (if has_key (rr_dedupe_key row) d then Ok (None, d)
      else if has_receipt (rr_receipt_id row) d
      then Err ''duplicate key value violates unique constraint webhook_receipts_pkey''
      else Ok (Some (rr_receipt_id row), d\<lparr>receipts := receipts d @ [row]\<rparr>))"

definition select_id_by_dedupe_key :: "string \<Rightarrow> db \<Rightarrow> (uuid, string) result" where
  "select_id_by_dedupe_key k d =
     (case find (\<lambda>r. rr_dedupe_key r = k) (receipts d) of
        Some r \<Rightarrow> Ok (rr_receipt_id r)
      | None \<Rightarrow> Err ''no rows returned by a query that expected to return at least one row'')"

text \<open>\<^verbatim>\<open>INSERT INTO webhook_deliveries ... VALUES (gen_random_uuid(), $1, $2, 'pending', now(), now())\<close>:
  the other columns take their defaults; primary and foreign key are checked.\<close>

definition pending_row :: "timestamp \<Rightarrow> uuid \<Rightarrow> uuid \<Rightarrow> string \<Rightarrow> delivery_row" where
  "pending_row now did rid name =
     \<lparr>dr_delivery_id = did, dr_receipt_id = rid, dr_emitter_name = name, dr_state = ''pending'',
      dr_attempt_count = 0, dr_last_error = None, dr_last_attempt_at = None,
      dr_next_attempt_at = now, dr_emitted_at = None, dr_immutable = False, dr_created_at = now\<rparr>"

definition insert_delivery :: "timestamp \<Rightarrow> uuid \<Rightarrow> uuid \<Rightarrow> string \<Rightarrow> uuid stmt" where
  "insert_delivery now did rid name d =
     (if has_delivery did d
      then Err ''duplicate key value violates unique constraint webhook_deliveries_pkey''
      else if \<not> has_receipt rid d
      then Err ''insert on table webhook_deliveries violates foreign key constraint''
      else Ok (did, d\<lparr>deliveries := deliveries d @ [pending_row now did rid name]\<rparr>))"

text \<open>\<^verbatim>\<open>UPDATE webhook_receipts SET ... WHERE receipt_id = $1\<close>: the number of rows affected.\<close>

definition update_receipts :: "uuid \<Rightarrow> (receipt_row \<Rightarrow> receipt_row) \<Rightarrow> nat stmt" where
  "update_receipts u f d =
     Ok (length (filter (\<lambda>r. rr_receipt_id r = u) (receipts d)),
         d\<lparr>receipts := map (\<lambda>r. if rr_receipt_id r = u then f r else r) (receipts d)\<rparr>)"

text \<open>\<^verbatim>\<open>LIMIT\<close> and \<^verbatim>\<open>OFFSET\<close>; PostgreSQL refuses negative values.\<close>

definition sql_window :: "int \<Rightarrow> int \<Rightarrow> 'a list \<Rightarrow> ('a list, string) result" where
  "sql_window lmt off xs =
     (if lmt < 0 then Err ''LIMIT must not be negative''
      else if off < 0 then Err ''OFFSET must not be negative''
      else Ok (take (nat lmt) (drop (nat off) xs)))"

section \<open>impl Storage for PostgresStorage\<close>

definition store :: "dbenv \<Rightarrow> webhook_receipt \<Rightarrow> db \<Rightarrow> store_result answer \<times> db" where
  "store env r d =
     (case serialize_enum processing_state_name (processing_state r) of Err e \<Rightarrow> (Err e, d)
      | Ok pstate \<Rightarrow>
     (case serialize_enum verification_status_name (verification_status r) of Err e \<Rightarrow> (Err e, d)
      | Ok vstatus \<Rightarrow>
     (case exec_stmt (e_io env 0) (insert_receipt (receipt_to_row vstatus pstate r)) d of
        (Err e, d1) \<Rightarrow> (Err e, d1)
      | (Ok (Some _), d1) \<Rightarrow> (Ok SR_Stored, d1)
      | (Ok None, d1) \<Rightarrow>
          (case read_stmt (e_io env 1) (select_id_by_dedupe_key (dedupe_key r)) d1 of
             Err e \<Rightarrow> (Err e, d1)
           | Ok existing \<Rightarrow> (Ok (SR_Duplicate (ReceiptId existing)), d1)))))"

text \<open>The loop over \<^verbatim>\<open>emitter_names\<close> inside the transaction; \<open>k\<close> counts the rows inserted.\<close>

fun insert_pending_deliveries ::
  "dbenv \<Rightarrow> nat \<Rightarrow> nat \<Rightarrow> uuid \<Rightarrow> string list \<Rightarrow> db \<Rightarrow> (uuid list \<times> db) answer" where
  "insert_pending_deliveries env io0 k rid [] tx = Ok ([], tx)"
| "insert_pending_deliveries env io0 k rid (name # names) tx =
     (case tx_stmt (e_io env (io0 + k)) (insert_delivery (e_now env) (e_uuid env k) rid name) tx of
        Err e \<Rightarrow> Err e
      | Ok (did, tx1) \<Rightarrow>
          (case insert_pending_deliveries env io0 (Suc k) rid names tx1 of
             Err e \<Rightarrow> Err e
           | Ok (dids, tx2) \<Rightarrow> Ok (did # dids, tx2)))"

definition store_with_deliveries ::
  "dbenv \<Rightarrow> webhook_receipt \<Rightarrow> string list \<Rightarrow> db \<Rightarrow> store_result answer \<times> db" where
  "store_with_deliveries env r emitter_names d =
     (case serialize_enum processing_state_name (processing_state r) of Err e \<Rightarrow> (Err e, d)
      | Ok pstate \<Rightarrow>
     (case serialize_enum verification_status_name (verification_status r) of Err e \<Rightarrow> (Err e, d)
      | Ok vstatus \<Rightarrow>
     (case tx_stmt (e_io env 0) (\<lambda>tx. Ok ((), tx)) d of Err e \<Rightarrow> (Err e, d)
      | Ok (_, tx0) \<Rightarrow>
     (case tx_stmt (e_io env 1) (insert_receipt (receipt_to_row vstatus pstate r)) tx0 of
        Err e \<Rightarrow> (Err e, d)
      | Ok (None, _) \<Rightarrow>
          (case tx_stmt (e_io env 2) (\<lambda>tx. Ok ((), tx)) d of Err e \<Rightarrow> (Err e, d)
           | Ok _ \<Rightarrow>
          (case read_stmt (e_io env 3) (select_id_by_dedupe_key (dedupe_key r)) d of
             Err e \<Rightarrow> (Err e, d)
           | Ok existing \<Rightarrow> (Ok (SR_Duplicate (ReceiptId existing)), d)))
      | Ok (Some _, tx1) \<Rightarrow>
          (case insert_pending_deliveries env 2 0 (rid_uuid (receipt_id r)) emitter_names tx1 of
             Err e \<Rightarrow> (Err e, d)
           | Ok (_, tx2) \<Rightarrow> commit_tx (e_io env (2 + length emitter_names)) SR_Stored tx2 d)))))"

definition storage_get :: "io \<Rightarrow> uuid \<Rightarrow> db \<Rightarrow> webhook_receipt option answer" where
  "storage_get out u d =
     (case read_stmt out (\<lambda>d. Ok (find (\<lambda>r. rr_receipt_id r = u) (receipts d))) d of
        Err e \<Rightarrow> Err e
      | Ok None \<Rightarrow> Ok None
      | Ok (Some row) \<Rightarrow> and_then (receipt_from_row row) (\<lambda>r. Ok (Some r)))"

definition update_state ::
  "dbenv \<Rightarrow> uuid \<Rightarrow> processing_state \<Rightarrow> string option \<Rightarrow> db \<Rightarrow> unit answer \<times> db" where
  "update_state env u st error d =
     (case serialize_enum processing_state_name st of Err e \<Rightarrow> (Err e, d)
      | Ok state_str \<Rightarrow>
     (case exec_stmt (e_io env 0)
             (update_receipts u (\<lambda>r. r\<lparr>rr_processing_state := state_str, rr_last_error := error\<rparr>)) d
      of (Err e, d1) \<Rightarrow> (Err e, d1)
       | (Ok _, d1) \<Rightarrow> (Ok (), d1)))"

definition opt_matches :: "'a option \<Rightarrow> 'a option \<Rightarrow> bool" where
  "opt_matches wanted actual = (case wanted of None \<Rightarrow> True | Some w \<Rightarrow> actual = Some w)"

definition filter_matches :: "receipt_filter \<Rightarrow> string option \<Rightarrow> receipt_row \<Rightarrow> bool" where
  "filter_matches f state_str r \<longleftrightarrow>
     opt_matches (rf_provider_name f) (Some (rr_provider_name r))
     \<and> opt_matches state_str (Some (rr_processing_state r))
     \<and> opt_matches (rf_external_reference f) (rr_external_reference r)
     \<and> opt_matches (rf_provider_event_id f) (rr_provider_event_id r)"

definition newest_first :: "receipt_row list \<Rightarrow> receipt_row list" where
  "newest_first rows = sort_key (\<lambda>r. - rr_received_at r) rows"

definition oldest_first :: "receipt_row list \<Rightarrow> receipt_row list" where
  "oldest_first rows = sort_key rr_received_at rows"

definition storage_query :: "io \<Rightarrow> receipt_filter \<Rightarrow> db \<Rightarrow> webhook_receipt list answer" where
  "storage_query out f d =
     (let state_str = map_option processing_state_name (rf_processing_state f);
          lmt = (case rf_limit f of Some l \<Rightarrow> l | None \<Rightarrow> 1000);
          off = (case rf_offset f of Some m \<Rightarrow> m | None \<Rightarrow> 0) in
      and_then
        (read_stmt out
           (\<lambda>d. sql_window lmt off (newest_first (filter (filter_matches f state_str) (receipts d)))) d)
        (collect_results receipt_from_row))"

section \<open>Ops queries\<close>

definition query_for_retry :: "io \<Rightarrow> int \<Rightarrow> db \<Rightarrow> webhook_receipt list answer" where
  "query_for_retry out max_att d =
     and_then
       (read_stmt out
          (\<lambda>d. Ok (take 100 (oldest_first
             (filter (\<lambda>r. rr_processing_state r = ''emit_failed'' \<and> rr_emit_count r < max_att)
                (receipts d))))) d)
       (collect_results receipt_from_row)"

text \<open>\<^verbatim>\<open>emit_count + 1\<close> on an \<^verbatim>\<open>INTEGER\<close> column fails rather than wrap.\<close>

definition retry_failed_stmt :: "uuid \<Rightarrow> int \<Rightarrow> nat stmt" where
  "retry_failed_stmt u max_att d =
     (if list_ex (\<lambda>r. rr_receipt_id r = u \<and> rr_emit_count r + 1 > i32_max) (receipts d)
      then Err ''integer out of range''
      else update_receipts u
        (\<lambda>r. r\<lparr>rr_emit_count := rr_emit_count r + 1,
               rr_processing_state :=
                 (if rr_emit_count r + 1 \<ge> max_att then ''dead_lettered'' else ''emit_failed'')\<rparr>) d)"

definition retry_failed :: "dbenv \<Rightarrow> uuid \<Rightarrow> int \<Rightarrow> db \<Rightarrow> unit answer \<times> db" where
  "retry_failed env u max_att d =
     (case exec_stmt (e_io env 0) (retry_failed_stmt u max_att) d of
        (Err e, d1) \<Rightarrow> (Err e, d1)
      | (Ok _, d1) \<Rightarrow> (Ok (), d1))"

definition reset_for_retry :: "externals \<Rightarrow> io \<Rightarrow> uuid \<Rightarrow> db \<Rightarrow> unit answer \<times> db" where
  "reset_for_retry x out u d =
     (case exec_stmt out
             (update_receipts u (\<lambda>r. r\<lparr>rr_processing_state := ''emit_failed'', rr_emit_count := 0\<rparr>)) d
      of (Err e, d1) \<Rightarrow> (Err e, d1)
       | (Ok n, d1) \<Rightarrow>
           if n = 0 then (Err (SE_Internal (''no receipt found with id '' @ x_uuid_to_string x u)), d1)
           else (Ok (), d1))"

definition query_by_external_reference ::
  "io \<Rightarrow> string \<Rightarrow> int option \<Rightarrow> db \<Rightarrow> webhook_receipt list answer" where
  "query_by_external_reference out eref limit d =
     and_then
       (read_stmt out
          (\<lambda>d. sql_window (case limit of Some l \<Rightarrow> l | None \<Rightarrow> 50) 0
                 (newest_first (filter (\<lambda>r. rr_external_reference r = Some eref) (receipts d)))) d)
       (collect_results receipt_from_row)"

definition query_failed_since ::
  "io \<Rightarrow> string option \<Rightarrow> timestamp \<Rightarrow> int option \<Rightarrow> db \<Rightarrow> webhook_receipt list answer" where
  "query_failed_since out provider since limit d =
     and_then
       (read_stmt out
          (\<lambda>d. sql_window (case limit of Some l \<Rightarrow> l | None \<Rightarrow> 100) 0
                 (oldest_first
                   (filter (\<lambda>r. (rr_processing_state r = ''emit_failed''
                                  \<or> rr_processing_state r = ''dead_lettered'')
                                \<and> rr_received_at r \<ge> since
                                \<and> opt_matches provider (Some (rr_provider_name r)))
                      (receipts d)))) d)
       (collect_results receipt_from_row)"

section \<open>The table invariant\<close>

text \<open>Primary keys, the unique index on \<^verbatim>\<open>dedupe_key\<close>, the foreign key, and decodable enum columns.\<close>

definition wf_db :: "db \<Rightarrow> bool" where
  "wf_db d \<longleftrightarrow>
     distinct (map rr_receipt_id (receipts d))
     \<and> distinct (map rr_dedupe_key (receipts d))
     \<and> distinct (map dr_delivery_id (deliveries d))
     \<and> list_all (\<lambda>x. has_receipt (dr_receipt_id x) d) (deliveries d)
     \<and> list_all (\<lambda>r. is_ok (receipt_from_row r)) (receipts d)
     \<and> list_all (\<lambda>x. is_ok (parse_delivery_state_name (dr_state x))) (deliveries d)"

definition empty_db :: db where
  "empty_db = \<lparr>receipts = [], deliveries = []\<rparr>"

lemma wf_empty_db [simp]: "wf_db empty_db"
  by (simp add: wf_db_def empty_db_def)

lemma has_key_iff: "has_key k d \<longleftrightarrow> k \<in> rr_dedupe_key ` set (receipts d)"
  by (auto simp: has_key_def list_ex_iff)

lemma has_receipt_iff: "has_receipt u d \<longleftrightarrow> u \<in> rr_receipt_id ` set (receipts d)"
  by (auto simp: has_receipt_def list_ex_iff)

lemma has_delivery_iff: "has_delivery u d \<longleftrightarrow> u \<in> dr_delivery_id ` set (deliveries d)"
  by (auto simp: has_delivery_def list_ex_iff)

lemma has_receipt_cong [simp]: "has_receipt u (d\<lparr>deliveries := ds\<rparr>) = has_receipt u d"
  by (simp add: has_receipt_def)

lemmas table_iffs = has_key_iff has_receipt_iff has_delivery_iff

subsection \<open>Decoding\<close>

lemma serialize_enum_Ok [simp]: "serialize_enum name v = Ok (name v)"
  by (simp add: serialize_enum_def)

lemma parse_processing_state_name_name [simp]:
  "parse_processing_state_name (processing_state_name s) = Ok s"
  by (cases s) (simp_all add: deserialize_enum_def all_processing_states_def)

lemma parse_verification_status_name_name [simp]:
  "parse_verification_status_name (verification_status_name v) = Ok v"
  by (cases v) (simp_all add: deserialize_enum_def all_verification_statuses_def)

lemma parse_delivery_state_name_name [simp]:
  "parse_delivery_state_name (delivery_state_name t) = Ok t"
  by (cases t) (simp_all add: deserialize_enum_def all_delivery_states_def)

lemma parse_literals [simp]:
  "parse_processing_state_name ''emit_failed'' = Ok PS_EmitFailed"
  "parse_processing_state_name ''dead_lettered'' = Ok PS_DeadLettered"
  "parse_delivery_state_name ''pending'' = Ok DS_Pending"
  "parse_delivery_state_name ''in_flight'' = Ok DS_InFlight"
  "parse_delivery_state_name ''emitted'' = Ok DS_Emitted"
  "parse_delivery_state_name ''failed'' = Ok DS_Failed"
  "parse_delivery_state_name ''dead_lettered'' = Ok DS_DeadLettered"
  using parse_processing_state_name_name[of PS_EmitFailed]
    parse_processing_state_name_name[of PS_DeadLettered]
    parse_delivery_state_name_name[of DS_Pending] parse_delivery_state_name_name[of DS_InFlight]
    parse_delivery_state_name_name[of DS_Emitted] parse_delivery_state_name_name[of DS_Failed]
    parse_delivery_state_name_name[of DS_DeadLettered]
  by simp_all

abbreviation row_of :: "webhook_receipt \<Rightarrow> receipt_row" where
  "row_of r \<equiv> receipt_to_row (verification_status_name (verification_status r))
                              (processing_state_name (processing_state r)) r"

lemma receipt_round_trip [simp]: "receipt_from_row (row_of r) = Ok r"
  by (simp add: receipt_from_row_def receipt_to_row_def)

lemma row_of_sel [simp]:
  "rr_receipt_id (row_of r) = rid_uuid (receipt_id r)"
  "rr_dedupe_key (row_of r) = dedupe_key r"
  "rr_payload_hash (row_of r) = payload_hash r"
  "rr_processing_state (row_of r) = processing_state_name (processing_state r)"
  by (simp_all add: receipt_to_row_def)

lemma is_ok_simps [simp]: "is_ok (Ok a)" "\<not> is_ok (Err e)"
  by (simp_all add: is_ok_def)

lemma is_ok_iff: "is_ok r \<longleftrightarrow> (\<exists>a. r = Ok a)"
  by (cases r) simp_all

lemma is_ok_receipt_from_row:
  "is_ok (receipt_from_row row) \<longleftrightarrow>
     is_ok (parse_verification_status_name (rr_verification_status row))
     \<and> is_ok (parse_processing_state_name (rr_processing_state row))"
  by (cases "parse_verification_status_name (rr_verification_status row)";
      cases "parse_processing_state_name (rr_processing_state row)")
    (simp_all add: receipt_from_row_def)

definition decode_receipt :: "receipt_row \<Rightarrow> webhook_receipt" where
  "decode_receipt row = (case receipt_from_row row of Ok r \<Rightarrow> r)"

lemma decode_receipt_Ok: "is_ok (receipt_from_row row) \<Longrightarrow> receipt_from_row row = Ok (decode_receipt row)"
  by (auto simp: is_ok_iff decode_receipt_def)

lemma decode_receipt_received_at:
  "is_ok (receipt_from_row row) \<Longrightarrow> received_at (decode_receipt row) = rr_received_at row"
  by (cases "parse_verification_status_name (rr_verification_status row)";
      cases "parse_processing_state_name (rr_processing_state row)")
    (simp_all add: receipt_from_row_def decode_receipt_def)

lemma decode_row_of [simp]: "decode_receipt (row_of r) = r"
  by (simp add: decode_receipt_def)

subsection \<open>Statements keep the invariant\<close>

lemma insert_receipt_wf:
  "insert_receipt row d = Ok (a, d') \<Longrightarrow> wf_db d \<Longrightarrow> is_ok (receipt_from_row row) \<Longrightarrow> wf_db d'"
  by (auto simp: insert_receipt_def wf_db_def table_iffs list_all_iff split: if_splits)

lemma insert_delivery_wf:
  "insert_delivery now did rid name d = Ok (a, d') \<Longrightarrow> wf_db d \<Longrightarrow> wf_db d'"
  by (auto simp: insert_delivery_def wf_db_def table_iffs list_all_iff pending_row_def split: if_splits)

lemma map_keep:
  "(\<And>r. r \<in> set rows \<Longrightarrow> p r \<Longrightarrow> key (f r) = key r) \<Longrightarrow>
   map key (map (\<lambda>r. if p r then f r else r) rows) = map key rows"
  by (simp add: comp_def)

lemma update_receipts_wf:
  assumes "update_receipts u f d = Ok (a, d')" and "wf_db d"
    and keeps: "\<And>r. rr_receipt_id (f r) = rr_receipt_id r" "\<And>r. rr_dedupe_key (f r) = rr_dedupe_key r"
    and dec: "\<And>r. is_ok (receipt_from_row r) \<Longrightarrow> is_ok (receipt_from_row (f r))"
  shows "wf_db d'"
proof -
  have d': "d' = d\<lparr>receipts := map (\<lambda>r. if rr_receipt_id r = u then f r else r) (receipts d)\<rparr>"
    using assms(1) by (simp add: update_receipts_def)
  have ids: "map rr_receipt_id (receipts d') = map rr_receipt_id (receipts d)"
    and keys: "map rr_dedupe_key (receipts d') = map rr_dedupe_key (receipts d)"
    unfolding d' by (simp_all add: keeps)
  have "has_receipt v d' = has_receipt v d" for v
    unfolding has_receipt_iff by (metis ids list.set_map)
  moreover have "deliveries d' = deliveries d" by (simp add: d')
  moreover have "list_all (\<lambda>r. is_ok (receipt_from_row r)) (receipts d')"
    using assms(2) dec by (auto simp: d' wf_db_def list_all_iff)
  ultimately show ?thesis
    using assms(2) unfolding wf_db_def ids keys by simp
qed

lemma exec_stmt_wf:
  assumes "exec_stmt out s d = (a, d')" and "wf_db d" and "\<And>b d'. s d = Ok (b, d') \<Longrightarrow> wf_db d'"
  shows "wf_db d'"
  using assms by (auto simp: exec_stmt_def split: io.splits result.splits)

lemma exec_stmt_Ok:
  "exec_stmt out s d = (Ok a, d') \<Longrightarrow> out = IO_Ok \<and> s d = Ok (a, d')"
  by (auto simp: exec_stmt_def split: io.splits result.splits)

lemma tx_stmt_Ok: "tx_stmt out s tx = Ok (a, tx') \<longleftrightarrow> out = IO_Ok \<and> s tx = Ok (a, tx')"
  by (cases "s tx") (auto simp: tx_stmt_def split: io.splits)

lemma read_stmt_Ok: "read_stmt out q d = Ok a \<longleftrightarrow> out = IO_Ok \<and> q d = Ok a"
  by (cases "q d") (auto simp: read_stmt_def split: io.splits)

section \<open>Fan-out insert\<close>

fun pending_rows :: "dbenv \<Rightarrow> nat \<Rightarrow> uuid \<Rightarrow> string list \<Rightarrow> delivery_row list" where
  "pending_rows env k rid [] = []"
| "pending_rows env k rid (name # names) =
     pending_row (e_now env) (e_uuid env k) rid name # pending_rows env (Suc k) rid names"

text \<open>What the committed transaction leaves: the receipt and one pending row per emitter.\<close>

definition fanout :: "dbenv \<Rightarrow> webhook_receipt \<Rightarrow> string list \<Rightarrow> db \<Rightarrow> db" where
  "fanout env r names d =
     d\<lparr>receipts := receipts d @ [row_of r],
       deliveries := deliveries d @ pending_rows env 0 (rid_uuid (receipt_id r)) names\<rparr>"

lemma length_pending_rows [simp]: "length (pending_rows env k rid names) = length names"
  by (induction names arbitrary: k) simp_all

lemma pending_rows_emitters [simp]: "map dr_emitter_name (pending_rows env k rid names) = names"
  by (induction names arbitrary: k) (simp_all add: pending_row_def)

lemma pending_rows_fields:
  "x \<in> set (pending_rows env k rid names) \<Longrightarrow>
   dr_receipt_id x = rid \<and> dr_state x = ''pending'' \<and> dr_attempt_count x = 0
   \<and> \<not> dr_immutable x \<and> dr_next_attempt_at x = e_now env \<and> dr_created_at x = e_now env"
  by (induction names arbitrary: k) (auto simp: pending_row_def)

lemma insert_pending_Ok:
  "insert_pending_deliveries env io0 k rid names tx = Ok (dids, tx') \<Longrightarrow>
   tx' = tx\<lparr>deliveries := deliveries tx @ pending_rows env k rid names\<rparr> \<and> (wf_db tx \<longrightarrow> wf_db tx')
   \<and> dids = map (e_uuid env) [k ..< k + length names]"
proof (induction names arbitrary: k tx dids tx')
  case (Cons n names)
  obtain tx1 dids' where s: "insert_delivery (e_now env) (e_uuid env k) rid n tx = Ok (e_uuid env k, tx1)"
    and rest: "insert_pending_deliveries env io0 (Suc k) rid names tx1 = Ok (dids', tx')"
    and dids: "dids = e_uuid env k # dids'"
    using Cons.prems by (auto simp: tx_stmt_Ok insert_delivery_def split: result.splits prod.splits if_splits)
  have tx1: "tx1 = tx\<lparr>deliveries := deliveries tx @ [pending_row (e_now env) (e_uuid env k) rid n]\<rparr>"
    using s by (simp add: insert_delivery_def split: if_splits)
  have "[k ..< k + length (n # names)] = k # [Suc k ..< Suc k + length names]"
    by (simp add: upt_conv_Cons del: upt_Suc)
  then show ?case using Cons.IH[OF rest] insert_delivery_wf[OF s] dids unfolding tx1
    by (auto simp del: upt_Suc)
qed simp

lemma insert_receipt_Some:
  "insert_receipt row d = Ok (Some a, d') \<Longrightarrow>
   d' = d\<lparr>receipts := receipts d @ [row]\<rparr> \<and> \<not> has_key (rr_dedupe_key row) d"
  by (simp add: insert_receipt_def split: if_splits)

lemma insert_receipt_None:
  "insert_receipt row d = Ok (None, d') \<Longrightarrow> d' = d \<and> has_key (rr_dedupe_key row) d"
  by (simp add: insert_receipt_def split: if_splits)

lemma select_id_Ok:
  "select_id_by_dedupe_key k d = Ok u \<Longrightarrow>
   \<exists>r \<in> set (receipts d). rr_dedupe_key r = k \<and> rr_receipt_id r = u"
  by (auto simp: select_id_by_dedupe_key_def find_Some_iff split: option.splits)

text \<open>After \<^verbatim>\<open>BEGIN\<close> and the insert of the receipt: refused, already there, or ready for the fan-out.\<close>

lemma insert_receipt_tx_cases:
  fixes env r d
  defines "ins \<equiv> tx_stmt (e_io env 1) (insert_receipt (row_of r)) d"
    and "start \<equiv> tx_stmt (e_io env 0) (\<lambda>tx. Ok ((), tx)) d"
  obtains (NoBegin) e where "start = Err e"
  | (NoInsert) e where "start = Ok ((), d)" "ins = Err e"
  | (Present) "start = Ok ((), d)" "ins = Ok (None, d)"
  | (Inserted) a where "start = Ok ((), d)" "ins = Ok (Some a, d\<lparr>receipts := receipts d @ [row_of r]\<rparr>)"
      "\<not> has_key (dedupe_key r) d" "wf_db d \<longrightarrow> wf_db (d\<lparr>receipts := receipts d @ [row_of r]\<rparr>)"
proof (cases start)
  case (Ok p)
  then have st: "start = Ok ((), d)" by (cases p) (simp add: start_def tx_stmt_Ok)
  show ?thesis
  proof (cases ins)
    case ins: (Ok q)
    obtain a tx where q: "q = (a, tx)" by (cases q)
    have run: "insert_receipt (row_of r) d = Ok (a, tx)" using ins q by (simp add: ins_def tx_stmt_Ok)
    show ?thesis
    proof (cases a)
      case None
      then show ?thesis using Present st ins q insert_receipt_None[of "row_of r" d tx] run by simp
    next
      case (Some i)
      then show ?thesis
        using Inserted[of i] st ins q run insert_receipt_Some[of "row_of r" d i tx] insert_receipt_wf[of "row_of r" d]
        by auto
    qed
  qed (use NoInsert st in simp)
qed (use NoBegin in simp)

text \<open>The outcomes of the transaction: unchanged, or the whole fan-out.\<close>

lemma store_with_deliveries_cases:
  assumes "store_with_deliveries env r names d = (res, d')"
  obtains
    (Unchanged) e where "res = Err e" "d' = d"
  | (Lost) e where "res = Err e" "d' = fanout env r names d" "\<not> has_key (dedupe_key r) d"
      "wf_db d \<longrightarrow> wf_db d'"
  | (Dup) i where "res = Ok (SR_Duplicate (ReceiptId i))" "d' = d"
      "\<exists>row \<in> set (receipts d). rr_dedupe_key row = dedupe_key r \<and> rr_receipt_id row = i"
  | (Stored) "res = Ok SR_Stored" "d' = fanout env r names d" "\<not> has_key (dedupe_key r) d"
      "wf_db d \<longrightarrow> wf_db d'"
proof (cases rule: insert_receipt_tx_cases[where env = env and d = d and r = r])
  case (NoBegin e)
  then show ?thesis using assms Unchanged by (auto simp: store_with_deliveries_def)
next
  case (NoInsert e)
  then show ?thesis using assms Unchanged by (auto simp: store_with_deliveries_def)
next
  case Present
  then have "d' = d \<and> ((\<exists>e. res = Err e) \<or> (\<exists>i. res = Ok (SR_Duplicate (ReceiptId i))
      \<and> select_id_by_dedupe_key (dedupe_key r) d = Ok i))"
    using assms by (auto simp: store_with_deliveries_def read_stmt_Ok split: result.splits)
  then show ?thesis using Unchanged Dup select_id_Ok by blast
next
  case (Inserted a)
  let ?tx = "d\<lparr>receipts := receipts d @ [row_of r]\<rparr>"
  show ?thesis
  proof (cases "insert_pending_deliveries env 2 0 (rid_uuid (receipt_id r)) names ?tx")
    case (Err e)
    then show ?thesis using assms Inserted Unchanged by (auto simp: store_with_deliveries_def)
  next
    case (Ok p)
    obtain dids tx2 where p: "p = (dids, tx2)" by (cases p)
    have tx2: "tx2 = fanout env r names d" "wf_db d \<longrightarrow> wf_db tx2"
      using insert_pending_Ok[OF Ok[unfolded p]] Inserted(4) by (auto simp: fanout_def)
    have "commit_tx (e_io env (2 + length names)) SR_Stored tx2 d = (res, d')"
      using assms Inserted Ok p by (simp add: store_with_deliveries_def)
    then consider "res = Ok SR_Stored" "d' = tx2" | e where "res = Err e" "d' = d"
      | e where "res = Err e" "d' = tx2"
      by (auto simp: commit_tx_def split: io.splits)
    then show ?thesis
      using tx2 Inserted(3) Unchanged Lost Stored by cases blast+
  qed
qed

lemma find_receipt:
  "wf_db d \<Longrightarrow> row \<in> set (receipts d) \<Longrightarrow>
   find (\<lambda>r. rr_receipt_id r = rr_receipt_id row) (receipts d) = Some row"
  by (rule find_distinct_key) (simp_all add: wf_db_def)

lemma storage_get_Ok:
  assumes "wf_db d" and "row \<in> set (receipts d)" and "rr_receipt_id row = u"
  shows "storage_get IO_Ok u d = Ok (Some (decode_receipt row))"
proof -
  have "is_ok (receipt_from_row row)" using assms by (simp add: wf_db_def list_all_iff)
  then show ?thesis using find_receipt[OF assms(1,2)] assms(3)
    by (simp add: storage_get_def read_stmt_def decode_receipt_Ok)
qed

section \<open>Concrete inputs\<close>

definition env_ok :: "timestamp \<Rightarrow> nat \<Rightarrow> dbenv" where
  "env_ok t base =
     \<lparr>e_now = t, e_uuid = (\<lambda>k. of_nat (base + k)), e_io = (\<lambda>_. IO_Ok), e_locked = []\<rparr>"

definition sample_receipt :: "uuid \<Rightarrow> string \<Rightarrow> webhook_receipt" where
  "sample_receipt u key =
     \<lparr>receipt_id = ReceiptId u, provider_name = ''stripe'', provider_event_id = None,
      external_reference = None, dedupe_key = key, payload_hash = ''h'', raw_body = ''{}'',
      parsed_payload = None, raw_headers = JObject [], normalized_event_type = None,
      verification_status = VS_Verified, verification_reason = None, processing_state = PS_Stored,
      emit_count = 0, last_error = None, received_at = 1, processed_at = None,
      metadata = JObject []\<rparr>"

lemma sample_receipt_sel [simp]:
  "receipt_id (sample_receipt u key) = ReceiptId u" "dedupe_key (sample_receipt u key) = key"
  by (simp_all add: sample_receipt_def)

section \<open>Properties of the receipt store\<close>

text \<open>C4. Fan-out is atomic under every fault: whatever fails and whichever reply is lost, the
  database is either untouched or holds the new receipt together with exactly one pending row per
  emitter, in order; \<^verbatim>\<open>Stored\<close> is only answered in the second case, \<^verbatim>\<open>Duplicate\<close> only when a receipt
  with the same key is there, and then nothing changes.\<close>

theorem store_with_deliveries_atomic:
  assumes "store_with_deliveries env r names d = (res, d')"
  shows "(d' = d \<or> d' = fanout env r names d \<and> \<not> has_key (dedupe_key r) d)
    \<and> (res = Ok SR_Stored \<longrightarrow> d' = fanout env r names d)
    \<and> (res = Ok (SR_Duplicate i) \<longrightarrow>
         d' = d \<and> (\<exists>row \<in> set (receipts d). rr_dedupe_key row = dedupe_key r
                      \<and> ReceiptId (rr_receipt_id row) = i))"
  using assms by (cases rule: store_with_deliveries_cases) auto

theorem store_with_deliveries_atomic_witness:
  "store_with_deliveries ((env_ok 5 10)\<lparr>e_io := (\<lambda>k. if k = 3 then IO_Failed ''lost'' else IO_Ok)\<rparr>)
     (sample_receipt 1 ''k'') [''a'', ''b''] empty_db = (Err (SE_Internal ''lost''), empty_db)
   \<and> snd (store_with_deliveries (env_ok 5 10) (sample_receipt 1 ''k'') [''a''] empty_db)
     = fanout (env_ok 5 10) (sample_receipt 1 ''k'') [''a''] empty_db"
proof
  show "store_with_deliveries ((env_ok 5 10)\<lparr>e_io := (\<lambda>k. if k = 3 then IO_Failed ''lost'' else IO_Ok)\<rparr>)
     (sample_receipt 1 ''k'') [''a'', ''b''] empty_db = (Err (SE_Internal ''lost''), empty_db)"
    by (simp add: store_with_deliveries_def env_ok_def sample_receipt_def empty_db_def tx_stmt_def
        insert_receipt_def has_key_def has_receipt_def has_delivery_def receipt_to_row_def
        insert_delivery_def)
  have "store_with_deliveries (env_ok 5 10) (sample_receipt 1 ''k'') [''a''] empty_db =
      (Ok SR_Stored, snd (store_with_deliveries (env_ok 5 10) (sample_receipt 1 ''k'') [''a''] empty_db))"
    by (simp add: store_with_deliveries_def env_ok_def sample_receipt_def empty_db_def tx_stmt_def
        insert_receipt_def has_key_def has_receipt_def has_delivery_def receipt_to_row_def
        insert_delivery_def commit_tx_def)
  from store_with_deliveries_atomic[OF this]
  show "snd (store_with_deliveries (env_ok 5 10) (sample_receipt 1 ''k'') [''a''] empty_db)
     = fanout (env_ok 5 10) (sample_receipt 1 ''k'') [''a''] empty_db" by blast
qed

lemma insert_pending_succeeds:
  assumes "\<And>k. e_io env k = IO_Ok" and "has_receipt rid tx"
    and "distinct (map (e_uuid env) [k ..< k + length names])"
    and "\<forall>i \<in> {k ..< k + length names}. \<not> has_delivery (e_uuid env i) tx"
  shows "\<exists>dids. insert_pending_deliveries env io0 k rid names tx =
           Ok (dids, tx\<lparr>deliveries := deliveries tx @ pending_rows env k rid names\<rparr>)"
  using assms(2-)
proof (induction names arbitrary: k tx)
  case (Cons n names)
  let ?tx = "tx\<lparr>deliveries := deliveries tx @ [pending_row (e_now env) (e_uuid env k) rid n]\<rparr>"
  have up: "[k ..< k + length (n # names)] = k # [Suc k ..< Suc k + length names]"
    by (simp add: upt_conv_Cons del: upt_Suc)
  have "insert_delivery (e_now env) (e_uuid env k) rid n tx = Ok (e_uuid env k, ?tx)"
    using Cons.prems by (simp add: insert_delivery_def)
  moreover have "\<exists>dids. insert_pending_deliveries env io0 (Suc k) rid names ?tx =
      Ok (dids, ?tx\<lparr>deliveries := deliveries ?tx @ pending_rows env (Suc k) rid names\<rparr>)"
  proof (rule Cons.IH)
    show "has_receipt rid ?tx" using Cons.prems(1) by simp
    show "distinct (map (e_uuid env) [Suc k ..< Suc k + length names])"
      using Cons.prems(2) unfolding up by simp
    show "\<forall>i \<in> {Suc k ..< Suc k + length names}. \<not> has_delivery (e_uuid env i) ?tx"
    proof
      fix i assume i: "i \<in> {Suc k ..< Suc k + length names}"
      then have "e_uuid env k \<noteq> e_uuid env i"
        using Cons.prems(2) unfolding up by (auto simp del: upt_Suc)
      then show "\<not> has_delivery (e_uuid env i) ?tx"
        using Cons.prems(3) i by (auto simp: has_delivery_iff pending_row_def)
    qed
  qed
  ultimately show ?case using assms(1) by (auto simp: tx_stmt_def)
qed simp

text \<open>Without faults, a receipt with a new key and fresh random identifiers is stored with its
  whole fan-out, and reading it back by its id gives exactly the receipt that was passed in.\<close>

lemma store_with_deliveries_round_trip:
  assumes "wf_db d" and "\<And>k. e_io env k = IO_Ok"
    and "\<not> has_key (dedupe_key r) d" and "\<not> has_receipt (rid_uuid (receipt_id r)) d"
    and "distinct (map (e_uuid env) [0 ..< length names])"
    and "\<forall>i \<in> {0 ..< length names}. \<not> has_delivery (e_uuid env i) d"
  shows "store_with_deliveries env r names d = (Ok SR_Stored, fanout env r names d)
    \<and> storage_get IO_Ok (rid_uuid (receipt_id r)) (fanout env r names d) = Ok (Some r)"
proof -
  let ?tx = "d\<lparr>receipts := receipts d @ [row_of r]\<rparr>"
  have ins: "insert_receipt (row_of r) d = Ok (Some (rid_uuid (receipt_id r)), ?tx)"
    using assms by (simp add: insert_receipt_def)
  have "\<exists>dids. insert_pending_deliveries env 2 0 (rid_uuid (receipt_id r)) names ?tx =
      Ok (dids, ?tx\<lparr>deliveries := deliveries ?tx @ pending_rows env 0 (rid_uuid (receipt_id r)) names\<rparr>)"
    using assms by (intro insert_pending_succeeds) (simp_all add: table_iffs)
  then obtain dids where
    "insert_pending_deliveries env 2 0 (rid_uuid (receipt_id r)) names ?tx = Ok (dids, fanout env r names d)"
    by (auto simp: fanout_def)
  then have st: "store_with_deliveries env r names d = (Ok SR_Stored, fanout env r names d)"
    using assms(2) ins by (simp add: store_with_deliveries_def tx_stmt_def commit_tx_def)
  then have "wf_db (fanout env r names d)"
    using assms(1) by (cases rule: store_with_deliveries_cases) auto
  then have "storage_get IO_Ok (rid_uuid (receipt_id r)) (fanout env r names d) =
      Ok (Some (decode_receipt (row_of r)))"
    by (rule storage_get_Ok) (simp_all add: fanout_def)
  then show ?thesis using st by simp
qed

text \<open>Listing: there is one ordering of the matching receipts, newest first, of which every page
  \<^verbatim>\<open>(limit, offset)\<close> is the corresponding slice; so pages neither overlap nor miss a receipt.\<close>

lemma storage_query_pages:
  assumes "wf_db d"
  shows "\<exists>matching.
    mset matching = mset (map decode_receipt
        (filter (filter_matches f (map_option processing_state_name (rf_processing_state f))) (receipts d)))
    \<and> sorted_wrt (\<lambda>a b. received_at a \<ge> received_at b) matching
    \<and> (\<forall>l off. storage_query IO_Ok (f\<lparr>rf_limit := Some (int l), rf_offset := Some (int off)\<rparr>) d
                = Ok (take l (drop off matching)))"
proof -
  let ?p = "filter_matches f (map_option processing_state_name (rf_processing_state f))"
  let ?rows = "newest_first (filter ?p (receipts d))"
  have ok: "receipt_from_row r = Ok (decode_receipt r)" if "r \<in> set ?rows" for r
    using that assms by (intro decode_receipt_Ok) (auto simp: newest_first_def wf_db_def list_all_iff)
  have recv: "received_at (decode_receipt r) = rr_received_at r" if "r \<in> set ?rows" for r
    using ok[OF that] by (intro decode_receipt_received_at) simp
  have "sorted (map (\<lambda>r. - rr_received_at r) ?rows)" by (simp add: newest_first_def)
  then have "sorted_wrt (\<lambda>a b. rr_received_at a \<ge> rr_received_at b) ?rows"
    by (simp add: sorted_map)
  then have sorted: "sorted_wrt (\<lambda>a b. received_at a \<ge> received_at b) (map decode_receipt ?rows)"
    unfolding sorted_wrt_map by (rule sorted_wrt_mono_rel[rotated]) (simp add: recv)
  have page: "storage_query IO_Ok (f\<lparr>rf_limit := Some (int l), rf_offset := Some (int off)\<rparr>) d
      = Ok (take l (drop off (map decode_receipt ?rows)))" for l off
  proof -
    have "collect_results receipt_from_row (take l (drop off ?rows)) =
          Ok (map decode_receipt (take l (drop off ?rows)))"
      by (rule collect_results_all_Ok) (meson ok in_set_takeD in_set_dropD)
    moreover have "filter_matches (f\<lparr>rf_limit := Some (int l), rf_offset := Some (int off)\<rparr>)
        (map_option processing_state_name (rf_processing_state f)) = ?p"
      by (simp add: filter_matches_def fun_eq_iff)
    ultimately show ?thesis
      by (simp add: storage_query_def read_stmt_def sql_window_def take_map drop_map)
  qed
  show ?thesis
    by (intro exI[of _ "map decode_receipt ?rows"] conjI allI sorted page)
      (simp add: newest_first_def)
qed

text \<open>The SQL \<^verbatim>\<open>CASE\<close> of \<^verbatim>\<open>retry_failed\<close> computes exactly the pure rule \<^verbatim>\<open>retry_next_state\<close> on the
  addressed receipt, and leaves every other receipt and all deliveries alone.\<close>

lemma retry_failed_mirrors_retry_next_state:
  assumes "wf_db d" and "row \<in> set (receipts d)" and "rr_receipt_id row = u"
    and "is_i32 (rr_emit_count row + 1)" and "e_io env 0 = IO_Ok"
  shows "\<exists>d'. retry_failed env u max_att d = (Ok (), d') \<and> deliveries d' = deliveries d
    \<and> (\<exists>row'. find (\<lambda>r. rr_receipt_id r = u) (receipts d') = Some row'
        \<and> (let (count, st) = retry_next_state (rr_emit_count row) max_att in
            row' = row\<lparr>rr_emit_count := count, rr_processing_state := processing_state_name st\<rparr>))
    \<and> filter (\<lambda>r. rr_receipt_id r \<noteq> u) (receipts d') = filter (\<lambda>r. rr_receipt_id r \<noteq> u) (receipts d)"
proof -
  let ?f = "\<lambda>r. r\<lparr>rr_emit_count := rr_emit_count r + 1, rr_processing_state :=
      (if rr_emit_count r + 1 \<ge> max_att then ''dead_lettered'' else ''emit_failed'')\<rparr>"
  let ?d' = "d\<lparr>receipts := map (\<lambda>r. if rr_receipt_id r = u then ?f r else r) (receipts d)\<rparr>"
  have uniq: "r = row" if "r \<in> set (receipts d)" "rr_receipt_id r = u" for r
    using find_receipt[OF assms(1) that(1)] find_receipt[OF assms(1,2)] that(2) assms(3) by simp
  have "retry_failed_stmt u max_att d = update_receipts u ?f d"
    using uniq assms(4) by (auto simp: retry_failed_stmt_def list_ex_iff is_i32_def)
  then have run: "retry_failed env u max_att d = (Ok (), ?d')"
    using assms(5) by (simp add: retry_failed_def exec_stmt_def update_receipts_def)
  have fnd: "find (\<lambda>r. rr_receipt_id r = u) (map (\<lambda>r. if rr_receipt_id r = u then g r else r) rs) =
      map_option g (find (\<lambda>r. rr_receipt_id r = u) rs)"
    if "\<And>r. rr_receipt_id (g r) = rr_receipt_id r" for g :: "receipt_row \<Rightarrow> receipt_row" and rs
    using that by (induction rs) auto
  have flt: "filter (\<lambda>r. rr_receipt_id r \<noteq> u) (map (\<lambda>r. if rr_receipt_id r = u then g r else r) rs) =
      filter (\<lambda>r. rr_receipt_id r \<noteq> u) rs"
    if "\<And>r. rr_receipt_id (g r) = rr_receipt_id r" for g :: "receipt_row \<Rightarrow> receipt_row" and rs
    using that by (induction rs) auto
  have "find (\<lambda>r. rr_receipt_id r = u) (receipts ?d') = Some (?f row)"
    using find_receipt[OF assms(1,2)] assms(3) by (simp add: fnd)
  moreover have "filter (\<lambda>r. rr_receipt_id r \<noteq> u) (receipts ?d') =
      filter (\<lambda>r. rr_receipt_id r \<noteq> u) (receipts d)"
    by (simp add: flt)
  ultimately show ?thesis
    using run assms(4)
    by (auto simp: retry_next_state_def i32_saturating_add_exact Let_def)
qed

lemma retry_failed_mirrors_example:
  "\<exists>d'. retry_failed (env_ok 5 10) 1 3 (fanout (env_ok 5 10) (sample_receipt 1 ''k'') [] empty_db) = (Ok (), d')
     \<and> map rr_processing_state (receipts d') = [''emit_failed'']"
proof -
  let ?d = "fanout (env_ok 5 10) (sample_receipt 1 ''k'') [] empty_db"
  have "wf_db ?d" "row_of (sample_receipt 1 ''k'') \<in> set (receipts ?d)"
    by (simp_all add: fanout_def empty_db_def wf_db_def)
  then obtain d' where d': "retry_failed (env_ok 5 10) 1 3 ?d = (Ok (), d')"
    using retry_failed_mirrors_retry_next_state[of ?d "row_of (sample_receipt 1 ''k'')" 1 "env_ok 5 10" 3]
    by (auto simp: sample_receipt_def receipt_to_row_def is_i32_def i32_min_def i32_max_def env_ok_def)
  then show ?thesis
    by (auto simp: retry_failed_def exec_stmt_def retry_failed_stmt_def update_receipts_def env_ok_def
        fanout_def empty_db_def sample_receipt_def receipt_to_row_def i32_max_def)
qed

end
