(* ===== verification/Dedupe.thy ===== *)
theory Dedupe
  imports Postgres
begin

text \<open>
  The advisory duplicate detection of \<^verbatim>\<open>crates/hookbox/src/dedupe.rs\<close> and
  \<^verbatim>\<open>crates/hookbox-postgres/src/dedupe.rs\<close>: the bounded in-memory cache, the table lookup, and their
  layered composition. The contract of the trait \<^verbatim>\<open>DedupeStrategy\<close> is the locale
  \<open>dedupe_strategy\<close>: a strategy may forget, but it never calls a pair a duplicate that was not
  recorded. The cache is shown to be a bounded first-in-first-out queue, and each strategy to meet
  the contract.
\<close>

type_synonym 'a dedupe_answer = "('a, dedupe_error) result"

definition decide :: "string option \<Rightarrow> string \<Rightarrow> dedupe_decision" where
  "decide stored h =
     (case stored of None \<Rightarrow> DD_New | Some h' \<Rightarrow> if h' = h then DD_Duplicate else DD_Conflict)"

section \<open>InMemoryRecentDedupe\<close>

text \<open>Each method runs with the mutex held, so it is one atomic step on the inner state. The
  \<^verbatim>\<open>HashMap\<close> is an association list with distinct keys, the \<^verbatim>\<open>VecDeque\<close> a list.\<close>

record recent_dedupe =
  rd_capacity :: nat
  rd_map :: "(string \<times> string) list"
  rd_order :: "string list"

text \<open>\<open>None\<close>: the assertion on the capacity panics.\<close>

definition recent_new :: "nat \<Rightarrow> recent_dedupe option" where
  "recent_new capacity =
     (if capacity > 0 then Some \<lparr>rd_capacity = capacity, rd_map = [], rd_order = []\<rparr> else None)"

definition recent_check :: "recent_dedupe \<Rightarrow> string \<Rightarrow> string \<Rightarrow> dedupe_decision dedupe_answer" where
  "recent_check s k h =
     (case map_of (rd_map s) k of
        None \<Rightarrow> Ok DD_New
      | Some stored_hash \<Rightarrow> if stored_hash = h then Ok DD_Duplicate else Ok DD_Conflict)"

definition recent_evict :: "recent_dedupe \<Rightarrow> recent_dedupe" where
  "recent_evict s =
     (if length (rd_map s) \<ge> rd_capacity s
      then (case rd_order s of [] \<Rightarrow> s
            | oldest_key # rest \<Rightarrow> s\<lparr>rd_map := AList.delete oldest_key (rd_map s), rd_order := rest\<rparr>)
      else s)"

definition recent_record ::
  "recent_dedupe \<Rightarrow> string \<Rightarrow> string \<Rightarrow> unit dedupe_answer \<times> recent_dedupe" where
  "recent_record s k h =
     (if k \<in> set (map fst (rd_map s)) then (Ok (), s)
      else let s1 = recent_evict s in
        (Ok (), s1\<lparr>rd_map := AList.update k h (rd_map s1), rd_order := rd_order s1 @ [k]\<rparr>))"

section \<open>StorageDedupe\<close>

definition storage_dedupe_check ::
  "io \<Rightarrow> db \<Rightarrow> string \<Rightarrow> string \<Rightarrow> dedupe_decision dedupe_answer" where
  "storage_dedupe_check out d k h =
     (case out of
        IO_Failed e \<Rightarrow> Err (DE_Internal e)
      | IO_Lost e \<Rightarrow> Err (DE_Internal e)
      | IO_Ok \<Rightarrow> (case map_option rr_payload_hash (find (\<lambda>r. rr_dedupe_key r = k) (receipts d)) of
                    None \<Rightarrow> Ok DD_New
                  | Some h' \<Rightarrow> if h' = h then Ok DD_Duplicate else Ok DD_Conflict))"

definition storage_dedupe_record :: "db \<Rightarrow> string \<Rightarrow> string \<Rightarrow> unit dedupe_answer \<times> db" where
  "storage_dedupe_record d k h = (Ok (), d)"

section \<open>LayeredDedupe\<close>

definition layered_check ::
  "('f \<Rightarrow> string \<Rightarrow> string \<Rightarrow> dedupe_decision dedupe_answer)
     \<Rightarrow> ('a \<Rightarrow> string \<Rightarrow> string \<Rightarrow> dedupe_decision dedupe_answer)
     \<Rightarrow> 'f \<times> 'a \<Rightarrow> string \<Rightarrow> string \<Rightarrow> dedupe_decision dedupe_answer" where
  "layered_check fast_check auth_check s k h =
     (case fast_check (fst s) k h of
        Err e \<Rightarrow> Err e
      | Ok DD_New \<Rightarrow> auth_check (snd s) k h
      | Ok other \<Rightarrow> Ok other)"

definition layered_record ::
  "('f \<Rightarrow> string \<Rightarrow> string \<Rightarrow> unit dedupe_answer \<times> 'f)
     \<Rightarrow> ('a \<Rightarrow> string \<Rightarrow> string \<Rightarrow> unit dedupe_answer \<times> 'a)
     \<Rightarrow> 'f \<times> 'a \<Rightarrow> string \<Rightarrow> string \<Rightarrow> unit dedupe_answer \<times> ('f \<times> 'a)" where
  "layered_record fast_record auth_record s k h =
     (case fast_record (fst s) k h of
        (Err e, f1) \<Rightarrow> (Err e, (f1, snd s))
      | (Ok _, f1) \<Rightarrow>
          (case auth_record (snd s) k h of
             (Err e, a1) \<Rightarrow> (Err e, (f1, a1))
           | (Ok _, a1) \<Rightarrow> (Ok (), (f1, a1))))"

section \<open>The contract\<close>

text \<open>
  \<open>seen\<close> is what the strategy may remember. A decision other than \<^verbatim>\<open>New\<close> is justified by it, and
  recording adds at most the recorded pair; \<^verbatim>\<open>New\<close> promises nothing.
\<close>

locale dedupe_strategy =
  fixes check :: "'s \<Rightarrow> string \<Rightarrow> string \<Rightarrow> dedupe_decision dedupe_answer"
    and recrd :: "'s \<Rightarrow> string \<Rightarrow> string \<Rightarrow> unit dedupe_answer \<times> 's"
    and inv :: "'s \<Rightarrow> bool"
    and seen :: "'s \<Rightarrow> (string \<times> string) set"
  assumes check_Duplicate: "inv s \<Longrightarrow> check s k h = Ok DD_Duplicate \<Longrightarrow> (k, h) \<in> seen s"
    and check_Conflict: "inv s \<Longrightarrow> check s k h = Ok DD_Conflict \<Longrightarrow> \<exists>h'. h' \<noteq> h \<and> (k, h') \<in> seen s"
    and record_inv: "inv s \<Longrightarrow> inv (snd (recrd s k h))"
    and record_seen: "inv s \<Longrightarrow> seen (snd (recrd s k h)) \<subseteq> insert (k, h) (seen s)"
begin

definition run :: "'s \<Rightarrow> (string \<times> string) list \<Rightarrow> 's" where
  "run s ps = fold (\<lambda>(k, h) s. snd (recrd s k h)) ps s"

lemma run_inv: "inv s \<Longrightarrow> inv (run s ps)"
  by (induction ps arbitrary: s) (auto simp: run_def record_inv)

lemma run_seen: "inv s \<Longrightarrow> seen (run s ps) \<subseteq> seen s \<union> set ps"
proof (induction ps arbitrary: s)
  case (Cons p ps)
  obtain k h where p: "p = (k, h)" by (cases p)
  have "seen (run (snd (recrd s k h)) ps) \<subseteq> seen (snd (recrd s k h)) \<union> set ps"
    using Cons record_inv by blast
  then show ?case using record_seen[OF Cons.prems, of k h] by (auto simp: run_def p)
qed (simp add: run_def)

lemma no_false_positive:
  assumes "inv s" "seen s = {}"
  shows "check (run s ps) k h = Ok DD_Duplicate \<longrightarrow> (k, h) \<in> set ps"
    and "check (run s ps) k h = Ok DD_Conflict \<longrightarrow> (\<exists>h'. h' \<noteq> h \<and> (k, h') \<in> set ps)"
  using check_Duplicate[OF run_inv] check_Conflict[OF run_inv] run_seen[of s ps] assms by blast+

end

locale layered_dedupe =
  F: dedupe_strategy fast_check fast_record fast_inv fast_seen +
  A: dedupe_strategy auth_check auth_record auth_inv auth_seen
  for fast_check :: "'f \<Rightarrow> string \<Rightarrow> string \<Rightarrow> dedupe_decision dedupe_answer"
    and fast_record fast_inv fast_seen
    and auth_check :: "'a \<Rightarrow> string \<Rightarrow> string \<Rightarrow> dedupe_decision dedupe_answer"
    and auth_record auth_inv auth_seen

sublocale layered_dedupe \<subseteq> L: dedupe_strategy "layered_check fast_check auth_check"
  "layered_record fast_record auth_record" "\<lambda>s. fast_inv (fst s) \<and> auth_inv (snd s)"
  "\<lambda>s. fast_seen (fst s) \<union> auth_seen (snd s)"
proof (unfold_locales, goal_cases)
  case (1 s k h)
  then show ?case using F.check_Duplicate A.check_Duplicate
    by (auto simp: layered_check_def split: result.splits dedupe_decision.splits)
next
  case (2 s k h)
  then show ?case using F.check_Conflict A.check_Conflict
    by (auto simp: layered_check_def split: result.splits dedupe_decision.splits) blast+
next
  case (3 s k h)
  then show ?case using F.record_inv[of "fst s" k h] A.record_inv[of "snd s" k h]
    by (auto simp: layered_record_def split: result.splits prod.splits)
next
  case (4 s k h)
  then show ?case using F.record_seen[of "fst s" k h] A.record_seen[of "snd s" k h]
    by (auto simp: layered_record_def split: result.splits prod.splits)
qed

section \<open>The cache is a bounded queue\<close>

definition recent_inv :: "recent_dedupe \<Rightarrow> bool" where
  "recent_inv s \<longleftrightarrow>
     rd_capacity s > 0 \<and> distinct (map fst (rd_map s)) \<and> distinct (rd_order s)
     \<and> set (rd_order s) = fst ` set (rd_map s) \<and> length (rd_map s) \<le> rd_capacity s"

text \<open>The abstract cache: pairs in the order they were recorded, newest last.\<close>

definition recent_abs :: "recent_dedupe \<Rightarrow> (string \<times> string) list" where
  "recent_abs s = map (\<lambda>k. (k, the (map_of (rd_map s) k))) (rd_order s)"

definition fifo_check :: "(string \<times> string) list \<Rightarrow> string \<Rightarrow> string \<Rightarrow> dedupe_decision" where
  "fifo_check q k h = decide (map_of q k) h"

definition fifo_record ::
  "nat \<Rightarrow> (string \<times> string) list \<Rightarrow> string \<Rightarrow> string \<Rightarrow> (string \<times> string) list" where
  "fifo_record cap q k h =
     (if k \<in> fst ` set q then q else drop (Suc (length q) - cap) (q @ [(k, h)]))"

lemma recent_new_inv: "recent_new cap = Some s \<Longrightarrow> recent_inv s \<and> recent_abs s = [] \<and> rd_capacity s = cap"
  by (auto simp: recent_new_def recent_inv_def recent_abs_def split: if_splits)

lemma recent_inv_lengths: "recent_inv s \<Longrightarrow> length (rd_order s) = length (rd_map s)"
  by (metis recent_inv_def distinct_card length_map list.set_map)

lemma fst_recent_abs [simp]: "map fst (recent_abs s) = rd_order s"
  by (simp add: recent_abs_def comp_def)

lemma length_recent_abs [simp]: "length (recent_abs s) = length (rd_order s)"
  by (simp add: recent_abs_def)

lemma fst_set_recent_abs [simp]: "fst ` set (recent_abs s) = set (rd_order s)"
  by (metis fst_recent_abs list.set_map)

lemma map_of_map_key: "map_of (map (\<lambda>k. (k, f k)) ks) k = (if k \<in> set ks then Some (f k) else None)"
  by (induction ks) auto

lemma map_of_recent_abs:
  assumes "recent_inv s" shows "map_of (recent_abs s) = map_of (rd_map s)"
proof
  fix k
  have "k \<in> set (rd_order s) \<longleftrightarrow> map_of (rd_map s) k \<noteq> None"
    using assms by (simp add: recent_inv_def map_of_eq_None_iff)
  then show "map_of (recent_abs s) k = map_of (rd_map s) k"
    by (auto simp: recent_abs_def map_of_map_key)
qed

lemma alist_update_new: "k \<notin> fst ` set m \<Longrightarrow> AList.update k v m = m @ [(k, v)]"
  by (induction m) auto

lemma recent_evict_inv:
  assumes "recent_inv s"
  shows "recent_inv (recent_evict s)" "length (rd_map (recent_evict s)) < rd_capacity s"
    "rd_capacity (recent_evict s) = rd_capacity s"
    "recent_abs (recent_evict s) = drop (Suc (length (recent_abs s)) - rd_capacity s) (recent_abs s)"
proof -
  note len = recent_inv_lengths[OF assms]
  consider (room) "length (rd_map s) < rd_capacity s"
    | (full) x xs where "length (rd_map s) = rd_capacity s" "rd_order s = x # xs"
    using assms len
    by (cases "rd_order s"; cases "length (rd_map s) < rd_capacity s") (auto simp: recent_inv_def)
  then have "recent_inv (recent_evict s) \<and> length (rd_map (recent_evict s)) < rd_capacity s
    \<and> rd_capacity (recent_evict s) = rd_capacity s
    \<and> recent_abs (recent_evict s) = drop (Suc (length (recent_abs s)) - rd_capacity s) (recent_abs s)"
  proof cases
    case room
    then show ?thesis using assms len by (simp add: recent_evict_def)
  next
    case full
    let ?s = "s\<lparr>rd_map := AList.delete x (rd_map s), rd_order := xs\<rparr>"
    have ev: "recent_evict s = ?s" using full by (simp add: recent_evict_def)
    have x: "x \<notin> set xs" "distinct xs" "insert x (set xs) = fst ` set (rd_map s)"
      using assms full(2) by (auto simp: recent_inv_def)
    have keys: "fst ` set (AList.delete x (rd_map s)) = set xs"
      using arg_cong[OF delete_keys[of x "rd_map s"], of set] x by auto
    have d: "distinct (map fst (AList.delete x (rd_map s)))"
      using assms by (simp add: recent_inv_def distinct_delete)
    have "length (AList.delete x (rd_map s)) = length xs"
      using distinct_card[OF d] keys distinct_card[OF x(2)] by simp
    moreover have "Suc (length xs) = length (rd_map s)" using len full by simp
    ultimately have l: "Suc (length (AList.delete x (rd_map s))) = rd_capacity s" using full by simp
    have "recent_inv ?s" using assms d keys x l by (simp add: recent_inv_def)
    moreover have "recent_abs ?s = drop 1 (recent_abs s)"
      using x full by (auto simp: recent_abs_def delete_conv)
    ultimately show ?thesis using ev l full len by (simp add: Suc_diff_le)
  qed
  then show "recent_inv (recent_evict s)" "length (rd_map (recent_evict s)) < rd_capacity s"
    "rd_capacity (recent_evict s) = rd_capacity s"
    "recent_abs (recent_evict s) = drop (Suc (length (recent_abs s)) - rd_capacity s) (recent_abs s)"
    by blast+
qed

lemma recent_record_refines:
  assumes "recent_inv s" and "recent_record s k h = (r, s')"
  shows "r = Ok () \<and> recent_inv s' \<and> rd_capacity s' = rd_capacity s
    \<and> recent_abs s' = fifo_record (rd_capacity s) (recent_abs s) k h"
proof (cases "k \<in> fst ` set (rd_map s)")
  case True
  then have "s' = s" "r = Ok ()" using assms(2) by (auto simp: recent_record_def)
  moreover have "k \<in> set (rd_order s)" using True assms(1) by (simp add: recent_inv_def)
  ultimately show ?thesis using assms(1) by (simp add: fifo_record_def)
next
  case False
  let ?e = "recent_evict s"
  note ev = recent_evict_inv[OF assms(1)]
  have s': "s' = ?e\<lparr>rd_map := AList.update k h (rd_map ?e), rd_order := rd_order ?e @ [k]\<rparr>"
    and r: "r = Ok ()" using assms(2) False by (auto simp: recent_record_def Let_def)
  have "set (rd_order ?e) \<subseteq> set (rd_order s)"
    by (auto simp: recent_evict_def split: list.splits)
  then have new: "k \<notin> set (rd_order ?e)" "k \<notin> set (rd_order s)" "k \<notin> fst ` set (rd_map ?e)"
    using False assms(1) ev(1) by (auto simp: recent_inv_def)
  have upd: "AList.update k h (rd_map ?e) = rd_map ?e @ [(k, h)]"
    using new(3) by (rule alist_update_new)
  have "recent_inv s'"
    using ev new unfolding s' upd by (auto simp: recent_inv_def)
  moreover have "recent_abs s' = recent_abs ?e @ [(k, h)]"
  proof -
    have "map_of (rd_map ?e @ [(k, h)]) x = (if x = k then Some h else map_of (rd_map ?e) x)" for x
      using new(3) map_of_eq_None_iff[of "rd_map ?e" k] by (auto simp: map_add_def split: option.split)
    then show ?thesis using new(1) unfolding s' upd by (auto simp: recent_abs_def)
  qed
  moreover have "Suc (length (recent_abs s)) - rd_capacity s \<le> length (recent_abs s)"
    using assms(1) by (auto simp: recent_inv_def)
  ultimately show ?thesis
    using r new ev(3,4) s' by (simp add: fifo_record_def)
qed

lemma recent_check_refines:
  "recent_inv s \<Longrightarrow> recent_check s k h = Ok (fifo_check (recent_abs s) k h)"
  by (simp add: recent_check_def fifo_check_def decide_def map_of_recent_abs split: option.split)

lemma set_fifo_record: "set (fifo_record cap q k h) \<subseteq> insert (k, h) (set q)"
  by (auto simp: fifo_record_def dest: in_set_dropD)

lemma fifo_check_seen:
  "fifo_check q k h = DD_Duplicate \<Longrightarrow> (k, h) \<in> set q"
  "fifo_check q k h = DD_Conflict \<Longrightarrow> \<exists>h'. h' \<noteq> h \<and> (k, h') \<in> set q"
  by (auto simp: fifo_check_def decide_def dest: map_of_SomeD split: option.splits if_splits)

interpretation recent: dedupe_strategy recent_check recent_record recent_inv "\<lambda>s. set (recent_abs s)"
proof (unfold_locales, goal_cases)
  case (1 s k h) then show ?case by (simp add: recent_check_refines fifo_check_seen)
next
  case (2 s k h) then show ?case by (simp add: recent_check_refines fifo_check_seen)
next
  case (3 s k h) then show ?case using recent_record_refines[of s k h] by (metis prod.collapse)
next
  case (4 s k h) then show ?case
    using recent_record_refines[of s k h] set_fifo_record by (metis prod.collapse)
qed

definition row_pairs :: "db \<Rightarrow> (string \<times> string) set" where
  "row_pairs d = (\<lambda>r. (rr_dedupe_key r, rr_payload_hash r)) ` set (receipts d)"

lemma row_pairs_iff:
  assumes "wf_db d"
  shows "(k, h) \<in> row_pairs d \<longleftrightarrow>
    map_option rr_payload_hash (find (\<lambda>r. rr_dedupe_key r = k) (receipts d)) = Some h"
proof
  assume "(k, h) \<in> row_pairs d"
  then obtain r where r: "r \<in> set (receipts d)" "rr_dedupe_key r = k" "rr_payload_hash r = h"
    by (auto simp: row_pairs_def)
  have "find (\<lambda>y. rr_dedupe_key y = rr_dedupe_key r) (receipts d) = Some r"
    using assms r(1) by (intro find_distinct_key) (simp_all add: wf_db_def)
  then show "map_option rr_payload_hash (find (\<lambda>r. rr_dedupe_key r = k) (receipts d)) = Some h"
    using r by simp
qed (auto simp: row_pairs_def dest!: find_key_Some)

lemma storage_dedupe_check_iff:
  assumes "wf_db d"
  shows "storage_dedupe_check IO_Ok d k h = Ok DD_Duplicate \<longleftrightarrow> (k, h) \<in> row_pairs d"
    and "storage_dedupe_check IO_Ok d k h = Ok DD_Conflict \<longleftrightarrow> (\<exists>h'. h' \<noteq> h \<and> (k, h') \<in> row_pairs d)"
    and "storage_dedupe_check IO_Ok d k h = Ok DD_New \<longleftrightarrow> \<not> has_key k d"
proof -
  have new: "find (\<lambda>r. rr_dedupe_key r = k) (receipts d) = None \<longleftrightarrow> \<not> has_key k d"
    by (auto simp: find_None_iff has_key_iff)
  show "storage_dedupe_check IO_Ok d k h = Ok DD_Duplicate \<longleftrightarrow> (k, h) \<in> row_pairs d"
    "storage_dedupe_check IO_Ok d k h = Ok DD_Conflict \<longleftrightarrow> (\<exists>h'. h' \<noteq> h \<and> (k, h') \<in> row_pairs d)"
    unfolding row_pairs_iff[OF assms]
    by (cases "find (\<lambda>r. rr_dedupe_key r = k) (receipts d)"; simp add: storage_dedupe_check_def)+
  show "storage_dedupe_check IO_Ok d k h = Ok DD_New \<longleftrightarrow> \<not> has_key k d"
    unfolding new[symmetric]
    by (cases "find (\<lambda>r. rr_dedupe_key r = k) (receipts d)"; simp add: storage_dedupe_check_def)
qed

lemma storage_dedupe_check_Ok: "storage_dedupe_check out d k h = Ok x \<Longrightarrow> out = IO_Ok"
  by (auto simp: storage_dedupe_check_def split: io.splits)

interpretation table: dedupe_strategy "storage_dedupe_check out" storage_dedupe_record wf_db row_pairs
  for out
proof (unfold_locales, goal_cases)
  case (1 s k h) then show ?case using storage_dedupe_check_Ok storage_dedupe_check_iff(1) by blast
next
  case (2 s k h) then show ?case using storage_dedupe_check_Ok storage_dedupe_check_iff(2) by blast
qed (auto simp: storage_dedupe_record_def)

interpretation layers: layered_dedupe recent_check recent_record recent_inv "\<lambda>s. set (recent_abs s)"
  "storage_dedupe_check out" storage_dedupe_record wf_db row_pairs for out
  by unfold_locales

section \<open>Properties\<close>

text \<open>C35. The cache is a bounded first-in-first-out queue: from a well-formed state, checking and
  recording act as on the abstract queue, and the state stays well-formed; in particular the map and
  the eviction order always hold the same keys and never exceed the capacity.\<close>

theorem recent_dedupe_refines_fifo:
  assumes "recent_inv s"
  shows "recent_check s k h = Ok (fifo_check (recent_abs s) k h)
    \<and> (\<exists>s'. recent_record s k h = (Ok (), s') \<and> recent_inv s'
         \<and> recent_abs s' = fifo_record (rd_capacity s) (recent_abs s) k h
         \<and> length (recent_abs s') \<le> rd_capacity s)"
proof -
  obtain r s' where rec: "recent_record s k h = (r, s')" by (cases "recent_record s k h")
  have "recent_inv s' \<and> rd_capacity s' = rd_capacity s"
    using recent_record_refines[OF assms rec] by simp
  then have "length (recent_abs s') \<le> rd_capacity s"
    using recent_inv_lengths[of s'] by (simp add: recent_inv_def)
  then show ?thesis
    using recent_record_refines[OF assms rec] recent_check_refines[OF assms] rec
    by (simp del: length_recent_abs)
qed

definition full_cache :: recent_dedupe where
  "full_cache = \<lparr>rd_capacity = 1, rd_map = [(''a'', ''1'')], rd_order = [''a'']\<rparr>"

theorem recent_dedupe_refines_fifo_witness:
  "\<exists>s'. recent_record full_cache ''b'' ''2'' = (Ok (), s') \<and> recent_abs s' = [(''b'', ''2'')]"
  using recent_dedupe_refines_fifo[of full_cache "''b''" "''2''"]
  by (auto simp: full_cache_def recent_inv_def fifo_record_def recent_abs_def)

lemma fifo_keeps:
  assumes "q = pre @ (k, h) # post" and "length post + 1 < cap" and "length q \<le> cap"
  shows "\<exists>pre' post'. fifo_record cap q k' h' = pre' @ (k, h) # post' \<and> length post' \<le> length post + 1
           \<and> length (fifo_record cap q k' h') \<le> cap"
proof (cases "k' \<in> fst ` set q")
  case True
  then show ?thesis using assms by (intro exI[of _ pre] exI[of _ post]) (simp add: fifo_record_def)
next
  case False
  let ?n = "Suc (length q) - cap"
  have n: "?n \<le> length pre" using assms by simp
  have "drop ?n (q @ [(k', h')]) = drop ?n pre @ (k, h) # (post @ [(k', h')])"
    using n assms(1) by simp
  then show ?thesis using False assms
    by (intro exI[of _ "drop ?n pre"] exI[of _ "post @ [(k', h')]"]) (simp add: fifo_record_def)
qed

lemma fifo_remembers:
  assumes "recent_inv s" and "recent_abs s = pre @ (k, h) # post"
    and "length post + length ps < rd_capacity s"
  shows "(k, h) \<in> set (recent_abs (recent.run s ps)) \<and> recent_inv (recent.run s ps)"
  using assms
proof (induction ps arbitrary: s pre post)
  case Nil
  then show ?case by (simp add: recent.run_def)
next
  case (Cons p ps)
  obtain k' h' where p: "p = (k', h')" by (cases p)
  obtain r s' where rec: "recent_record s k' h' = (r, s')" by (cases "recent_record s k' h'")
  note s' = recent_record_refines[OF Cons.prems(1) rec]
  have "length (recent_abs s) \<le> rd_capacity s"
    using Cons.prems(1) recent_inv_lengths[OF Cons.prems(1)] by (simp add: recent_inv_def)
  then obtain pre' post' where q: "recent_abs s' = pre' @ (k, h) # post'" "length post' \<le> length post + 1"
    using fifo_keeps[OF Cons.prems(2), of "rd_capacity s" k' h'] Cons.prems(3) s' by auto
  have "(k, h) \<in> set (recent_abs (recent.run s' ps)) \<and> recent_inv (recent.run s' ps)"
    using s' q Cons.prems(3) by (intro Cons.IH[OF _ q(1)]) auto
  then show ?case using rec by (simp add: recent.run_def p)
qed

lemma recent_distinct_abs: "recent_inv s \<Longrightarrow> distinct (map fst (recent_abs s))"
  by (simp add: recent_inv_def)

text \<open>A recorded event is recognised for as long as fewer than \<^verbatim>\<open>capacity\<close> further recordings
  follow it, whatever their keys.\<close>

lemma recent_dedupe_remembers:
  assumes "recent_inv s" and "recent_check s k h = Ok DD_New" and "length ps < rd_capacity s"
  shows "recent_check (recent.run s ((k, h) # ps)) k h = Ok DD_Duplicate"
proof -
  obtain r s' where rec: "recent_record s k h = (r, s')" by (cases "recent_record s k h")
  note s' = recent_record_refines[OF assms(1) rec]
  have "map_of (recent_abs s) k = None"
    using assms(2) by (auto simp: recent_check_refines[OF assms(1)] fifo_check_def decide_def
        split: option.splits if_splits)
  then have "k \<notin> fst ` set (recent_abs s)" by (simp only: map_of_eq_None_iff) simp
  moreover have "Suc (length (recent_abs s)) - rd_capacity s \<le> length (recent_abs s)"
    using assms(1) by (auto simp: recent_inv_def)
  ultimately have "recent_abs s' = drop (Suc (length (recent_abs s)) - rd_capacity s) (recent_abs s) @ (k, h) # []"
    using s' by (simp add: fifo_record_def)
  from fifo_remembers[OF _ this] have "(k, h) \<in> set (recent_abs (recent.run s' ps))"
    "recent_inv (recent.run s' ps)" using s' assms(3) by simp_all
  then have "recent_check (recent.run s' ps) k h = Ok DD_Duplicate"
    using map_of_is_SomeI[OF recent_distinct_abs]
    by (simp add: recent_check_refines fifo_check_def decide_def)
  then show ?thesis using rec by (simp add: recent.run_def)
qed

text \<open>The layered strategy the server runs (cache over table) has no false positives: started
  from an empty cache over any well-formed database, after any recordings, \<^verbatim>\<open>Duplicate\<close> means that
  exactly this key and hash were recorded or are a stored receipt, and \<^verbatim>\<open>Conflict\<close> that the key was
  seen with another hash.\<close>

lemma layered_dedupe_no_false_positive:
  assumes "recent_new cap = Some c" and "wf_db d"
  shows "(layered_check recent_check (storage_dedupe_check out) (layers.L.run (c, d) ps) k h = Ok DD_Duplicate
      \<longrightarrow> (k, h) \<in> set ps \<union> row_pairs d)
    \<and> (layered_check recent_check (storage_dedupe_check out) (layers.L.run (c, d) ps) k h = Ok DD_Conflict
      \<longrightarrow> (\<exists>h'. h' \<noteq> h \<and> (k, h') \<in> set ps \<union> row_pairs d))"
proof -
  have inv: "recent_inv (fst (c, d)) \<and> wf_db (snd (c, d))"
    using assms recent_new_inv by simp
  have seen: "set (recent_abs (fst (layers.L.run (c, d) ps))) \<union> row_pairs (snd (layers.L.run (c, d) ps))
      \<subseteq> set ps \<union> row_pairs d"
    using layers.L.run_seen[OF inv, of ps] recent_new_inv[OF assms(1)] by auto
  note run = layers.L.run_inv[OF inv, of ps]
  show ?thesis
    using layers.L.check_Duplicate[OF run] layers.L.check_Conflict[OF run] seen by blast
qed

end
