(* ===== verification/Deliveries.thy ===== *)
theory Deliveries
  imports Postgres
begin

text \<open>
  The delivery half of \<^verbatim>\<open>crates/hookbox-postgres/src/storage.rs\<close>: \<^verbatim>\<open>impl DeliveryStorage for
  PostgresStorage\<close>. One definition per SQL statement and per method, over the tables of \<open>Postgres\<close>.
  Shown: every method moves rows only along the delivery life cycle and leaves terminal and
  immutable rows alone, claims are exact, replays are all-or-nothing, and the pending gauge counts what a claim would return.
\<close>

section \<open>Decoding\<close>

definition delivery_from_row :: "delivery_row \<Rightarrow> webhook_delivery answer" where
  "delivery_from_row row =
     and_then (parse_delivery_state_name (dr_state row)) (\<lambda>st.
       Ok \<lparr>wd_delivery_id = DeliveryId (dr_delivery_id row),
           wd_receipt_id = ReceiptId (dr_receipt_id row),
           wd_emitter_name = dr_emitter_name row,
           wd_state = st,
           wd_attempt_count = dr_attempt_count row,
           wd_last_error = dr_last_error row,
           wd_last_attempt_at = dr_last_attempt_at row,
           wd_next_attempt_at = dr_next_attempt_at row,
           wd_emitted_at = dr_emitted_at row,
           wd_immutable = dr_immutable row,
           wd_created_at = dr_created_at row\<rparr>)"

text \<open>The loop that decodes each returned row and fetches its receipt; \<open>k\<close> is the next round trip.\<close>

fun with_receipts ::
  "dbenv \<Rightarrow> nat \<Rightarrow> delivery_row list \<Rightarrow> db \<Rightarrow> (webhook_delivery \<times> webhook_receipt) list answer" where
  "with_receipts env k [] d = Ok []"
| "with_receipts env k (row # rows) d =
     and_then (delivery_from_row row) (\<lambda>delivery.
     and_then (storage_get (e_io env k) (dr_receipt_id row) d) (\<lambda>found.
       (case found of
          None \<Rightarrow> Err (SE_Internal ''delivery references missing receipt'')
        | Some receipt \<Rightarrow>
            and_then (with_receipts env (Suc k) rows d) (\<lambda>rest. Ok ((delivery, receipt) # rest)))))"

section \<open>Statements\<close>

text \<open>\<^verbatim>\<open>UPDATE webhook_deliveries SET ... WHERE ...\<close>: the number of rows affected.\<close>

definition update_deliveries ::
  "(delivery_row \<Rightarrow> bool) \<Rightarrow> (delivery_row \<Rightarrow> delivery_row) \<Rightarrow> nat stmt" where
  "update_deliveries p f d =
     Ok (length (filter p (deliveries d)),
         d\<lparr>deliveries := map (\<lambda>r. if p r then f r else r) (deliveries d)\<rparr>)"

definition claimable :: "timestamp \<Rightarrow> string \<Rightarrow> delivery_row \<Rightarrow> bool" where
  "claimable now emitter r \<longleftrightarrow>
     dr_emitter_name r = emitter
     \<and> (dr_state r = ''pending'' \<or> dr_state r = ''failed'')
     \<and> dr_next_attempt_at r \<le> now
     \<and> \<not> dr_immutable r"

text \<open>The \<^verbatim>\<open>claimed\<close> subquery: \<^verbatim>\<open>ORDER BY next_attempt_at LIMIT $2 FOR UPDATE SKIP LOCKED\<close>.\<close>

definition claimed_rows :: "timestamp \<Rightarrow> uuid list \<Rightarrow> string \<Rightarrow> nat \<Rightarrow> db \<Rightarrow> delivery_row list" where
  "claimed_rows now locked emitter n d =
     take n (sort_key dr_next_attempt_at
       (filter (\<lambda>r. claimable now emitter r \<and> dr_delivery_id r \<notin> set locked) (deliveries d)))"

definition lease :: "timestamp \<Rightarrow> delivery_row \<Rightarrow> delivery_row" where
  "lease now r = r\<lparr>dr_state := ''in_flight'', dr_last_attempt_at := Some now\<rparr>"

text \<open>The whole claim statement. SQL leaves the order of \<^verbatim>\<open>RETURNING\<close> open; here it is the order of
  the subquery.\<close>

definition claim_stmt :: "timestamp \<Rightarrow> uuid list \<Rightarrow> string \<Rightarrow> int \<Rightarrow> delivery_row list stmt" where
  "claim_stmt now locked emitter batch_size d =
     (if batch_size < 0 then Err ''LIMIT must not be negative''
      else
       (let rows = claimed_rows now locked emitter (nat batch_size) d;
            ids = map dr_delivery_id rows in
        and_then (update_deliveries (\<lambda>r. dr_delivery_id r \<in> set ids) (lease now) d)
          (\<lambda>(n, d'). Ok (map (lease now) rows, d'))))"

text \<open>\<^verbatim>\<open>make_interval(secs => $2)\<close>: a double of seconds, rounded to microseconds.\<close>

definition interval_of_secs :: "f64 \<Rightarrow> (int, string) result" where
  "interval_of_secs secs =
     (case f64_mul secs (Fin 1000000) of
        Fin x \<Rightarrow> (let us = round_half_even x in
                  if - (2 ^ 63) \<le> us \<and> us < 2 ^ 63 then Ok us else Err ''interval out of range'')
      | _ \<Rightarrow> Err ''interval out of range'')"

definition lease_expired :: "timestamp \<Rightarrow> int \<Rightarrow> string \<Rightarrow> delivery_row \<Rightarrow> bool" where
  "lease_expired now us emitter r \<longleftrightarrow>
     dr_emitter_name r = emitter
     \<and> dr_state r = ''in_flight''
     \<and> (case dr_last_attempt_at r of None \<Rightarrow> False | Some t \<Rightarrow> t < now - us)
     \<and> \<not> dr_immutable r"

definition reclaimed :: "timestamp \<Rightarrow> delivery_row \<Rightarrow> delivery_row" where
  "reclaimed now r =
     r\<lparr>dr_state := ''failed'',
       dr_last_error := Some ((case dr_last_error r of None \<Rightarrow> [] | Some e \<Rightarrow> e @ '' '')
                              @ ''[reclaimed: lease expired]''),
       dr_next_attempt_at := now\<rparr>"

definition reclaim_stmt :: "timestamp \<Rightarrow> f64 \<Rightarrow> string \<Rightarrow> nat stmt" where
  "reclaim_stmt now lease_secs emitter d =
     and_then (interval_of_secs lease_secs)
       (\<lambda>us. update_deliveries (lease_expired now us emitter) (reclaimed now) d)"

text \<open>The lease guard of the \<^verbatim>\<open>mark_*\<close> statements.\<close>

definition in_flight_row :: "deliveryid \<Rightarrow> delivery_row \<Rightarrow> bool" where
  "in_flight_row i r \<longleftrightarrow> dr_delivery_id r = did_uuid i \<and> dr_state r = ''in_flight''"

definition emitted_row :: "timestamp \<Rightarrow> delivery_row \<Rightarrow> delivery_row" where
  "emitted_row now r = r\<lparr>dr_state := ''emitted'', dr_emitted_at := Some now, dr_last_error := None\<rparr>"

definition failed_row :: "int \<Rightarrow> timestamp \<Rightarrow> string \<Rightarrow> delivery_row \<Rightarrow> delivery_row" where
  "failed_row attempt_count next_attempt_at error r =
     r\<lparr>dr_state := ''failed'', dr_attempt_count := attempt_count,
       dr_next_attempt_at := next_attempt_at, dr_last_error := Some error\<rparr>"

definition dead_row :: "string \<Rightarrow> delivery_row \<Rightarrow> delivery_row" where
  "dead_row error r = r\<lparr>dr_state := ''dead_lettered'', dr_last_error := Some error\<rparr>"

lemmas marked_rows = emitted_row_def failed_row_def dead_row_def

section \<open>impl DeliveryStorage for PostgresStorage\<close>

definition claim_pending ::
  "dbenv \<Rightarrow> string \<Rightarrow> int \<Rightarrow> db \<Rightarrow> (webhook_delivery \<times> webhook_receipt) list answer \<times> db" where
  "claim_pending env emitter batch_size d =
     (case exec_stmt (e_io env 0) (claim_stmt (e_now env) (e_locked env) emitter batch_size) d of
        (Err e, d1) \<Rightarrow> (Err e, d1)
      | (Ok rows, d1) \<Rightarrow> (with_receipts env 1 rows d1, d1))"

definition reclaim_expired :: "dbenv \<Rightarrow> string \<Rightarrow> duration \<Rightarrow> db \<Rightarrow> nat answer \<times> db" where
  "reclaim_expired env emitter lease_duration d =
     exec_stmt (e_io env 0) (reclaim_stmt (e_now env) (as_secs_f64 lease_duration) emitter) d"

definition discard_count :: "nat answer \<times> db \<Rightarrow> unit answer \<times> db" where
  "discard_count p = (case p of (Err e, d) \<Rightarrow> (Err e, d) | (Ok _, d) \<Rightarrow> (Ok (), d))"

definition mark_emitted :: "dbenv \<Rightarrow> deliveryid \<Rightarrow> db \<Rightarrow> unit answer \<times> db" where
  "mark_emitted env i d =
     discard_count (exec_stmt (e_io env 0)
       (update_deliveries (in_flight_row i) (emitted_row (e_now env))) d)"

definition mark_failed ::
  "dbenv \<Rightarrow> deliveryid \<Rightarrow> int \<Rightarrow> timestamp \<Rightarrow> string \<Rightarrow> db \<Rightarrow> unit answer \<times> db" where
  "mark_failed env i attempt_count next_attempt_at error d =
     discard_count (exec_stmt (e_io env 0)
       (update_deliveries (in_flight_row i) (failed_row attempt_count next_attempt_at error)) d)"

definition mark_dead_lettered :: "dbenv \<Rightarrow> deliveryid \<Rightarrow> string \<Rightarrow> db \<Rightarrow> unit answer \<times> db" where
  "mark_dead_lettered env i error d =
     discard_count (exec_stmt (e_io env 0)
       (update_deliveries (in_flight_row i) (dead_row error)) d)"

definition count_dlq :: "io \<Rightarrow> string \<Rightarrow> db \<Rightarrow> nat answer" where
  "count_dlq out emitter d =
     read_stmt out (\<lambda>d. Ok (length (filter (\<lambda>r. dr_emitter_name r = emitter
                                               \<and> dr_state r = ''dead_lettered'') (deliveries d)))) d"

definition count_pending :: "io \<Rightarrow> timestamp \<Rightarrow> string \<Rightarrow> db \<Rightarrow> nat answer" where
  "count_pending out now emitter d =
     read_stmt out (\<lambda>d. Ok (length (filter (claimable now emitter) (deliveries d)))) d"

definition count_in_flight :: "io \<Rightarrow> string \<Rightarrow> db \<Rightarrow> nat answer" where
  "count_in_flight out emitter d =
     read_stmt out (\<lambda>d. Ok (length (filter (\<lambda>r. dr_emitter_name r = emitter
                                               \<and> dr_state r = ''in_flight'' \<and> \<not> dr_immutable r)
                                      (deliveries d)))) d"

definition insert_replay :: "dbenv \<Rightarrow> receiptid \<Rightarrow> string \<Rightarrow> db \<Rightarrow> deliveryid answer \<times> db" where
  "insert_replay env i emitter d =
     (case exec_stmt (e_io env 0) (insert_delivery (e_now env) (e_uuid env 0) (rid_uuid i) emitter) d of
        (Err e, d1) \<Rightarrow> (Err e, d1)
      | (Ok did, d1) \<Rightarrow> (Ok (DeliveryId did), d1))"

definition insert_replays ::
  "dbenv \<Rightarrow> receiptid \<Rightarrow> string list \<Rightarrow> db \<Rightarrow> deliveryid list answer \<times> db" where
  "insert_replays env i emitter_names d =
     (case tx_stmt (e_io env 0) (\<lambda>tx. Ok ((), tx)) d of Err e \<Rightarrow> (Err e, d)
      | Ok (_, tx0) \<Rightarrow>
     (case insert_pending_deliveries env 1 0 (rid_uuid i) emitter_names tx0 of Err e \<Rightarrow> (Err e, d)
      | Ok (ids, tx1) \<Rightarrow>
          commit_tx (e_io env (1 + length emitter_names)) (map DeliveryId ids) tx1 d))"

definition get_delivery ::
  "dbenv \<Rightarrow> deliveryid \<Rightarrow> db \<Rightarrow> (webhook_delivery \<times> webhook_receipt) option answer" where
  "get_delivery env i d =
     and_then
       (read_stmt (e_io env 0) (\<lambda>d. Ok (find (\<lambda>r. dr_delivery_id r = did_uuid i) (deliveries d))) d)
       (\<lambda>found. (case found of
           None \<Rightarrow> Ok None
         | Some row \<Rightarrow>
             and_then (delivery_from_row row) (\<lambda>delivery.
             and_then (storage_get (e_io env 1) (dr_receipt_id row) d) (\<lambda>receipt.
               (case receipt of
                  None \<Rightarrow> Err (SE_Internal ''delivery references missing receipt'')
                | Some r \<Rightarrow> Ok (Some (delivery, r)))))))"

definition get_deliveries_for_receipt :: "io \<Rightarrow> receiptid \<Rightarrow> db \<Rightarrow> webhook_delivery list answer" where
  "get_deliveries_for_receipt out i d =
     and_then
       (read_stmt out (\<lambda>d. Ok (sort_key dr_created_at
          (filter (\<lambda>r. dr_receipt_id r = rid_uuid i) (deliveries d)))) d)
       (collect_results delivery_from_row)"

definition list_dlq ::
  "dbenv \<Rightarrow> string option \<Rightarrow> int \<Rightarrow> int \<Rightarrow> db \<Rightarrow> (webhook_delivery \<times> webhook_receipt) list answer" where
  "list_dlq env emitter lmt off d =
     and_then
       (read_stmt (e_io env 0) (\<lambda>d. sql_window lmt off
          (sort_key (\<lambda>r. - dr_created_at r)
             (filter (\<lambda>r. dr_state r = ''dead_lettered''
                          \<and> opt_matches emitter (Some (dr_emitter_name r))) (deliveries d)))) d)
       (\<lambda>rows. with_receipts env 1 rows d)"

section \<open>The life cycle of a row\<close>

definition life_cycle :: "(string \<times> string) list" where
  "life_cycle =
     [(''pending'', ''in_flight''), (''failed'', ''in_flight''), (''in_flight'', ''emitted''),
      (''in_flight'', ''failed''), (''in_flight'', ''dead_lettered'')]"

text \<open>One operation leaves a row alone or moves it along one edge, keeping its identity.\<close>

definition row_step :: "delivery_row \<Rightarrow> delivery_row \<Rightarrow> bool" where
  "row_step r r' \<longleftrightarrow>
     r' = r \<or>
     (dr_state r, dr_state r') \<in> set life_cycle \<and> \<not> dr_immutable r \<and> \<not> dr_immutable r'
     \<and> dr_delivery_id r' = dr_delivery_id r \<and> dr_receipt_id r' = dr_receipt_id r
     \<and> dr_emitter_name r' = dr_emitter_name r \<and> dr_created_at r' = dr_created_at r"

definition fresh_row :: "delivery_row \<Rightarrow> bool" where
  "fresh_row r \<longleftrightarrow> dr_state r = ''pending'' \<and> \<not> dr_immutable r \<and> dr_attempt_count r = 0"

text \<open>Receipts are only appended; old deliveries take at most one life-cycle edge each; new ones are
  pending.\<close>

definition db_step :: "db \<Rightarrow> db \<Rightarrow> bool" where
  "db_step d d' \<longleftrightarrow>
     (\<exists>rs. receipts d' = receipts d @ rs)
     \<and> (\<exists>old new. deliveries d' = old @ new \<and> list_all2 row_step (deliveries d) old
          \<and> list_all fresh_row new)"

text \<open>The backfill of migration 2 writes immutable rows in final states or \<^verbatim>\<open>failed\<close>, never in flight.\<close>

definition history_at_rest :: "db \<Rightarrow> bool" where
  "history_at_rest d \<longleftrightarrow> list_all (\<lambda>r. dr_immutable r \<longrightarrow> dr_state r \<noteq> ''in_flight'') (deliveries d)"

definition db_inv :: "db \<Rightarrow> bool" where
  "db_inv d \<longleftrightarrow> wf_db d \<and> history_at_rest d"

lemma row_step_refl [simp]: "row_step r r"
  by (simp add: row_step_def)

lemma row_step_keeps:
  "row_step r r' \<Longrightarrow> dr_delivery_id r' = dr_delivery_id r \<and> dr_receipt_id r' = dr_receipt_id r
     \<and> dr_emitter_name r' = dr_emitter_name r \<and> dr_created_at r' = dr_created_at r
     \<and> dr_immutable r' = dr_immutable r"
  by (auto simp: row_step_def)

lemma row_step_terminal:
  "row_step r r' \<Longrightarrow> dr_state r = ''emitted'' \<or> dr_state r = ''dead_lettered'' \<or> dr_immutable r \<Longrightarrow> r' = r"
  by (auto simp: row_step_def life_cycle_def)

lemma row_step_decodes:
  "row_step r r' \<Longrightarrow> is_ok (parse_delivery_state_name (dr_state r)) \<Longrightarrow>
   is_ok (parse_delivery_state_name (dr_state r'))"
  by (auto simp: row_step_def life_cycle_def)

lemma list_all2_keeps:
  "list_all2 row_step xs ys \<Longrightarrow> (\<And>r r'. row_step r r' \<Longrightarrow> f r' = f r) \<Longrightarrow> map f ys = map f xs"
  by (induction rule: list_all2_induct) auto

lemma list_all2_row_step_inv:
  assumes "list_all2 row_step xs ys" and "list_all p xs"
    and "\<And>r r'. row_step r r' \<Longrightarrow> p r \<Longrightarrow> p r'"
  shows "list_all p ys"
  using assms by (induction rule: list_all2_induct) auto

lemma db_step_refl [simp]: "db_step d d"
  unfolding db_step_def
  by (intro conjI exI[of _ "[]"] exI[of _ "deliveries d"]) (simp_all add: list_all2_same)

lemma moved_rows:
  assumes "list_all2 row_step (deliveries d) ds" and "db_inv d"
  shows "db_step d (d\<lparr>deliveries := ds\<rparr>)" and "db_inv (d\<lparr>deliveries := ds\<rparr>)"
proof -
  show "db_step d (d\<lparr>deliveries := ds\<rparr>)"
    unfolding db_step_def using assms by (intro conjI exI[of _ "[]"] exI[of _ ds]) simp_all
  have ids: "map dr_delivery_id ds = map dr_delivery_id (deliveries d)"
    by (rule list_all2_keeps[OF assms(1)]) (auto dest: row_step_keeps)
  have dec: "list_all (\<lambda>x. is_ok (parse_delivery_state_name (dr_state x))) ds"
    by (rule list_all2_row_step_inv[OF assms(1)])
      (use assms(2) row_step_decodes in \<open>auto simp: db_inv_def wf_db_def\<close>)
  have fk: "list_all (\<lambda>x. has_receipt (dr_receipt_id x) d) ds"
    by (rule list_all2_row_step_inv[OF assms(1)])
      (use assms(2) in \<open>auto simp: db_inv_def wf_db_def dest: row_step_keeps\<close>)
  have rest: "list_all (\<lambda>r. dr_immutable r \<longrightarrow> dr_state r \<noteq> ''in_flight'') ds"
    by (rule list_all2_row_step_inv[OF assms(1)])
      (use assms(2) in \<open>auto simp: db_inv_def history_at_rest_def row_step_def\<close>)
  show "db_inv (d\<lparr>deliveries := ds\<rparr>)"
    using assms(2) ids dec fk rest by (simp add: db_inv_def wf_db_def history_at_rest_def)
qed

lemma update_deliveries_step:
  assumes "update_deliveries p f d = Ok (n, d')" and "db_inv d"
    and "\<And>r. r \<in> set (deliveries d) \<Longrightarrow> p r \<Longrightarrow> row_step r (f r)"
  shows "db_step d d' \<and> db_inv d'"
proof -
  have "list_all2 row_step (deliveries d) (map (\<lambda>r. if p r then f r else r) (deliveries d))"
    using assms(3) by (auto simp: list_all2_conv_all_nth)
  then show ?thesis using moved_rows[OF _ assms(2)] assms(1) by (auto simp: update_deliveries_def)
qed

lemma exec_stmt_step:
  assumes "exec_stmt out s d = (a, d')" and "db_inv d"
    and "\<And>b d'. s d = Ok (b, d') \<Longrightarrow> db_step d d' \<and> db_inv d'"
  shows "db_step d d' \<and> db_inv d'"
  using assms by (auto simp: exec_stmt_def split: io.splits result.splits)

lemma discard_count_snd [simp]: "snd (discard_count p) = snd p"
  by (auto simp: discard_count_def split: prod.splits result.splits)

lemma in_flight_mutable:
  "db_inv d \<Longrightarrow> r \<in> set (deliveries d) \<Longrightarrow> dr_state r = ''in_flight'' \<Longrightarrow> \<not> dr_immutable r"
  by (auto simp: db_inv_def history_at_rest_def list_all_iff)

lemma mark_step:
  assumes "db_inv d"
    and "\<And>r. dr_state (f r) \<in> {''emitted'', ''failed'', ''dead_lettered''}
           \<and> dr_delivery_id (f r) = dr_delivery_id r \<and> dr_receipt_id (f r) = dr_receipt_id r
           \<and> dr_emitter_name (f r) = dr_emitter_name r \<and> dr_created_at (f r) = dr_created_at r
           \<and> dr_immutable (f r) = dr_immutable r"
  shows "db_step d (snd (discard_count (exec_stmt out (update_deliveries (in_flight_row i) f) d)))
    \<and> db_inv (snd (discard_count (exec_stmt out (update_deliveries (in_flight_row i) f) d)))"
proof -
  obtain a d' where run: "exec_stmt out (update_deliveries (in_flight_row i) f) d = (a, d')" by fastforce
  have step: "row_step r (f r)" if "r \<in> set (deliveries d)" "in_flight_row i r" for r
    using assms(2)[of r] in_flight_mutable[OF assms(1) that(1)] that(2)
    by (auto simp: row_step_def in_flight_row_def life_cycle_def)
  have "db_step d d' \<and> db_inv d'"
    by (rule exec_stmt_step[OF run assms(1)], rule update_deliveries_step[OF _ assms(1) step])
  then show ?thesis by (simp add: run)
qed

lemma mark_steps:
  assumes "db_inv d"
  shows "db_step d (snd (mark_emitted env i d)) \<and> db_inv (snd (mark_emitted env i d))"
    and "db_step d (snd (mark_failed env i n t e d)) \<and> db_inv (snd (mark_failed env i n t e d))"
    and "db_step d (snd (mark_dead_lettered env i e d)) \<and> db_inv (snd (mark_dead_lettered env i e d))"
  unfolding mark_emitted_def mark_failed_def mark_dead_lettered_def
  by (rule mark_step[OF assms]; simp add: marked_rows)+

lemma reclaim_step:
  assumes "db_inv d"
  shows "db_step d (snd (reclaim_expired env e l d)) \<and> db_inv (snd (reclaim_expired env e l d))"
proof -
  obtain a d' where run: "reclaim_expired env e l d = (a, d')" by fastforce
  have "db_step d d1 \<and> db_inv d1" if "reclaim_stmt (e_now env) (as_secs_f64 l) e d = Ok (b, d1)" for b d1
    using that unfolding reclaim_stmt_def
    by (cases "interval_of_secs (as_secs_f64 l)")
      (auto intro!: update_deliveries_step[OF _ assms]
        simp: row_step_def lease_expired_def reclaimed_def life_cycle_def)
  then show ?thesis using exec_stmt_step[OF run[unfolded reclaim_expired_def] assms] run by simp
qed

subsection \<open>Claims\<close>

lemma set_claimed_rows:
  "r \<in> set (claimed_rows now locked e n d) \<Longrightarrow>
   r \<in> set (deliveries d) \<and> claimable now e r \<and> dr_delivery_id r \<notin> set locked"
  by (auto simp: claimed_rows_def dest!: in_set_takeD)

lemma claimed_ids:
  assumes "wf_db d" and "r \<in> set (deliveries d)"
  shows "dr_delivery_id r \<in> dr_delivery_id ` set (claimed_rows now locked e n d) \<longleftrightarrow>
         r \<in> set (claimed_rows now locked e n d)"
proof
  assume "dr_delivery_id r \<in> dr_delivery_id ` set (claimed_rows now locked e n d)"
  then obtain c where c: "c \<in> set (claimed_rows now locked e n d)" "dr_delivery_id c = dr_delivery_id r"
    by (metis imageE)
  have "c = r"
    using assms set_claimed_rows[OF c(1)] c(2) by (auto simp: wf_db_def distinct_map inj_on_def)
  then show "r \<in> set (claimed_rows now locked e n d)" using c(1) by simp
qed simp

text \<open>The tables after a claim.\<close>

definition after_claim :: "timestamp \<Rightarrow> uuid list \<Rightarrow> string \<Rightarrow> nat \<Rightarrow> db \<Rightarrow> db" where
  "after_claim now locked e n d =
     d\<lparr>deliveries := map (\<lambda>r. if r \<in> set (claimed_rows now locked e n d) then lease now r else r)
                        (deliveries d)\<rparr>"

lemma claim_stmt_eq:
  assumes "wf_db d"
  shows "claim_stmt now locked e b d =
    (if b < 0 then Err ''LIMIT must not be negative''
     else Ok (map (lease now) (claimed_rows now locked e (nat b) d), after_claim now locked e (nat b) d))"
proof -
  have "map (\<lambda>r. if dr_delivery_id r \<in> dr_delivery_id ` set (claimed_rows now locked e (nat b) d)
                 then lease now r else r) (deliveries d)
      = map (\<lambda>r. if r \<in> set (claimed_rows now locked e (nat b) d) then lease now r else r) (deliveries d)"
    using claimed_ids[OF assms] by (intro map_cong) simp_all
  then show ?thesis
    by (simp add: claim_stmt_def update_deliveries_def after_claim_def Let_def)
qed

lemma after_claim_step:
  assumes "db_inv d"
  shows "db_step d (after_claim now locked e n d) \<and> db_inv (after_claim now locked e n d)"
proof -
  have "row_step r (lease now r)" if "r \<in> set (claimed_rows now locked e n d)" for r
    using set_claimed_rows[OF that] by (auto simp: row_step_def lease_def claimable_def life_cycle_def)
  then have "list_all2 row_step (deliveries d)
     (map (\<lambda>r. if r \<in> set (claimed_rows now locked e n d) then lease now r else r) (deliveries d))"
    by (auto simp: list_all2_conv_all_nth)
  then show ?thesis using moved_rows[OF _ assms] unfolding after_claim_def by blast
qed

lemma claim_pending_state:
  assumes "db_inv d"
  shows "snd (claim_pending env e b d) = d \<or>
         0 \<le> b \<and> snd (claim_pending env e b d) = after_claim (e_now env) (e_locked env) e (nat b) d"
  using assms
  by (auto simp: claim_pending_def exec_stmt_def claim_stmt_eq db_inv_def split: io.splits if_splits)

lemma claim_step:
  assumes "db_inv d"
  shows "db_step d (snd (claim_pending env e b d)) \<and> db_inv (snd (claim_pending env e b d))"
  using claim_pending_state[OF assms, of env e b] after_claim_step[OF assms] assms db_step_refl by metis

subsection \<open>Inserts\<close>

lemma fresh_pending_rows: "list_all fresh_row (pending_rows env k rid names)"
  using pending_rows_fields by (auto simp: list_all_iff fresh_row_def)

lemma inserted_rows:
  assumes "receipts d' = receipts d @ rs" and "deliveries d' = deliveries d @ new"
    and "list_all fresh_row new" and "wf_db d'" and "db_inv d"
  shows "db_step d d' \<and> db_inv d'"
proof
  show "db_step d d'" unfolding db_step_def using assms
    by (intro conjI exI[of _ rs] exI[of _ "deliveries d"] exI[of _ new]) (simp_all add: list_all2_same)
  show "db_inv d'" using assms
    by (auto simp: db_inv_def history_at_rest_def list_all_iff fresh_row_def)
qed

lemma fanout_rows:
  "receipts (fanout env r names d) = receipts d @ [row_of r]"
  "deliveries (fanout env r names d) = deliveries d @ pending_rows env 0 (rid_uuid (receipt_id r)) names"
  by (simp_all add: fanout_def)

lemma store_with_deliveries_step:
  assumes "db_inv d"
  shows "db_step d (snd (store_with_deliveries env r names d))
    \<and> db_inv (snd (store_with_deliveries env r names d))"
proof -
  obtain res d' where run: "store_with_deliveries env r names d = (res, d')" by fastforce
  have new: "db_step d d' \<and> db_inv d'" if "d' = fanout env r names d" "wf_db d \<longrightarrow> wf_db d'"
    using that assms by (intro inserted_rows[OF _ _ fresh_pending_rows])
      (auto simp: fanout_rows db_inv_def)
  from run have "db_step d d' \<and> db_inv d'"
    using new assms by (cases rule: store_with_deliveries_cases) auto
  then show ?thesis by (simp add: run)
qed

lemma insert_replays_cases:
  assumes "insert_replays env i names d = (res, d')"
  obtains (Unchanged) e where "res = Err e" "d' = d"
  | (Published) "d' = d\<lparr>deliveries := deliveries d @ pending_rows env 0 (rid_uuid i) names\<rparr>"
      "wf_db d \<longrightarrow> wf_db d'"
      "res = Ok (map (DeliveryId \<circ> e_uuid env) [0 ..< length names]) \<or> (\<exists>e. res = Err e)"
proof (cases "tx_stmt (e_io env 0) (\<lambda>tx. Ok ((), tx)) d")
  case (Err e)
  then show ?thesis using assms Unchanged by (auto simp: insert_replays_def)
next
  case (Ok p)
  then have p: "p = ((), d)" by (cases p) (simp add: tx_stmt_Ok)
  show ?thesis
  proof (cases "insert_pending_deliveries env 1 0 (rid_uuid i) names d")
    case (Err e)
    then show ?thesis using assms Unchanged Ok p by (auto simp: insert_replays_def)
  next
    case ins: (Ok q)
    obtain ids tx where q: "q = (ids, tx)" by (cases q)
    note tx = insert_pending_Ok[OF ins[unfolded q]]
    have "commit_tx (e_io env (1 + length names)) (map DeliveryId ids) tx d = (res, d')"
      using assms Ok p ins q by (simp add: insert_replays_def)
    then consider "res = Ok (map DeliveryId ids)" "d' = tx" | e where "res = Err e" "d' = d"
      | e where "res = Err e" "d' = tx"
      by (auto simp: commit_tx_def split: io.splits)
    then show ?thesis using tx Unchanged Published by cases auto
  qed
qed

lemma insert_replays_step:
  assumes "db_inv d"
  shows "db_step d (snd (insert_replays env i names d)) \<and> db_inv (snd (insert_replays env i names d))"
proof -
  obtain res d' where run: "insert_replays env i names d = (res, d')" by fastforce
  from run have "db_step d d' \<and> db_inv d'"
  proof (cases rule: insert_replays_cases)
    case Published
    then show ?thesis using assms
      by (intro inserted_rows[OF _ _ fresh_pending_rows]) (auto simp: db_inv_def)
  qed (use assms in simp)
  then show ?thesis by (simp add: run)
qed

lemma insert_replay_step:
  assumes "db_inv d"
  shows "db_step d (snd (insert_replay env i name d)) \<and> db_inv (snd (insert_replay env i name d))"
proof -
  obtain a d' where run:
    "exec_stmt (e_io env 0) (insert_delivery (e_now env) (e_uuid env 0) (rid_uuid i) name) d = (a, d')"
    by fastforce
  have "db_step d d' \<and> db_inv d'"
  proof (rule exec_stmt_step[OF run assms])
    fix b d1
    assume ins: "insert_delivery (e_now env) (e_uuid env 0) (rid_uuid i) name d = Ok (b, d1)"
    then have "d1 = d\<lparr>deliveries := deliveries d @ [pending_row (e_now env) (e_uuid env 0) (rid_uuid i) name]\<rparr>"
      by (auto simp: insert_delivery_def split: if_splits)
    then show "db_step d d1 \<and> db_inv d1"
      using insert_delivery_wf[OF ins] assms
      by (intro inserted_rows[where rs = "[]" and
            new = "[pending_row (e_now env) (e_uuid env 0) (rid_uuid i) name]"])
        (auto simp: db_inv_def fresh_row_def pending_row_def)
  qed
  then show ?thesis using run by (auto simp: insert_replay_def split: result.splits)
qed

subsection \<open>Reading back\<close>

definition decode_delivery :: "delivery_row \<Rightarrow> webhook_delivery" where
  "decode_delivery row = (case delivery_from_row row of Ok d \<Rightarrow> d)"

lemma delivery_from_row_Ok:
  "parse_delivery_state_name (dr_state row) = Ok st \<Longrightarrow>
   delivery_from_row row = Ok (decode_delivery row) \<and> wd_state (decode_delivery row) = st
   \<and> wd_delivery_id (decode_delivery row) = DeliveryId (dr_delivery_id row)
   \<and> wd_receipt_id (decode_delivery row) = ReceiptId (dr_receipt_id row)
   \<and> wd_emitter_name (decode_delivery row) = dr_emitter_name row
   \<and> wd_immutable (decode_delivery row) = dr_immutable row
   \<and> wd_created_at (decode_delivery row) = dr_created_at row
   \<and> wd_attempt_count (decode_delivery row) = dr_attempt_count row"
  by (simp add: delivery_from_row_def decode_delivery_def)

lemma wf_delivery_from_row:
  assumes "wf_db d" and "r \<in> set (deliveries d)"
  shows "delivery_from_row r = Ok (decode_delivery r)"
  using assms delivery_from_row_Ok by (fastforce simp: wf_db_def list_all_iff is_ok_iff)

lemma decode_receipt_id:
  "is_ok (receipt_from_row row) \<Longrightarrow> receipt_id (decode_receipt row) = ReceiptId (rr_receipt_id row)"
  by (cases "parse_verification_status_name (rr_verification_status row)";
      cases "parse_processing_state_name (rr_processing_state row)")
    (simp_all add: receipt_from_row_def decode_receipt_def)

lemma storage_get_present:
  assumes "wf_db d" and "has_receipt u d"
  shows "\<exists>r. storage_get IO_Ok u d = Ok (Some r) \<and> receipt_id r = ReceiptId u"
proof -
  obtain row where row: "row \<in> set (receipts d)" "rr_receipt_id row = u"
    using assms(2) by (auto simp: has_receipt_iff)
  then show ?thesis using storage_get_Ok[OF assms(1) row] assms(1) decode_receipt_id[of row]
    by (auto simp: wf_db_def list_all_iff)
qed

lemma with_receipts_Ok:
  assumes "wf_db d" and "\<And>k. e_io env k = IO_Ok"
    and "\<And>r. r \<in> set rows \<Longrightarrow> has_receipt (dr_receipt_id r) d \<and> is_ok (parse_delivery_state_name (dr_state r))"
  shows "\<exists>ps. with_receipts env k rows d = Ok ps \<and> map fst ps = map decode_delivery rows
    \<and> list_all (\<lambda>(x, r). receipt_id r = wd_receipt_id x) ps"
  using assms(3)
proof (induction rows arbitrary: k)
  case (Cons row rows)
  obtain r where "storage_get IO_Ok (dr_receipt_id row) d = Ok (Some r)"
    "receipt_id r = ReceiptId (dr_receipt_id row)"
    using storage_get_present[OF assms(1)] Cons.prems[of row] by auto
  moreover obtain st where "parse_delivery_state_name (dr_state row) = Ok st"
    using Cons.prems[of row] by (auto simp: is_ok_iff)
  moreover obtain ps where "with_receipts env (Suc k) rows d = Ok ps" "map fst ps = map decode_delivery rows"
    "list_all (\<lambda>(x, r). receipt_id r = wd_receipt_id x) ps"
    using Cons.IH[of "Suc k"] Cons.prems by auto
  ultimately show ?case using assms(2) delivery_from_row_Ok[of row st] by simp
qed simp

section \<open>Properties\<close>

text \<open>Every mutation the server performs on the tables, as a value.\<close>

datatype db_op =
    StoreOp dbenv webhook_receipt "string list"
  | ClaimOp dbenv string int
  | ReclaimOp dbenv string duration
  | EmittedOp dbenv deliveryid
  | FailedOp dbenv deliveryid int timestamp string
  | DeadOp dbenv deliveryid string
  | ReplayOp dbenv receiptid string
  | ReplaysOp dbenv receiptid "string list"

fun run_op :: "db_op \<Rightarrow> db \<Rightarrow> db" where
  "run_op (StoreOp env r names) d = snd (store_with_deliveries env r names d)"
| "run_op (ClaimOp env e b) d = snd (claim_pending env e b d)"
| "run_op (ReclaimOp env e l) d = snd (reclaim_expired env e l d)"
| "run_op (EmittedOp env i) d = snd (mark_emitted env i d)"
| "run_op (FailedOp env i n t e) d = snd (mark_failed env i n t e d)"
| "run_op (DeadOp env i e) d = snd (mark_dead_lettered env i e d)"
| "run_op (ReplayOp env i e) d = snd (insert_replay env i e d)"
| "run_op (ReplaysOp env i es) d = snd (insert_replays env i es d)"

lemma run_op_step: "db_inv d \<Longrightarrow> db_step d (run_op op d) \<and> db_inv (run_op op d)"
  by (cases op) (simp_all add: store_with_deliveries_step claim_step reclaim_step mark_steps
      insert_replay_step insert_replays_step)

lemma run_ops_inv: "db_inv d \<Longrightarrow> db_inv (fold run_op ops d)"
  by (induction ops arbitrary: d) (simp_all add: run_op_step)

lemma db_step_row:
  assumes "db_step d d'" and "r \<in> set (deliveries d)"
  shows "\<exists>r' \<in> set (deliveries d'). row_step r r'"
  using assms by (fastforce simp: db_step_def list_all2_conv_all_nth in_set_conv_nth nth_append)

text \<open>C11. The delivery life cycle: every operation the server runs, under every fault, keeps the
  tables well-formed, only appends receipts, moves each delivery row along at most one edge of
  pending/failed to in flight, in flight to emitted, failed or dead-lettered, and inserts only fresh
  pending rows.\<close>

theorem delivery_life_cycle:
  assumes "db_inv d"
  shows "db_step d (run_op op d) \<and> db_inv (run_op op d)"
  using assms by (rule run_op_step)

theorem delivery_life_cycle_witness:
  "db_step empty_db (run_op (StoreOp (env_ok 5 10) (sample_receipt 1 ''k'') [''a'']) empty_db)"
  using delivery_life_cycle[of empty_db "StoreOp (env_ok 5 10) (sample_receipt 1 ''k'') [''a'']"]
  by (simp add: db_inv_def history_at_rest_def) (simp add: empty_db_def)

text \<open>Final rows are final: after any sequence of operations, a row that was emitted,
  dead-lettered or immutable history is still in the table, unchanged.\<close>

lemma terminal_rows_fixed:
  assumes "db_inv d" and "r \<in> set (deliveries d)"
    and "dr_state r = ''emitted'' \<or> dr_state r = ''dead_lettered'' \<or> dr_immutable r"
  shows "r \<in> set (deliveries (fold run_op ops d))"
  using assms(1,2)
proof (induction ops arbitrary: d)
  case (Cons op ops)
  obtain r' where "r' \<in> set (deliveries (run_op op d))" "row_step r r'"
    using db_step_row run_op_step[OF Cons.prems(1)] Cons.prems(2) by blast
  then have "r \<in> set (deliveries (run_op op d))" using row_step_terminal assms(3) by blast
  then show ?case using Cons.IH run_op_step[OF Cons.prems(1)] by simp
qed simp

lemma take_sorted_prefix:
  assumes "sorted_wrt (\<lambda>a b. key a \<le> (key b :: int)) xs" and "x \<in> set (take n xs)" and "y \<in> set (drop n xs)"
  shows "key x \<le> key y"
proof -
  have "sorted_wrt (\<lambda>a b. key a \<le> key b) (take n xs @ drop n xs)" using assms(1) by simp
  then show ?thesis using assms(2,3) unfolding sorted_wrt_append by blast
qed

definition eligible :: "dbenv \<Rightarrow> string \<Rightarrow> db \<Rightarrow> delivery_row list" where
  "eligible env e d =
     filter (\<lambda>r. claimable (e_now env) e r \<and> dr_delivery_id r \<notin> set (e_locked env)) (deliveries d)"

lemma claimed_oldest:
  fixes env :: dbenv and e :: string and n :: nat
  assumes "wf_db d"
  defines "rows \<equiv> claimed_rows (e_now env) (e_locked env) e n d"
  shows "set rows \<subseteq> set (eligible env e d)" and "distinct rows"
    and "length rows = min n (length (eligible env e d))"
    and "r \<in> set rows \<Longrightarrow> r' \<in> set (eligible env e d) - set rows \<Longrightarrow>
         dr_next_attempt_at r \<le> dr_next_attempt_at r'"
proof -
  let ?el = "eligible env e d"
  let ?s = "sort_key dr_next_attempt_at ?el"
  have rows: "rows = take n ?s" by (simp add: rows_def claimed_rows_def eligible_def)
  have split: "set rows \<union> set (drop n ?s) = set ?el"
    unfolding rows by (metis append_take_drop_id set_append set_sort)
  then show "set rows \<subseteq> set ?el" by blast
  have "distinct ?s" using assms(1) by (simp add: eligible_def wf_db_def distinct_map)
  then show "distinct rows" by (simp add: rows)
  show "length rows = min n (length ?el)" by (simp add: rows min.commute)
  assume "r \<in> set rows" "r' \<in> set ?el - set rows"
  then have "r \<in> set (take n ?s)" "r' \<in> set (drop n ?s)" using split rows by auto
  then show "dr_next_attempt_at r \<le> dr_next_attempt_at r'"
    by (rule take_sorted_prefix[OF sorted_sort_key[of dr_next_attempt_at ?el, unfolded sorted_map]])
qed

lemma leased_with_receipts:
  fixes now :: timestamp and locked :: "uuid list" and e :: string and n :: nat
  assumes "db_inv d" and "\<And>k. e_io env k = IO_Ok"
  defines "rows \<equiv> map (lease now) (claimed_rows now locked e n d)"
  shows "\<exists>ps. with_receipts env 1 rows (after_claim now locked e n d) = Ok ps
    \<and> map fst ps = map decode_delivery rows
    \<and> list_all (\<lambda>(x, r). receipt_id r = wd_receipt_id x \<and> wd_state x = DS_InFlight) ps"
proof -
  let ?d = "after_claim now locked e n d"
  have wf: "wf_db d" and wf': "wf_db ?d"
    using assms(1) after_claim_step[OF assms(1)] by (simp_all add: db_inv_def)
  have "\<exists>ps. with_receipts env 1 rows ?d = Ok ps \<and> map fst ps = map decode_delivery rows
      \<and> list_all (\<lambda>(x, r). receipt_id r = wd_receipt_id x) ps"
  proof (rule with_receipts_Ok[OF wf' assms(2)])
    fix r assume "r \<in> set rows"
    then obtain r0 where r0: "r0 \<in> set (claimed_rows now locked e n d)" "r = lease now r0"
      by (auto simp: rows_def)
    then have "has_receipt (dr_receipt_id r0) d"
      using set_claimed_rows wf by (auto simp: wf_db_def list_all_iff)
    then show "has_receipt (dr_receipt_id r) ?d \<and> is_ok (parse_delivery_state_name (dr_state r))"
      using r0 by (simp add: after_claim_def lease_def)
  qed
  moreover have "wd_state x = DS_InFlight" if "map fst ps = map decode_delivery rows" "(x, r) \<in> set ps" for ps x r
  proof -
    have "x \<in> set (map decode_delivery rows)" unfolding that(1)[symmetric] using that(2) by force
    then show ?thesis
      using delivery_from_row_Ok[of "lease now _" DS_InFlight] by (auto simp: lease_def rows_def)
  qed
  ultimately show ?thesis by (fastforce simp: list_all_iff)
qed

text \<open>C20. A fault-free claim takes exactly the oldest rows: as many as the batch allows of the rows of
  that emitter which are pending or failed, due, not history and not locked; no row left behind was
  due earlier. Each one is returned in flight with its own receipt, its lease starts now, and no
  other row of the table changes.\<close>

theorem claim_pending_exact:
  assumes "db_inv d" and "\<And>k. e_io env k = IO_Ok" and "0 \<le> b"
  shows "\<exists>rows ps. claim_pending env e b d =
      (Ok ps, d\<lparr>deliveries := map (\<lambda>r. if r \<in> set rows then lease (e_now env) r else r) (deliveries d)\<rparr>)
    \<and> set rows \<subseteq> set (eligible env e d) \<and> distinct rows
    \<and> length rows = min (nat b) (length (eligible env e d))
    \<and> (\<forall>r \<in> set rows. \<forall>r' \<in> set (eligible env e d) - set rows. dr_next_attempt_at r \<le> dr_next_attempt_at r')
    \<and> map fst ps = map (decode_delivery \<circ> lease (e_now env)) rows
    \<and> list_all (\<lambda>(x, r). receipt_id r = wd_receipt_id x \<and> wd_state x = DS_InFlight) ps"
proof -
  let ?now = "e_now env"
  let ?rows = "claimed_rows ?now (e_locked env) e (nat b) d"
  have wf: "wf_db d" using assms(1) by (simp add: db_inv_def)
  obtain ps where ps: "with_receipts env 1 (map (lease ?now) ?rows) (after_claim ?now (e_locked env) e (nat b) d) = Ok ps"
    "map fst ps = map decode_delivery (map (lease ?now) ?rows)"
    "list_all (\<lambda>(x, r). receipt_id r = wd_receipt_id x \<and> wd_state x = DS_InFlight) ps"
    using leased_with_receipts[OF assms(1,2)] by blast
  show ?thesis
  proof (intro exI[of _ ?rows] exI[of _ ps] conjI)
    show "claim_pending env e b d = (Ok ps, d\<lparr>deliveries :=
        map (\<lambda>r. if r \<in> set ?rows then lease ?now r else r) (deliveries d)\<rparr>)"
      using assms(2,3) ps(1)
      by (simp add: claim_pending_def exec_stmt_def claim_stmt_eq[OF wf] after_claim_def)
  qed (use claimed_oldest[OF wf] ps(2,3) in auto)
qed

definition pending_db :: db where
  "pending_db = fanout (env_ok 5 10) (sample_receipt 1 ''k'') [''a''] empty_db"

lemma pending_db_rows:
  "receipts pending_db = [row_of (sample_receipt 1 ''k'')]"
  "deliveries pending_db = [pending_row 5 10 1 ''a'']"
  by (simp_all add: pending_db_def fanout_def empty_db_def env_ok_def)

lemma pending_db_inv: "db_inv pending_db"
  by (simp add: db_inv_def wf_db_def history_at_rest_def has_receipt_def pending_row_def pending_db_rows)

theorem claim_pending_exact_witness:
  "\<exists>ps d'. claim_pending (env_ok 9 0) ''a'' 4 pending_db = (Ok ps, d') \<and> length ps = 1"
proof -
  have "length (eligible (env_ok 9 0) ''a'' pending_db) = 1"
    by (simp add: eligible_def pending_db_rows env_ok_def claimable_def pending_row_def)
  then show ?thesis
    using claim_pending_exact[OF pending_db_inv, of "env_ok 9 0" 4 "''a''"]
    by (auto simp: env_ok_def dest!: arg_cong[of _ _ length])
qed

lemma update_none:
  "(\<And>r. r \<in> set (deliveries d) \<Longrightarrow> \<not> p r) \<Longrightarrow> update_deliveries p f d = Ok (0, d)"
proof -
  assume a: "\<And>r. r \<in> set (deliveries d) \<Longrightarrow> \<not> p r"
  then have "map (\<lambda>r. if p r then f r else r) (deliveries d) = deliveries d"
    by (simp add: map_idI)
  then show ?thesis using a by (simp add: update_deliveries_def filter_False)
qed

lemma mark_stale:
  assumes "\<And>r. r \<in> set (deliveries d) \<Longrightarrow> \<not> in_flight_row i r" and "e_io env 0 = IO_Ok"
  shows "mark_emitted env i d = (Ok (), d)" "mark_failed env i n t e d = (Ok (), d)"
    "mark_dead_lettered env i e d = (Ok (), d)"
  using assms
  by (simp_all add: mark_emitted_def mark_failed_def mark_dead_lettered_def exec_stmt_def update_none
      discard_count_def)

lemma reclaim_expired_run:
  assumes "e_io env 0 = IO_Ok" and "interval_of_secs (as_secs_f64 l) = Ok us"
  shows "reclaim_expired env e l d =
    (Ok (length (filter (lease_expired (e_now env) us e) (deliveries d))),
     d\<lparr>deliveries := map (\<lambda>r. if lease_expired (e_now env) us e r then reclaimed (e_now env) r else r)
                       (deliveries d)\<rparr>)"
  using assms by (simp add: reclaim_expired_def exec_stmt_def reclaim_stmt_def update_deliveries_def)

text \<open>A row whose lease has expired.\<close>

definition expired_row :: delivery_row where
  "expired_row = lease 5 (pending_row 5 10 1 ''a'')"

definition expired_db :: db where
  "expired_db = \<lparr>receipts = [row_of (sample_receipt 1 ''k'')], deliveries = [expired_row]\<rparr>"

lemma expired_db_inv: "db_inv expired_db"
  by (simp add: db_inv_def wf_db_def history_at_rest_def has_receipt_def pending_row_def expired_db_def
      expired_row_def lease_def)

lemma interval_60s: "interval_of_secs (as_secs_f64 (duration_from_secs 60)) = Ok 60000000"
proof -
  have "f64_mul (Fin 60) (Fin 1000000) = Fin (of_nat 60000000)"
    using f64_round_nat[of 60000000] by simp
  then show ?thesis
    using as_secs_f64_whole[of 60] round_half_even_of_int[of 60000000]
    by (simp add: interval_of_secs_def Let_def)
qed

text \<open>The pending gauge is honest: \<^verbatim>\<open>count_pending\<close> is the number of deliveries an unlimited claim
  at the same moment would take.\<close>

lemma count_pending_counts_claims:
  assumes "length (deliveries d) \<le> n"
  shows "count_pending IO_Ok now e d = Ok (length (claimed_rows now [] e n d))"
proof -
  have "length (filter (claimable now e) (deliveries d)) \<le> n"
    using assms length_filter_le order_trans by blast
  then show ?thesis by (simp add: count_pending_def read_stmt_def claimed_rows_def)
qed

lemma pending_rows_ids:
  "map (DeliveryId \<circ> dr_delivery_id) (pending_rows env k u ns) =
   map (DeliveryId \<circ> e_uuid env) [k ..< k + length ns]"
  by (induction ns arbitrary: k) (simp_all add: pending_row_def upt_conv_Cons del: upt_Suc)

text \<open>A batch replay is all-or-nothing: the table is unchanged or has one fresh pending row per
  requested emitter, in order, and a success names exactly those rows.\<close>

lemma insert_replays_atomic:
  assumes "insert_replays env i names d = (res, d')"
  obtains (Nothing) e where "res = Err e" "d' = d"
  | (All) new where "d' = d\<lparr>deliveries := deliveries d @ new\<rparr>" "map dr_emitter_name new = names"
      "list_all (\<lambda>r. fresh_row r \<and> dr_receipt_id r = rid_uuid i) new"
      "res = Ok (map (DeliveryId \<circ> dr_delivery_id) new) \<or> (\<exists>e. res = Err e)"
proof -
  let ?new = "pending_rows env 0 (rid_uuid i) names"
  have "list_all (\<lambda>r. fresh_row r \<and> dr_receipt_id r = rid_uuid i) ?new"
    using pending_rows_fields by (auto simp: list_all_iff fresh_row_def)
  from assms this show ?thesis
    by (cases rule: insert_replays_cases)
      (use pending_rows_ids[of env 0 "rid_uuid i" names] in \<open>auto intro: Nothing All[of ?new]\<close>)
qed

end
