(* ===== verification/Rust_Strings.thy ===== *)
theory Rust_Strings
  imports Domain
begin

text \<open>
  The parts of Rust's string library the crates use, on byte strings: prefixes, splitting, trimming,
  ASCII case, integer parsing and UTF-8 validation, and header lookup of the \<^verbatim>\<open>http\<close> crate.
\<close>

definition byte :: "char \<Rightarrow> nat" where
  "byte c = of_char c"

definition to_ascii_lowercase :: "string \<Rightarrow> string" where
  "to_ascii_lowercase s = map (\<lambda>c. if 65 \<le> byte c \<and> byte c \<le> 90 then char_of (byte c + 32) else c) s"

definition strip_prefix :: "string \<Rightarrow> string \<Rightarrow> string option" where
  "strip_prefix p s = (if take (length p) s = p then Some (drop (length p) s) else None)"

text \<open>\<^verbatim>\<open>s.split(c)\<close>: always at least one part.\<close>

fun split_char :: "char \<Rightarrow> string \<Rightarrow> string list" where
  "split_char c [] = [[]]"
| "split_char c (a # s) =
     (if a = c then [] # split_char c s
      else (case split_char c s of [] \<Rightarrow> [[a]] | p # ps \<Rightarrow> (a # p) # ps))"

text \<open>White space of an ASCII string.\<close>

definition is_ws :: "char \<Rightarrow> bool" where
  "is_ws c \<longleftrightarrow> 9 \<le> byte c \<and> byte c \<le> 13 \<or> byte c = 32"

fun split_ws :: "string \<Rightarrow> string \<Rightarrow> string list" where
  "split_ws acc [] = (if acc = [] then [] else [rev acc])"
| "split_ws acc (a # s) =
     (if is_ws a then (if acc = [] then split_ws [] s else rev acc # split_ws [] s)
      else split_ws (a # acc) s)"

definition split_whitespace :: "string \<Rightarrow> string list" where
  "split_whitespace s = split_ws [] s"

definition is_digit :: "char \<Rightarrow> bool" where
  "is_digit c \<longleftrightarrow> 48 \<le> byte c \<and> byte c \<le> 57"

text \<open>Decimal digits to a number; \<open>None\<close> when empty or not all digits.\<close>

definition parse_digits :: "string \<Rightarrow> nat option" where
  "parse_digits s =
     (if s = [] \<or> \<not> list_all is_digit s then None
      else Some (fold (\<lambda>c n. n * 10 + (byte c - 48)) s 0))"

text \<open>\<^verbatim>\<open>str::parse::<u64>\<close> and \<^verbatim>\<open>str::parse::<i64>\<close>: an optional sign, digits, in range.\<close>

definition parse_u64 :: "string \<Rightarrow> nat option" where
  "parse_u64 s =
     (case parse_digits (case s of c # t \<Rightarrow> if c = CHR ''+'' then t else s | [] \<Rightarrow> s) of
        Some n \<Rightarrow> if n < 2 ^ 64 then Some n else None
      | None \<Rightarrow> None)"

definition parse_i64 :: "string \<Rightarrow> int option" where
  "parse_i64 s =
     (case s of
        [] \<Rightarrow> None
      | c # t \<Rightarrow>
          if c = CHR ''-'' then
            (case parse_digits t of Some n \<Rightarrow> if n \<le> 2 ^ 63 then Some (- int n) else None | None \<Rightarrow> None)
          else
            (case parse_digits (if c = CHR ''+'' then t else s) of
               Some n \<Rightarrow> if n < 2 ^ 63 then Some (int n) else None | None \<Rightarrow> None))"

text \<open>\<^verbatim>\<open>std::str::from_utf8\<close>: the well-formed byte sequences of the Unicode standard.\<close>

definition cont_byte :: "nat \<Rightarrow> bool" where
  "cont_byte b \<longleftrightarrow> 128 \<le> b \<and> b \<le> 191"

fun utf8_bytes :: "nat list \<Rightarrow> bool" where
  "utf8_bytes [] = True"
| "utf8_bytes (a # r) =
     (if a \<le> 127 then utf8_bytes r
      else if 194 \<le> a \<and> a \<le> 223 then
        (case r of b # r1 \<Rightarrow> cont_byte b \<and> utf8_bytes r1 | _ \<Rightarrow> False)
      else if 224 \<le> a \<and> a \<le> 239 then
        (case r of b # c # r2 \<Rightarrow>
            (if a = 224 then 160 \<le> b \<and> b \<le> 191 else if a = 237 then 128 \<le> b \<and> b \<le> 159 else cont_byte b)
            \<and> cont_byte c \<and> utf8_bytes r2
         | _ \<Rightarrow> False)
      else if 240 \<le> a \<and> a \<le> 244 then
        (case r of b # c # e # r3 \<Rightarrow>
            (if a = 240 then 144 \<le> b \<and> b \<le> 191 else if a = 244 then 128 \<le> b \<and> b \<le> 143 else cont_byte b)
            \<and> cont_byte c \<and> cont_byte e \<and> utf8_bytes r3
         | _ \<Rightarrow> False)
      else False)"

definition from_utf8 :: "bytes \<Rightarrow> string option" where
  "from_utf8 b = (if utf8_bytes (map byte b) then Some b else None)"

section \<open>Headers\<close>

text \<open>A \<^verbatim>\<open>HeaderMap\<close>: lower-case names with their values, in order; a name may occur repeatedly.
  A lookup ignores ASCII case and gives the first value.\<close>

type_synonym headers = "(string \<times> bytes) list"

definition header_get :: "headers \<Rightarrow> string \<Rightarrow> bytes option" where
  "header_get hs name = map_of hs (to_ascii_lowercase name)"

definition header_get_all :: "headers \<Rightarrow> string \<Rightarrow> bytes list" where
  "header_get_all hs name = map snd (filter (\<lambda>(k, _). k = to_ascii_lowercase name) hs)"

text \<open>\<open>keys()\<close> names each header once.\<close>

definition header_keys :: "headers \<Rightarrow> string list" where
  "header_keys hs = remdups (map fst hs)"

section \<open>Lemmas\<close>

lemma split_char_nonempty [simp]: "split_char c s \<noteq> []"
  by (induction c s rule: split_char.induct) (auto split: list.split)

lemma split_char_single: "c \<notin> set s \<Longrightarrow> split_char c s = [s]"
  by (induction s) auto

lemma split_char_append:
  "c \<notin> set s \<Longrightarrow> split_char c (s @ c # t) = s # split_char c t"
  by (induction s) auto

lemma strip_prefix_Some: "strip_prefix p s = Some t \<longleftrightarrow> s = p @ t"
  by (auto simp: strip_prefix_def) (metis append_take_drop_id)

lemma strip_prefix_append [simp]: "strip_prefix p (p @ t) = Some t"
  by (simp add: strip_prefix_Some)

lemma split_ws_word:
  "list_all (\<lambda>c. \<not> is_ws c) s \<Longrightarrow> split_ws acc s = (if acc = [] \<and> s = [] then [] else [rev acc @ s])"
  by (induction s arbitrary: acc) auto

lemma split_whitespace_word:
  "list_all (\<lambda>c. \<not> is_ws c) s \<Longrightarrow> s \<noteq> [] \<Longrightarrow> split_whitespace s = [s]"
  by (simp add: split_whitespace_def split_ws_word)

lemma utf8_ascii: "list_all (\<lambda>b. b \<le> 127) bs \<Longrightarrow> utf8_bytes bs"
  by (induction bs) auto

end
