(* ===== verification/Pipeline.thy ===== *)
theory Pipeline
  imports Dedupe Deliveries Rust_Strings
begin

text \<open>
  The ingest pipeline of \<^verbatim>\<open>crates/hookbox/src/pipeline.rs\<close>: receive, verify, advisory dedupe, store
  with one delivery row per emitter. The pipeline is generic over its storage and dedupe strategy;
  its model is generic over the world \<open>'w\<close> those two share. Between two awaits other tasks may run:
  \<open>ie_gap1\<close> and \<open>ie_gap2\<close> say what they do to the world before the store and before the cache is
  updated. What the pipeline needs of its storage is the locale \<open>ingest_storage\<close>, interpreted on the
  PostgreSQL storage with the layered dedupe of the server.
\<close>

section \<open>Requests and collaborators\<close>

text \<open>\<^verbatim>\<open>SignatureVerifier\<close>: the name and the verdict at a clock reading (seconds since the epoch).\<close>

record verifier =
  v_provider_name :: string
  v_verify :: "int \<Rightarrow> headers \<Rightarrow> bytes \<Rightarrow> verification_result"

record 'w pipeline =
  p_store :: "dbenv \<Rightarrow> webhook_receipt \<Rightarrow> string list \<Rightarrow> 'w \<Rightarrow> store_result answer \<times> 'w"
  p_check :: "'w \<Rightarrow> string \<Rightarrow> string \<Rightarrow> dedupe_decision dedupe_answer"
  p_record :: "'w \<Rightarrow> string \<Rightarrow> string \<Rightarrow> unit dedupe_answer \<times> 'w"
  p_emitter_names :: "string list"
  p_verifiers :: "(string \<times> verifier) list"

record 'w ingest_env =
  ie_receipt_id :: uuid
  ie_clock :: int
  ie_now :: timestamp
  ie_db :: dbenv
  ie_gap1 :: "'w \<Rightarrow> 'w"
  ie_gap2 :: "'w \<Rightarrow> 'w"

text \<open>What is reported to the metrics registry: a counter is incremented by one or by a number, a
  histogram gets an observation (durations are not modelled), a gauge is set.\<close>

datatype metric =
    Counter string "(string \<times> string) list"
  | CounterBy string "(string \<times> string) list" nat
  | Histogram string
  | Observed string "(string \<times> string) list" int
  | Gauge string "(string \<times> string) list" nat

section \<open>headers\_to\_json\<close>

fun join :: "string \<Rightarrow> string list \<Rightarrow> string" where
  "join sep [] = []"
| "join sep [x] = x"
| "join sep (x # y # ys) = x @ sep @ join sep (y # ys)"

definition headers_to_json :: "externals \<Rightarrow> headers \<Rightarrow> json" where
  "headers_to_json x hs =
     jobj (map (\<lambda>key. (key, JString (join '', '' (List.map_filter (x_header_to_str x) (header_get_all hs key)))))
             (header_keys hs))"

section \<open>ingest\<close>

text \<open>Stage 2: the status and reason to store, or the reason to reject; with the counters it bumps.\<close>

definition run_verification ::
  "'w pipeline \<Rightarrow> int \<Rightarrow> string \<Rightarrow> headers \<Rightarrow> bytes
     \<Rightarrow> (verification_status \<times> string option, string) result \<times> metric list" where
  "run_verification p clock provider hs body =
     (let counted = (\<lambda>status reason. Counter ''hookbox_verification_results_total''
            [(''provider'', provider), (''status'', status), (''reason'', reason)]) in
      (case map_of (p_verifiers p) provider of
         None \<Rightarrow> (Ok (VS_Skipped, Some ''no_verifier_configured''),
                  [counted ''skipped'' ''no_verifier_configured''])
       | Some v \<Rightarrow>
          (let res = v_verify v clock hs body in
           (case vr_status res of
              VS_Failed \<Rightarrow>
                (let reason = (case vr_reason res of Some r \<Rightarrow> r | None \<Rightarrow> ''verification_failed'') in
                 (Err reason, [counted ''failed'' reason]))
            | VS_Verified \<Rightarrow>
                (Ok (VS_Verified, vr_reason res),
                 [counted ''verified'' (case vr_reason res of Some r \<Rightarrow> r | None \<Rightarrow> ''none'')])
            | VS_Skipped \<Rightarrow>
                (Ok (VS_Skipped, vr_reason res),
                 [counted ''skipped'' (case vr_reason res of Some r \<Rightarrow> r | None \<Rightarrow> ''none'')])))))"

text \<open>Stage 4, first half: the receipt to store.\<close>

definition build_receipt ::
  "externals \<Rightarrow> uuid \<Rightarrow> timestamp \<Rightarrow> string \<Rightarrow> headers \<Rightarrow> bytes
     \<Rightarrow> verification_status \<Rightarrow> string option \<Rightarrow> webhook_receipt" where
  "build_receipt x rid now provider hs body status reason =
     \<lparr>receipt_id = ReceiptId rid,
      provider_name = provider,
      provider_event_id = None,
      external_reference = None,
      dedupe_key = provider @ '':'' @ compute_payload_hash x body,
      payload_hash = compute_payload_hash x body,
      raw_body = body,
      parsed_payload = x_json_from_slice x body,
      raw_headers = headers_to_json x hs,
      normalized_event_type = None,
      verification_status = status,
      verification_reason = reason,
      processing_state = PS_Stored,
      emit_count = 0,
      last_error = None,
      received_at = now,
      processed_at = None,
      metadata = JObject []\<rparr>"

definition ingest ::
  "externals \<Rightarrow> 'w pipeline \<Rightarrow> 'w ingest_env \<Rightarrow> string \<Rightarrow> headers \<Rightarrow> bytes \<Rightarrow> 'w
     \<Rightarrow> (ingest_result, ingest_error) result \<times> metric list \<times> 'w" where
  "ingest x p env provider hs body w =
     (let received = Counter ''hookbox_webhooks_received_total'' [(''provider'', provider)];
          outcome = (\<lambda>label. [Counter ''hookbox_ingest_results_total''
                                [(''provider'', provider), (''result'', label)],
                              Histogram ''hookbox_ingest_duration_seconds'']);
          hash = compute_payload_hash x body;
          key = provider @ '':'' @ hash in
      (case run_verification p (ie_clock env) provider hs body of
         (Err reason, ms) \<Rightarrow>
           (Ok (IR_VerificationFailed reason), received # ms @ outcome LABEL_VERIFICATION_FAILED, w)
       | (Ok (status, vreason), ms) \<Rightarrow>
      (case p_check p w key hash of
         Err e \<Rightarrow> (Err (IE_Dedupe e), received # ms @ outcome LABEL_DEDUPE_FAILED, w)
       | Ok advisory \<Rightarrow>
          (let checked = Counter ''hookbox_dedupe_checks_total''
                 [(''provider'', provider), (''result'', dedupe_decision_label advisory)];
               receipt = build_receipt x (ie_receipt_id env) (ie_now env) provider hs body status vreason;
               before = received # ms @ [checked] in
           (case p_store p (ie_db env) receipt (p_emitter_names p) (ie_gap1 env w) of
              (Err e, w1) \<Rightarrow> (Err (IE_Storage e), before @ outcome LABEL_STORE_FAILED, w1)
            | (Ok (SR_Duplicate existing), w1) \<Rightarrow>
                (Ok (IR_Duplicate existing),
                 before @ Histogram ''hookbox_store_duration_seconds'' # outcome LABEL_DUPLICATE, w1)
            | (Ok SR_Stored, w1) \<Rightarrow>
                (Ok (IR_Accepted (receipt_id receipt)),
                 before @ Histogram ''hookbox_store_duration_seconds'' # outcome LABEL_ACCEPTED,
                 snd (p_record p (ie_gap2 env w1) key hash)))))))"

section \<open>The builder\<close>

record 'w pipeline_builder =
  b_storage :: "(dbenv \<Rightarrow> webhook_receipt \<Rightarrow> string list \<Rightarrow> 'w \<Rightarrow> store_result answer \<times> 'w) option"
  b_dedupe :: "(('w \<Rightarrow> string \<Rightarrow> string \<Rightarrow> dedupe_decision dedupe_answer)
                \<times> ('w \<Rightarrow> string \<Rightarrow> string \<Rightarrow> unit dedupe_answer \<times> 'w)) option"
  b_emitter_names :: "string list"
  b_verifiers :: "(string \<times> verifier) list"

definition pipeline_builder :: "'w pipeline_builder" where
  "pipeline_builder = \<lparr>b_storage = None, b_dedupe = None, b_emitter_names = [], b_verifiers = []\<rparr>"

definition builder_storage ::
  "(dbenv \<Rightarrow> webhook_receipt \<Rightarrow> string list \<Rightarrow> 'w \<Rightarrow> store_result answer \<times> 'w)
     \<Rightarrow> 'w pipeline_builder \<Rightarrow> 'w pipeline_builder" where
  "builder_storage s b = b\<lparr>b_storage := Some s\<rparr>"

definition builder_dedupe ::
  "('w \<Rightarrow> string \<Rightarrow> string \<Rightarrow> dedupe_decision dedupe_answer)
     \<Rightarrow> ('w \<Rightarrow> string \<Rightarrow> string \<Rightarrow> unit dedupe_answer \<times> 'w)
     \<Rightarrow> 'w pipeline_builder \<Rightarrow> 'w pipeline_builder" where
  "builder_dedupe c r b = b\<lparr>b_dedupe := Some (c, r)\<rparr>"

definition builder_emitter_names :: "string list \<Rightarrow> 'w pipeline_builder \<Rightarrow> 'w pipeline_builder" where
  "builder_emitter_names names b = b\<lparr>b_emitter_names := names\<rparr>"

definition verifier_boxed :: "verifier \<Rightarrow> 'w pipeline_builder \<Rightarrow> 'w pipeline_builder" where
  "verifier_boxed v b = b\<lparr>b_verifiers := AList.update (v_provider_name v) v (b_verifiers b)\<rparr>"

text \<open>\<open>None\<close>: a required part is missing and \<^verbatim>\<open>build\<close> panics.\<close>

definition builder_build :: "'w pipeline_builder \<Rightarrow> 'w pipeline option" where
  "builder_build b =
     (case b_storage b of None \<Rightarrow> None
      | Some s \<Rightarrow>
     (case b_dedupe b of None \<Rightarrow> None
      | Some (c, r) \<Rightarrow>
          Some \<lparr>p_store = s, p_check = c, p_record = r, p_emitter_names = b_emitter_names b,
                p_verifiers = b_verifiers b\<rparr>))"

section \<open>POST /webhooks/\<open>provider\<close>\<close>

definition ingest_response ::
  "externals \<Rightarrow> (ingest_result, ingest_error) result \<Rightarrow> nat \<times> json" where
  "ingest_response x res =
     (case res of
        Ok (IR_Accepted i) \<Rightarrow>
          (200, jobj [(''status'', JString ''accepted''),
                      (''receipt_id'', JString (x_uuid_to_string x (rid_uuid i)))])
      | Ok (IR_Duplicate i) \<Rightarrow>
          (200, jobj [(''status'', JString ''duplicate''),
                      (''existing_id'', JString (x_uuid_to_string x (rid_uuid i)))])
      | Ok (IR_VerificationFailed reason) \<Rightarrow>
          (401, jobj [(''status'', JString ''verification_failed''), (''reason'', JString reason)])
      | Err _ \<Rightarrow>
          (500, jobj [(''status'', JString ''error''), (''reason'', JString ''internal server error'')]))"

definition ingest_webhook ::
  "externals \<Rightarrow> 'w pipeline \<Rightarrow> 'w ingest_env \<Rightarrow> string \<Rightarrow> headers \<Rightarrow> bytes \<Rightarrow> 'w
     \<Rightarrow> (nat \<times> json) \<times> metric list \<times> 'w" where
  "ingest_webhook x p env provider hs body w =
     (case ingest x p env provider hs body w of (res, ms, w') \<Rightarrow> (ingest_response x res, ms, w'))"

section \<open>The outcomes of an ingest\<close>

lemma ingest_cases:
  assumes "ingest x p env provider hs body w = (res, ms, w')"
  obtains
    (Rejected) reason where "fst (run_verification p (ie_clock env) provider hs body) = Err reason"
      "res = Ok (IR_VerificationFailed reason)" "w' = w"
  | (DedupeError) e where "p_check p w (provider @ '':'' @ compute_payload_hash x body)
        (compute_payload_hash x body) = Err e" "res = Err (IE_Dedupe e)" "w' = w"
  | (StoreError) status reason e where
      "fst (run_verification p (ie_clock env) provider hs body) = Ok (status, reason)"
      "p_store p (ie_db env) (build_receipt x (ie_receipt_id env) (ie_now env) provider hs body status reason)
         (p_emitter_names p) (ie_gap1 env w) = (Err e, w')" "res = Err (IE_Storage e)"
  | (Duplicate) status reason i where
      "fst (run_verification p (ie_clock env) provider hs body) = Ok (status, reason)"
      "p_store p (ie_db env) (build_receipt x (ie_receipt_id env) (ie_now env) provider hs body status reason)
         (p_emitter_names p) (ie_gap1 env w) = (Ok (SR_Duplicate i), w')" "res = Ok (IR_Duplicate i)"
  | (Accepted) status reason w1 where
      "fst (run_verification p (ie_clock env) provider hs body) = Ok (status, reason)"
      "p_store p (ie_db env) (build_receipt x (ie_receipt_id env) (ie_now env) provider hs body status reason)
         (p_emitter_names p) (ie_gap1 env w) = (Ok SR_Stored, w1)"
      "res = Ok (IR_Accepted (ReceiptId (ie_receipt_id env)))"
      "w' = snd (p_record p (ie_gap2 env w1) (provider @ '':'' @ compute_payload_hash x body)
                   (compute_payload_hash x body))"
proof (cases "run_verification p (ie_clock env) provider hs body")
  case (Pair vres vms)
  show ?thesis
  proof (cases vres)
    case (Err reason)
    show ?thesis
      by (rule Rejected[of reason])
        (use assms[unfolded ingest_def Let_def Pair Err prod.case result.case] Pair Err in simp_all)
  next
    case (Ok sr)
    obtain status reason where sr: "sr = (status, reason)" by (cases sr)
    let ?r = "build_receipt x (ie_receipt_id env) (ie_now env) provider hs body status reason"
    show ?thesis
    proof (cases "p_check p w (provider @ '':'' @ compute_payload_hash x body) (compute_payload_hash x body)")
      case (Err e)
      show ?thesis
        by (rule DedupeError[of e])
          (use assms[unfolded ingest_def Let_def Pair Ok sr prod.case result.case Err] Err in simp_all)
    next
      case adv: (Ok adv)
      obtain sres w1 where st:
        "p_store p (ie_db env) ?r (p_emitter_names p) (ie_gap1 env w) = (sres, w1)"
        by fastforce
      have rid: "receipt_id ?r = ReceiptId (ie_receipt_id env)" by (simp add: build_receipt_def)
      note run = assms[unfolded ingest_def Let_def Pair Ok sr prod.case result.case adv st]
      consider (e) e where "sres = Err e" | (s) "sres = Ok SR_Stored" | (d) i where "sres = Ok (SR_Duplicate i)"
        by (metis result.exhaust store_result.exhaust)
      then show ?thesis
      proof cases
        case e
        show ?thesis by (rule StoreError[of status reason e]) (use run st e Pair Ok sr in simp_all)
      next
        case s
        show ?thesis by (rule Accepted[of status reason w1]) (use run st s Pair Ok sr rid in simp_all)
      next
        case d
        show ?thesis by (rule Duplicate[of status reason i]) (use run st d Pair Ok sr in simp_all)
      qed
    qed
  qed
qed

section \<open>What the pipeline needs of its storage\<close>

text \<open>
  \<open>tables\<close> is the durable part of the world. A store answers truthfully whether the key was there,
  and a stored receipt is committed together with its deliveries; the dedupe cache never touches the
  durable part.
\<close>

locale ingest_storage =
  fixes p :: "'w pipeline" and inv :: "'w \<Rightarrow> bool" and tables :: "'w \<Rightarrow> 't"
    and holds_key :: "'t \<Rightarrow> string \<Rightarrow> receiptid \<Rightarrow> bool"
    and committed :: "'t \<Rightarrow> webhook_receipt \<Rightarrow> string list \<Rightarrow> bool"
  assumes store_inv: "inv w \<Longrightarrow> inv (snd (p_store p e r ns w))"
    and store_Stored: "inv w \<Longrightarrow> p_store p e r ns w = (Ok SR_Stored, w1) \<Longrightarrow>
          (\<forall>i. \<not> holds_key (tables w) (dedupe_key r) i) \<and> committed (tables w1) r ns"
    and store_Duplicate: "inv w \<Longrightarrow> p_store p e r ns w = (Ok (SR_Duplicate i), w1) \<Longrightarrow>
          tables w1 = tables w \<and> holds_key (tables w) (dedupe_key r) i"
    and record_inv: "inv w \<Longrightarrow> inv (snd (p_record p w k h))"
    and record_tables: "inv w \<Longrightarrow> tables (snd (p_record p w k h)) = tables w"
begin

lemma ingest_inv:
  assumes "inv w" and "\<And>w. inv w \<Longrightarrow> inv (ie_gap1 env w)" and "\<And>w. inv w \<Longrightarrow> inv (ie_gap2 env w)"
    and "ingest x p env provider hs body w = (res, ms, w')"
  shows "inv w'"
  using assms(4)
proof (cases rule: ingest_cases)
  case (StoreError status reason e)
  then show ?thesis using store_inv assms(1,2) by (metis snd_conv)
next
  case (Duplicate status reason i)
  then show ?thesis using store_inv assms(1,2) by (metis snd_conv)
next
  case (Accepted status reason w1)
  then show ?thesis using store_inv record_inv assms(1-3) by (metis snd_conv)
qed (use assms(1) in simp_all)

lemma accepted_committed:
  assumes "inv w" and "\<And>w. inv w \<Longrightarrow> inv (ie_gap1 env w)"
    and gap2: "\<And>w. inv w \<Longrightarrow> inv (ie_gap2 env w)"
      "\<And>w r ns. inv w \<Longrightarrow> committed (tables w) r ns \<Longrightarrow> committed (tables (ie_gap2 env w)) r ns"
    and "ingest x p env provider hs body w = (Ok (IR_Accepted i), ms, w')"
  shows "\<exists>status reason. fst (run_verification p (ie_clock env) provider hs body) = Ok (status, reason)
    \<and> i = ReceiptId (ie_receipt_id env)
    \<and> (\<forall>j. \<not> holds_key (tables (ie_gap1 env w)) (provider @ '':'' @ compute_payload_hash x body) j)
    \<and> committed (tables w') (build_receipt x (ie_receipt_id env) (ie_now env) provider hs body status reason)
        (p_emitter_names p)"
  using assms(5)
proof (cases rule: ingest_cases)
  case (Accepted status reason w1)
  let ?r = "build_receipt x (ie_receipt_id env) (ie_now env) provider hs body status reason"
  note st = store_Stored[OF assms(2)[OF assms(1)] Accepted(2)]
  have "inv w1" using store_inv[OF assms(2)[OF assms(1)]] Accepted(2) by (metis snd_conv)
  then have "committed (tables w') ?r (p_emitter_names p)"
    using Accepted(4) st gap2 record_tables by metis
  moreover have "dedupe_key ?r = provider @ '':'' @ compute_payload_hash x body"
    by (simp add: build_receipt_def)
  ultimately show ?thesis using Accepted st by auto
qed simp_all

lemma duplicate_known:
  assumes "inv w" and "\<And>w. inv w \<Longrightarrow> inv (ie_gap1 env w)"
    and "ingest x p env provider hs body w = (Ok (IR_Duplicate i), ms, w')"
  shows "tables w' = tables (ie_gap1 env w)
    \<and> holds_key (tables w') (provider @ '':'' @ compute_payload_hash x body) i"
  using assms(3)
proof (cases rule: ingest_cases)
  case (Duplicate status reason j)
  then show ?thesis using store_Duplicate[OF assms(2)[OF assms(1)] Duplicate(2)]
    by (simp add: build_receipt_def)
qed simp_all

end

section \<open>The server's pipeline\<close>

text \<open>\<^verbatim>\<open>HookboxPipeline<PostgresStorage, LayeredDedupe<InMemoryRecentDedupe, StorageDedupe>>\<close>; the
  dedupe lookup's round trip has outcome \<open>out\<close>.\<close>

type_synonym world = "recent_dedupe \<times> db"

definition pg_store ::
  "dbenv \<Rightarrow> webhook_receipt \<Rightarrow> string list \<Rightarrow> world \<Rightarrow> store_result answer \<times> world" where
  "pg_store env r names w =
     (case store_with_deliveries env r names (snd w) of (res, d') \<Rightarrow> (res, (fst w, d')))"

definition server_pipeline :: "io \<Rightarrow> string list \<Rightarrow> (string \<times> verifier) list \<Rightarrow> world pipeline" where
  "server_pipeline out names vs =
     \<lparr>p_store = pg_store,
      p_check = layered_check recent_check (storage_dedupe_check out),
      p_record = layered_record recent_record storage_dedupe_record,
      p_emitter_names = names,
      p_verifiers = vs\<rparr>"

definition world_inv :: "world \<Rightarrow> bool" where
  "world_inv w \<longleftrightarrow> recent_inv (fst w) \<and> db_inv (snd w)"

definition holds_key :: "db \<Rightarrow> string \<Rightarrow> receiptid \<Rightarrow> bool" where
  "holds_key d k i =
     list_ex (\<lambda>row. rr_dedupe_key row = k \<and> ReceiptId (rr_receipt_id row) = i) (receipts d)"

definition emitters_of :: "uuid \<Rightarrow> db \<Rightarrow> string list" where
  "emitters_of u d = map dr_emitter_name (filter (\<lambda>x. dr_receipt_id x = u) (deliveries d))"

definition committed :: "db \<Rightarrow> webhook_receipt \<Rightarrow> string list \<Rightarrow> bool" where
  "committed d r names \<longleftrightarrow>
     row_of r \<in> set (receipts d)
     \<and> take (length names) (emitters_of (rid_uuid (receipt_id r)) d) = names"

lemma fanout_receipt_rows:
  assumes "wf_db d" and "wf_db (fanout env r names d)"
  shows "filter (\<lambda>x. dr_receipt_id x = rid_uuid (receipt_id r)) (deliveries (fanout env r names d))
    = pending_rows env 0 (rid_uuid (receipt_id r)) names"
proof -
  let ?u = "rid_uuid (receipt_id r)"
  have "?u \<notin> rr_receipt_id ` set (receipts d)"
    using assms(2) by (auto simp: wf_db_def fanout_rows)
  moreover have "dr_receipt_id x \<in> rr_receipt_id ` set (receipts d)" if "x \<in> set (deliveries d)" for x
    using assms(1) that by (simp add: wf_db_def list_all_iff has_receipt_iff)
  ultimately have "filter (\<lambda>x. dr_receipt_id x = ?u) (deliveries d) = []"
    by (intro filter_False) metis
  moreover have "filter (\<lambda>x. dr_receipt_id x = ?u) (pending_rows env 0 ?u names) = pending_rows env 0 ?u names"
    using pending_rows_fields by (simp add: filter_id_conv)
  ultimately show ?thesis by (simp add: fanout_rows)
qed

lemma committed_stored:
  assumes "wf_db d" and "wf_db (fanout env r names d)"
  shows "committed (fanout env r names d) r names"
  using fanout_receipt_rows[OF assms] by (simp add: committed_def emitters_of_def fanout_rows)

lemma db_step_emitters:
  assumes "db_step d d'"
  shows "\<exists>ext. emitters_of u d' = emitters_of u d @ ext"
proof -
  obtain old new where d': "deliveries d' = old @ new" and st: "list_all2 row_step (deliveries d) old"
    using assms by (auto simp: db_step_def)
  from st have "map dr_emitter_name (filter (\<lambda>x. dr_receipt_id x = u) old)
      = map dr_emitter_name (filter (\<lambda>x. dr_receipt_id x = u) (deliveries d))"
    by (induction rule: list_all2_induct) (auto dest: row_step_keeps)
  then show ?thesis by (simp add: emitters_of_def d')
qed

lemma db_step_committed:
  assumes "db_step d d'" and "committed d r names" shows "committed d' r names"
proof -
  obtain ext where "emitters_of (rid_uuid (receipt_id r)) d' = emitters_of (rid_uuid (receipt_id r)) d @ ext"
    using db_step_emitters[OF assms(1)] by blast
  moreover have "length names \<le> length (emitters_of (rid_uuid (receipt_id r)) d)"
    using arg_cong[where f = length, OF conjunct2[OF assms(2)[unfolded committed_def]]] by simp
  ultimately show ?thesis using assms by (auto simp: committed_def db_step_def)
qed

lemma run_ops_committed:
  "db_inv d \<Longrightarrow> committed d r names \<Longrightarrow> committed (fold run_op ops d) r names"
proof (induction ops arbitrary: d)
  case (Cons op ops)
  then show ?case using run_op_step[OF Cons.prems(1), of op] db_step_committed by auto
qed simp

lemma record_db [simp]: "snd (snd (layered_record recent_record storage_dedupe_record w k h)) = snd w"
  by (auto simp: layered_record_def storage_dedupe_record_def split: result.splits prod.splits)

interpretation server: ingest_storage "server_pipeline out names vs" world_inv snd holds_key committed
  for out names vs
proof (unfold_locales, goal_cases)
  case (1 w e r ns)
  then show ?case
    using store_with_deliveries_step[of "snd w" e r ns]
    by (auto simp: world_inv_def server_pipeline_def pg_store_def split: prod.splits)
next
  case (2 w e r ns w1)
  then obtain d' where st: "store_with_deliveries e r ns (snd w) = (Ok SR_Stored, d')" and w1: "snd w1 = d'"
    by (auto simp: server_pipeline_def pg_store_def split: prod.splits)
  have wf: "wf_db (snd w)" using 2(1) by (simp add: world_inv_def db_inv_def)
  from st show ?case
    by (cases rule: store_with_deliveries_cases)
      (use w1 wf committed_stored in \<open>auto simp: holds_key_def list_ex_iff has_key_def\<close>)
next
  case (3 w e r ns i w1)
  then obtain d' where st: "store_with_deliveries e r ns (snd w) = (Ok (SR_Duplicate i), d')"
    and w1: "snd w1 = d'"
    by (auto simp: server_pipeline_def pg_store_def split: prod.splits)
  from st show ?case
    by (cases rule: store_with_deliveries_cases) (use w1 in \<open>auto simp: holds_key_def list_ex_iff\<close>)
next
  case (4 w k h)
  then show ?case using recent.record_inv[of "fst w" k h]
    by (auto simp: world_inv_def server_pipeline_def layered_record_def storage_dedupe_record_def
        split: result.splits prod.splits)
next
  case (5 w k h)
  then show ?case by (simp add: server_pipeline_def)
qed

text \<open>What other tasks of the server do to the world: recordings in the cache and table operations.\<close>

definition interference :: "(string \<times> string) list \<Rightarrow> db_op list \<Rightarrow> world \<Rightarrow> world" where
  "interference ps ops w = (recent.run (fst w) ps, fold run_op ops (snd w))"

lemma interference_inv: "world_inv w \<Longrightarrow> world_inv (interference ps ops w)"
  by (simp add: world_inv_def interference_def recent.run_inv run_ops_inv)

lemma interference_committed:
  "world_inv w \<Longrightarrow> committed (snd w) r ns \<Longrightarrow> committed (snd (interference ps ops w)) r ns"
  by (simp add: world_inv_def interference_def run_ops_committed)

lemma committed_get:
  assumes "wf_db d" and "committed d r names"
  shows "storage_get IO_Ok (rid_uuid (receipt_id r)) d = Ok (Some r)"
  using storage_get_Ok[OF assms(1), of "row_of r"] assms(2) by (simp add: committed_def)

section \<open>Properties\<close>

text \<open>C1. Accepted means durable. Whatever other requests and workers do between the stages, and
  whatever faults they meet, an \<^verbatim>\<open>Accepted\<close> answer implies that afterwards the table holds exactly the
  received payload under the returned id, with the verdict of the verifier, and one delivery row per
  configured emitter in order.\<close>

theorem accepted_is_durable:
  assumes "world_inv w" and "ie_gap1 env = interference ps1 ops1" and "ie_gap2 env = interference ps2 ops2"
    and "ingest x (server_pipeline out names vs) env provider hs body w = (Ok (IR_Accepted i), ms, w')"
  shows "\<exists>status reason.
      fst (run_verification (server_pipeline out names vs) (ie_clock env) provider hs body) = Ok (status, reason)
    \<and> storage_get IO_Ok (rid_uuid i) (snd w') =
        Ok (Some (build_receipt x (ie_receipt_id env) (ie_now env) provider hs body status reason))
    \<and> take (length names) (emitters_of (rid_uuid i) (snd w')) = names"
proof -
  have inv: "world_inv w'"
    by (rule server.ingest_inv[OF assms(1) _ _ assms(4)]) (simp_all add: assms(2,3) interference_inv)
  obtain status reason where v:
      "fst (run_verification (server_pipeline out names vs) (ie_clock env) provider hs body) = Ok (status, reason)"
      "i = ReceiptId (ie_receipt_id env)"
      "committed (snd w') (build_receipt x (ie_receipt_id env) (ie_now env) provider hs body status reason)
        (p_emitter_names (server_pipeline out names vs))"
    using server.accepted_committed[OF assms(1) _ _ _ assms(4)] assms(2,3)
      interference_inv interference_committed by (metis (no_types, lifting))
  have "wf_db (snd w')" using inv by (simp add: world_inv_def db_inv_def)
  from committed_get[OF this v(3)] v show ?thesis
    by (intro exI[of _ status] exI[of _ reason])
      (simp add: committed_def server_pipeline_def build_receipt_def)
qed

definition ext0 :: externals where
  "ext0 = \<lparr>x_sha256 = (\<lambda>b. b), x_hmac_sha256 = (\<lambda>k m. Some (k @ m)), x_hex_encode = (\<lambda>b. b),
      x_hex_decode = Some, x_b64_encode = (\<lambda>b. b), x_b64_decode = Some, x_header_to_str = Some,
      x_json_from_slice = (\<lambda>_. None), x_uuid_to_string = (\<lambda>_. ''uuid''), x_rsa_from_pem = Some,
      x_rsa_signature = Some, x_rsa_verify = (\<lambda>k m s. s = k @ m)\<rparr>"

definition world0 :: world where
  "world0 = (\<lparr>rd_capacity = 2, rd_map = [], rd_order = []\<rparr>, empty_db)"

definition ienv0 :: "uuid \<Rightarrow> nat \<Rightarrow> world ingest_env" where
  "ienv0 u base = \<lparr>ie_receipt_id = u, ie_clock = 5, ie_now = 5, ie_db = env_ok 5 base,
      ie_gap1 = interference [] [], ie_gap2 = interference [] []\<rparr>"

lemma world0_inv: "world_inv world0"
  by (simp add: world_inv_def world0_def recent_inv_def db_inv_def history_at_rest_def)
    (simp add: empty_db_def)

lemma interference_Nil [simp]: "interference [] [] w = w"
  by (simp add: interference_def recent.run_def)

lemma ingest0_accepted:
  "fst (ingest ext0 (server_pipeline IO_Ok [''kafka''] []) (ienv0 1 10) ''stripe'' [] ''{}'' world0)
   = Ok (IR_Accepted (ReceiptId 1))"
  by (simp add: ingest_def run_verification_def server_pipeline_def ienv0_def layered_check_def
      recent_check_def world0_def storage_dedupe_check_def empty_db_def pg_store_def store_with_deliveries_def
      env_ok_def tx_stmt_def insert_receipt_def has_key_def has_receipt_def has_delivery_def
      receipt_to_row_def build_receipt_def insert_delivery_def commit_tx_def Let_def)

theorem accepted_is_durable_witness:
  "take 1 (emitters_of 1 (snd (snd (snd (ingest ext0 (server_pipeline IO_Ok [''kafka''] []) (ienv0 1 10)
      ''stripe'' [] ''{}'' world0))))) = [''kafka'']"
proof -
  let ?out = "ingest ext0 (server_pipeline IO_Ok [''kafka''] []) (ienv0 1 10) ''stripe'' [] ''{}'' world0"
  have "?out = (Ok (IR_Accepted (ReceiptId 1)), fst (snd ?out), snd (snd ?out))"
    using ingest0_accepted by (metis prod.collapse)
  from accepted_is_durable[OF world0_inv _ _ this, of "[]" "[]" "[]" "[]"] show ?thesis
    by (auto simp: ienv0_def)
qed

text \<open>A \<^verbatim>\<open>Duplicate\<close> answer changes nothing and is justified: the ingest leaves the tables as it found
  them at the moment of the store, and the id it returns is that of a stored receipt with the same
  provider and payload hash.\<close>

lemma duplicate_changes_nothing:
  assumes "world_inv w" and "ie_gap1 env = interference ps1 ops1"
    and "ingest x (server_pipeline out names vs) env provider hs body w = (Ok (IR_Duplicate i), ms, w')"
  shows "snd w' = fold run_op ops1 (snd w)
    \<and> (\<exists>row \<in> set (receipts (snd w')). ReceiptId (rr_receipt_id row) = i
          \<and> rr_dedupe_key row = provider @ '':'' @ compute_payload_hash x body)"
proof -
  have "snd w' = snd (interference ps1 ops1 w)
      \<and> holds_key (snd w') (provider @ '':'' @ compute_payload_hash x body) i"
    using server.duplicate_known[OF assms(1) _ assms(3)] assms(2) interference_inv by metis
  then show ?thesis by (auto simp: holds_key_def list_ex_iff interference_def)
qed

definition seen_world :: world where
  "seen_world = (\<lparr>rd_capacity = 2, rd_map = [], rd_order = []\<rparr>,
                 \<lparr>receipts = [row_of (sample_receipt 7 ''s:{}'')], deliveries = []\<rparr>)"

lemma seen_world_inv: "world_inv seen_world"
  by (simp add: world_inv_def seen_world_def recent_inv_def db_inv_def wf_db_def history_at_rest_def)

lemma seen_world_ingest:
  "fst (ingest ext0 (server_pipeline IO_Ok [''kafka''] []) (ienv0 1 10) ''s'' [] ''{}'' seen_world)
   = Ok (IR_Duplicate (ReceiptId 7))"
  by (simp add: ingest_def run_verification_def server_pipeline_def ienv0_def layered_check_def
      recent_check_def seen_world_def storage_dedupe_check_def pg_store_def store_with_deliveries_def
      env_ok_def tx_stmt_def read_stmt_def insert_receipt_def select_id_by_dedupe_key_def has_key_def
      receipt_to_row_def[of _ _ "build_receipt _ _ _ _ _ _ _ _"] build_receipt_def
      compute_payload_hash_def ext0_def Let_def split: if_splits)

lemma duplicate_changes_nothing_example:
  "snd (snd (snd (ingest ext0 (server_pipeline IO_Ok [''kafka''] []) (ienv0 1 10) ''s'' [] ''{}'' seen_world)))
   = snd seen_world"
proof -
  let ?out = "ingest ext0 (server_pipeline IO_Ok [''kafka''] []) (ienv0 1 10) ''s'' [] ''{}'' seen_world"
  have "?out = (Ok (IR_Duplicate (ReceiptId 7)), fst (snd ?out), snd (snd ?out))"
    using seen_world_ingest by (metis prod.collapse)
  from duplicate_changes_nothing[OF seen_world_inv _ this, of "[]" "[]"] show ?thesis
    by (simp add: ienv0_def)
qed

lemma store_duplicate_run:
  assumes "wf_db d" and "row \<in> set (receipts d)" and "rr_dedupe_key row = dedupe_key r"
    and "\<And>k. e_io env k = IO_Ok"
  shows "store_with_deliveries env r names d = (Ok (SR_Duplicate (ReceiptId (rr_receipt_id row))), d)"
proof -
  have "find (\<lambda>y. rr_dedupe_key y = rr_dedupe_key row) (receipts d) = Some row"
    using assms(1,2) by (intro find_distinct_key) (simp_all add: wf_db_def)
  then have "select_id_by_dedupe_key (dedupe_key r) d = Ok (rr_receipt_id row)"
    using assms(3) by (simp add: select_id_by_dedupe_key_def)
  moreover have "insert_receipt (row_of r) d = Ok (None, d)"
    using assms(2,3) by (auto simp: insert_receipt_def has_key_def list_ex_iff)
  ultimately show ?thesis
    using assms(4) by (simp add: store_with_deliveries_def tx_stmt_def read_stmt_def)
qed

lemma layered_check_total:
  assumes "recent_inv (fst w)"
  shows "\<exists>a. layered_check recent_check (storage_dedupe_check IO_Ok) w k h = Ok a"
  using recent_check_refines[OF assms, of k h]
  by (cases "fifo_check (recent_abs (fst w)) k h")
    (auto simp: layered_check_def storage_dedupe_check_def split: option.split)

text \<open>C3. Redelivery is idempotent: once a payload has been accepted from a provider, ingesting it again
  (other headers, any later time, any interleaved server activity, no database fault) is answered
  \<^verbatim>\<open>Duplicate\<close> with the id of the first receipt and adds nothing, provided it passes verification.\<close>

theorem redelivery_is_duplicate:
  assumes "world_inv w"
    and "ie_gap1 env = interference ps1 ops1" and "ie_gap2 env = interference ps2 ops2"
    and "ingest x (server_pipeline out names vs) env provider hs body w = (Ok (IR_Accepted i), ms, w')"
    and "w2 = interference ps ops w'" and "ie_gap1 env2 = (\<lambda>w. w)" and "\<And>k. e_io (ie_db env2) k = IO_Ok"
    and "is_ok (fst (run_verification (server_pipeline IO_Ok names2 vs2) (ie_clock env2) provider hs2 body))"
  shows "\<exists>ms2. ingest x (server_pipeline IO_Ok names2 vs2) env2 provider hs2 body w2 =
           (Ok (IR_Duplicate i), ms2, w2)"
proof -
  let ?p = "server_pipeline IO_Ok names2 vs2" and ?key = "provider @ '':'' @ compute_payload_hash x body"
  have inv': "world_inv w'"
    by (rule server.ingest_inv[OF assms(1) _ _ assms(4)]) (simp_all add: assms(2,3) interference_inv)
  then have inv2: "world_inv w2" using assms(5) interference_inv by simp
  obtain status reason where i: "i = ReceiptId (ie_receipt_id env)" and
    "committed (snd w') (build_receipt x (ie_receipt_id env) (ie_now env) provider hs body status reason)
       (p_emitter_names (server_pipeline out names vs))"
    using server.accepted_committed[OF assms(1) _ _ _ assms(4)] assms(2,3)
      interference_inv interference_committed by (metis (no_types, lifting))
  then have "committed (snd w2) (build_receipt x (ie_receipt_id env) (ie_now env) provider hs body status reason)
       (p_emitter_names (server_pipeline out names vs))"
    using assms(5) interference_committed inv' by blast
  then obtain row where row: "row \<in> set (receipts (snd w2))" "rr_dedupe_key row = ?key"
      "rr_receipt_id row = ie_receipt_id env"
    by (auto simp: committed_def receipt_to_row_def build_receipt_def)
  obtain st rs ms' where v: "run_verification ?p (ie_clock env2) provider hs2 body = (Ok (st, rs), ms')"
    using assms(8) by (metis is_ok_iff prod.collapse)
  obtain a where chk: "p_check ?p w2 ?key (compute_payload_hash x body) = Ok a"
    using layered_check_total[of w2] inv2 by (auto simp: world_inv_def server_pipeline_def)
  let ?r = "build_receipt x (ie_receipt_id env2) (ie_now env2) provider hs2 body st rs"
  have "store_with_deliveries (ie_db env2) ?r names2 (snd w2) = (Ok (SR_Duplicate i), snd w2)"
    using store_duplicate_run[of "snd w2" row ?r "ie_db env2"] row i inv2 assms(7)
    by (simp add: world_inv_def db_inv_def build_receipt_def)
  then have "p_store ?p (ie_db env2) ?r (p_emitter_names ?p) w2 = (Ok (SR_Duplicate i), w2)"
    by (simp add: server_pipeline_def pg_store_def)
  then show ?thesis using v chk assms(6) by (simp add: ingest_def Let_def)
qed

theorem redelivery_is_duplicate_witness:
  "fst (ingest ext0 (server_pipeline IO_Ok [] []) (ienv0 2 20) ''stripe'' [(''h'', ''v'')] ''{}''
     (snd (snd (ingest ext0 (server_pipeline IO_Ok [''kafka''] []) (ienv0 1 10) ''stripe'' [] ''{}'' world0))))
   = Ok (IR_Duplicate (ReceiptId 1))"
proof -
  let ?out = "ingest ext0 (server_pipeline IO_Ok [''kafka''] []) (ienv0 1 10) ''stripe'' [] ''{}'' world0"
  have "?out = (Ok (IR_Accepted (ReceiptId 1)), fst (snd ?out), snd (snd ?out))"
    using ingest0_accepted by (metis prod.collapse)
  moreover have "is_ok (fst (run_verification (server_pipeline IO_Ok [] []) (ie_clock (ienv0 2 20))
      ''stripe'' [(''h'', ''v'')] ''{}''))"
    by (simp add: run_verification_def server_pipeline_def)
  ultimately show ?thesis
    using redelivery_is_duplicate[OF world0_inv, of "ienv0 1 10" "[]" "[]" "[]" "[]" ext0 IO_Ok
        "[''kafka'']" "[]" "''stripe''" "[]" "''{}''" "ReceiptId 1" "fst (snd ?out)" "snd (snd ?out)"
        "snd (snd ?out)" "[]" "[]" "ienv0 2 20" "[]" "[]" "[(''h'', ''v'')]"]
    by (auto simp: ienv0_def env_ok_def fun_eq_iff)
qed

text \<open>A webhook whose verifier says \<^verbatim>\<open>Failed\<close> is answered with 401 and leaves no trace: neither
  storage nor dedupe is consulted, for any storage and dedupe implementation.\<close>

lemma failed_verification_leaves_no_trace:
  assumes "map_of (p_verifiers p) provider = Some v"
    and "vr_status (v_verify v (ie_clock env) hs body) = VS_Failed"
  shows "\<exists>reason ms. ingest_webhook x p env provider hs body w =
      ((401, jobj [(''status'', JString ''verification_failed''), (''reason'', JString reason)]), ms, w)
    \<and> (\<forall>r. vr_reason (v_verify v (ie_clock env) hs body) = Some r \<longrightarrow> reason = r)"
  using assms
  by (auto simp: ingest_webhook_def ingest_def run_verification_def ingest_response_def Let_def
      split: option.split)

definition reject_all :: verifier where
  "reject_all = \<lparr>v_provider_name = ''s'',
     v_verify = (\<lambda>_ _ _. \<lparr>vr_status = VS_Failed, vr_reason = Some ''no''\<rparr>)\<rparr>"

lemma failed_verification_leaves_no_trace_example:
  "\<exists>ms. ingest_webhook ext0 (server_pipeline IO_Ok [] [(''s'', reject_all)]) (ienv0 1 10) ''s'' [] ''{}'' world0 =
     ((401, jobj [(''status'', JString ''verification_failed''), (''reason'', JString ''no'')]), ms, world0)"
  using failed_verification_leaves_no_trace[of "server_pipeline IO_Ok [] [(''s'', reject_all)]" "''s''" reject_all
      "ienv0 1 10" "[]" "''{}''" ext0 world0]
  by (auto simp: server_pipeline_def reject_all_def)

definition outcome_label :: "(ingest_result, ingest_error) result \<Rightarrow> string" where
  "outcome_label res =
     (case res of
        Ok (IR_Accepted _) \<Rightarrow> LABEL_ACCEPTED
      | Ok (IR_Duplicate _) \<Rightarrow> LABEL_DUPLICATE
      | Ok (IR_VerificationFailed _) \<Rightarrow> LABEL_VERIFICATION_FAILED
      | Err (IE_Storage _) \<Rightarrow> LABEL_STORE_FAILED
      | Err _ \<Rightarrow> LABEL_DEDUPE_FAILED)"

fun outcome_counter :: "metric \<Rightarrow> bool" where
  "outcome_counter (Counter name labels) = (name = ''hookbox_ingest_results_total'')"
| "outcome_counter (CounterBy name labels n) = (name = ''hookbox_ingest_results_total'')"
| "outcome_counter (Histogram name) = False"
| "outcome_counter (Observed name labels n) = False"
| "outcome_counter (Gauge name labels n) = False"

lemma no_outcome_in_verification:
  "filter outcome_counter (snd (run_verification p clock provider hs body)) = []"
  by (auto simp: run_verification_def Let_def split: option.splits verification_status.splits)

text \<open>Every ingest, on every path, counts exactly one outcome, with one of the five documented
  labels, and the label tells the answer.\<close>

lemma one_outcome_per_ingest:
  "filter outcome_counter (fst (snd (ingest x p env provider hs body w))) =
     [Counter ''hookbox_ingest_results_total''
        [(''provider'', provider), (''result'', outcome_label (fst (ingest x p env provider hs body w)))]]
   \<and> outcome_label (fst (ingest x p env provider hs body w)) \<in> set INGEST_RESULT_LABELS"
proof -
  obtain vres ms where v: "run_verification p (ie_clock env) provider hs body = (vres, ms)" by fastforce
  have ms: "filter outcome_counter ms = []"
    using no_outcome_in_verification[of p "ie_clock env" provider hs body] v by simp
  then show ?thesis
    by (auto simp: ingest_def v Let_def outcome_label_def INGEST_RESULT_LABELS_def
        split: result.splits prod.splits store_result.splits)
qed

text \<open>The advisory decision is advisory: two pipelines that differ only in what a dedupe check
  answers, as long as it answers, give the same result and leave the same world.\<close>

lemma advisory_decision_is_advisory:
  assumes "p_check p w (provider @ '':'' @ compute_payload_hash x body) (compute_payload_hash x body) = Ok a"
    and "c w (provider @ '':'' @ compute_payload_hash x body) (compute_payload_hash x body) = Ok b"
  shows "fst (ingest x (p\<lparr>p_check := c\<rparr>) env provider hs body w) = fst (ingest x p env provider hs body w)
    \<and> snd (snd (ingest x (p\<lparr>p_check := c\<rparr>) env provider hs body w)) = snd (snd (ingest x p env provider hs body w))"
proof -
  have "run_verification (p\<lparr>p_check := c\<rparr>) (ie_clock env) provider hs body
      = run_verification p (ie_clock env) provider hs body"
    by (simp add: run_verification_def Let_def)
  then show ?thesis using assms
    by (auto simp: ingest_def Let_def split: result.split prod.split store_result.split)
qed

end
