(* ===== verification/Worker.thy ===== *)
theory Worker
  imports Pipeline
begin

text \<open>
  The background workers of \<^verbatim>\<open>crates/hookbox-server/src/worker.rs\<close>: the per-emitter dispatch loop
  (reclaim, claim, emit, mark), its health record, and the legacy receipt-level retry worker. A
  worker is generic over its storage; the operations it calls are the record \<open>delivery_ops\<close>, their
  contract the locale \<open>delivery_store\<close>, interpreted on the PostgreSQL operations. What the downstream
  emitter answers, clock readings and random samples are inputs. \<open>None\<close> is a panic.
\<close>

section \<open>The storage interface\<close>

record 's delivery_ops =
  do_claim_pending :: "dbenv \<Rightarrow> string \<Rightarrow> int \<Rightarrow> 's \<Rightarrow> (webhook_delivery \<times> webhook_receipt) list answer \<times> 's"
  do_reclaim_expired :: "dbenv \<Rightarrow> string \<Rightarrow> duration \<Rightarrow> 's \<Rightarrow> nat answer \<times> 's"
  do_mark_emitted :: "dbenv \<Rightarrow> deliveryid \<Rightarrow> 's \<Rightarrow> unit answer \<times> 's"
  do_mark_failed :: "dbenv \<Rightarrow> deliveryid \<Rightarrow> int \<Rightarrow> timestamp \<Rightarrow> string \<Rightarrow> 's \<Rightarrow> unit answer \<times> 's"
  do_mark_dead_lettered :: "dbenv \<Rightarrow> deliveryid \<Rightarrow> string \<Rightarrow> 's \<Rightarrow> unit answer \<times> 's"
  do_count_dlq :: "dbenv \<Rightarrow> string \<Rightarrow> 's \<Rightarrow> nat answer"
  do_count_pending :: "dbenv \<Rightarrow> string \<Rightarrow> 's \<Rightarrow> nat answer"
  do_count_in_flight :: "dbenv \<Rightarrow> string \<Rightarrow> 's \<Rightarrow> nat answer"

definition pg_ops :: "db delivery_ops" where
  "pg_ops =
     \<lparr>do_claim_pending = claim_pending, do_reclaim_expired = reclaim_expired,
      do_mark_emitted = mark_emitted, do_mark_failed = mark_failed,
      do_mark_dead_lettered = mark_dead_lettered,
      do_count_dlq = (\<lambda>env. count_dlq (e_io env 0)),
      do_count_pending = (\<lambda>env. count_pending (e_io env 0) (e_now env)),
      do_count_in_flight = (\<lambda>env. count_in_flight (e_io env 0))\<rparr>"

section \<open>Health\<close>

datatype health_status = Healthy | Degraded | Unhealthy

record emitter_health =
  last_success_at :: "timestamp option"
  last_failure_at :: "timestamp option"
  consecutive_failures :: nat
  eh_status :: health_status
  dlq_depth :: nat
  pending_count :: nat

definition emitter_health_default :: emitter_health where
  "emitter_health_default =
     \<lparr>last_success_at = None, last_failure_at = None, consecutive_failures = 0, eh_status = Healthy,
      dlq_depth = 0, pending_count = 0\<rparr>"

definition derive_status :: "timestamp \<Rightarrow> nat \<Rightarrow> timestamp option \<Rightarrow> health_status" where
  "derive_status now failures last_failure =
     (if failures \<ge> 10 then Unhealthy
      else if (case last_failure of None \<Rightarrow> False | Some t \<Rightarrow> (now - t) div 1000000 < 60) then Degraded
      else Healthy)"

text \<open>\<^verbatim>\<open>consecutive_failures += 1\<close> on a \<^verbatim>\<open>u32\<close>, in a release build.\<close>

definition update_health :: "timestamp \<Rightarrow> bool \<Rightarrow> emitter_health \<Rightarrow> emitter_health" where
  "update_health now success h =
     (let h1 = (if success then h\<lparr>last_success_at := Some now, consecutive_failures := 0\<rparr>
                else h\<lparr>last_failure_at := Some now,
                       consecutive_failures := (consecutive_failures h + 1) mod 2 ^ 32\<rparr>) in
      h1\<lparr>eh_status := derive_status now (consecutive_failures h1) (last_failure_at h1)\<rparr>)"

section \<open>The dispatch worker\<close>

record emitter_worker =
  ew_name :: string
  ew_policy :: retry_policy
  ew_concurrency :: nat
  ew_poll_interval :: duration
  ew_lease_duration :: duration

text \<open>The storage, the health cell, what the downstream emitter was given with its answers, and the
  metrics.\<close>

record 's worker_state =
  ws_store :: 's
  ws_health :: emitter_health
  ws_log :: "(normalized_event \<times> (unit, emit_error) result) list"
  ws_metrics :: "metric list"

text \<open>What one dispatch meets: the emitter's answer, the clock and the database of the final update,
  the random sample of the backoff.\<close>

record dispatch_env =
  de_emit :: "(unit, emit_error) result"
  de_now :: timestamp
  de_sample :: f64
  de_db :: dbenv

text \<open>\<^verbatim>\<open>chrono::Duration::from_std\<close> fails beyond \<^verbatim>\<open>i64::MAX\<close> milliseconds; adding to a
  \<^verbatim>\<open>DateTime\<close> panics past its last representable instant.\<close>

definition chrono_from_std :: "duration \<Rightarrow> duration option" where
  "chrono_from_std dur = (if dur \<le> (2 ^ 63 - 1) * 1000000 then Some dur else None)"

definition chrono_max_utc :: timestamp where
  "chrono_max_utc = 8210266876799999999"

definition utc_add :: "timestamp \<Rightarrow> duration \<Rightarrow> timestamp option" where
  "utc_add now dur =
     (let t = now + int (dur div 1000) in if t \<le> chrono_max_utc then Some t else None)"

definition one_day :: duration where
  "one_day = duration_from_secs 86400"

definition dispatch_one ::
  "(f64 \<Rightarrow> int \<Rightarrow> f64) \<Rightarrow> 's delivery_ops \<Rightarrow> emitter_worker \<Rightarrow> dispatch_env
     \<Rightarrow> webhook_delivery \<Rightarrow> webhook_receipt \<Rightarrow> 's worker_state \<Rightarrow> 's worker_state option" where
  "dispatch_one powi_fn ops wk env delivery receipt s =
     (let event = from_receipt receipt;
          next_attempt = i32_add (wd_attempt_count delivery) 1;
          labels = [(''emitter'', ew_name wk)];
          result_labels = (\<lambda>r. [(''provider'', provider_name receipt), (''emitter'', ew_name wk), (''result'', r)]);
          s1 = s\<lparr>ws_log := ws_log s @ [(event, de_emit env)],
                 ws_metrics := ws_metrics s @ [Histogram ''hookbox_emit_duration_seconds'']\<rparr> in
      (case de_emit env of
         Ok _ \<Rightarrow>
           Some (s1\<lparr>ws_metrics := ws_metrics s1 @
                      [Counter ''hookbox_emit_results_total'' (result_labels ''success''),
                       Observed ''hookbox_emit_attempt_count'' labels next_attempt],
                    ws_store := snd (do_mark_emitted ops (de_db env) (wd_delivery_id delivery) (ws_store s)),
                    ws_health := update_health (de_now env) True (ws_health s)\<rparr>)
       | Err err \<Rightarrow>
           (let counted = ws_metrics s1 @ [Counter ''hookbox_emit_results_total'' (result_labels ''failure'')] in
            if next_attempt \<ge> max_attempts (ew_policy wk) then
              Some (s1\<lparr>ws_metrics := counted @ [Observed ''hookbox_emit_attempt_count'' labels next_attempt],
                       ws_store := snd (do_mark_dead_lettered ops (de_db env) (wd_delivery_id delivery)
                                          (emit_error_to_string err) (ws_store s)),
                       ws_health := update_health (de_now env) False (ws_health s)\<rparr>)
            else
              (case compute_backoff False powi_fn (de_sample env) next_attempt (ew_policy wk) of
                 None \<Rightarrow> None
               | Some backoff \<Rightarrow>
                   (let next_delta = (case chrono_from_std backoff of Some dl \<Rightarrow> dl | None \<Rightarrow> one_day) in
                    (case utc_add (de_now env) next_delta of
                       None \<Rightarrow> None
                     | Some next_at \<Rightarrow>
                         Some (s1\<lparr>ws_metrics := counted,
                                  ws_store := snd (do_mark_failed ops (de_db env) (wd_delivery_id delivery)
                                                     next_attempt next_at (emit_error_to_string err) (ws_store s)),
                                  ws_health := update_health (de_now env) False (ws_health s)\<rparr>))))))) "

text \<open>\<^verbatim>\<open>join_all\<close> over the batch: the dispatches in the order in which they complete. A panic in one
  of them ends the worker task.\<close>

fun dispatch_all ::
  "(f64 \<Rightarrow> int \<Rightarrow> f64) \<Rightarrow> 's delivery_ops \<Rightarrow> emitter_worker \<Rightarrow> (nat \<Rightarrow> dispatch_env)
     \<Rightarrow> (webhook_delivery \<times> webhook_receipt) list \<Rightarrow> 's worker_state \<Rightarrow> 's worker_state option" where
  "dispatch_all powi_fn ops wk envs [] s = Some s"
| "dispatch_all powi_fn ops wk envs ((delivery, receipt) # rows) s =
     (case dispatch_one powi_fn ops wk (envs 0) delivery receipt s of
        None \<Rightarrow> None
      | Some s1 \<Rightarrow> dispatch_all powi_fn ops wk (\<lambda>k. envs (Suc k)) rows s1)"

definition or_zero :: "nat answer \<Rightarrow> nat" where
  "or_zero r = (case r of Ok n \<Rightarrow> n | Err _ \<Rightarrow> 0)"

definition refresh_gauges ::
  "'s delivery_ops \<Rightarrow> emitter_worker \<Rightarrow> (nat \<Rightarrow> dbenv) \<Rightarrow> timestamp \<Rightarrow> 's worker_state \<Rightarrow> 's worker_state" where
  "refresh_gauges ops wk envs now s =
     (let dlq = or_zero (do_count_dlq ops (envs 0) (ew_name wk) (ws_store s));
          pending = or_zero (do_count_pending ops (envs 1) (ew_name wk) (ws_store s));
          in_flight = or_zero (do_count_in_flight ops (envs 2) (ew_name wk) (ws_store s));
          labels = [(''emitter'', ew_name wk)];
          h = ws_health s in
      s\<lparr>ws_metrics := ws_metrics s @
          [Gauge ''hookbox_dlq_depth'' labels dlq, Gauge ''hookbox_emit_pending'' labels pending,
           Gauge ''hookbox_emit_in_flight'' labels in_flight],
        ws_health := h\<lparr>dlq_depth := dlq, pending_count := pending,
                       eh_status := derive_status now (consecutive_failures h) (last_failure_at h)\<rparr>\<rparr>)"

text \<open>What ends the wait at the top of the loop: the timer, a change of the shutdown flag (with the
  value read), or the loss of its sender.\<close>

datatype wake = W_Timer | W_Changed bool | W_SenderDropped

record tick_env =
  te_wake :: wake
  te_reclaim :: dbenv
  te_claim :: dbenv
  te_dispatch :: "nat \<Rightarrow> dispatch_env"
  te_gauges :: "nat \<Rightarrow> dbenv"
  te_now :: timestamp
  te_shutdown :: bool \<comment> \<open>the flag read after the batch\<close>

datatype 'a flow = Continue 'a | Break 'a

definition flow_state :: "'a flow \<Rightarrow> 'a" where
  "flow_state f = (case f of Continue a \<Rightarrow> a | Break a \<Rightarrow> a)"

definition reclaim_metrics :: "string \<Rightarrow> nat answer \<Rightarrow> metric list" where
  "reclaim_metrics name r =
     (case r of Ok n \<Rightarrow> if n > 0 then [CounterBy ''hookbox_emit_reclaimed_total'' [(''emitter'', name)] n] else []
      | Err _ \<Rightarrow> [])"

text \<open>One iteration of the loop in \<^verbatim>\<open>spawn\<close>.\<close>

definition worker_tick ::
  "(f64 \<Rightarrow> int \<Rightarrow> f64) \<Rightarrow> 's delivery_ops \<Rightarrow> emitter_worker \<Rightarrow> tick_env \<Rightarrow> 's worker_state
     \<Rightarrow> 's worker_state flow option" where
  "worker_tick powi_fn ops wk env s =
     (if te_wake env = W_Changed True \<or> te_wake env = W_SenderDropped then Some (Break s)
      else
       (let (reclaimed_n, st1) = do_reclaim_expired ops (te_reclaim env) (ew_name wk) (ew_lease_duration wk) (ws_store s);
            s1 = s\<lparr>ws_store := st1, ws_metrics := ws_metrics s @ reclaim_metrics (ew_name wk) reclaimed_n\<rparr>;
            (claim, st2) = do_claim_pending ops (te_claim env) (ew_name wk) (usize_as_i64 (ew_concurrency wk)) st1;
            s2 = s1\<lparr>ws_store := st2\<rparr> in
        (case claim of
           Err _ \<Rightarrow> Some (Continue s2)
         | Ok rows \<Rightarrow>
             if rows = [] then Some (Continue (refresh_gauges ops wk (te_gauges env) (te_now env) s2))
             else
               (case dispatch_all powi_fn ops wk (te_dispatch env) rows s2 of
                  None \<Rightarrow> None
                | Some s3 \<Rightarrow>
                    (let s4 = refresh_gauges ops wk (te_gauges env) (te_now env) s3 in
                     if te_shutdown env then Some (Break s4) else Some (Continue s4))))))"

text \<open>The loop over the iterations met so far.\<close>

fun worker_run ::
  "(f64 \<Rightarrow> int \<Rightarrow> f64) \<Rightarrow> 's delivery_ops \<Rightarrow> emitter_worker \<Rightarrow> tick_env list \<Rightarrow> 's worker_state
     \<Rightarrow> 's worker_state flow option" where
  "worker_run powi_fn ops wk [] s = Some (Continue s)"
| "worker_run powi_fn ops wk (env # envs) s =
     (case worker_tick powi_fn ops wk env s of
        None \<Rightarrow> None
      | Some (Break s1) \<Rightarrow> Some (Break s1)
      | Some (Continue s1) \<Rightarrow> worker_run powi_fn ops wk envs s1)"

section \<open>RetryWorker\<close>

definition retry_one ::
  "(unit, emit_error) result \<Rightarrow> dbenv \<Rightarrow> int \<Rightarrow> webhook_receipt \<Rightarrow> db \<Rightarrow> db" where
  "retry_one emitted env max_att receipt d =
     (case emitted of
        Ok _ \<Rightarrow> snd (update_state env (rid_uuid (receipt_id receipt)) PS_Emitted None d)
      | Err _ \<Rightarrow> snd (retry_failed env (rid_uuid (receipt_id receipt)) max_att d))"

fun retry_all ::
  "(nat \<Rightarrow> (unit, emit_error) result) \<Rightarrow> (nat \<Rightarrow> dbenv) \<Rightarrow> int \<Rightarrow> webhook_receipt list \<Rightarrow> db \<Rightarrow> db" where
  "retry_all emits envs max_att [] d = d"
| "retry_all emits envs max_att (r # rs) d =
     retry_all (\<lambda>k. emits (Suc k)) (\<lambda>k. envs (Suc k)) max_att rs (retry_one (emits 0) (envs 0) max_att r d)"

text \<open>One iteration of \<^verbatim>\<open>run\<close>.\<close>

definition retry_tick ::
  "io \<Rightarrow> (nat \<Rightarrow> (unit, emit_error) result) \<Rightarrow> (nat \<Rightarrow> dbenv) \<Rightarrow> int \<Rightarrow> db \<Rightarrow> db" where
  "retry_tick out emits envs max_att d =
     (case query_for_retry out max_att d of
        Ok rs \<Rightarrow> retry_all emits envs max_att rs d
      | Err _ \<Rightarrow> d)"

section \<open>The course of one iteration\<close>

lemma refresh_gauges_keeps [simp]:
  "ws_store (refresh_gauges ops wk envs now s) = ws_store s"
  "ws_log (refresh_gauges ops wk envs now s) = ws_log s"
  by (simp_all add: refresh_gauges_def Let_def)

lemma worker_tick_cases:
  assumes "worker_tick powi_fn ops wk env s = Some f"
  obtains (Stop) "f = Break s"
  | (NoBatch) n st1 c st2 where
      "do_reclaim_expired ops (te_reclaim env) (ew_name wk) (ew_lease_duration wk) (ws_store s) = (n, st1)"
      "do_claim_pending ops (te_claim env) (ew_name wk) (usize_as_i64 (ew_concurrency wk)) st1 = (c, st2)"
      "ws_store (flow_state f) = st2" "ws_log (flow_state f) = ws_log s"
  | (Batch) n st1 rows st2 s2 s3 where
      "do_reclaim_expired ops (te_reclaim env) (ew_name wk) (ew_lease_duration wk) (ws_store s) = (n, st1)"
      "do_claim_pending ops (te_claim env) (ew_name wk) (usize_as_i64 (ew_concurrency wk)) st1 = (Ok rows, st2)"
      "ws_store s2 = st2" "ws_log s2 = ws_log s"
      "dispatch_all powi_fn ops wk (te_dispatch env) rows s2 = Some s3"
      "ws_store (flow_state f) = ws_store s3" "ws_log (flow_state f) = ws_log s3"
proof (cases "te_wake env = W_Changed True \<or> te_wake env = W_SenderDropped")
  case True
  then show ?thesis using assms Stop by (auto simp: worker_tick_def)
next
  case False
  obtain n st1 where rc: "do_reclaim_expired ops (te_reclaim env) (ew_name wk) (ew_lease_duration wk) (ws_store s)
      = (n, st1)" by fastforce
  obtain c st2 where cl: "do_claim_pending ops (te_claim env) (ew_name wk) (usize_as_i64 (ew_concurrency wk)) st1
      = (c, st2)" by fastforce
  let ?s2 = "s\<lparr>ws_metrics := ws_metrics s @ reclaim_metrics (ew_name wk) n, ws_store := st2\<rparr>"
  have "(ws_store (flow_state f) = st2 \<and> ws_log (flow_state f) = ws_log s) \<or>
      (\<exists>rows s3. c = Ok rows \<and> dispatch_all powi_fn ops wk (te_dispatch env) rows ?s2 = Some s3
         \<and> ws_store (flow_state f) = ws_store s3 \<and> ws_log (flow_state f) = ws_log s3)"
    using assms False rc cl
    by (auto simp: worker_tick_def Let_def flow_state_def split: result.splits if_splits option.splits)
  then show ?thesis using NoBatch[OF rc cl] Batch[OF rc, of _ st2 ?s2] cl by auto
qed

lemma worker_run_invariant:
  assumes "P s" and "worker_run powi_fn ops wk envs s = Some f"
    and "\<And>s env g. P s \<Longrightarrow> worker_tick powi_fn ops wk env s = Some g \<Longrightarrow> P (flow_state g)"
  shows "P (flow_state f)"
  using assms(1,2)
proof (induction envs arbitrary: s)
  case Nil
  then show ?case by (auto simp: flow_state_def)
next
  case (Cons env envs)
  obtain g where g: "worker_tick powi_fn ops wk env s = Some g"
    using Cons.prems(2) by (auto split: option.splits)
  show ?case
  proof (cases g)
    case (Break s1)
    then have "f = Break s1" using Cons.prems(2) g by simp
    then show ?thesis using assms(3)[OF Cons.prems(1) g] Break by simp
  next
    case (Continue s1)
    then show ?thesis using Cons.IH[of s1] assms(3)[OF Cons.prems(1) g] Cons.prems(2) g
      by (simp add: flow_state_def)
  qed
qed

section \<open>What a worker needs of its storage\<close>

locale delivery_store =
  fixes ops :: "'s delivery_ops" and inv :: "'s \<Rightarrow> bool" and step :: "'s \<Rightarrow> 's \<Rightarrow> bool"
  assumes claim: "inv s \<Longrightarrow> step s (snd (do_claim_pending ops e n b s)) \<and> inv (snd (do_claim_pending ops e n b s))"
    and reclaim: "inv s \<Longrightarrow> step s (snd (do_reclaim_expired ops e n l s)) \<and> inv (snd (do_reclaim_expired ops e n l s))"
    and emitted: "inv s \<Longrightarrow> step s (snd (do_mark_emitted ops e i s)) \<and> inv (snd (do_mark_emitted ops e i s))"
    and failed: "inv s \<Longrightarrow> step s (snd (do_mark_failed ops e i c t m s)) \<and> inv (snd (do_mark_failed ops e i c t m s))"
    and dead: "inv s \<Longrightarrow> step s (snd (do_mark_dead_lettered ops e i m s)) \<and> inv (snd (do_mark_dead_lettered ops e i m s))"
begin

lemma dispatch_one_steps:
  assumes "inv (ws_store s)" and "dispatch_one powi_fn ops wk env x r s = Some s'"
  shows "step (ws_store s) (ws_store s') \<and> inv (ws_store s')"
  using assms emitted failed dead
  by (auto simp: dispatch_one_def Let_def split: result.splits if_splits option.splits)

lemma dispatch_all_steps:
  assumes "inv (ws_store s)" and "dispatch_all powi_fn ops wk envs rows s = Some s'"
  shows "step\<^sup>*\<^sup>* (ws_store s) (ws_store s') \<and> inv (ws_store s')"
  using assms
proof (induction rows arbitrary: envs s)
  case (Cons p rows)
  obtain x r where p: "p = (x, r)" by (cases p)
  obtain s1 where s1: "dispatch_one powi_fn ops wk (envs 0) x r s = Some s1"
    "dispatch_all powi_fn ops wk (\<lambda>k. envs (Suc k)) rows s1 = Some s'"
    using Cons.prems(2) by (auto simp: p split: option.splits)
  note one = dispatch_one_steps[OF Cons.prems(1) s1(1)]
  have "step\<^sup>*\<^sup>* (ws_store s1) (ws_store s') \<and> inv (ws_store s')" using Cons.IH one s1(2) by blast
  then show ?case using one by (auto intro: converse_rtranclp_into_rtranclp)
qed simp

lemma tick_steps:
  assumes "inv (ws_store s)" and "worker_tick powi_fn ops wk env s = Some f"
  shows "step\<^sup>*\<^sup>* (ws_store s) (ws_store (flow_state f)) \<and> inv (ws_store (flow_state f))"
  using assms(2)
proof (cases rule: worker_tick_cases)
  case Stop
  then show ?thesis using assms(1) by (simp add: flow_state_def)
next
  case (NoBatch n st1 c st2)
  have st1: "step (ws_store s) st1 \<and> inv st1" using reclaim[OF assms(1)] NoBatch(1) by (metis snd_conv)
  then have "step st1 st2 \<and> inv st2" using claim NoBatch(2) by (metis snd_conv)
  then show ?thesis using st1 NoBatch(3) by auto
next
  case (Batch n st1 rows st2 s2 s3)
  have st1: "step (ws_store s) st1 \<and> inv st1" using reclaim[OF assms(1)] Batch(1) by (metis snd_conv)
  then have st2: "step st1 st2 \<and> inv st2" using claim Batch(2) by (metis snd_conv)
  then have "step\<^sup>*\<^sup>* st2 (ws_store s3) \<and> inv (ws_store s3)"
    using dispatch_all_steps[OF _ Batch(5)] Batch(3) by simp
  then show ?thesis using st1 st2 Batch(6)
    by (metis converse_rtranclp_into_rtranclp)
qed

lemma run_steps:
  assumes "inv (ws_store s)" and "worker_run powi_fn ops wk envs s = Some f"
  shows "step\<^sup>*\<^sup>* (ws_store s) (ws_store (flow_state f)) \<and> inv (ws_store (flow_state f))"
proof (rule worker_run_invariant[where P = "\<lambda>t. step\<^sup>*\<^sup>* (ws_store s) (ws_store t) \<and> inv (ws_store t)",
        OF _ assms(2)])
  fix t env g
  assume t: "step\<^sup>*\<^sup>* (ws_store s) (ws_store t) \<and> inv (ws_store t)"
    and "worker_tick powi_fn ops wk env t = Some g"
  from tick_steps[OF conjunct2[OF t] this(2)] t
  show "step\<^sup>*\<^sup>* (ws_store s) (ws_store (flow_state g)) \<and> inv (ws_store (flow_state g))"
    by (meson rtranclp_trans)
qed (use assms(1) in simp)

end

interpretation pg: delivery_store pg_ops db_inv db_step
  by unfold_locales (simp_all add: pg_ops_def claim_step reclaim_step mark_steps)

section \<open>Claimed batches\<close>

lemma storage_get_id:
  "storage_get out u d = Ok (Some r) \<Longrightarrow> receipt_id r = ReceiptId u"
  by (auto simp: storage_get_def receipt_from_row_def read_stmt_def
      split: result.splits option.splits io.splits elim!: and_then_OkE dest!: find_key_Some)

lemma with_receipts_rows:
  "with_receipts env k rows d = Ok ps \<Longrightarrow>
   list_all2 (\<lambda>row p. delivery_from_row row = Ok (fst p) \<and> receipt_id (snd p) = ReceiptId (dr_receipt_id row)) rows ps"
proof (induction rows arbitrary: k ps)
  case (Cons row rows)
  then obtain x r rest where x: "delivery_from_row row = Ok x"
    "storage_get (e_io env k) (dr_receipt_id row) d = Ok (Some r)"
    "with_receipts env (Suc k) rows d = Ok rest" "ps = (x, r) # rest"
    by (auto elim!: and_then_OkE split: option.splits)
  then show ?case using Cons.IH storage_get_id by fastforce
qed simp

text \<open>A batch entry belongs to its row: same delivery, the row's receipt, the row's attempts.\<close>

definition batch_entry :: "string \<Rightarrow> db \<Rightarrow> webhook_delivery \<times> webhook_receipt \<Rightarrow> bool" where
  "batch_entry e d p \<longleftrightarrow>
     (\<forall>row \<in> set (deliveries d). DeliveryId (dr_delivery_id row) = wd_delivery_id (fst p) \<longrightarrow>
        dr_emitter_name row = e \<and> ReceiptId (dr_receipt_id row) = receipt_id (snd p))"

lemma claim_batch:
  assumes "db_inv d" and "claim_pending env e b d = (Ok ps, d')" and "p \<in> set ps"
  shows "batch_entry e d' p \<and> (\<exists>row \<in> set (deliveries d). claimable (e_now env) e row
           \<and> dr_attempt_count row = wd_attempt_count (fst p))"
proof -
  let ?now = "e_now env" and ?rows = "claimed_rows (e_now env) (e_locked env) e (nat b) d"
  have wf: "wf_db d" using assms(1) by (simp add: db_inv_def)
  obtain rows where st: "exec_stmt (e_io env 0) (claim_stmt ?now (e_locked env) e b) d = (Ok rows, d')"
    and ps: "with_receipts env 1 rows d' = Ok ps"
    using assms(2) by (auto simp: claim_pending_def split: prod.splits result.splits)
  have rows: "rows = map (lease ?now) ?rows" and d': "d' = after_claim ?now (e_locked env) e (nat b) d"
    using exec_stmt_Ok[OF st] by (auto simp: claim_stmt_eq[OF wf] split: if_splits)
  obtain row where row: "row \<in> set rows" "delivery_from_row row = Ok (fst p)"
    "receipt_id (snd p) = ReceiptId (dr_receipt_id row)"
    using list_all2_source[OF with_receipts_rows[OF ps] assms(3)] by auto
  then obtain r0 where r0: "r0 \<in> set ?rows" "row = lease ?now r0" using rows by auto
  note c = set_claimed_rows[OF r0(1)]
  have x: "wd_delivery_id (fst p) = DeliveryId (dr_delivery_id r0)" "wd_attempt_count (fst p) = dr_attempt_count r0"
    using row(2) delivery_from_row_Ok[of row DS_InFlight] r0(2) by (auto simp: lease_def)
  have "batch_entry e d' p"
    unfolding batch_entry_def
  proof (intro ballI impI)
    fix y assume y: "y \<in> set (deliveries d')" "DeliveryId (dr_delivery_id y) = wd_delivery_id (fst p)"
    then obtain y0 where y0: "y0 \<in> set (deliveries d)" "y = y0 \<or> y = lease ?now y0"
      by (auto simp: d' after_claim_def)
    then have "dr_delivery_id y0 = dr_delivery_id r0" using y(2) x(1) by (auto simp: lease_def)
    then have "y0 = r0" using y0(1) c wf by (auto simp: wf_db_def distinct_map inj_on_def)
    then show "dr_emitter_name y = e \<and> ReceiptId (dr_receipt_id y) = receipt_id (snd p)"
      using y0(2) c row(3) r0(2) by (auto simp: lease_def claimable_def)
  qed
  then show ?thesis using c x by auto
qed

section \<open>What a dispatch does to the table\<close>

definition mark_rows :: "deliveryid \<Rightarrow> (delivery_row \<Rightarrow> delivery_row) \<Rightarrow> db \<Rightarrow> db" where
  "mark_rows i f d = d\<lparr>deliveries := map (\<lambda>r. if in_flight_row i r then f r else r) (deliveries d)\<rparr>"

lemma mark_effect:
  "snd (discard_count (exec_stmt out (update_deliveries (in_flight_row i) f) d)) = d \<or>
   snd (discard_count (exec_stmt out (update_deliveries (in_flight_row i) f) d)) = mark_rows i f d"
  by (auto simp: exec_stmt_def update_deliveries_def mark_rows_def split: io.splits)

text \<open>The row update a dispatch may perform, by the emitter's answer.\<close>

definition dispatch_fun ::
  "emitter_worker \<Rightarrow> dispatch_env \<Rightarrow> webhook_delivery \<Rightarrow> (delivery_row \<Rightarrow> delivery_row) \<Rightarrow> bool" where
  "dispatch_fun wk env x f \<longleftrightarrow>
     de_emit env = Ok () \<and> (\<exists>t. f = emitted_row t)
     \<or> \<not> is_ok (de_emit env) \<and> (\<exists>m. f = dead_row m)
     \<or> \<not> is_ok (de_emit env) \<and> i32_add (wd_attempt_count x) 1 < max_attempts (ew_policy wk)
        \<and> (\<exists>t m. f = failed_row (i32_add (wd_attempt_count x) 1) t m)"

lemma dispatch_effect:
  assumes "dispatch_one powi_fn pg_ops wk env x r s = Some s'"
  shows "ws_log s' = ws_log s @ [(from_receipt r, de_emit env)]
    \<and> (ws_store s' = ws_store s \<or> (\<exists>f. ws_store s' = mark_rows (wd_delivery_id x) f (ws_store s)
        \<and> dispatch_fun wk env x f))"
proof (cases "de_emit env")
  case (Ok u)
  then show ?thesis
    using assms mark_effect[of "e_io (de_db env) 0" "wd_delivery_id x" "emitted_row (e_now (de_db env))" "ws_store s"]
    by (auto simp: dispatch_one_def pg_ops_def mark_emitted_def dispatch_fun_def Let_def)
next
  case (Err err)
  let ?n = "i32_add (wd_attempt_count x) 1" and ?m = "emit_error_to_string err"
  show ?thesis
  proof (cases "?n \<ge> max_attempts (ew_policy wk)")
    case True
    then show ?thesis
      using assms Err mark_effect[of "e_io (de_db env) 0" "wd_delivery_id x" "dead_row ?m" "ws_store s"]
      by (auto simp: dispatch_one_def pg_ops_def mark_dead_lettered_def dispatch_fun_def Let_def)
  next
    case False
    then obtain t where "ws_log s' = ws_log s @ [(from_receipt r, de_emit env)]"
      "ws_store s' = snd (mark_failed (de_db env) (wd_delivery_id x) ?n t ?m (ws_store s))"
      using assms Err
      by (auto simp: dispatch_one_def pg_ops_def Let_def split: option.splits)
    then show ?thesis
      using False Err mark_effect[of "e_io (de_db env) 0" "wd_delivery_id x" "failed_row ?n t ?m" "ws_store s"]
      by (auto simp: mark_failed_def dispatch_fun_def)
  qed
qed

lemma mark_rows_row:
  assumes "y \<in> set (deliveries (mark_rows i f d))"
  obtains (Same) "y \<in> set (deliveries d)"
  | (Marked) r where "r \<in> set (deliveries d)" "in_flight_row i r" "y = f r"
  using assms by (auto simp: mark_rows_def split: if_splits)

lemma dispatch_fun_keys:
  "dispatch_fun wk env x f \<Longrightarrow>
   dr_delivery_id (f r) = dr_delivery_id r \<and> dr_receipt_id (f r) = dr_receipt_id r
   \<and> dr_emitter_name (f r) = dr_emitter_name r \<and> dr_immutable (f r) = dr_immutable r"
  by (auto simp: marked_rows dispatch_fun_def)

lemma batch_entry_mark:
  assumes "dispatch_fun wk env x f" and "batch_entry e d p"
  shows "batch_entry e (mark_rows i f d) p"
  using assms(2) dispatch_fun_keys[OF assms(1)]
  by (auto simp: batch_entry_def elim!: mark_rows_row)

text \<open>A generic invariant: every row of the table satisfies \<open>Q\<close> with respect to the log, and a
  worker keeps it if leases, reclaims and dispatches of its own batch do.\<close>

definition rows_ok ::
  "((normalized_event \<times> (unit, emit_error) result) list \<Rightarrow> delivery_row \<Rightarrow> bool) \<Rightarrow> db worker_state \<Rightarrow> bool" where
  "rows_ok Q s \<longleftrightarrow> db_inv (ws_store s) \<and> (\<forall>r \<in> set (deliveries (ws_store s)). Q (ws_log s) r)"

lemma dispatch_one_rows_ok:
  assumes "rows_ok Q s" and "batch_entry (ew_name wk) (ws_store s) (x, rc)" and "R x"
    and "dispatch_one powi_fn pg_ops wk env x rc s = Some s'"
    and mono: "\<And>l l' r. Q l r \<Longrightarrow> Q (l @ l') r"
    and disp: "\<And>l r f. Q l r \<Longrightarrow> dr_emitter_name r = ew_name wk \<Longrightarrow> \<not> dr_immutable r
        \<Longrightarrow> ReceiptId (dr_receipt_id r) = receipt_id rc \<Longrightarrow> R x \<Longrightarrow> dispatch_fun wk env x f
        \<Longrightarrow> Q (l @ [(from_receipt rc, de_emit env)]) (f r)"
  shows "rows_ok Q s' \<and> (\<forall>p. batch_entry (ew_name wk) (ws_store s) p \<longrightarrow> batch_entry (ew_name wk) (ws_store s') p)"
proof -
  have inv: "db_inv (ws_store s)" using assms(1) by (simp add: rows_ok_def)
  have inv': "db_inv (ws_store s')" using pg.dispatch_one_steps[OF inv assms(4)] by blast
  from dispatch_effect[OF assms(4)] consider (same) "ws_store s' = ws_store s"
    | (marked) f where "ws_store s' = mark_rows (wd_delivery_id x) f (ws_store s)" "dispatch_fun wk env x f"
    by blast
  then show ?thesis
  proof cases
    case same
    then show ?thesis using assms(1) inv' dispatch_effect[OF assms(4)] mono by (auto simp: rows_ok_def)
  next
    case marked
    have "Q (ws_log s') y" if y: "y \<in> set (deliveries (ws_store s'))" for y
      using y unfolding marked(1)
    proof (cases rule: mark_rows_row)
      case Same
      then show ?thesis using assms(1) mono dispatch_effect[OF assms(4)] by (auto simp: rows_ok_def)
    next
      case (Marked r)
      then have "dr_emitter_name r = ew_name wk" "ReceiptId (dr_receipt_id r) = receipt_id rc"
        using assms(2) by (cases "wd_delivery_id x"; auto simp: batch_entry_def in_flight_row_def)+
      then show ?thesis
        using disp[of "ws_log s" r f] Marked marked(2) assms(1,3) dispatch_effect[OF assms(4)]
          in_flight_mutable[OF inv Marked(1)]
        by (auto simp: rows_ok_def in_flight_row_def)
    qed
    then show ?thesis using inv' batch_entry_mark[OF marked(2)] marked(1) by (auto simp: rows_ok_def)
  qed
qed

lemma dispatch_all_rows_ok:
  assumes "rows_ok Q s" and "\<And>p. p \<in> set rows \<Longrightarrow> batch_entry (ew_name wk) (ws_store s) p \<and> R (fst p)"
    and "dispatch_all powi_fn pg_ops wk envs rows s = Some s'"
    and mono: "\<And>l l' r. Q l r \<Longrightarrow> Q (l @ l') r"
    and disp: "\<And>l r f x rc env. Q l r \<Longrightarrow> dr_emitter_name r = ew_name wk \<Longrightarrow> \<not> dr_immutable r
        \<Longrightarrow> ReceiptId (dr_receipt_id r) = receipt_id rc \<Longrightarrow> R x \<Longrightarrow> dispatch_fun wk env x f
        \<Longrightarrow> Q (l @ [(from_receipt rc, de_emit env)]) (f r)"
  shows "rows_ok Q s'"
  using assms(1-3)
proof (induction rows arbitrary: s envs)
  case (Cons p rows)
  obtain x rc where p: "p = (x, rc)" by (cases p)
  obtain s1 where s1: "dispatch_one powi_fn pg_ops wk (envs 0) x rc s = Some s1"
    "dispatch_all powi_fn pg_ops wk (\<lambda>k. envs (Suc k)) rows s1 = Some s'"
    using Cons.prems(3) by (auto simp: p split: option.splits)
  have "batch_entry (ew_name wk) (ws_store s) (x, rc)" "R x" using Cons.prems(2)[of p] p by auto
  then have one: "rows_ok Q s1 \<and>
      (\<forall>p. batch_entry (ew_name wk) (ws_store s) p \<longrightarrow> batch_entry (ew_name wk) (ws_store s1) p)"
    by (rule dispatch_one_rows_ok[where Q = Q and R = R, OF Cons.prems(1) _ _ s1(1)])
      (erule mono, rule disp)
  show ?case using Cons.IH[OF _ _ s1(2)] one Cons.prems(2) by auto
qed simp

lemma reclaim_rows:
  assumes "reclaim_expired env e l d = (n, d')" and "y \<in> set (deliveries d')"
  shows "y \<in> set (deliveries d) \<or> (\<exists>r \<in> set (deliveries d). y = reclaimed (e_now env) r \<and> dr_state r = ''in_flight'')"
proof -
  have "d' = d \<or> (\<exists>us. d' = d\<lparr>deliveries := map (\<lambda>r. if lease_expired (e_now env) us e r
      then reclaimed (e_now env) r else r) (deliveries d)\<rparr>)"
    using assms(1)
    by (cases "interval_of_secs (as_secs_f64 l)")
      (auto simp: reclaim_expired_def exec_stmt_def reclaim_stmt_def update_deliveries_def split: io.splits)
  then show ?thesis using assms(2) by (auto simp: lease_expired_def)
qed

lemma claim_rows:
  assumes "db_inv d" and "claim_pending env e b d = (c, d')" and "y \<in> set (deliveries d')"
  shows "y \<in> set (deliveries d) \<or> (\<exists>r \<in> set (deliveries d). y = lease (e_now env) r)"
  using claim_pending_state[OF assms(1), of env e b] assms(2,3) by (auto simp: after_claim_def)

lemma tick_rows_ok:
  assumes "rows_ok Q s" and "worker_tick powi_fn pg_ops wk env s = Some g"
    and mono: "\<And>l l' r. Q l r \<Longrightarrow> Q (l @ l') r"
    and lease: "\<And>l r t. Q l r \<Longrightarrow> Q l (lease t r)" and recl: "\<And>l r t. Q l r \<Longrightarrow> Q l (reclaimed t r)"
    and entry: "\<And>l r x. Q l r \<Longrightarrow> dr_emitter_name r = ew_name wk \<Longrightarrow> \<not> dr_immutable r
        \<Longrightarrow> dr_attempt_count r = wd_attempt_count x \<Longrightarrow> R x"
    and disp: "\<And>l r f x rc env. Q l r \<Longrightarrow> dr_emitter_name r = ew_name wk \<Longrightarrow> \<not> dr_immutable r
        \<Longrightarrow> ReceiptId (dr_receipt_id r) = receipt_id rc \<Longrightarrow> R x \<Longrightarrow> dispatch_fun wk env x f
        \<Longrightarrow> Q (l @ [(from_receipt rc, de_emit env)]) (f r)"
  shows "rows_ok Q (flow_state g)"
proof -
  have inv: "db_inv (ws_store s)" using assms(1) by (simp add: rows_ok_def)
  have two: "(\<forall>y \<in> set (deliveries st1). Q (ws_log s) y) \<and> (\<forall>y \<in> set (deliveries st2). Q (ws_log s) y)
      \<and> db_inv st1 \<and> db_inv st2"
    if rc: "do_reclaim_expired pg_ops (te_reclaim env) (ew_name wk) (ew_lease_duration wk) (ws_store s) = (n, st1)"
    and cl: "do_claim_pending pg_ops (te_claim env) (ew_name wk) (usize_as_i64 (ew_concurrency wk)) st1 = (c, st2)"
    for n st1 c st2
  proof -
    have inv1: "db_inv st1" using pg.reclaim[OF inv] rc by (metis snd_conv)
    have inv2: "db_inv st2" using pg.claim[OF inv1] cl by (metis snd_conv)
    have q1: "Q (ws_log s) y" if "y \<in> set (deliveries st1)" for y
      using reclaim_rows[of "te_reclaim env" "ew_name wk" "ew_lease_duration wk" "ws_store s" n st1 y] that rc
        assms(1) recl by (auto simp: pg_ops_def rows_ok_def)
    have "Q (ws_log s) y" if "y \<in> set (deliveries st2)" for y
      using claim_rows[OF inv1 cl[unfolded pg_ops_def delivery_ops.select_convs] that] q1 lease by blast
    then show ?thesis using q1 inv1 inv2 by blast
  qed
  from assms(2) show ?thesis
  proof (cases rule: worker_tick_cases)
    case Stop
    then show ?thesis using assms(1) by (simp add: flow_state_def)
  next
    case (NoBatch n st1 c st2)
    then show ?thesis using two[OF NoBatch(1,2)] by (simp add: rows_ok_def)
  next
    case (Batch n st1 rows st2 s2 s3)
    note q = two[OF Batch(1,2)]
    have ok2: "rows_ok Q s2" using q Batch(3,4) by (simp add: rows_ok_def)
    have ent: "batch_entry (ew_name wk) (ws_store s2) p \<and> R (fst p)" if p: "p \<in> set rows" for p
    proof -
      have "batch_entry (ew_name wk) st2 p \<and> (\<exists>row \<in> set (deliveries st1). claimable (e_now (te_claim env)) (ew_name wk) row
           \<and> dr_attempt_count row = wd_attempt_count (fst p))"
        using claim_batch[OF _ Batch(2)[unfolded pg_ops_def delivery_ops.select_convs] p] q by blast
      then show ?thesis using q entry Batch(3) by (auto simp: claimable_def)
    qed
    have "rows_ok Q s3"
      by (rule dispatch_all_rows_ok[where Q = Q and R = R, OF ok2 ent Batch(5)])
        (simp, erule mono, rule disp)
    then show ?thesis using Batch(6,7) by (simp add: rows_ok_def)
  qed
qed

section \<open>Properties\<close>

text \<open>\<open>handed_off\<close>: an emitted row of emitter \<open>e\<close> is accounted for by a successful hand-off of its
  receipt's event.\<close>

definition handed_off ::
  "string \<Rightarrow> (normalized_event \<times> (unit, emit_error) result) list \<Rightarrow> delivery_row \<Rightarrow> bool" where
  "handed_off e lg r \<longleftrightarrow>
     (dr_emitter_name r = e \<and> \<not> dr_immutable r \<and> dr_state r = ''emitted'' \<longrightarrow>
        (\<exists>ev. (ev, Ok ()) \<in> set lg \<and> ne_receipt_id ev = ReceiptId (dr_receipt_id r)))"

lemma handed_off_keeps:
  "handed_off e l r \<Longrightarrow> handed_off e (l @ l') r"
  "handed_off e l (lease t r)" "handed_off e l (reclaimed t r)"
  by (auto simp: handed_off_def lease_def reclaimed_def)

lemma handed_off_dispatch:
  assumes "ReceiptId (dr_receipt_id r) = receipt_id rc" and "dispatch_fun wk env x f"
  shows "handed_off e (l @ [(from_receipt rc, de_emit env)]) (f r)"
proof (cases "de_emit env = Ok ()")
  case True
  then obtain t where f: "f = emitted_row t"
    using assms(2) unfolding dispatch_fun_def by (metis is_ok_simps(1))
  show ?thesis unfolding handed_off_def
    by (intro impI exI[of _ "from_receipt rc"]) (simp add: True f assms(1) from_receipt_def marked_rows)
next
  case False
  then have "dr_state (f r) \<noteq> ''emitted''" using assms(2) by (auto simp: dispatch_fun_def marked_rows)
  then show ?thesis by (simp add: handed_off_def)
qed

text \<open>C10. No phantom deliveries: over any run of an emitter's worker, whatever the database and the
  emitter do, a row of that emitter is only ever marked emitted after the emitter accepted the event
  of exactly that row's receipt.\<close>

theorem emitted_rows_were_handed_off:
  assumes "db_inv (ws_store s)" and "\<forall>r \<in> set (deliveries (ws_store s)). handed_off (ew_name wk) (ws_log s) r"
    and "worker_run powi_fn pg_ops wk envs s = Some f"
  shows "\<forall>r \<in> set (deliveries (ws_store (flow_state f))). handed_off (ew_name wk) (ws_log (flow_state f)) r"
proof -
  have "rows_ok (handed_off (ew_name wk)) (flow_state f)"
  proof (rule worker_run_invariant[OF _ assms(3)])
    show "rows_ok (handed_off (ew_name wk)) s" using assms(1,2) by (simp add: rows_ok_def)
    fix t env g assume "rows_ok (handed_off (ew_name wk)) t" "worker_tick powi_fn pg_ops wk env t = Some g"
    then show "rows_ok (handed_off (ew_name wk)) (flow_state g)"
      by (rule tick_rows_ok[where R = "\<lambda>_. True" and Q = "handed_off (ew_name wk)"])
        (simp_all add: handed_off_keeps handed_off_dispatch)
  qed
  then show ?thesis by (simp add: rows_ok_def)
qed

definition worker0 :: emitter_worker where
  "worker0 = \<lparr>ew_name = ''a'', ew_policy = policy_no_jitter, ew_concurrency = 4,
     ew_poll_interval = duration_from_secs 1, ew_lease_duration = duration_from_secs 60\<rparr>"

definition tick_with :: "(unit, emit_error) result \<Rightarrow> timestamp \<Rightarrow> tick_env" where
  "tick_with res t = \<lparr>te_wake = W_Timer, te_reclaim = env_ok t 0, te_claim = env_ok t 0,
     te_dispatch = (\<lambda>_. \<lparr>de_emit = res, de_now = t, de_sample = Fin 0, de_db = env_ok t 0\<rparr>),
     te_gauges = (\<lambda>_. env_ok t 0), te_now = t, te_shutdown = True\<rparr>"

definition wstate :: "db \<Rightarrow> db worker_state" where
  "wstate d = \<lparr>ws_store = d, ws_health = emitter_health_default, ws_log = [], ws_metrics = []\<rparr>"

lemma reclaim_nothing:
  assumes "deliveries d = [pending_row t0 i u e]"
  shows "snd (reclaim_expired (env_ok t b) e (duration_from_secs 60) d) = d"
  using assms reclaim_expired_run[of "env_ok t b" "duration_from_secs 60" 60000000 e d] interval_60s
  by (simp add: env_ok_def lease_expired_def pending_row_def)

lemma worker0_tick:
  "\<exists>f. worker_tick powi_fn pg_ops worker0 (tick_with (Ok ()) 9) (wstate pending_db) = Some f
     \<and> map (\<lambda>r. (dr_state r, dr_emitter_name r, dr_immutable r)) (deliveries (ws_store (flow_state f)))
       = [(''emitted'', ''a'', False)]"
proof -
  have rc: "snd (reclaim_expired (env_ok 9 0) ''a'' (duration_from_secs 60) pending_db) = pending_db"
    by (rule reclaim_nothing) (rule pending_db_rows)
  obtain n where rc': "reclaim_expired (env_ok 9 0) ''a'' (duration_from_secs 60) pending_db = (n, pending_db)"
    using rc by (metis prod.collapse)
  have el: "claimed_rows 9 [] ''a'' 4 pending_db = [pending_row 5 10 1 ''a'']"
    by (simp add: claimed_rows_def pending_db_rows claimable_def pending_row_def)
  have c: "\<exists>x. claim_pending (env_ok 9 0) ''a'' 4 pending_db = (Ok [(x, sample_receipt 1 ''k'')],
      pending_db\<lparr>deliveries := [lease 9 (pending_row 5 10 1 ''a'')]\<rparr>)
      \<and> wd_delivery_id x = DeliveryId 10"
    using pending_db_inv el
    by (simp add: claim_pending_def exec_stmt_def claim_stmt_eq db_inv_def env_ok_def after_claim_def
        pending_db_rows storage_get_def read_stmt_def lease_def pending_row_def delivery_from_row_def)
  then obtain x where x: "claim_pending (env_ok 9 0) ''a'' 4 pending_db = (Ok [(x, sample_receipt 1 ''k'')],
      pending_db\<lparr>deliveries := [lease 9 (pending_row 5 10 1 ''a'')]\<rparr>)" "wd_delivery_id x = DeliveryId 10"
    by blast
  show ?thesis
    using rc' x
    by (simp add: worker_tick_def worker0_def tick_with_def wstate_def pg_ops_def usize_as_i64_def
        dispatch_one_def Let_def flow_state_def mark_emitted_def exec_stmt_def env_ok_def
        update_deliveries_def in_flight_row_def lease_def pending_row_def emitted_row_def discard_count_def)
qed

lemma worker0_run:
  "\<exists>f. worker_run powi_fn pg_ops worker0 [tick_with (Ok ()) 9] (wstate pending_db) = Some f
     \<and> map (\<lambda>r. (dr_state r, dr_emitter_name r, dr_immutable r)) (deliveries (ws_store (flow_state f)))
       = [(''emitted'', ''a'', False)]"
proof -
  obtain f where f: "worker_tick powi_fn pg_ops worker0 (tick_with (Ok ()) 9) (wstate pending_db) = Some f"
    and em: "map (\<lambda>r. (dr_state r, dr_emitter_name r, dr_immutable r)) (deliveries (ws_store (flow_state f)))
       = [(''emitted'', ''a'', False)]"
    using worker0_tick[of powi_fn] by (elim exE conjE) (rule that)
  have "worker_run powi_fn pg_ops worker0 [tick_with (Ok ()) 9] (wstate pending_db) = Some f"
    using f by (cases f) simp_all
  then show ?thesis using em by (intro exI[of _ f] conjI)
qed

theorem emitted_rows_were_handed_off_witness:
  "\<exists>f ev. worker_run (\<lambda>_ _. Fin 1) pg_ops worker0 [tick_with (Ok ()) 9] (wstate pending_db) = Some f
     \<and> (ev, Ok ()) \<in> set (ws_log (flow_state f))"
proof -
  obtain f where run: "worker_run (\<lambda>_ _. Fin 1) pg_ops worker0 [tick_with (Ok ()) 9] (wstate pending_db) = Some f"
    and em: "map (\<lambda>r. (dr_state r, dr_emitter_name r, dr_immutable r)) (deliveries (ws_store (flow_state f)))
       = [(''emitted'', ''a'', False)]"
    using worker0_run[of "\<lambda>_ _. Fin 1"] by (elim exE conjE) (rule that)
  have inv: "db_inv (ws_store (wstate pending_db))"
    "\<forall>r \<in> set (deliveries (ws_store (wstate pending_db))). handed_off (ew_name worker0) (ws_log (wstate pending_db)) r"
    using pending_db_inv by (simp_all add: wstate_def pending_db_rows handed_off_def pending_row_def)
  obtain r where r: "r \<in> set (deliveries (ws_store (flow_state f)))" "dr_state r = ''emitted''"
    "dr_emitter_name r = ''a''" "\<not> dr_immutable r"
    using em by (cases "deliveries (ws_store (flow_state f))") auto
  then have "handed_off (ew_name worker0) (ws_log (flow_state f)) r"
    using emitted_rows_were_handed_off[OF inv run] by simp
  moreover have "ew_name worker0 = ''a''" by (simp add: worker0_def)
  ultimately obtain ev where "(ev, Ok ()) \<in> set (ws_log (flow_state f))"
    using r(2-4) unfolding handed_off_def by metis
  then show ?thesis using run by metis
qed

definition attempts_below :: "string \<Rightarrow> int \<Rightarrow> delivery_row \<Rightarrow> bool" where
  "attempts_below e m r \<longleftrightarrow>
     (dr_emitter_name r = e \<and> \<not> dr_immutable r \<longrightarrow> 0 \<le> dr_attempt_count r \<and> dr_attempt_count r < m)"

lemma attempts_dispatch:
  assumes "attempts_below (ew_name wk) m r" and "dispatch_fun wk env x f"
    and "0 \<le> wd_attempt_count x \<and> wd_attempt_count x < m" and "m = max_attempts (ew_policy wk)" and "is_i32 m"
  shows "attempts_below (ew_name wk) m (f r)"
proof -
  have "i32_add (wd_attempt_count x) 1 = wd_attempt_count x + 1"
    using assms(3,5) by (intro i32_add_exact) (auto simp: is_i32_def i32_min_def)
  then show ?thesis using assms by (auto simp: dispatch_fun_def attempts_below_def marked_rows)
qed

text \<open>C17. The retry budget is respected: over any run of a worker, the recorded number of failed
  attempts of each of its rows stays below \<^verbatim>\<open>max_attempts\<close>; the failure that would reach it
  dead-letters the row instead.\<close>

theorem attempts_stay_below_max:
  assumes "db_inv (ws_store s)" and "is_i32 (max_attempts (ew_policy wk))"
    and "\<forall>r \<in> set (deliveries (ws_store s)). attempts_below (ew_name wk) (max_attempts (ew_policy wk)) r"
    and "worker_run powi_fn pg_ops wk envs s = Some f"
  shows "\<forall>r \<in> set (deliveries (ws_store (flow_state f))).
           attempts_below (ew_name wk) (max_attempts (ew_policy wk)) r"
proof -
  let ?m = "max_attempts (ew_policy wk)"
  have "rows_ok (\<lambda>_. attempts_below (ew_name wk) ?m) (flow_state f)"
  proof (rule worker_run_invariant[OF _ assms(4)])
    show "rows_ok (\<lambda>_. attempts_below (ew_name wk) ?m) s" using assms(1,3) by (simp add: rows_ok_def)
    fix t env g
    assume "rows_ok (\<lambda>_. attempts_below (ew_name wk) ?m) t" "worker_tick powi_fn pg_ops wk env t = Some g"
    then show "rows_ok (\<lambda>_. attempts_below (ew_name wk) ?m) (flow_state g)"
    proof (rule tick_rows_ok[where R = "\<lambda>x. 0 \<le> wd_attempt_count x \<and> wd_attempt_count x < ?m"
          and Q = "\<lambda>_. attempts_below (ew_name wk) ?m"], goal_cases)
      case (5 l r f x rc env)
      then show ?case using attempts_dispatch assms(2) by blast
    qed (auto simp: attempts_below_def lease_def reclaimed_def)
  qed
  then show ?thesis by (simp add: rows_ok_def)
qed

theorem attempts_stay_below_max_witness:
  "\<exists>f. worker_run (\<lambda>_ _. Fin 1) pg_ops worker0 [tick_with (Ok ()) 9] (wstate pending_db) = Some f
     \<and> list_all (attempts_below ''a'' 5) (deliveries (ws_store (flow_state f)))"
proof -
  obtain f where run: "worker_run (\<lambda>_ _. Fin 1) pg_ops worker0 [tick_with (Ok ()) 9] (wstate pending_db) = Some f"
    using worker0_run by blast
  have "db_inv (ws_store (wstate pending_db))" "is_i32 (max_attempts (ew_policy worker0))"
    "\<forall>r \<in> set (deliveries (ws_store (wstate pending_db))).
       attempts_below (ew_name worker0) (max_attempts (ew_policy worker0)) r"
    using pending_db_inv
    by (simp_all add: wstate_def worker0_def policy_no_jitter_def retry_policy_default_def is_i32_def
        i32_min_def i32_max_def pending_db_rows attempts_below_def pending_row_def)
  from attempts_stay_below_max[OF this run] show ?thesis
    using run by (auto simp: list_all_iff worker0_def policy_no_jitter_def retry_policy_default_def)
qed

lemma mark_rows_single:
  assumes "db_inv d" and "r \<in> set (deliveries d)" and "dr_state r = ''in_flight''"
  shows "mark_rows (DeliveryId (dr_delivery_id r)) f d =
    d\<lparr>deliveries := map (\<lambda>y. if y = r then f r else y) (deliveries d)\<rparr>"
proof -
  have "in_flight_row (DeliveryId (dr_delivery_id r)) y \<longleftrightarrow> y = r" if "y \<in> set (deliveries d)" for y
    using assms that by (auto simp: in_flight_row_def db_inv_def wf_db_def distinct_map inj_on_def)
  then show ?thesis by (simp add: mark_rows_def cong: map_cong)
qed

lemma mark_run:
  "discard_count (exec_stmt IO_Ok (update_deliveries (in_flight_row i) f) d) = (Ok (), mark_rows i f d)"
  by (simp add: exec_stmt_def update_deliveries_def mark_rows_def discard_count_def)

text \<open>The next attempt is due between now and the cap of the backoff, and computing it does not panic.\<close>

lemma next_attempt_due:
  assumes "0 < attempt" and "max_backoff p = duration_from_secs c" and "c \<le> 2 ^ 53"
    and "now + int (c * 1000000) \<le> chrono_max_utc"
  shows "\<exists>b t. compute_backoff False powi_fn sample attempt p = Some b
    \<and> utc_add now (case chrono_from_std b of Some q \<Rightarrow> q | None \<Rightarrow> one_day) = Some t
    \<and> now \<le> t \<and> t \<le> now + int (c * 1000000)"
proof -
  obtain b where b: "compute_backoff False powi_fn sample attempt p = Some b" "b \<le> max_backoff p"
    using compute_backoff_bounded[OF assms(1-3)] by blast
  let ?dl = "case chrono_from_std b of Some q \<Rightarrow> q | None \<Rightarrow> one_day"
  have "?dl \<le> c * 1000000000"
    using b(2) assms(2,3) by (simp add: chrono_from_std_def duration_from_secs_def nanos_per_sec_def)
  then have "?dl div 1000 \<le> c * 1000000" using div_le_mono[of ?dl "c * 1000000000" 1000] by simp
  then have "int (?dl div 1000) \<le> int (c * 1000000)" by linarith
  then show ?thesis
    using assms(4) b(1) unfolding utc_add_def Let_def by auto
qed

text \<open>C18. What a dispatch does, on every branch: with the database up, a claimed delivery ends emitted
  when the emitter accepts the event, dead-lettered when it refuses and the attempts are used up, and
  otherwise failed with one more attempt and a next attempt between now and \<^verbatim>\<open>max_backoff\<close> from now;
  every other row is untouched, and the dispatch does not panic.\<close>

theorem dispatch_outcome:
  assumes "db_inv (ws_store s)" and "r \<in> set (deliveries (ws_store s))" and "dr_state r = ''in_flight''"
    and "0 \<le> dr_attempt_count r" and "is_i32 (dr_attempt_count r + 1)" and "e_io (de_db env) 0 = IO_Ok"
    and "max_backoff (ew_policy wk) = duration_from_secs c" and "c \<le> 2 ^ 53"
    and "de_now env + int (c * 1000000) \<le> chrono_max_utc"
  shows "\<exists>s' r'. dispatch_one powi_fn pg_ops wk env (decode_delivery r) rc s = Some s'
    \<and> ws_store s' = (ws_store s)\<lparr>deliveries := map (\<lambda>y. if y = r then r' else y) (deliveries (ws_store s))\<rparr>
    \<and> ws_log s' = ws_log s @ [(from_receipt rc, de_emit env)]
    \<and> (case de_emit env of
         Ok _ \<Rightarrow> r' = emitted_row (e_now (de_db env)) r
       | Err err \<Rightarrow>
           if dr_attempt_count r + 1 \<ge> max_attempts (ew_policy wk) then r' = dead_row (emit_error_to_string err) r
           else \<exists>t. r' = failed_row (dr_attempt_count r + 1) t (emit_error_to_string err) r
                  \<and> de_now env \<le> t \<and> t \<le> de_now env + int (c * 1000000))"
proof -
  let ?x = "decode_delivery r" and ?i = "DeliveryId (dr_delivery_id r)" and ?n = "dr_attempt_count r + 1"
  have x: "wd_delivery_id ?x = ?i" "wd_attempt_count ?x = dr_attempt_count r"
    using delivery_from_row_Ok[of r DS_InFlight] assms(3) by simp_all
  have n: "i32_add (dr_attempt_count r) 1 = ?n" using assms(5) by (rule i32_add_exact)
  note one = mark_rows_single[OF assms(1-3)]
  note ops = dispatch_one_def pg_ops_def Let_def x n assms(6) mark_run one
    mark_emitted_def mark_failed_def mark_dead_lettered_def
  show ?thesis
  proof (cases "de_emit env")
    case (Ok u)
    then show ?thesis by (simp add: ops)
  next
    case (Err err)
    show ?thesis
    proof (cases "?n \<ge> max_attempts (ew_policy wk)")
      case True
      then show ?thesis using Err by (simp add: ops)
    next
      case False
      obtain b t where b: "compute_backoff False powi_fn (de_sample env) ?n (ew_policy wk) = Some b"
        and add: "utc_add (de_now env) (case chrono_from_std b of Some q \<Rightarrow> q | None \<Rightarrow> one_day) = Some t"
        and le: "de_now env \<le> t" "t \<le> de_now env + int (c * 1000000)"
        using next_attempt_due[OF _ assms(7-9), of ?n] assms(4) by fastforce
      have "\<exists>s'. dispatch_one powi_fn pg_ops wk env ?x rc s = Some s'
        \<and> ws_store s' = (ws_store s)\<lparr>deliveries := map (\<lambda>y. if y = r
              then failed_row ?n t (emit_error_to_string err) r else y) (deliveries (ws_store s))\<rparr>
        \<and> ws_log s' = ws_log s @ [(from_receipt rc, de_emit env)]"
        using Err False b add by (simp add: ops)
      then show ?thesis using Err False le
        by (elim exE conjE) (intro exI[of _ "failed_row ?n t (emit_error_to_string err) r"] exI conjI, auto)
    qed
  qed
qed

definition flight_db :: db where
  "flight_db = pending_db\<lparr>deliveries := [lease 9 (pending_row 5 10 1 ''a'')]\<rparr>"

lemma flight_db_inv: "db_inv flight_db"
  by (simp add: db_inv_def wf_db_def history_at_rest_def has_receipt_def pending_row_def pending_db_rows
      flight_db_def lease_def)

theorem dispatch_outcome_witness:
  "\<exists>s' t. dispatch_one (\<lambda>_ _. Fin 1) pg_ops worker0
       \<lparr>de_emit = Err (EE_Timeout ''t''), de_now = 9, de_sample = Fin 0, de_db = env_ok 9 0\<rparr>
       (decode_delivery (lease 9 (pending_row 5 10 1 ''a''))) (sample_receipt 1 ''k'') (wstate flight_db) = Some s'
     \<and> deliveries (ws_store s') = [failed_row 1 t ''emit timeout: t'' (lease 9 (pending_row 5 10 1 ''a''))]
     \<and> 9 \<le> t \<and> t \<le> 3600000009"
  using dispatch_outcome[of "wstate flight_db" "lease 9 (pending_row 5 10 1 ''a'')"
      "\<lparr>de_emit = Err (EE_Timeout ''t''), de_now = 9, de_sample = Fin 0, de_db = env_ok 9 0\<rparr>" worker0 3600
      "\<lambda>_ _. Fin 1" "sample_receipt 1 ''k''"] flight_db_inv
  by (auto simp: wstate_def flight_db_def lease_def pending_row_def is_i32_def i32_min_def i32_max_def
      env_ok_def worker0_def policy_no_jitter_def retry_policy_default_def chrono_max_utc_def)

section \<open>Health\<close>

definition health_after :: "(timestamp \<times> bool) list \<Rightarrow> emitter_health" where
  "health_after outs = fold (\<lambda>(t, ok) h. update_health t ok h) outs emitter_health_default"

lemma update_health_failures:
  "consecutive_failures (update_health t ok h) =
     (if ok then 0 else (consecutive_failures h + 1) mod 2 ^ 32)"
  by (simp add: update_health_def Let_def)

lemma update_health_unhealthy:
  "eh_status (update_health t ok h) = Unhealthy \<longleftrightarrow> consecutive_failures (update_health t ok h) \<ge> 10"
  by (simp add: update_health_def Let_def derive_status_def)

text \<open>The health of an emitter follows its recent dispatches: the failure counter is the number of
  failures since the last success, and the emitter is unhealthy exactly from the tenth on.\<close>

lemma health_counts_trailing_failures:
  assumes "length outs < 2 ^ 32"
  shows "consecutive_failures (health_after outs) = length (takeWhile (\<lambda>q. \<not> snd q) (rev outs))
    \<and> (eh_status (health_after outs) = Unhealthy \<longleftrightarrow>
         10 \<le> length (takeWhile (\<lambda>q. \<not> snd q) (rev outs)))"
  using assms
proof (induction outs rule: rev_induct)
  case Nil
  then show ?case by (simp add: health_after_def emitter_health_default_def)
next
  case (snoc a outs)
  obtain t ok where a: "a = (t, ok)" by (cases a)
  have step: "health_after (outs @ [a]) = update_health t ok (health_after outs)"
    by (simp add: health_after_def a)
  have "length (takeWhile (\<lambda>q. \<not> snd q) (rev outs)) \<le> length outs"
    using length_takeWhile_le[of "\<lambda>q. \<not> snd q" "rev outs"] by simp
  then have "consecutive_failures (health_after (outs @ [a])) =
      length (takeWhile (\<lambda>q. \<not> snd q) (rev (outs @ [a])))"
    using snoc unfolding step by (simp add: update_health_failures a)
  then show ?case using update_health_unhealthy[of t ok "health_after outs"] step by simp
qed

lemma health_counts_trailing_failures_example:
  "eh_status (health_after [(1, True), (2, False), (2, False), (2, False), (2, False),
    (2, False), (2, False), (2, False), (2, False), (2, False), (2, False)]) = Unhealthy"
  using health_counts_trailing_failures[of "[(1, True), (2, False), (2, False), (2, False), (2, False),
    (2, False), (2, False), (2, False), (2, False), (2, False), (2, False)]"]
  by simp

end
