(* ===== verification/Verifiers.thy ===== *)
theory Verifiers
  imports Pipeline
begin

text \<open>
  The seven signature verifiers of \<^verbatim>\<open>crates/hookbox-providers\<close>. Each is a record with the fields of
  its struct, a constructor and a \<^verbatim>\<open>verify\<close> that follows the source step by step; HMAC, hex, Base64
  and RSA are fields of \<open>externals\<close>. For each verifier its acceptance condition is stated
  declaratively, and \<^verbatim>\<open>verify\<close> is shown to accept exactly then (locale \<open>signature_scheme\<close>); a message
  signed as documented is accepted, one outside the tolerance window never is.
\<close>

definition v_failed :: "string \<Rightarrow> verification_result" where
  "v_failed reason = \<lparr>vr_status = VS_Failed, vr_reason = Some reason\<rparr>"

definition v_verified :: "string \<Rightarrow> verification_result" where
  "v_verified reason = \<lparr>vr_status = VS_Verified, vr_reason = Some reason\<rparr>"

lemma verdict_simps [simp]:
  "vr_status (v_failed r) = VS_Failed" "vr_status (v_verified r) = VS_Verified"
  by (simp_all add: v_failed_def v_verified_def)

text \<open>\<^verbatim>\<open>subtle\<close>'s constant-time comparison of two slices.\<close>

definition ct_eq :: "bytes \<Rightarrow> bytes \<Rightarrow> bool" where
  "ct_eq a b \<longleftrightarrow> a = b"

section \<open>Generic HMAC\<close>

record generic_hmac_verifier =
  gh_provider :: string
  gh_secret :: bytes
  gh_header_name :: string

definition generic_hmac_verify ::
  "externals \<Rightarrow> generic_hmac_verifier \<Rightarrow> headers \<Rightarrow> bytes \<Rightarrow> verification_result" where
  "generic_hmac_verify x v hs body =
     (case header_get hs (gh_header_name v) of None \<Rightarrow> v_failed ''missing_signature_header''
      | Some header_value \<Rightarrow>
     (case x_header_to_str x header_value of None \<Rightarrow> v_failed ''invalid_signature_header_encoding''
      | Some provided_hex \<Rightarrow>
     (case x_hex_decode x provided_hex of None \<Rightarrow> v_failed ''invalid_hex_signature''
      | Some provided_sig \<Rightarrow>
     (case x_hmac_sha256 x (gh_secret v) body of None \<Rightarrow> v_failed ''invalid_secret_length''
      | Some expected \<Rightarrow>
          if ct_eq expected provided_sig then v_verified ''signature_valid''
          else v_failed ''signature_mismatch''))))"

section \<open>BVNK\<close>

record bvnk_verifier =
  bv_provider :: string
  bv_secret :: bytes

definition bvnk_verify ::
  "externals \<Rightarrow> bvnk_verifier \<Rightarrow> headers \<Rightarrow> bytes \<Rightarrow> verification_result" where
  "bvnk_verify x v hs body =
     (case header_get hs ''x-signature'' of None \<Rightarrow> v_failed ''missing_signature_header''
      | Some header_value \<Rightarrow>
     (case x_header_to_str x header_value of None \<Rightarrow> v_failed ''invalid_signature_header_encoding''
      | Some header_str \<Rightarrow>
     (case x_b64_decode x header_str of None \<Rightarrow> v_failed ''invalid_base64_signature''
      | Some provided_sig \<Rightarrow>
     (case x_hmac_sha256 x (bv_secret v) body of None \<Rightarrow> v_failed ''invalid_secret_length''
      | Some expected \<Rightarrow>
          if ct_eq expected provided_sig then v_verified ''signature_valid''
          else v_failed ''signature_mismatch''))))"

section \<open>Adyen\<close>

record adyen_verifier =
  ad_provider :: string
  ad_key_bytes :: bytes

definition adyen_new :: "externals \<Rightarrow> string \<Rightarrow> string \<Rightarrow> adyen_verifier option" where
  "adyen_new x provider hex_key =
     (if hex_key = [] then None
      else map_option (\<lambda>key. \<lparr>ad_provider = provider, ad_key_bytes = key\<rparr>) (x_hex_decode x hex_key))"

definition adyen_verify ::
  "externals \<Rightarrow> adyen_verifier \<Rightarrow> headers \<Rightarrow> bytes \<Rightarrow> verification_result" where
  "adyen_verify x v hs body =
     (case header_get hs ''HmacSignature'' of None \<Rightarrow> v_failed ''missing_signature_header''
      | Some header_value \<Rightarrow>
     (case x_header_to_str x header_value of None \<Rightarrow> v_failed ''invalid_signature_header_encoding''
      | Some header_str \<Rightarrow>
     (case x_b64_decode x header_str of None \<Rightarrow> v_failed ''invalid_base64_signature''
      | Some provided_sig \<Rightarrow>
     (case x_hmac_sha256 x (ad_key_bytes v) body of None \<Rightarrow> v_failed ''invalid_key_length''
      | Some expected \<Rightarrow>
          if ct_eq expected provided_sig then v_verified ''signature_valid''
          else v_failed ''signature_mismatch''))))"

section \<open>Triple-A fiat (RSA)\<close>

record triplea_fiat_verifier =
  tf_provider :: string
  tf_verifying_key :: bytes

definition triplea_fiat_new :: "externals \<Rightarrow> string \<Rightarrow> string \<Rightarrow> triplea_fiat_verifier option" where
  "triplea_fiat_new x provider pem_public_key =
     map_option (\<lambda>key. \<lparr>tf_provider = provider, tf_verifying_key = key\<rparr>) (x_rsa_from_pem x pem_public_key)"

definition triplea_fiat_verify ::
  "externals \<Rightarrow> triplea_fiat_verifier \<Rightarrow> headers \<Rightarrow> bytes \<Rightarrow> verification_result" where
  "triplea_fiat_verify x v hs body =
     (case header_get hs ''TripleA-Signature'' of None \<Rightarrow> v_failed ''missing_signature_header''
      | Some header_value \<Rightarrow>
     (case x_header_to_str x header_value of None \<Rightarrow> v_failed ''invalid_signature_header_encoding''
      | Some header_str \<Rightarrow>
     (case x_b64_decode x header_str of None \<Rightarrow> v_failed ''invalid_base64_signature''
      | Some sig_bytes \<Rightarrow>
     (case x_rsa_signature x sig_bytes of None \<Rightarrow> v_failed ''invalid_rsa_signature_format''
      | Some signature \<Rightarrow>
          if x_rsa_verify x (tf_verifying_key v) body signature then v_verified ''signature_valid''
          else v_failed ''signature_mismatch''))))"

section \<open>Stripe and Triple-A crypto\<close>

definition DEFAULT_TOLERANCE_SECS :: nat where
  "DEFAULT_TOLERANCE_SECS = 300"

text \<open>The loop over the comma-separated parts: the last \<^verbatim>\<open>t=\<close> and every \<^verbatim>\<open>v1=\<close>.\<close>

fun parse_sig_parts :: "string list \<Rightarrow> string option \<Rightarrow> string list \<Rightarrow> string option \<times> string list" where
  "parse_sig_parts [] ts sigs = (ts, sigs)"
| "parse_sig_parts (part # parts) ts sigs =
     (case strip_prefix ''t='' part of
        Some t \<Rightarrow> parse_sig_parts parts (Some t) sigs
      | None \<Rightarrow> (case strip_prefix ''v1='' part of
                   Some sig \<Rightarrow> parse_sig_parts parts ts (sigs @ [sig])
                 | None \<Rightarrow> parse_sig_parts parts ts sigs))"

text \<open>\<^verbatim>\<open>u64::try_from(raw_now).unwrap_or(0)\<close> and \<^verbatim>\<open>abs_diff\<close>.\<close>

definition clock_u64 :: "int \<Rightarrow> nat" where
  "clock_u64 raw_now = (if raw_now < 0 then 0 else nat raw_now)"

definition abs_diff :: "nat \<Rightarrow> nat \<Rightarrow> nat" where
  "abs_diff a b = (if a < b then b - a else a - b)"

fun any_hex_match :: "externals \<Rightarrow> bytes \<Rightarrow> string list \<Rightarrow> bool" where
  "any_hex_match x expected [] = False"
| "any_hex_match x expected (provided_hex # sigs) =
     (case x_hex_decode x provided_hex of
        None \<Rightarrow> any_hex_match x expected sigs
      | Some provided_sig \<Rightarrow> if ct_eq expected provided_sig then True else any_hex_match x expected sigs)"

record stripe_verifier =
  st_provider :: string
  st_secret :: string
  st_tolerance :: duration

definition stripe_new :: "string \<Rightarrow> string \<Rightarrow> stripe_verifier" where
  "stripe_new provider secret =
     \<lparr>st_provider = provider, st_secret = secret, st_tolerance = duration_from_secs DEFAULT_TOLERANCE_SECS\<rparr>"

definition stripe_with_tolerance :: "duration \<Rightarrow> stripe_verifier \<Rightarrow> stripe_verifier" where
  "stripe_with_tolerance tol v = v\<lparr>st_tolerance := tol\<rparr>"

definition stripe_verify ::
  "externals \<Rightarrow> stripe_verifier \<Rightarrow> int \<Rightarrow> headers \<Rightarrow> bytes \<Rightarrow> verification_result" where
  "stripe_verify x v raw_now hs body =
     (case header_get hs ''Stripe-Signature'' of None \<Rightarrow> v_failed ''missing_signature_header''
      | Some header_value \<Rightarrow>
     (case x_header_to_str x header_value of None \<Rightarrow> v_failed ''invalid_signature_header_encoding''
      | Some header_str \<Rightarrow>
     (case parse_sig_parts (split_char (CHR '','') header_str) None [] of (timestamp_str, v1_sigs) \<Rightarrow>
     (case timestamp_str of None \<Rightarrow> v_failed ''missing_timestamp''
      | Some ts_str \<Rightarrow>
     if v1_sigs = [] then v_failed ''missing_v1_signature'' else
     (case parse_u64 ts_str of None \<Rightarrow> v_failed ''invalid_timestamp''
      | Some timestamp \<Rightarrow>
     if abs_diff (clock_u64 raw_now) timestamp > duration_as_secs (st_tolerance v)
     then v_failed ''timestamp_expired'' else
     (case from_utf8 body of None \<Rightarrow> v_failed ''invalid_body_encoding''
      | Some body_str \<Rightarrow>
     (case x_hmac_sha256 x (st_secret v) (ts_str @ ''.'' @ body_str) of
        None \<Rightarrow> v_failed ''invalid_secret_length''
      | Some expected \<Rightarrow>
          if any_hex_match x expected v1_sigs then v_verified ''signature_valid''
          else v_failed ''signature_mismatch'')))))))"

record triplea_crypto_verifier =
  tc_provider :: string
  tc_secret :: string
  tc_tolerance :: duration

definition triplea_crypto_new :: "string \<Rightarrow> string \<Rightarrow> triplea_crypto_verifier" where
  "triplea_crypto_new provider secret =
     \<lparr>tc_provider = provider, tc_secret = secret, tc_tolerance = duration_from_secs DEFAULT_TOLERANCE_SECS\<rparr>"

definition triplea_crypto_with_tolerance :: "duration \<Rightarrow> triplea_crypto_verifier \<Rightarrow> triplea_crypto_verifier" where
  "triplea_crypto_with_tolerance tol v = v\<lparr>tc_tolerance := tol\<rparr>"

definition triplea_crypto_verify ::
  "externals \<Rightarrow> triplea_crypto_verifier \<Rightarrow> int \<Rightarrow> headers \<Rightarrow> bytes \<Rightarrow> verification_result" where
  "triplea_crypto_verify x v raw_now hs body =
     (case header_get hs ''triplea-signature'' of None \<Rightarrow> v_failed ''missing_signature_header''
      | Some header_value \<Rightarrow>
     (case x_header_to_str x header_value of None \<Rightarrow> v_failed ''invalid_signature_header_encoding''
      | Some header_str \<Rightarrow>
     (case parse_sig_parts (split_char (CHR '','') header_str) None [] of (timestamp_str, v1_sigs) \<Rightarrow>
     (case timestamp_str of None \<Rightarrow> v_failed ''missing_timestamp''
      | Some ts_str \<Rightarrow>
     if v1_sigs = [] then v_failed ''missing_v1_signature'' else
     (case parse_u64 ts_str of None \<Rightarrow> v_failed ''invalid_timestamp''
      | Some timestamp \<Rightarrow>
     if abs_diff (clock_u64 raw_now) timestamp > duration_as_secs (tc_tolerance v)
     then v_failed ''timestamp_expired'' else
     (case x_hmac_sha256 x (tc_secret v) (ts_str @ ''.'' @ body) of
        None \<Rightarrow> v_failed ''invalid_secret_length''
      | Some expected \<Rightarrow>
          if any_hex_match x expected v1_sigs then v_verified ''signature_valid''
          else v_failed ''signature_mismatch''))))))"

section \<open>Walapay (Svix)\<close>

record walapay_verifier =
  wp_provider :: string
  wp_key :: bytes
  wp_tolerance :: duration

definition walapay_new :: "externals \<Rightarrow> string \<Rightarrow> string \<Rightarrow> walapay_verifier option" where
  "walapay_new x provider secret =
     (case strip_prefix ''whsec_'' secret of None \<Rightarrow> None
      | Some b64 \<Rightarrow>
     (case x_b64_decode x b64 of None \<Rightarrow> None
      | Some key \<Rightarrow>
          if key = [] then None
          else Some \<lparr>wp_provider = provider, wp_key = key,
                     wp_tolerance = duration_from_secs DEFAULT_TOLERANCE_SECS\<rparr>))"

definition walapay_with_tolerance :: "duration \<Rightarrow> walapay_verifier \<Rightarrow> walapay_verifier" where
  "walapay_with_tolerance tol v = v\<lparr>wp_tolerance := tol\<rparr>"

fun any_v1_entry :: "string \<Rightarrow> string list \<Rightarrow> bool" where
  "any_v1_entry expected_b64 [] = False"
| "any_v1_entry expected_b64 (e # entries) =
     (case strip_prefix ''v1,'' e of
        None \<Rightarrow> any_v1_entry expected_b64 entries
      | Some provided_b64 \<Rightarrow>
          if ct_eq expected_b64 provided_b64 then True else any_v1_entry expected_b64 entries)"

definition walapay_verify ::
  "externals \<Rightarrow> walapay_verifier \<Rightarrow> int \<Rightarrow> headers \<Rightarrow> bytes \<Rightarrow> verification_result" where
  "walapay_verify x v raw_now hs body =
     (case header_get hs ''svix-id'' of None \<Rightarrow> v_failed ''missing_svix_id_header''
      | Some msg_id_val \<Rightarrow>
     (case header_get hs ''svix-timestamp'' of None \<Rightarrow> v_failed ''missing_svix_timestamp_header''
      | Some ts_val \<Rightarrow>
     (case header_get hs ''svix-signature'' of None \<Rightarrow> v_failed ''missing_svix_signature_header''
      | Some sig_val \<Rightarrow>
     (case x_header_to_str x msg_id_val of None \<Rightarrow> v_failed ''invalid_svix_id_encoding''
      | Some msg_id \<Rightarrow>
     (case x_header_to_str x ts_val of None \<Rightarrow> v_failed ''invalid_svix_timestamp_encoding''
      | Some ts_str \<Rightarrow>
     (case x_header_to_str x sig_val of None \<Rightarrow> v_failed ''invalid_svix_signature_encoding''
      | Some sig_str \<Rightarrow>
     (case parse_u64 ts_str of None \<Rightarrow> v_failed ''invalid_timestamp''
      | Some timestamp \<Rightarrow>
     if abs_diff (clock_u64 raw_now) timestamp > duration_as_secs (wp_tolerance v)
     then v_failed ''timestamp_expired'' else
     (case x_hmac_sha256 x (wp_key v) (msg_id @ ''.'' @ ts_str @ ''.'' @ body) of
        None \<Rightarrow> v_failed ''invalid_key_length''
      | Some expected_bytes \<Rightarrow>
          if any_v1_entry (x_b64_encode x expected_bytes) (split_whitespace sig_str)
          then v_verified ''signature_valid'' else v_failed ''signature_mismatch''))))))))"

section \<open>As trait objects\<close>

definition generic_hmac_object :: "externals \<Rightarrow> generic_hmac_verifier \<Rightarrow> verifier" where
  "generic_hmac_object x v =
     \<lparr>v_provider_name = gh_provider v, v_verify = (\<lambda>_. generic_hmac_verify x v)\<rparr>"

definition bvnk_object :: "externals \<Rightarrow> bvnk_verifier \<Rightarrow> verifier" where
  "bvnk_object x v = \<lparr>v_provider_name = bv_provider v, v_verify = (\<lambda>_. bvnk_verify x v)\<rparr>"

definition adyen_object :: "externals \<Rightarrow> adyen_verifier \<Rightarrow> verifier" where
  "adyen_object x v = \<lparr>v_provider_name = ad_provider v, v_verify = (\<lambda>_. adyen_verify x v)\<rparr>"

definition triplea_fiat_object :: "externals \<Rightarrow> triplea_fiat_verifier \<Rightarrow> verifier" where
  "triplea_fiat_object x v =
     \<lparr>v_provider_name = tf_provider v, v_verify = (\<lambda>_. triplea_fiat_verify x v)\<rparr>"

definition stripe_object :: "externals \<Rightarrow> stripe_verifier \<Rightarrow> verifier" where
  "stripe_object x v = \<lparr>v_provider_name = st_provider v, v_verify = stripe_verify x v\<rparr>"

definition triplea_crypto_object :: "externals \<Rightarrow> triplea_crypto_verifier \<Rightarrow> verifier" where
  "triplea_crypto_object x v =
     \<lparr>v_provider_name = tc_provider v, v_verify = triplea_crypto_verify x v\<rparr>"

definition walapay_object :: "externals \<Rightarrow> walapay_verifier \<Rightarrow> verifier" where
  "walapay_object x v = \<lparr>v_provider_name = wp_provider v, v_verify = walapay_verify x v\<rparr>"

section \<open>Acceptance conditions\<close>

definition header_str :: "externals \<Rightarrow> headers \<Rightarrow> string \<Rightarrow> string option" where
  "header_str x hs name =
     (case header_get hs name of None \<Rightarrow> None | Some hv \<Rightarrow> x_header_to_str x hv)"

text \<open>The header carries an encoding of the HMAC of the body.\<close>

definition body_mac_ok ::
  "externals \<Rightarrow> (string \<Rightarrow> bytes option) \<Rightarrow> bytes \<Rightarrow> string \<Rightarrow> headers \<Rightarrow> bytes \<Rightarrow> bool" where
  "body_mac_ok x dec key name hs body \<longleftrightarrow>
     (\<exists>s mac. header_str x hs name = Some s \<and> dec s = Some mac \<and> x_hmac_sha256 x key body = Some mac)"

definition fiat_ok :: "externals \<Rightarrow> bytes \<Rightarrow> headers \<Rightarrow> bytes \<Rightarrow> bool" where
  "fiat_ok x key hs body \<longleftrightarrow>
     (\<exists>s b sig. header_str x hs ''TripleA-Signature'' = Some s \<and> x_b64_decode x s = Some b
        \<and> x_rsa_signature x b = Some sig \<and> x_rsa_verify x key body sig)"

definition parts_with :: "string \<Rightarrow> string \<Rightarrow> string list" where
  "parts_with prefix s = List.map_filter (strip_prefix prefix) (split_char (CHR '','') s)"

definition fresh_timestamp :: "int \<Rightarrow> duration \<Rightarrow> string \<Rightarrow> bool" where
  "fresh_timestamp now tol ts \<longleftrightarrow>
     (\<exists>n. parse_u64 ts = Some n \<and> \<bar>int (clock_u64 now) - int n\<bar> \<le> int (duration_as_secs tol))"

text \<open>The last \<^verbatim>\<open>t=\<close> part is fresh, and some \<^verbatim>\<open>v1=\<close> part is the hex HMAC of timestamp, dot and body.\<close>

definition timestamped_ok ::
  "externals \<Rightarrow> string \<Rightarrow> duration \<Rightarrow> string \<Rightarrow> int \<Rightarrow> headers \<Rightarrow> bytes \<Rightarrow> bool" where
  "timestamped_ok x secret tol name now hs body \<longleftrightarrow>
     (\<exists>s mac. header_str x hs name = Some s \<and> parts_with ''t='' s \<noteq> []
        \<and> fresh_timestamp now tol (last (parts_with ''t='' s))
        \<and> x_hmac_sha256 x secret (last (parts_with ''t='' s) @ ''.'' @ body) = Some mac
        \<and> (\<exists>sig \<in> set (parts_with ''v1='' s). x_hex_decode x sig = Some mac))"

definition svix_ok :: "externals \<Rightarrow> bytes \<Rightarrow> duration \<Rightarrow> int \<Rightarrow> headers \<Rightarrow> bytes \<Rightarrow> bool" where
  "svix_ok x key tol now hs body \<longleftrightarrow>
     (\<exists>i ts s mac. header_str x hs ''svix-id'' = Some i \<and> header_str x hs ''svix-timestamp'' = Some ts
        \<and> header_str x hs ''svix-signature'' = Some s \<and> fresh_timestamp now tol ts
        \<and> x_hmac_sha256 x key (i @ ''.'' @ ts @ ''.'' @ body) = Some mac
        \<and> ''v1,'' @ x_b64_encode x mac \<in> set (split_whitespace s))"

text \<open>One value for every verifier the server can build.\<close>

datatype provider_verifier =
    PV_GenericHmac generic_hmac_verifier
  | PV_Bvnk bvnk_verifier
  | PV_Adyen adyen_verifier
  | PV_TripleAFiat triplea_fiat_verifier
  | PV_Stripe stripe_verifier
  | PV_TripleACrypto triplea_crypto_verifier
  | PV_Walapay walapay_verifier

fun verifier_object :: "externals \<Rightarrow> provider_verifier \<Rightarrow> verifier" where
  "verifier_object x (PV_GenericHmac v) = generic_hmac_object x v"
| "verifier_object x (PV_Bvnk v) = bvnk_object x v"
| "verifier_object x (PV_Adyen v) = adyen_object x v"
| "verifier_object x (PV_TripleAFiat v) = triplea_fiat_object x v"
| "verifier_object x (PV_Stripe v) = stripe_object x v"
| "verifier_object x (PV_TripleACrypto v) = triplea_crypto_object x v"
| "verifier_object x (PV_Walapay v) = walapay_object x v"

fun verifier_accepts :: "externals \<Rightarrow> provider_verifier \<Rightarrow> int \<Rightarrow> headers \<Rightarrow> bytes \<Rightarrow> bool" where
  "verifier_accepts x (PV_GenericHmac v) now hs body =
     body_mac_ok x (x_hex_decode x) (gh_secret v) (gh_header_name v) hs body"
| "verifier_accepts x (PV_Bvnk v) now hs body =
     body_mac_ok x (x_b64_decode x) (bv_secret v) ''x-signature'' hs body"
| "verifier_accepts x (PV_Adyen v) now hs body =
     body_mac_ok x (x_b64_decode x) (ad_key_bytes v) ''HmacSignature'' hs body"
| "verifier_accepts x (PV_TripleAFiat v) now hs body = fiat_ok x (tf_verifying_key v) hs body"
| "verifier_accepts x (PV_Stripe v) now hs body =
     (timestamped_ok x (st_secret v) (st_tolerance v) ''Stripe-Signature'' now hs body
      \<and> from_utf8 body \<noteq> None)"
| "verifier_accepts x (PV_TripleACrypto v) now hs body =
     timestamped_ok x (tc_secret v) (tc_tolerance v) ''triplea-signature'' now hs body"
| "verifier_accepts x (PV_Walapay v) now hs body = svix_ok x (wp_key v) (wp_tolerance v) now hs body"

section \<open>The parsing loops\<close>

lemma prefixes_exclusive: "strip_prefix ''t='' part = Some t \<Longrightarrow> strip_prefix ''v1='' part = None"
  by (cases part) (auto simp: strip_prefix_def split: if_splits)

lemma parse_sig_parts_eq:
  "parse_sig_parts parts ts sigs =
     ((if List.map_filter (strip_prefix ''t='') parts = [] then ts
       else Some (last (List.map_filter (strip_prefix ''t='') parts))),
      sigs @ List.map_filter (strip_prefix ''v1='') parts)"
proof (induction parts arbitrary: ts sigs)
  case (Cons part parts)
  then show ?case
    using prefixes_exclusive[of part]
    by (cases "strip_prefix ''t='' part"; cases "strip_prefix ''v1='' part")
      (auto simp: List.map_filter_simps)
qed (simp add: List.map_filter_simps)

lemma any_hex_match_iff:
  "any_hex_match x mac sigs \<longleftrightarrow> (\<exists>sig \<in> set sigs. x_hex_decode x sig = Some mac)"
  by (induction sigs) (auto simp: ct_eq_def split: option.split)

lemma any_v1_entry_iff: "any_v1_entry b entries \<longleftrightarrow> ''v1,'' @ b \<in> set entries"
proof (induction entries)
  case (Cons e entries)
  show ?case
  proof (cases "strip_prefix ''v1,'' e")
    case None
    then have "e \<noteq> ''v1,'' @ b" using strip_prefix_append[of "''v1,''" b] by (metis option.distinct(1))
    then show ?thesis using None Cons by auto
  next
    case (Some p)
    then have "e = ''v1,'' @ p" by (simp add: strip_prefix_Some)
    then show ?thesis using Some Cons by (auto simp: ct_eq_def)
  qed
qed simp

lemma abs_diff_gt: "t < abs_diff a b \<longleftrightarrow> int t < \<bar>int a - int b\<bar>"
  by (auto simp: abs_diff_def)

lemma header_str_Some:
  "header_str x hs name = Some s \<longleftrightarrow> (\<exists>hv. header_get hs name = Some hv \<and> x_header_to_str x hv = Some s)"
  by (auto simp: header_str_def split: option.splits)

section \<open>Each verifier accepts exactly its condition\<close>

lemma body_mac_verdict:
  "vr_status (generic_hmac_verify x v1 hs body) =
     (if body_mac_ok x (x_hex_decode x) (gh_secret v1) (gh_header_name v1) hs body then VS_Verified else VS_Failed)"
  "vr_status (bvnk_verify x v2 hs body) =
     (if body_mac_ok x (x_b64_decode x) (bv_secret v2) ''x-signature'' hs body then VS_Verified else VS_Failed)"
  "vr_status (adyen_verify x v3 hs body) =
     (if body_mac_ok x (x_b64_decode x) (ad_key_bytes v3) ''HmacSignature'' hs body then VS_Verified else VS_Failed)"
  by (auto simp: generic_hmac_verify_def bvnk_verify_def adyen_verify_def body_mac_ok_def header_str_def ct_eq_def
      split: option.splits)

lemma fiat_verdict:
  "vr_status (triplea_fiat_verify x v hs body) =
     (if fiat_ok x (tf_verifying_key v) hs body then VS_Verified else VS_Failed)"
  by (auto simp: triplea_fiat_verify_def fiat_ok_def header_str_def split: option.splits)

lemma stripe_verdict:
  "vr_status (stripe_verify x v now hs body) =
     (if timestamped_ok x (st_secret v) (st_tolerance v) ''Stripe-Signature'' now hs body
         \<and> from_utf8 body \<noteq> None then VS_Verified else VS_Failed)"
proof (cases "header_str x hs ''Stripe-Signature''")
  case None
  then show ?thesis
    by (auto simp: stripe_verify_def timestamped_ok_def header_str_def split: option.splits)
next
  case (Some s)
  then obtain hv where hv: "header_get hs ''Stripe-Signature'' = Some hv" "x_header_to_str x hv = Some s"
    by (auto simp: header_str_Some)
  have utf: "from_utf8 body = Some b \<Longrightarrow> b = body" for b by (simp add: from_utf8_def split: if_splits)
  show ?thesis
    using hv Some utf
    by (auto simp: stripe_verify_def timestamped_ok_def parse_sig_parts_eq parts_with_def any_hex_match_iff
        fresh_timestamp_def abs_diff_gt split: option.split)
qed

lemma triplea_crypto_verdict:
  "vr_status (triplea_crypto_verify x v now hs body) =
     (if timestamped_ok x (tc_secret v) (tc_tolerance v) ''triplea-signature'' now hs body
      then VS_Verified else VS_Failed)"
proof (cases "header_str x hs ''triplea-signature''")
  case None
  then show ?thesis
    by (auto simp: triplea_crypto_verify_def timestamped_ok_def header_str_def split: option.splits)
next
  case (Some s)
  then obtain hv where hv: "header_get hs ''triplea-signature'' = Some hv" "x_header_to_str x hv = Some s"
    by (auto simp: header_str_Some)
  show ?thesis
    using hv Some
    by (auto simp: triplea_crypto_verify_def timestamped_ok_def parse_sig_parts_eq parts_with_def any_hex_match_iff
        fresh_timestamp_def abs_diff_gt split: option.split)
qed

lemma walapay_verdict:
  "vr_status (walapay_verify x v now hs body) =
     (if svix_ok x (wp_key v) (wp_tolerance v) now hs body then VS_Verified else VS_Failed)"
  by (auto simp: walapay_verify_def svix_ok_def header_str_def any_v1_entry_iff fresh_timestamp_def abs_diff_gt
      split: option.splits)

lemma verifier_verdict:
  "vr_status (v_verify (verifier_object x pv) now hs body) =
     (if verifier_accepts x pv now hs body then VS_Verified else VS_Failed)"
  by (cases pv)
    (simp_all add: generic_hmac_object_def bvnk_object_def adyen_object_def triplea_fiat_object_def
      stripe_object_def triplea_crypto_object_def walapay_object_def body_mac_verdict fiat_verdict stripe_verdict
      triplea_crypto_verdict walapay_verdict del: not_None_eq)

section \<open>What the pipeline gets from a verifier\<close>

locale signature_scheme =
  fixes v :: verifier and accepts :: "int \<Rightarrow> headers \<Rightarrow> bytes \<Rightarrow> bool"
  assumes verdict: "vr_status (v_verify v now hs body) = (if accepts now hs body then VS_Verified else VS_Failed)"
begin

lemma verification_result:
  assumes "map_of (p_verifiers p) provider = Some v"
  shows "accepts now hs body \<Longrightarrow> \<exists>reason. fst (run_verification p now provider hs body) = Ok (VS_Verified, reason)"
    and "\<not> accepts now hs body \<Longrightarrow> \<exists>reason. fst (run_verification p now provider hs body) = Err reason"
  using assms verdict[of now hs body] by (simp_all add: run_verification_def Let_def)

lemma not_accepted_no_trace:
  assumes "map_of (p_verifiers p) provider = Some v" and "\<not> accepts (ie_clock env) hs body"
  shows "\<exists>reason ms. ingest x p env provider hs body w = (Ok (IR_VerificationFailed reason), ms, w)"
proof -
  obtain reason vms where "run_verification p (ie_clock env) provider hs body = (Err reason, vms)"
    using verification_result(2)[OF assms] by (metis prod.collapse)
  then show ?thesis by (simp add: ingest_def Let_def)
qed

lemma ingested_is_accepted:
  assumes "map_of (p_verifiers p) provider = Some v"
    and "ingest x p env provider hs body w = (Ok r, ms, w')" and "\<And>reason. r \<noteq> IR_VerificationFailed reason"
  shows "accepts (ie_clock env) hs body"
  using not_accepted_no_trace[OF assms(1), of env hs body x w] assms(2,3) by auto

end

interpretation scheme: signature_scheme "verifier_object x pv" "verifier_accepts x pv" for x pv
  by unfold_locales (rule verifier_verdict)

section \<open>Properties\<close>

text \<open>C22. Every verifier is exact: it answers \<^verbatim>\<open>Verified\<close> when its declared acceptance condition holds
  (the right header, an encoding of the MAC of the signed bytes under the configured key or a valid RSA
  signature, a timestamp in the window) and \<^verbatim>\<open>Failed\<close> otherwise; no input makes it skip.\<close>

theorem verifiers_are_exact:
  "vr_status (v_verify (verifier_object x pv) now hs body) =
     (if verifier_accepts x pv now hs body then VS_Verified else VS_Failed)"
  by (rule verifier_verdict)

text \<open>C9. Nothing unsigned gets in: on a pipeline with one of the verifiers registered for the provider,
  an ingest that ends in \<^verbatim>\<open>Accepted\<close> or \<^verbatim>\<open>Duplicate\<close> carried a signature that meets the verifier's
  acceptance condition; any other ingest leaves storage and dedupe cache as they were.\<close>

theorem only_signed_webhooks_get_in:
  assumes "map_of (p_verifiers p) provider = Some (verifier_object x pv)"
  shows "(\<forall>r ms w'. ingest x p env provider hs body w = (Ok r, ms, w') \<longrightarrow>
            (\<exists>i. r = IR_Accepted i \<or> r = IR_Duplicate i) \<longrightarrow> verifier_accepts x pv (ie_clock env) hs body)
    \<and> (\<not> verifier_accepts x pv (ie_clock env) hs body \<longrightarrow> snd (snd (ingest x p env provider hs body w)) = w)"
  using scheme.ingested_is_accepted[OF assms, of x env hs body w]
    scheme.not_accepted_no_trace[OF assms, of env hs body x w] by fastforce

definition hmac_pipeline :: "world pipeline" where
  "hmac_pipeline = server_pipeline IO_Ok []
     [(''p'', verifier_object ext0 (PV_GenericHmac \<lparr>gh_provider = ''p'', gh_secret = ''k'', gh_header_name = ''x-sig''\<rparr>))]"

theorem only_signed_webhooks_get_in_witness:
  "snd (snd (ingest ext0 hmac_pipeline (ienv0 1 10) ''p'' [(''x-sig'', ''forged'')] ''{}'' world0)) = world0"
proof -
  let ?pv = "PV_GenericHmac \<lparr>gh_provider = ''p'', gh_secret = ''k'', gh_header_name = ''x-sig''\<rparr>"
  have "map_of (p_verifiers hmac_pipeline) ''p'' = Some (verifier_object ext0 ?pv)"
    by (simp add: hmac_pipeline_def server_pipeline_def)
  moreover have "to_ascii_lowercase ''x-sig'' = ''x-sig''" by (simp add: to_ascii_lowercase_def byte_def)
  then have "\<not> verifier_accepts ext0 ?pv (ie_clock (ienv0 1 10)) [(''x-sig'', ''forged'')] ''{}''"
    by (simp add: body_mac_ok_def header_str_def header_get_def ext0_def)
  ultimately show ?thesis
    by (rule only_signed_webhooks_get_in[THEN conjunct2, THEN mp])
qed

text \<open>Documented behaviour of the encodings: hex digits contain no comma, decoding inverts encoding, and
  a header made of visible ASCII reads back as itself.\<close>

definition hex_ok :: "externals \<Rightarrow> bool" where
  "hex_ok x \<longleftrightarrow> (\<forall>b. x_hex_decode x (x_hex_encode x b) = Some b \<and> CHR '','' \<notin> set (x_hex_encode x b))"

text \<open>Stripe's documented signature is accepted: a header \<^verbatim>\<open>t=<ts>,v1=<hex>\<close> made from the HMAC of
  \<^verbatim>\<open><ts>.<body>\<close> under the configured secret verifies within the tolerance window; outside of the
  window no header with that timestamp does.\<close>

lemma stripe_signed_is_accepted:
  assumes "hex_ok x" and "x_hmac_sha256 x (st_secret v) (ts @ ''.'' @ body) = Some mac"
    and "header_get hs ''Stripe-Signature'' = Some hv"
    and "x_header_to_str x hv = Some (''t='' @ ts @ '',v1='' @ x_hex_encode x mac)"
    and "CHR '','' \<notin> set ts" and "parse_u64 ts = Some n" and "from_utf8 body = Some body"
  shows "vr_status (stripe_verify x v now hs body) =
     (if \<bar>int (clock_u64 now) - int n\<bar> \<le> int (duration_as_secs (st_tolerance v)) then VS_Verified else VS_Failed)"
proof -
  let ?s = "''t='' @ ts @ '',v1='' @ x_hex_encode x mac"
  have hex: "CHR '','' \<notin> set (x_hex_encode x mac)" "x_hex_decode x (x_hex_encode x mac) = Some mac"
    using assms(1) by (auto simp: hex_ok_def)
  have "split_char (CHR '','') ?s = [''t='' @ ts, ''v1='' @ x_hex_encode x mac]"
    using split_char_append[of "CHR '',''" "''t='' @ ts" "''v1='' @ x_hex_encode x mac"] assms(5) hex(1)
    by (simp add: split_char_single)
  moreover have "strip_prefix ''v1='' (''t='' @ ts) = None" "strip_prefix ''t='' (''v1='' @ x_hex_encode x mac) = None"
    by (simp_all add: strip_prefix_def)
  ultimately have parts: "parts_with ''t='' ?s = [ts]" "parts_with ''v1='' ?s = [x_hex_encode x mac]"
    unfolding parts_with_def
    by (simp_all add: List.map_filter_simps strip_prefix_append[of "''t=''" ts, simplified]
        strip_prefix_append[of "''v1=''" "x_hex_encode x mac", simplified])
  have "header_str x hs ''Stripe-Signature'' = Some ?s"
    using assms(3,4) by (simp add: header_str_def)
  then show ?thesis
    unfolding stripe_verdict timestamped_ok_def
    using parts assms(2,6,7) hex(2) by (auto simp: fresh_timestamp_def)
qed

text \<open>A concrete byte encoding with letters \<^verbatim>\<open>a\<close> to \<^verbatim>\<open>p\<close> as digits.\<close>

definition nibbles :: "bytes \<Rightarrow> string" where
  "nibbles b = concat (map (\<lambda>c. [char_of (97 + byte c div 16), char_of (97 + byte c mod 16)]) b)"

fun unnibbles :: "string \<Rightarrow> bytes option" where
  "unnibbles [] = Some []"
| "unnibbles [a] = None"
| "unnibbles (a # b # r) =
     map_option ((#) (char_of ((byte a - 97) * 16 + (byte b - 97)))) (unnibbles r)"

definition ext_hex :: externals where
  "ext_hex = ext0\<lparr>x_hex_encode := nibbles, x_hex_decode := unnibbles\<rparr>"

lemma byte_char_of: "n < 256 \<Longrightarrow> byte (char_of n) = n"
  by (simp add: byte_def)

lemma byte_less: "byte c < 256"
  by (cases c) (simp add: byte_def of_char_def horner_sum_simps)

lemma unnibbles_nibbles: "unnibbles (nibbles b) = Some b"
proof (induction b)
  case (Cons c b)
  have "byte c div 16 < 16" "byte c mod 16 < 16" using byte_less[of c] by auto
  then have "byte (char_of (97 + byte c div 16)) = 97 + byte c div 16"
    "byte (char_of (97 + byte c mod 16)) = 97 + byte c mod 16"
    by (simp_all add: byte_char_of)
  moreover have "char_of (byte c) = c" by (simp add: byte_def)
  ultimately show ?case using Cons by (simp add: nibbles_def)
qed (simp add: nibbles_def)

lemma hex_ok_ext_hex: "hex_ok ext_hex"
proof -
  have "CHR '','' \<noteq> char_of (97 + n)" if "n < 16" for n :: nat
  proof
    assume "CHR '','' = char_of (97 + n)"
    then have "byte (CHR '','') = 97 + n" using that by (simp add: byte_char_of)
    then show False by (simp add: byte_def)
  qed
  moreover have "byte c div 16 < 16 \<and> byte c mod 16 < 16" for c using byte_less[of c] by auto
  ultimately have "CHR '','' \<notin> set (nibbles b)" for b
    unfolding nibbles_def by (induction b) auto
  then show ?thesis by (simp add: hex_ok_def ext_hex_def unnibbles_nibbles)
qed

lemma stripe_signed_is_accepted_example:
  "vr_status (stripe_verify ext_hex (stripe_new ''stripe'' ''k'') 1000
      [(''stripe-signature'', ''t=900,v1='' @ nibbles ''k900.{}'')] ''{}'') = VS_Verified"
proof -
  have "header_get [(''stripe-signature'', ''t=900,v1='' @ nibbles ''k900.{}'')] ''Stripe-Signature''
      = Some (''t='' @ ''900'' @ '',v1='' @ nibbles ''k900.{}'')"
    by (simp add: header_get_def to_ascii_lowercase_def byte_def char_of_def bit_0)
  moreover have "parse_u64 ''900'' = Some 900" by (simp add: parse_u64_def parse_digits_def is_digit_def byte_def)
  moreover have "from_utf8 ''{}'' = Some ''{}''" by (simp add: from_utf8_def byte_def)
  ultimately show ?thesis
    using stripe_signed_is_accepted[OF hex_ok_ext_hex, of "stripe_new ''stripe'' ''k''" "''900''" "''{}''" "''k900.{}''"
        "[(''stripe-signature'', ''t=900,v1='' @ nibbles ''k900.{}'')]"
        "''t='' @ ''900'' @ '',v1='' @ nibbles ''k900.{}''" 900 1000]
    by (simp add: ext_hex_def ext0_def stripe_new_def clock_u64_def duration_as_secs_def duration_from_secs_def
        nanos_per_sec_def DEFAULT_TOLERANCE_SECS_def)
qed

end
