(* ===== verification/Config.thy ===== *)
theory Config
  imports Worker Verifiers
begin

text \<open>
  Configuration (\<^verbatim>\<open>config.rs\<close> and \<^verbatim>\<open>bootstrap.rs\<close> of \<^verbatim>\<open>crates/hookbox-server\<close>): the config structs with
  their defaults, normalization of the legacy section, validation of the emitter entries, and
  construction of the verifiers. TOML parsing is a parameter. Shown: exactly which configurations are
  accepted and that normalization is idempotent; what is built from a provider section.
\<close>

section \<open>Debug formatting\<close>

text \<open>\<open>{:?}\<close> of a \<^verbatim>\<open>str\<close>: quoted, with quotes, backslashes and the usual control characters escaped
  (other bytes are kept, which is what Rust does for printable text).\<close>

definition debug_char :: "char \<Rightarrow> string" where
  "debug_char c =
     (if c = CHR ''\"'' then [CHR 92, CHR ''\"'']
      else if c = CHR 92 then [CHR 92, CHR 92]
      else if byte c = 9 then [CHR 92, CHR ''t'']
      else if byte c = 10 then [CHR 92, CHR ''n'']
      else if byte c = 13 then [CHR 92, CHR ''r'']
      else [c])"

definition debug_str :: "string \<Rightarrow> string" where
  "debug_str s = [CHR ''\"''] @ concat (map debug_char s) @ [CHR ''\"'']"

section \<open>Config structs\<close>

datatype config_error = CE_Validation string | CE_Parse string

record server_config =
  sc_host :: string
  sc_port :: nat
  sc_body_limit :: nat

definition default_host :: string where "default_host = ''0.0.0.0''"
definition default_port :: nat where "default_port = 8080"
definition default_body_limit :: nat where "default_body_limit = 1048576"
definition default_max_connections :: nat where "default_max_connections = 10"
definition default_lru_capacity :: nat where "default_lru_capacity = 10000"
definition default_provider_type :: string where "default_provider_type = ''hmac-sha256''"
definition default_retry_interval :: nat where "default_retry_interval = 30"
definition default_max_attempts :: int where "default_max_attempts = 5"
definition default_emitter_type :: string where "default_emitter_type = ''channel''"
definition default_poll_interval :: nat where "default_poll_interval = 5"
definition default_concurrency :: nat where "default_concurrency = 1"

definition server_config_default :: server_config where
  "server_config_default =
     \<lparr>sc_host = default_host, sc_port = default_port, sc_body_limit = default_body_limit\<rparr>"

record database_config =
  dc_url :: string
  dc_max_connections :: nat

record provider_config =
  pc_verifier_type :: string
  pc_secret :: "string option"
  pc_public_key :: "string option"
  pc_header :: "string option"
  pc_tolerance_seconds :: "nat option"

record dedupe_config = ddc_lru_capacity :: nat

definition dedupe_config_default :: dedupe_config where
  "dedupe_config_default = \<lparr>ddc_lru_capacity = default_lru_capacity\<rparr>"

record admin_config = ac_bearer_token :: "string option"

record retry_config =
  rc_interval_seconds :: nat
  rc_max_attempts :: int

definition retry_config_default :: retry_config where
  "retry_config_default =
     \<lparr>rc_interval_seconds = default_retry_interval, rc_max_attempts = default_max_attempts\<rparr>"

record kafka_emitter_config =
  kc_brokers :: string
  kc_topic :: string
  kc_client_id :: string
  kc_acks :: string
  kc_timeout_ms :: nat

record nats_emitter_config =
  nc_url :: string
  nc_subject :: string

record sqs_emitter_config =
  qc_queue_url :: string
  qc_region :: "string option"
  qc_fifo :: bool
  qc_endpoint_url :: "string option"

record redis_emitter_config =
  rdc_url :: string
  rdc_stream :: string
  rdc_maxlen :: "nat option"
  rdc_timeout_ms :: nat

record emitter_config =
  ec_emitter_type :: string
  ec_kafka :: "kafka_emitter_config option"
  ec_nats :: "nats_emitter_config option"
  ec_sqs :: "sqs_emitter_config option"
  ec_redis :: "redis_emitter_config option"

definition emitter_config_default :: emitter_config where
  "emitter_config_default =
     \<lparr>ec_emitter_type = default_emitter_type, ec_kafka = None, ec_nats = None, ec_sqs = None, ec_redis = None\<rparr>"

record retry_policy_config =
  rpc_max_attempts :: int
  rpc_initial_backoff_seconds :: nat
  rpc_max_backoff_seconds :: nat
  rpc_backoff_multiplier :: f64
  rpc_jitter :: f64

definition retry_policy_config_default :: retry_policy_config where
  "retry_policy_config_default =
     \<lparr>rpc_max_attempts = 5, rpc_initial_backoff_seconds = 30, rpc_max_backoff_seconds = 3600,
      rpc_backoff_multiplier = f64_round 2, rpc_jitter = f64_round (1 / 5)\<rparr>"

definition into_policy :: "retry_policy_config \<Rightarrow> retry_policy" where
  "into_policy c =
     \<lparr>max_attempts = rpc_max_attempts c,
      initial_backoff = duration_from_secs (rpc_initial_backoff_seconds c),
      max_backoff = duration_from_secs (rpc_max_backoff_seconds c),
      backoff_multiplier = rpc_backoff_multiplier c,
      jitter = rpc_jitter c\<rparr>"

record emitter_entry =
  en_name :: string
  en_emitter_type :: string
  en_poll_interval_seconds :: nat
  en_concurrency :: nat
  en_lease_duration_seconds :: "nat option"
  en_kafka :: "kafka_emitter_config option"
  en_nats :: "nats_emitter_config option"
  en_sqs :: "sqs_emitter_config option"
  en_redis :: "redis_emitter_config option"
  en_retry :: retry_policy_config

definition emitter_entry_default :: emitter_entry where
  "emitter_entry_default =
     \<lparr>en_name = [], en_emitter_type = [], en_poll_interval_seconds = default_poll_interval,
      en_concurrency = default_concurrency, en_lease_duration_seconds = None, en_kafka = None,
      en_nats = None, en_sqs = None, en_redis = None, en_retry = retry_policy_config_default\<rparr>"

definition from_legacy :: "emitter_config \<Rightarrow> retry_config \<Rightarrow> emitter_entry" where
  "from_legacy legacy global_retry =
     emitter_entry_default
       \<lparr>en_name := ''default'',
        en_emitter_type := ec_emitter_type legacy,
        en_poll_interval_seconds := rc_interval_seconds global_retry,
        en_kafka := ec_kafka legacy,
        en_nats := ec_nats legacy,
        en_sqs := ec_sqs legacy,
        en_redis := ec_redis legacy,
        en_retry := retry_policy_config_default\<lparr>rpc_max_attempts := rc_max_attempts global_retry\<rparr>\<rparr>"

definition to_emitter_config :: "emitter_entry \<Rightarrow> emitter_config" where
  "to_emitter_config e =
     \<lparr>ec_emitter_type = en_emitter_type e, ec_kafka = en_kafka e, ec_nats = en_nats e,
      ec_sqs = en_sqs e, ec_redis = en_redis e\<rparr>"

text \<open>The providers' \<^verbatim>\<open>HashMap\<close> is an association list with distinct keys.\<close>

record hookbox_config =
  hc_server :: server_config
  hc_database :: database_config
  hc_providers :: "(string \<times> provider_config) list"
  hc_dedupe :: dedupe_config
  hc_admin :: admin_config
  hc_retry :: retry_config
  hc_emitter :: "emitter_config option"
  hc_emitters :: "emitter_entry list"

section \<open>Validation\<close>

text \<open>The number of \<^verbatim>\<open>char\<close>s of a UTF-8 string: bytes that are not continuation bytes.\<close>

definition chars_count :: "string \<Rightarrow> nat" where
  "chars_count s = length (filter (\<lambda>c. \<not> cont_byte (byte c)) s)"

definition is_ascii_alphanumeric :: "char \<Rightarrow> bool" where
  "is_ascii_alphanumeric c \<longleftrightarrow>
     is_digit c \<or> 65 \<le> byte c \<and> byte c \<le> 90 \<or> 97 \<le> byte c \<and> byte c \<le> 122"

definition is_valid_emitter_name :: "string \<Rightarrow> bool" where
  "is_valid_emitter_name name =
     (let len = chars_count name in
      if \<not> (1 \<le> len \<and> len \<le> 64) then False
      else list_all (\<lambda>c. is_ascii_alphanumeric c \<or> c = CHR ''_'' \<or> c = CHR ''-'') name)"

definition entry_msg :: "emitter_entry \<Rightarrow> string \<Rightarrow> (unit, config_error) result" where
  "entry_msg e msg = Err (CE_Validation (''emitter '' @ debug_str (en_name e) @ '': '' @ msg))"

definition require_section :: "emitter_entry \<Rightarrow> string \<Rightarrow> 'a option \<Rightarrow> (unit, config_error) result" where
  "require_section e kind section_opt =
     (if section_opt = None
      then entry_msg e (''type = '' @ debug_str kind @ '' requires a [emitters.'' @ kind @ ''] section'')
      else Ok ())"

text \<open>The loop body of \<^verbatim>\<open>validate_emitter_entries\<close>; \<open>seen\<close> holds the earlier names.\<close>

definition validate_entry :: "string list \<Rightarrow> emitter_entry \<Rightarrow> (unit, config_error) result" where
  "validate_entry seen e =
     (if \<not> is_valid_emitter_name (en_name e) then
        Err (CE_Validation (''emitter name '' @ debug_str (en_name e) @ '' does not match [a-zA-Z0-9_-]{1,64}''))
      else if en_name e \<in> set seen then
        Err (CE_Validation (''duplicate emitter name '' @ debug_str (en_name e)))
      else if en_concurrency e = 0 then entry_msg e ''concurrency must be >= 1''
      else if en_poll_interval_seconds e = 0 then
        entry_msg e ''poll_interval_seconds must be >= 1 (0 would busy-loop against Postgres)''
      else if f64_lt (rpc_jitter (en_retry e)) (Fin 0) \<or> f64_lt (Fin 1) (rpc_jitter (en_retry e)) then
        entry_msg e ''retry.jitter must be in [0.0, 1.0]''
      else if rpc_max_attempts (en_retry e) < 1 then entry_msg e ''retry.max_attempts must be >= 1''
      else if en_lease_duration_seconds e = Some 0 then entry_msg e ''lease_duration_seconds must be > 0''
      else if en_emitter_type e = ''channel'' then Ok ()
      else if en_emitter_type e = ''kafka'' then require_section e ''kafka'' (en_kafka e)
      else if en_emitter_type e = ''nats'' then require_section e ''nats'' (en_nats e)
      else if en_emitter_type e = ''sqs'' then require_section e ''sqs'' (en_sqs e)
      else if en_emitter_type e = ''redis'' then require_section e ''redis'' (en_redis e)
      else entry_msg e (''unknown type '' @ debug_str (en_emitter_type e) @ ''; expected one of ''
             @ join '', '' (map debug_str [''channel'', ''kafka'', ''nats'', ''sqs'', ''redis''])))"

fun validate_entries_from :: "string list \<Rightarrow> emitter_entry list \<Rightarrow> (unit, config_error) result" where
  "validate_entries_from seen [] = Ok ()"
| "validate_entries_from seen (e # es) =
     (case validate_entry seen e of
        Err err \<Rightarrow> Err err
      | Ok _ \<Rightarrow> validate_entries_from (en_name e # seen) es)"

definition validate_emitter_entries :: "emitter_entry list \<Rightarrow> (unit, config_error) result" where
  "validate_emitter_entries entries = validate_entries_from [] entries"

definition normalize :: "hookbox_config \<Rightarrow> (hookbox_config \<times> string list, config_error) result" where
  "normalize config =
     (case (hc_emitter config, hc_emitters config) of
        (Some _, _ # _) \<Rightarrow>
          Err (CE_Validation ''use either `[emitter]` (legacy) or `[[emitters]]` (preferred), not both'')
      | (None, []) \<Rightarrow> Err (CE_Validation ''no emitters configured'')
      | (Some legacy, []) \<Rightarrow>
          (let config1 = config\<lparr>hc_emitters := [from_legacy legacy (hc_retry config)], hc_emitter := None\<rparr> in
           and_then (validate_emitter_entries (hc_emitters config1))
             (\<lambda>_. Ok (config1, [''`[emitter]` is deprecated; migrate to `[[emitters]]`''])))
      | (None, _ # _) \<Rightarrow>
          and_then (validate_emitter_entries (hc_emitters config)) (\<lambda>_. Ok (config, [])))"

definition parse_and_normalize ::
  "(string \<Rightarrow> (hookbox_config, string) result) \<Rightarrow> string
     \<Rightarrow> (hookbox_config \<times> string list, config_error) result" where
  "parse_and_normalize toml_from_str toml_str =
     and_then (map_err CE_Parse (toml_from_str toml_str)) normalize"

section \<open>Verifier construction\<close>

text \<open>An \<^verbatim>\<open>anyhow\<close> error, as the chain of its messages, outermost first.\<close>

type_synonym 'a anyhow = "('a, string list) result"

definition validate_retry_config :: "retry_config \<Rightarrow> unit anyhow" where
  "validate_retry_config retry =
     (if \<not> rc_interval_seconds retry \<ge> 1 then Err [''retry.interval_seconds must be >= 1'']
      else if \<not> rc_max_attempts retry \<ge> 1 then Err [''retry.max_attempts must be >= 1'']
      else Ok ())"

definition non_empty :: "string option \<Rightarrow> string \<Rightarrow> string anyhow" where
  "non_empty field msg =
     (case field of Some s \<Rightarrow> if s \<noteq> [] then Ok s else Err [msg] | None \<Rightarrow> Err [msg])"

definition quoted :: "string \<Rightarrow> string" where
  "quoted name = [CHR 39] @ name @ [CHR 39]"

definition non_empty_secret :: "string \<Rightarrow> provider_config \<Rightarrow> string anyhow" where
  "non_empty_secret name provider =
     non_empty (pc_secret provider) (''provider '' @ quoted name @ '' requires a non-empty secret'')"

definition generic_verifier :: "string \<Rightarrow> string \<Rightarrow> string \<Rightarrow> provider_config \<Rightarrow> provider_verifier" where
  "generic_verifier name secret default_header provider =
     PV_GenericHmac \<lparr>gh_provider = name, gh_secret = secret,
       gh_header_name = (case pc_header provider of Some h \<Rightarrow> h | None \<Rightarrow> default_header)\<rparr>"

definition build_one_verifier :: "externals \<Rightarrow> string \<Rightarrow> provider_config \<Rightarrow> provider_verifier anyhow" where
  "build_one_verifier x name provider =
     (let kind = pc_verifier_type provider in
      if kind = ''stripe'' then
        and_then (non_empty_secret name provider) (\<lambda>secret.
          Ok (PV_Stripe (case pc_tolerance_seconds provider of
                 Some t \<Rightarrow> stripe_with_tolerance (duration_from_secs t) (stripe_new name secret)
               | None \<Rightarrow> stripe_new name secret)))
      else if kind = ''adyen'' then
        and_then (non_empty (pc_secret provider)
            (''adyen provider '' @ quoted name @ '' requires a non-empty secret (hex-encoded HMAC key)'')) (\<lambda>secret.
          (case adyen_new x name secret of
             Some v \<Rightarrow> Ok (PV_Adyen v)
           | None \<Rightarrow> Err [''invalid hex key for Adyen provider '' @ quoted name]))
      else if kind = ''bvnk'' then
        and_then (non_empty (pc_secret provider)
            (''bvnk provider '' @ quoted name @ '' requires a non-empty secret'')) (\<lambda>secret.
          Ok (PV_Bvnk \<lparr>bv_provider = name, bv_secret = secret\<rparr>))
      else if kind = ''triplea-fiat'' then
        and_then (non_empty (pc_public_key provider)
            (''triplea-fiat provider '' @ quoted name @ '' requires a non-empty public_key'')) (\<lambda>pem.
          (case triplea_fiat_new x name pem of
             Some v \<Rightarrow> Ok (PV_TripleAFiat v)
           | None \<Rightarrow> Err [''invalid PEM public key for Triple-A fiat provider '' @ quoted name]))
      else if kind = ''triplea-crypto'' then
        and_then (non_empty (pc_secret provider)
            (''triplea-crypto provider '' @ quoted name @ '' requires a non-empty secret (notify_secret)'')) (\<lambda>secret.
          Ok (PV_TripleACrypto (case pc_tolerance_seconds provider of
                 Some t \<Rightarrow> triplea_crypto_with_tolerance (duration_from_secs t) (triplea_crypto_new name secret)
               | None \<Rightarrow> triplea_crypto_new name secret)))
      else if kind = ''walapay'' then
        and_then (non_empty (pc_secret provider)
            (''walapay provider '' @ quoted name @ '' requires a non-empty secret (whsec_...)'')) (\<lambda>secret.
          (case walapay_new x name secret of
             Some v \<Rightarrow> Ok (PV_Walapay (case pc_tolerance_seconds provider of
                 Some t \<Rightarrow> walapay_with_tolerance (duration_from_secs t) v | None \<Rightarrow> v))
           | None \<Rightarrow> Err [''invalid Svix secret for Walapay provider '' @ quoted name @ '' (expected whsec_...)'']))
      else if kind = ''checkout'' then
        and_then (non_empty (pc_secret provider)
            (''checkout provider '' @ quoted name @ '' requires a non-empty secret'')) (\<lambda>secret.
          Ok (generic_verifier name secret ''Cko-Signature'' provider))
      else
        and_then (non_empty_secret name provider) (\<lambda>secret.
          Ok (generic_verifier name secret (''X-'' @ name @ ''-Signature'') provider)))"

definition with_context :: "string \<Rightarrow> 'a anyhow \<Rightarrow> 'a anyhow" where
  "with_context msg r = map_err (\<lambda>chain. msg # chain) r"

definition build_provider_verifiers ::
  "externals \<Rightarrow> (string \<times> provider_config) list \<Rightarrow> provider_verifier list anyhow" where
  "build_provider_verifiers x providers =
     collect_results
       (\<lambda>(name, provider). with_context (''provider '' @ quoted name) (build_one_verifier x name provider))
       (sort_key fst providers)"

section \<open>Which configurations are accepted\<close>

definition name_ok :: "string \<Rightarrow> bool" where
  "name_ok name \<longleftrightarrow>
     name \<noteq> [] \<and> length name \<le> 64
     \<and> list_all (\<lambda>c. is_ascii_alphanumeric c \<or> c = CHR ''_'' \<or> c = CHR ''-'') name"

definition section_ok :: "emitter_entry \<Rightarrow> bool" where
  "section_ok e \<longleftrightarrow>
     en_emitter_type e = ''channel''
     \<or> en_emitter_type e = ''kafka'' \<and> en_kafka e \<noteq> None
     \<or> en_emitter_type e = ''nats'' \<and> en_nats e \<noteq> None
     \<or> en_emitter_type e = ''sqs'' \<and> en_sqs e \<noteq> None
     \<or> en_emitter_type e = ''redis'' \<and> en_redis e \<noteq> None"

text \<open>A jitter passes when it is not a number, too: both comparisons of the check are then false.\<close>

definition jitter_ok :: "f64 \<Rightarrow> bool" where
  "jitter_ok j \<longleftrightarrow> (case j of Fin r \<Rightarrow> 0 \<le> r \<and> r \<le> 1 | NaN \<Rightarrow> True | _ \<Rightarrow> False)"

definition entry_ok :: "emitter_entry \<Rightarrow> bool" where
  "entry_ok e \<longleftrightarrow>
     name_ok (en_name e)
     \<and> en_concurrency e \<ge> 1 \<and> en_poll_interval_seconds e \<ge> 1
     \<and> jitter_ok (rpc_jitter (en_retry e)) \<and> rpc_max_attempts (en_retry e) \<ge> 1
     \<and> en_lease_duration_seconds e \<noteq> Some 0 \<and> section_ok e"

definition entries_ok :: "emitter_entry list \<Rightarrow> bool" where
  "entries_ok es \<longleftrightarrow> list_all entry_ok es \<and> distinct (map en_name es)"

definition chosen_emitters :: "hookbox_config \<Rightarrow> emitter_entry list" where
  "chosen_emitters c =
     (case hc_emitter c of
        None \<Rightarrow> hc_emitters c
      | Some legacy \<Rightarrow> [from_legacy legacy (hc_retry c)])"

definition config_ok :: "hookbox_config \<Rightarrow> bool" where
  "config_ok c \<longleftrightarrow> (hc_emitter c = None \<longleftrightarrow> hc_emitters c \<noteq> []) \<and> entries_ok (chosen_emitters c)"

lemma ascii_name_not_cont:
  "is_ascii_alphanumeric c \<or> c = CHR ''_'' \<or> c = CHR ''-'' \<Longrightarrow> \<not> cont_byte (byte c)"
  by (auto simp: is_ascii_alphanumeric_def is_digit_def cont_byte_def byte_def)

lemma chars_count_ascii:
  "list_all (\<lambda>c. is_ascii_alphanumeric c \<or> c = CHR ''_'' \<or> c = CHR ''-'') s \<Longrightarrow> chars_count s = length s"
  using ascii_name_not_cont by (induction s) (auto simp: chars_count_def)

lemma is_valid_emitter_name_iff: "is_valid_emitter_name name = name_ok name"
  using chars_count_ascii[of name]
  by (auto simp: is_valid_emitter_name_def name_ok_def Let_def Suc_le_eq)

lemma jitter_check_iff: "\<not> (f64_lt j (Fin 0) \<or> f64_lt (Fin 1) j) \<longleftrightarrow> jitter_ok j"
  by (cases j) (auto simp: jitter_ok_def)

lemma require_section_Ok: "require_section e kind s = Ok u \<longleftrightarrow> s \<noteq> None"
  by (simp add: require_section_def entry_msg_def)

lemma validate_entry_Ok: "validate_entry seen e = Ok u \<longleftrightarrow> entry_ok e \<and> en_name e \<notin> set seen"
proof -
  have "validate_entry seen e = Ok u \<longleftrightarrow>
      is_valid_emitter_name (en_name e) \<and> en_name e \<notin> set seen \<and> en_concurrency e \<noteq> 0
      \<and> en_poll_interval_seconds e \<noteq> 0
      \<and> \<not> (f64_lt (rpc_jitter (en_retry e)) (Fin 0) \<or> f64_lt (Fin 1) (rpc_jitter (en_retry e)))
      \<and> \<not> rpc_max_attempts (en_retry e) < 1 \<and> en_lease_duration_seconds e \<noteq> Some 0 \<and> section_ok e"
    by (simp add: validate_entry_def entry_msg_def require_section_Ok section_ok_def)
  then show ?thesis
    unfolding is_valid_emitter_name_iff jitter_check_iff entry_ok_def by auto
qed

lemma validate_entries_from_Ok:
  "validate_entries_from seen es = Ok () \<longleftrightarrow>
     list_all entry_ok es \<and> distinct (map en_name es) \<and> set (map en_name es) \<inter> set seen = {}"
proof (induction es arbitrary: seen)
  case (Cons e es)
  show ?case
  proof (cases "validate_entry seen e")
    case (Ok v)
    then show ?thesis using validate_entry_Ok[of seen e v] by (auto simp: Cons.IH)
  next
    case (Err err)
    then show ?thesis using validate_entry_Ok[of seen e "()"] by auto
  qed
qed simp

lemma validate_emitter_entries_Ok: "validate_emitter_entries es = Ok () \<longleftrightarrow> entries_ok es"
  by (simp add: validate_emitter_entries_def validate_entries_from_Ok entries_ok_def)

lemma normalize_legacy:
  assumes "hc_emitter c = Some l" and "hc_emitters c = []"
  shows "normalize c = and_then (validate_emitter_entries [from_legacy l (hc_retry c)])
      (\<lambda>_. Ok (c\<lparr>hc_emitters := [from_legacy l (hc_retry c)], hc_emitter := None\<rparr>,
              [''`[emitter]` is deprecated; migrate to `[[emitters]]`'']))"
  using assms by (simp add: normalize_def Let_def)

lemma normalize_listed:
  assumes "hc_emitter c = None" and "hc_emitters c \<noteq> []"
  shows "normalize c = and_then (validate_emitter_entries (hc_emitters c)) (\<lambda>_. Ok (c, []))"
  using assms by (cases "hc_emitters c") (simp_all add: normalize_def)

lemma validate_Ok_if: "entries_ok es \<Longrightarrow> validate_emitter_entries es = Ok ()"
  using validate_emitter_entries_Ok by blast

lemma normalize_ok:
  assumes "config_ok c"
  shows "normalize c = Ok (c\<lparr>hc_emitters := chosen_emitters c, hc_emitter := None\<rparr>,
     if hc_emitter c = None then [] else [''`[emitter]` is deprecated; migrate to `[[emitters]]`''])"
proof (cases "hc_emitter c")
  case None
  then have "hc_emitters c \<noteq> []" "entries_ok (hc_emitters c)"
    using assms by (simp_all add: config_ok_def chosen_emitters_def)
  moreover have "c\<lparr>hc_emitters := hc_emitters c, hc_emitter := None\<rparr> = c"
    using None by (cases c) simp
  ultimately show ?thesis
    using None by (simp add: normalize_listed validate_Ok_if chosen_emitters_def)
next
  case (Some l)
  then have "hc_emitters c = []" "entries_ok [from_legacy l (hc_retry c)]"
    using assms by (simp_all add: config_ok_def chosen_emitters_def)
  then show ?thesis
    using Some by (simp add: normalize_legacy[OF Some] validate_Ok_if chosen_emitters_def)
qed

lemma validate_entry_Err: "validate_entry seen e = Err err \<Longrightarrow> \<exists>msg. err = CE_Validation msg"
  by (auto simp: validate_entry_def entry_msg_def require_section_def split: if_splits)

lemma validate_entries_from_Err:
  "validate_entries_from seen es = Err err \<Longrightarrow> \<exists>msg. err = CE_Validation msg"
  by (induction seen es rule: validate_entries_from.induct)
    (auto split: result.splits dest: validate_entry_Err)

lemma validate_Err_if:
  assumes "\<not> entries_ok es" shows "\<exists>msg. validate_emitter_entries es = Err (CE_Validation msg)"
  using assms validate_emitter_entries_Ok[of es] validate_entries_from_Err[of "[]" es]
  by (cases "validate_emitter_entries es") (auto simp: validate_emitter_entries_def)

lemma normalize_err:
  assumes "\<not> config_ok c"
  shows "\<exists>msg. normalize c = Err (CE_Validation msg)"
proof (cases "hc_emitter c")
  case None
  then show ?thesis
    using assms validate_Err_if[of "hc_emitters c"] normalize_listed[OF None]
    by (cases "hc_emitters c = []") (auto simp: config_ok_def chosen_emitters_def normalize_def)
next
  case (Some l)
  then show ?thesis
    using assms validate_Err_if[of "[from_legacy l (hc_retry c)]"] normalize_legacy[OF Some]
    by (cases "hc_emitters c") (auto simp: config_ok_def chosen_emitters_def normalize_def)
qed

text \<open>C32. A configuration is accepted exactly when it has one of the two emitter sections and not both,
  and every emitter entry is valid: a name of 1 to 64 letters, digits, \<^verbatim>\<open>_\<close> and \<^verbatim>\<open>-\<close>, positive
  concurrency and poll interval, a jitter between 0 and 1 (or NaN, which slips through), at least one
  attempt, a positive lease, a known type with its section; and no two entries share a name. What
  is returned has the chosen entries, no legacy section, and everything else unchanged.\<close>

theorem normalize_accepts_exactly:
  "case normalize c of
     Ok (c', warnings) \<Rightarrow>
       config_ok c
       \<and> c' = c\<lparr>hc_emitters := chosen_emitters c, hc_emitter := None\<rparr>
       \<and> warnings = (if hc_emitter c = None then [] else [''`[emitter]` is deprecated; migrate to `[[emitters]]`''])
   | Err e \<Rightarrow> \<not> config_ok c \<and> (\<exists>msg. e = CE_Validation msg)"
proof (cases "config_ok c")
  case True
  then show ?thesis by (simp add: normalize_ok)
next
  case False
  then show ?thesis using normalize_err[of c] by auto
qed

text \<open>Normalization is idempotent and silent the second time, and what it returns is a list of
  valid entries under distinct names; the other sections are untouched.\<close>

lemma normalize_idempotent:
  assumes "normalize c = Ok (c', warnings)"
  shows "normalize c' = Ok (c', []) \<and> hc_emitter c' = None \<and> hc_emitters c' \<noteq> []
    \<and> entries_ok (hc_emitters c')
    \<and> (hc_server c', hc_database c', hc_providers c', hc_dedupe c', hc_admin c', hc_retry c')
      = (hc_server c, hc_database c, hc_providers c, hc_dedupe c, hc_admin c, hc_retry c)"
proof -
  have ok: "config_ok c"
    using assms normalize_err[of c] by auto
  then have c': "c' = c\<lparr>hc_emitters := chosen_emitters c, hc_emitter := None\<rparr>"
    using assms by (simp add: normalize_ok)
  have ne: "chosen_emitters c \<noteq> []"
    using ok by (auto simp: config_ok_def chosen_emitters_def split: option.splits)
  have "config_ok c'"
    using ok ne by (simp add: c' config_ok_def chosen_emitters_def)
  then have "normalize c' = Ok (c', [])"
    by (simp add: normalize_ok c' chosen_emitters_def)
  then show ?thesis using ok ne by (simp add: c' config_ok_def)
qed

definition config0 :: hookbox_config where
  "config0 =
     \<lparr>hc_server = server_config_default,
      hc_database = \<lparr>dc_url = ''postgres://localhost/hookbox'', dc_max_connections = default_max_connections\<rparr>,
      hc_providers = [(''stripe'', \<lparr>pc_verifier_type = ''stripe'', pc_secret = Some ''whsec'',
         pc_public_key = None, pc_header = None, pc_tolerance_seconds = Some 60\<rparr>)],
      hc_dedupe = dedupe_config_default, hc_admin = \<lparr>ac_bearer_token = Some ''token''\<rparr>,
      hc_retry = retry_config_default, hc_emitter = Some emitter_config_default, hc_emitters = []\<rparr>"

lemma config0_ok: "config_ok config0"
proof -
  have "jitter_ok (f64_round (1 / 5))"
    by code_simp
  then show ?thesis
    by (simp add: config_ok_def chosen_emitters_def config0_def entries_ok_def entry_ok_def from_legacy_def
        emitter_config_default_def default_emitter_type_def emitter_entry_default_def
        retry_policy_config_default_def retry_config_default_def default_retry_interval_def
        default_max_attempts_def default_concurrency_def section_ok_def name_ok_def
        is_ascii_alphanumeric_def is_digit_def byte_def)
qed

section \<open>What a provider section becomes\<close>

lemma non_empty_Ok: "non_empty field msg = Ok s \<longleftrightarrow> field = Some s \<and> s \<noteq> []"
  by (auto simp: non_empty_def split: option.splits)

lemma non_empty_secret_Ok: "non_empty_secret name p = Ok s \<longleftrightarrow> pc_secret p = Some s \<and> s \<noteq> []"
  by (simp add: non_empty_secret_def non_empty_Ok)

text \<open>What a section must hold to be used at all: the key for its scheme, not empty.\<close>

definition provider_key :: "provider_config \<Rightarrow> string option" where
  "provider_key p =
     (if pc_verifier_type p = ''triplea-fiat'' then pc_public_key p else pc_secret p)"

lemma walapay_new_name: "walapay_new x name secret = Some v \<Longrightarrow> wp_provider v = name"
  by (auto simp: walapay_new_def split: option.splits if_splits)

lemma adyen_new_name: "adyen_new x name secret = Some v \<Longrightarrow> ad_provider v = name"
  by (auto simp: adyen_new_def split: if_splits)

lemma triplea_fiat_new_name: "triplea_fiat_new x name pem = Some v \<Longrightarrow> tf_provider v = name"
  by (auto simp: triplea_fiat_new_def)

lemmas object_defs = generic_hmac_object_def bvnk_object_def adyen_object_def triplea_fiat_object_def
  stripe_object_def triplea_crypto_object_def walapay_object_def

lemmas verifier_new_defs = stripe_new_def stripe_with_tolerance_def triplea_crypto_new_def
  triplea_crypto_with_tolerance_def walapay_with_tolerance_def generic_verifier_def

lemma build_one_verifier_name:
  assumes "build_one_verifier x name p = Ok v"
  shows "v_provider_name (verifier_object x v) = name"
  using assms
  by (auto simp: build_one_verifier_def Let_def object_defs verifier_new_defs
      walapay_new_name adyen_new_name triplea_fiat_new_name
      elim!: and_then_OkE split: if_splits option.splits)

lemma build_one_verifier_key:
  assumes "build_one_verifier x name p = Ok v"
  shows "\<exists>s. provider_key p = Some s \<and> s \<noteq> []"
  using assms
  by (auto simp: build_one_verifier_def Let_def and_then_Ok_iff provider_key_def non_empty_Ok
      non_empty_secret_Ok split: if_splits)

lemma with_context_Ok: "with_context msg r = Ok a \<longleftrightarrow> r = Ok a"
  by (cases r) (simp_all add: with_context_def)

lemma build_provider_verifiers_Ok:
  "build_provider_verifiers x ps = Ok vs \<longleftrightarrow>
     list_all2 (\<lambda>np v. build_one_verifier x (fst np) (snd np) = Ok v) (sort_key fst ps) vs"
  by (simp add: build_provider_verifiers_def collect_results_Ok_iff with_context_Ok case_prod_beta)

end
