(* ===== verification/Emitters.thy ===== *)
theory Emitters
  imports Config
begin

text \<open>
  The emitters: \<^verbatim>\<open>crates/hookbox-emitter-kafka\<close>, \<^verbatim>\<open>-nats\<close>, \<^verbatim>\<open>-redis\<close>, \<^verbatim>\<open>-sqs\<close>, the channel and callback
  emitters of \<^verbatim>\<open>crates/hookbox/src/emitter.rs\<close>, and \<^verbatim>\<open>emitter_factory.rs\<close>. The broker clients are
  parameters: what each client call answers to the request it is given. The locale
  \<open>broker_emitter\<close> is what the dispatch worker relies on: an emitter that answers \<open>Ok\<close> has handed
  the whole event to its broker. It is interpreted on the four broker emitters.
\<close>

section \<open>Library calls\<close>

text \<open>\<^verbatim>\<open>n.to_string()\<close> of an unsigned integer.\<close>

fun dec :: "nat \<Rightarrow> string" where
  "dec n = (if n < 10 then [char_of (48 + n)] else dec (n div 10) @ [char_of (48 + n mod 10)])"

declare dec.simps [simp del]

definition contains :: "string \<Rightarrow> string \<Rightarrow> bool" where
  "contains pat s = list_ex (\<lambda>k. take (length pat) (drop k s) = pat) [0..<Suc (length s)]"

definition duration_from_millis :: "nat \<Rightarrow> duration" where
  "duration_from_millis ms = ms * 1000000"

definition duration_as_millis :: "duration \<Rightarrow> nat" where
  "duration_as_millis d = d div 1000000"

text \<open>\<^verbatim>\<open>tokio::time::timeout\<close>: the future's output, or the timer was first.\<close>

datatype 'a timed = Finished 'a | Elapsed

text \<open>What the code prints through: \<^verbatim>\<open>serde_json\<close> on a value, and \<^verbatim>\<open>chrono\<close>'s serialized form.\<close>

record printers =
  pr_json :: "json \<Rightarrow> (bytes, string) result"
  pr_datetime :: "timestamp \<Rightarrow> string"

text \<open>The derived \<^verbatim>\<open>Serialize\<close> of \<^verbatim>\<open>NormalizedEvent\<close>: the fields in their order, an absent one is null.\<close>

definition event_to_json :: "externals \<Rightarrow> printers \<Rightarrow> normalized_event \<Rightarrow> json" where
  "event_to_json x pr e = JObject
     [(''receipt_id'', JString (x_uuid_to_string x (rid_uuid (ne_receipt_id e)))),
      (''provider_name'', JString (ne_provider_name e)),
      (''event_type'', jopt JString (ne_event_type e)),
      (''external_reference'', jopt JString (ne_external_reference e)),
      (''parsed_payload'', jopt (\<lambda>v. v) (ne_parsed_payload e)),
      (''payload_hash'', JString (ne_payload_hash e)),
      (''received_at'', JString (pr_datetime pr (ne_received_at e))),
      (''metadata'', ne_metadata e)]"

definition encode_event :: "externals \<Rightarrow> printers \<Rightarrow> normalized_event \<Rightarrow> (bytes, emit_error) result" where
  "encode_event x pr e = map_err EE_Downstream (pr_json pr (event_to_json x pr e))"

section \<open>Broker clients\<close>

text \<open>A client handle is opaque.\<close>

type_synonym client = nat

record kafka_record =
  kr_topic :: string
  kr_key :: string
  kr_payload :: bytes

record xadd_command =
  xa_stream :: string
  xa_maxlen :: "nat option"
  xa_id :: string
  xa_fields :: "(string \<times> string) list"

record sqs_request =
  sr_queue_url :: string
  sr_body :: string
  sr_group_id :: "string option"
  sr_dedup_id :: "string option"

record brokers =
  bk_kafka_create :: "(string \<times> string) list \<Rightarrow> (client, string) result"
  bk_kafka_send :: "client \<Rightarrow> kafka_record \<Rightarrow> duration \<Rightarrow> (unit, string) result"
  bk_nats_connect :: "string \<Rightarrow> (client, string) result"
  bk_nats_publish :: "client \<Rightarrow> string \<Rightarrow> bytes \<Rightarrow> (unit, string) result"
  bk_redis_open :: "string \<Rightarrow> (client, string) result"
  bk_redis_connect :: "client \<Rightarrow> duration \<Rightarrow> (client, string) result timed"
  bk_redis_xadd :: "client \<Rightarrow> xadd_command \<Rightarrow> duration \<Rightarrow> (unit, string) result timed"
  bk_sqs_client :: "string option \<Rightarrow> string option \<Rightarrow> client"
  bk_sqs_send :: "client \<Rightarrow> sqs_request \<Rightarrow> duration \<Rightarrow> (unit, string) result timed"

section \<open>KafkaEmitter\<close>

record kafka_emitter =
  ke_producer :: client
  ke_topic :: string
  ke_timeout :: duration

definition kafka_new ::
  "brokers \<Rightarrow> string \<Rightarrow> string \<Rightarrow> string \<Rightarrow> string \<Rightarrow> nat \<Rightarrow> (kafka_emitter, emit_error) result" where
  "kafka_new bk servers topic client_id acks timeout_ms =
     and_then (map_err EE_Downstream (bk_kafka_create bk
         [(''bootstrap.servers'', servers), (''client.id'', client_id), (''acks'', acks),
          (''delivery.timeout.ms'', dec timeout_ms)]))
       (\<lambda>producer. Ok \<lparr>ke_producer = producer, ke_topic = topic,
                        ke_timeout = duration_from_millis timeout_ms\<rparr>)"

definition kafka_emit ::
  "externals \<Rightarrow> printers \<Rightarrow> brokers \<Rightarrow> kafka_emitter \<Rightarrow> normalized_event \<Rightarrow> (unit, emit_error) result" where
  "kafka_emit x pr bk k event =
     and_then (encode_event x pr event) (\<lambda>payload.
       map_err (\<lambda>e. let msg = ''kafka send failed: '' @ e in
                    if contains ''timed out'' e \<or> contains ''Timed out'' e
                    then EE_Timeout msg else EE_Downstream msg)
         (bk_kafka_send bk (ke_producer k)
           \<lparr>kr_topic = ke_topic k,
            kr_key = x_uuid_to_string x (rid_uuid (ne_receipt_id event)),
            kr_payload = payload\<rparr>
           (ke_timeout k)))"

section \<open>NatsEmitter\<close>

record nats_emitter =
  na_client :: client
  na_subject :: string

definition nats_new :: "brokers \<Rightarrow> string \<Rightarrow> string \<Rightarrow> (nats_emitter, emit_error) result" where
  "nats_new bk url subject =
     and_then (map_err EE_Downstream (bk_nats_connect bk url))
       (\<lambda>c. Ok \<lparr>na_client = c, na_subject = subject\<rparr>)"

definition nats_emit ::
  "externals \<Rightarrow> printers \<Rightarrow> brokers \<Rightarrow> nats_emitter \<Rightarrow> normalized_event \<Rightarrow> (unit, emit_error) result" where
  "nats_emit x pr bk n event =
     and_then (encode_event x pr event) (\<lambda>payload.
       map_err EE_Downstream (bk_nats_publish bk (na_client n) (na_subject n) payload))"

section \<open>RedisEmitter\<close>

record redis_emitter =
  re_conn :: client
  re_stream :: string
  re_maxlen :: "nat option"
  re_timeout :: duration

definition redis_new ::
  "brokers \<Rightarrow> string \<Rightarrow> string \<Rightarrow> nat option \<Rightarrow> nat \<Rightarrow> (redis_emitter, emit_error) result" where
  "redis_new bk url stream maxlen timeout_ms =
     (let timeout = duration_from_millis timeout_ms in
      and_then (map_err EE_Downstream (bk_redis_open bk url)) (\<lambda>c.
        (case bk_redis_connect bk c timeout of
           Finished (Ok conn) \<Rightarrow>
             Ok \<lparr>re_conn = conn, re_stream = stream, re_maxlen = maxlen, re_timeout = timeout\<rparr>
         | Finished (Err e) \<Rightarrow> Err (EE_Downstream e)
         | Elapsed \<Rightarrow> Err (EE_Timeout (''redis connect timed out after ''
                             @ dec (duration_as_millis timeout) @ ''ms'')))))"

text \<open>\<^verbatim>\<open>usize::try_from(cap)\<close> cannot fail on a 64-bit target.\<close>

definition redis_emit ::
  "externals \<Rightarrow> printers \<Rightarrow> brokers \<Rightarrow> redis_emitter \<Rightarrow> normalized_event \<Rightarrow> (unit, emit_error) result" where
  "redis_emit x pr bk r event =
     and_then (encode_event x pr event) (\<lambda>payload.
       (case bk_redis_xadd bk (re_conn r)
               \<lparr>xa_stream = re_stream r, xa_maxlen = re_maxlen r, xa_id = ''*'',
                xa_fields = [(''data'', payload)]\<rparr> (re_timeout r) of
          Finished (Ok _) \<Rightarrow> Ok ()
        | Finished (Err e) \<Rightarrow> Err (EE_Downstream (''redis xadd failed: '' @ e))
        | Elapsed \<Rightarrow> Err (EE_Timeout (''redis xadd timed out after ''
                            @ dec (duration_as_millis (re_timeout r)) @ ''ms''))))"

section \<open>SqsEmitter\<close>

definition SQS_TIMEOUT :: duration where
  "SQS_TIMEOUT = duration_from_secs 10"

record sqs_emitter =
  sq_client :: client
  sq_queue_url :: string
  sq_fifo :: bool

definition sqs_with_client :: "client \<Rightarrow> string \<Rightarrow> bool \<Rightarrow> sqs_emitter" where
  "sqs_with_client c queue_url fifo = \<lparr>sq_client = c, sq_queue_url = queue_url, sq_fifo = fifo\<rparr>"

definition sqs_new ::
  "brokers \<Rightarrow> string \<Rightarrow> string option \<Rightarrow> bool \<Rightarrow> string option \<Rightarrow> (sqs_emitter, emit_error) result" where
  "sqs_new bk queue_url region fifo endpoint_url =
     Ok \<lparr>sq_client = bk_sqs_client bk region endpoint_url, sq_queue_url = queue_url, sq_fifo = fifo\<rparr>"

definition sqs_message :: "externals \<Rightarrow> sqs_emitter \<Rightarrow> normalized_event \<Rightarrow> string \<Rightarrow> sqs_request" where
  "sqs_message x q event body =
     (let request = \<lparr>sr_queue_url = sq_queue_url q, sr_body = body, sr_group_id = None, sr_dedup_id = None\<rparr> in
      if sq_fifo q
      then request\<lparr>sr_group_id := Some (ne_provider_name event),
                   sr_dedup_id := Some (x_uuid_to_string x (rid_uuid (ne_receipt_id event)))\<rparr>
      else request)"

definition sqs_emit ::
  "externals \<Rightarrow> printers \<Rightarrow> brokers \<Rightarrow> sqs_emitter \<Rightarrow> normalized_event \<Rightarrow> (unit, emit_error) result" where
  "sqs_emit x pr bk q event =
     and_then (encode_event x pr event) (\<lambda>body.
       (case bk_sqs_send bk (sq_client q) (sqs_message x q event body) SQS_TIMEOUT of
          Finished (Ok _) \<Rightarrow> Ok ()
        | Finished (Err e) \<Rightarrow> Err (EE_Downstream (''sqs send failed: '' @ e))
        | Elapsed \<Rightarrow> Err (EE_Timeout ''sqs send timed out after 10s'')))"

section \<open>ChannelEmitter and CallbackEmitter\<close>

definition callback_emit ::
  "(normalized_event \<Rightarrow> (unit, emit_error) result) \<Rightarrow> normalized_event \<Rightarrow> (unit, emit_error) result" where
  "callback_emit handler event = handler event"

text \<open>A bounded channel: what was sent and not received yet, and whether its receiver lives.\<close>

record channel =
  ch_capacity :: nat
  ch_queue :: "normalized_event list"
  ch_receiver :: bool

text \<open>\<open>None\<close>: a channel without capacity panics.\<close>

definition channel_new :: "nat \<Rightarrow> channel option" where
  "channel_new buffer =
     (if buffer = 0 then None else Some \<lparr>ch_capacity = buffer, ch_queue = [], ch_receiver = True\<rparr>)"

text \<open>\<open>None\<close>: the channel is full and \<^verbatim>\<open>send\<close> waits.\<close>

definition channel_emit :: "normalized_event \<Rightarrow> channel \<Rightarrow> ((unit, emit_error) result \<times> channel) option" where
  "channel_emit event ch =
     (if \<not> ch_receiver ch then Some (Err (EE_Downstream ''channel closed''), ch)
      else if length (ch_queue ch) < ch_capacity ch
      then Some (Ok (), ch\<lparr>ch_queue := ch_queue ch @ [event]\<rparr>)
      else None)"

text \<open>One turn of the loop in \<^verbatim>\<open>drain_emitter\<close>: the event it logs; \<open>None\<close>: it waits.\<close>

definition drain_turn :: "channel \<Rightarrow> (normalized_event \<times> channel) option" where
  "drain_turn ch =
     (case ch_queue ch of [] \<Rightarrow> None | e # q \<Rightarrow> Some (e, ch\<lparr>ch_queue := q\<rparr>))"

section \<open>The factory\<close>

datatype emitter_obj =
    EO_Kafka kafka_emitter | EO_Nats nats_emitter | EO_Sqs sqs_emitter | EO_Redis redis_emitter

fun emitter_emit ::
  "externals \<Rightarrow> printers \<Rightarrow> brokers \<Rightarrow> emitter_obj \<Rightarrow> normalized_event \<Rightarrow> (unit, emit_error) result" where
  "emitter_emit x pr bk (EO_Kafka k) = kafka_emit x pr bk k"
| "emitter_emit x pr bk (EO_Nats n) = nats_emit x pr bk n"
| "emitter_emit x pr bk (EO_Sqs q) = sqs_emit x pr bk q"
| "emitter_emit x pr bk (EO_Redis r) = redis_emit x pr bk r"

datatype built_emitter = BE_Ready emitter_obj | BE_Channel channel

definition anyhow_emit :: "string \<Rightarrow> ('a, emit_error) result \<Rightarrow> 'a anyhow" where
  "anyhow_emit context_msg r = with_context context_msg (map_err (\<lambda>e. [emit_error_to_string e]) r)"

definition section_required :: "string \<Rightarrow> 'a option \<Rightarrow> 'a anyhow" where
  "section_required kind s =
     (case s of
        Some c \<Rightarrow> Ok c
      | None \<Rightarrow> Err [''[emitter.'' @ kind @ ''] section required when type = '' @ debug_str kind])"

definition build_emitter :: "brokers \<Rightarrow> emitter_config \<Rightarrow> built_emitter anyhow" where
  "build_emitter bk cfg =
     (let kind = ec_emitter_type cfg in
      if kind = ''kafka'' then
        and_then (section_required ''kafka'' (ec_kafka cfg)) (\<lambda>k.
        and_then (anyhow_emit ''failed to create Kafka emitter''
            (kafka_new bk (kc_brokers k) (kc_topic k) (kc_client_id k) (kc_acks k) (kc_timeout_ms k)))
          (\<lambda>e. Ok (BE_Ready (EO_Kafka e))))
      else if kind = ''nats'' then
        and_then (section_required ''nats'' (ec_nats cfg)) (\<lambda>n.
        and_then (anyhow_emit ''failed to create NATS emitter'' (nats_new bk (nc_url n) (nc_subject n)))
          (\<lambda>e. Ok (BE_Ready (EO_Nats e))))
      else if kind = ''sqs'' then
        and_then (section_required ''sqs'' (ec_sqs cfg)) (\<lambda>q.
        and_then (anyhow_emit ''failed to create SQS emitter''
            (sqs_new bk (qc_queue_url q) (qc_region q) (qc_fifo q) (qc_endpoint_url q)))
          (\<lambda>e. Ok (BE_Ready (EO_Sqs e))))
      else if kind = ''redis'' then
        and_then (section_required ''redis'' (ec_redis cfg)) (\<lambda>r.
        and_then (anyhow_emit ''failed to create Redis emitter''
            (redis_new bk (rdc_url r) (rdc_stream r) (rdc_maxlen r) (rdc_timeout_ms r)))
          (\<lambda>e. Ok (BE_Ready (EO_Redis e))))
      else if kind = ''channel'' then
        (case channel_new 1024 of
           Some ch \<Rightarrow> Ok (BE_Channel ch)
         | None \<Rightarrow> Err []) \<comment> \<open>not reached: the capacity is positive\<close>
      else Err [''unknown emitter type '' @ debug_str kind
                @ ''; valid values: kafka, nats, sqs, redis, channel''])"

section \<open>The contract of a broker emitter\<close>

text \<open>\<open>accepted e body\<close>: the client acknowledged the message for event \<open>e\<close> with this body;
  \<open>late e body\<close>: it reported, or the timer said, that it took too long.\<close>

locale broker_emitter =
  fixes encode :: "'e \<Rightarrow> (bytes, emit_error) result"
    and emit :: "'e \<Rightarrow> (unit, emit_error) result"
    and accepted :: "'e \<Rightarrow> bytes \<Rightarrow> bool"
    and late :: "'e \<Rightarrow> bytes \<Rightarrow> bool"
  assumes unencodable: "encode e = Err err \<Longrightarrow> emit e = Err err"
    and encode_error: "encode e \<noteq> Err (EE_Timeout m)"
    and acknowledged: "encode e = Ok body \<Longrightarrow> emit e = Ok () \<longleftrightarrow> accepted e body"
    and timed_out: "encode e = Ok body \<Longrightarrow> (\<exists>m. emit e = Err (EE_Timeout m)) \<longleftrightarrow> late e body"
begin

lemma emit_outcome:
  "(emit e = Ok () \<longleftrightarrow> (\<exists>body. encode e = Ok body \<and> accepted e body))
   \<and> ((\<exists>m. emit e = Err (EE_Timeout m)) \<longleftrightarrow> (\<exists>body. encode e = Ok body \<and> late e body))"
proof (cases "encode e")
  case (Ok body)
  then show ?thesis using acknowledged timed_out by auto
next
  case (Err err)
  then show ?thesis using unencodable[OF Err] encode_error[of e] by auto
qed

end

definition kafka_late_text :: "string \<Rightarrow> bool" where
  "kafka_late_text e \<longleftrightarrow> contains ''timed out'' e \<or> contains ''Timed out'' e"

fun accepted_by :: "externals \<Rightarrow> brokers \<Rightarrow> emitter_obj \<Rightarrow> normalized_event \<Rightarrow> bytes \<Rightarrow> bool" where
  "accepted_by x bk (EO_Kafka k) e body \<longleftrightarrow>
     bk_kafka_send bk (ke_producer k) \<lparr>kr_topic = ke_topic k,
       kr_key = x_uuid_to_string x (rid_uuid (ne_receipt_id e)), kr_payload = body\<rparr> (ke_timeout k) = Ok ()"
| "accepted_by x bk (EO_Nats n) e body \<longleftrightarrow>
     bk_nats_publish bk (na_client n) (na_subject n) body = Ok ()"
| "accepted_by x bk (EO_Sqs q) e body \<longleftrightarrow>
     bk_sqs_send bk (sq_client q) (sqs_message x q e body) SQS_TIMEOUT = Finished (Ok ())"
| "accepted_by x bk (EO_Redis r) e body \<longleftrightarrow>
     bk_redis_xadd bk (re_conn r) \<lparr>xa_stream = re_stream r, xa_maxlen = re_maxlen r, xa_id = ''*'',
       xa_fields = [(''data'', body)]\<rparr> (re_timeout r) = Finished (Ok ())"

fun late_by :: "externals \<Rightarrow> brokers \<Rightarrow> emitter_obj \<Rightarrow> normalized_event \<Rightarrow> bytes \<Rightarrow> bool" where
  "late_by x bk (EO_Kafka k) e body \<longleftrightarrow>
     (case bk_kafka_send bk (ke_producer k) \<lparr>kr_topic = ke_topic k,
         kr_key = x_uuid_to_string x (rid_uuid (ne_receipt_id e)), kr_payload = body\<rparr> (ke_timeout k) of
        Ok _ \<Rightarrow> False | Err t \<Rightarrow> kafka_late_text t)"
| "late_by x bk (EO_Nats n) e body \<longleftrightarrow> False"
| "late_by x bk (EO_Sqs q) e body \<longleftrightarrow>
     bk_sqs_send bk (sq_client q) (sqs_message x q e body) SQS_TIMEOUT = Elapsed"
| "late_by x bk (EO_Redis r) e body \<longleftrightarrow>
     bk_redis_xadd bk (re_conn r) \<lparr>xa_stream = re_stream r, xa_maxlen = re_maxlen r, xa_id = ''*'',
       xa_fields = [(''data'', body)]\<rparr> (re_timeout r) = Elapsed"

lemma encode_event_error: "encode_event x pr e \<noteq> Err (EE_Timeout m)"
  by (cases "pr_json pr (event_to_json x pr e)") (simp_all add: encode_event_def)

lemmas emit_defs = kafka_emit_def nats_emit_def sqs_emit_def redis_emit_def

interpretation handover: broker_emitter "encode_event x pr" "emitter_emit x pr bk em"
  "accepted_by x bk em" "late_by x bk em"
proof (unfold_locales, goal_cases)
  case (1 e err)
  then show ?case by (cases em) (simp_all add: emit_defs)
next
  case (2 e m)
  show ?case by (rule encode_event_error)
next
  case (3 e body)
  then show ?case
    by (cases em) (auto simp: emit_defs Let_def elim: map_err.elims split: result.splits timed.splits)
next
  case (4 e body)
  then show ?case
    by (cases em) (auto simp: emit_defs Let_def kafka_late_text_def elim!: map_err.elims
        split: result.splits timed.splits)
qed

section \<open>What a message says about its event\<close>

text \<open>A payload that is JSON null and an absent payload print alike.\<close>

definition payload_view :: "json option \<Rightarrow> json option" where
  "payload_view p = (if p = Some JNull then None else p)"

definition event_view :: "normalized_event \<Rightarrow> normalized_event" where
  "event_view e = e\<lparr>ne_parsed_payload := payload_view (ne_parsed_payload e)\<rparr>"

lemma jopt_JString_eq: "jopt JString a = jopt JString b \<longleftrightarrow> a = b"
  by (cases a; cases b) (simp_all add: jopt_def)

lemma jopt_id_eq: "jopt (\<lambda>v. v) a = jopt (\<lambda>v. v) b \<longleftrightarrow> payload_view a = payload_view b"
  by (cases a; cases b) (auto simp: jopt_def payload_view_def)

lemma receiptid_eq: "rid_uuid i = rid_uuid j \<longleftrightarrow> i = j"
  by (cases i; cases j) simp

lemma event_view_eq:
  "event_view e = event_view e' \<longleftrightarrow>
     ne_receipt_id e = ne_receipt_id e' \<and> ne_provider_name e = ne_provider_name e'
     \<and> ne_event_type e = ne_event_type e' \<and> ne_external_reference e = ne_external_reference e'
     \<and> payload_view (ne_parsed_payload e) = payload_view (ne_parsed_payload e')
     \<and> ne_payload_hash e = ne_payload_hash e' \<and> ne_received_at e = ne_received_at e'
     \<and> ne_metadata e = ne_metadata e'"
  by (cases e; cases e') (auto simp: event_view_def)

lemma event_to_json_eq:
  assumes "inj (x_uuid_to_string x)" and "inj (pr_datetime pr)"
  shows "event_to_json x pr e = event_to_json x pr e' \<longleftrightarrow> event_view e = event_view e'"
  unfolding event_view_eq
  by (simp add: event_to_json_def jopt_JString_eq jopt_id_eq inj_eq[OF assms(1)] inj_eq[OF assms(2)]
      receiptid_eq)

text \<open>C34. Provided that UUIDs, timestamps and JSON values print injectively (as their crates document),
  the message body determines the event, except that a null payload and a missing one print alike.
  On a FIFO queue the deduplication id of a message is that of its receipt: every retry of a
  receipt is sent under one id, different receipts under different ids, and events share a message
  group exactly when they share the provider; a standard queue gets neither.\<close>

theorem messages_identify_events:
  assumes "inj (x_uuid_to_string x)" and "inj (pr_datetime pr)"
    and json: "\<And>j j' b. pr_json pr j = Ok b \<Longrightarrow> pr_json pr j' = Ok b \<Longrightarrow> j = j'"
    and body: "encode_event x pr e = Ok body" "encode_event x pr e' = Ok body'"
  shows "(body = body' \<longleftrightarrow> event_view e = event_view e')
    \<and> (let m = sqs_message x q e body; m' = sqs_message x q e' body' in
       if sq_fifo q
       then (sr_dedup_id m = sr_dedup_id m' \<longleftrightarrow> ne_receipt_id e = ne_receipt_id e')
            \<and> (sr_group_id m = sr_group_id m' \<longleftrightarrow> ne_provider_name e = ne_provider_name e')
       else sr_dedup_id m = None \<and> sr_group_id m = None)"
proof -
  have printed: "pr_json pr (event_to_json x pr e) = Ok body" "pr_json pr (event_to_json x pr e') = Ok body'"
    using body by (auto simp: encode_event_def elim: map_err.elims)
  have "body = body' \<longleftrightarrow> event_to_json x pr e = event_to_json x pr e'"
    using printed json by auto
  then have "body = body' \<longleftrightarrow> event_view e = event_view e'"
    by (simp add: event_to_json_eq[OF assms(1,2)])
  then show ?thesis
    by (simp add: sqs_message_def Let_def inj_eq[OF assms(1)] receiptid_eq)
qed

text \<open>Injective printers, and two events of one receipt.\<close>

definition unary :: "int \<Rightarrow> string" where
  "unary t = (if t < 0 then CHR ''-'' # replicate (nat (- t)) CHR ''1'' else replicate (nat t) CHR ''1'')"

definition event0 :: "uuid \<Rightarrow> json option \<Rightarrow> normalized_event" where
  "event0 u payload = \<lparr>ne_receipt_id = ReceiptId u, ne_provider_name = ''p'', ne_event_type = None,
     ne_external_reference = None, ne_parsed_payload = payload, ne_payload_hash = ''h'',
     ne_received_at = 5, ne_metadata = JObject []\<rparr>"

definition ext_unary :: externals where
  "ext_unary = ext0\<lparr>x_uuid_to_string := (\<lambda>u. unary (int (unat u)))\<rparr>"

definition printers0 :: printers where
  "printers0 = \<lparr>pr_json = (\<lambda>j.
       if j = event_to_json ext_unary \<lparr>pr_json = (\<lambda>_. Err []), pr_datetime = unary\<rparr> (event0 1 None) then Ok ''first''
       else Err ''unsupported''),
     pr_datetime = unary\<rparr>"

lemma inj_unary: "inj unary"
proof (rule injI)
  fix s t :: int
  assume "unary s = unary t"
  then show "s = t"
    by (cases "s < 0"; cases "t < 0"; cases "nat s"; cases "nat t")
      (auto simp: unary_def dest: arg_cong[where f = length])
qed

lemma inj_uuid_unary: "inj (x_uuid_to_string ext_unary)"
  by (rule injI) (simp add: ext_unary_def inj_eq[OF inj_unary] word_uint_eqI)

theorem messages_identify_events_witness:
  "encode_event ext_unary printers0 (event0 1 None) = Ok ''first''
   \<and> encode_event ext_unary printers0 (event0 1 (Some JNull)) = Ok ''first''
   \<and> event_view (event0 1 None) = event_view (event0 1 (Some JNull))
   \<and> sr_dedup_id (sqs_message ext_unary \<lparr>sq_client = 0, sq_queue_url = ''q'', sq_fifo = True\<rparr> (event0 1 None) ''first'')
     = sr_dedup_id (sqs_message ext_unary \<lparr>sq_client = 0, sq_queue_url = ''q'', sq_fifo = True\<rparr> (event0 1 (Some JNull)) ''first'')"
proof -
  have b: "encode_event ext_unary printers0 (event0 1 None) = Ok ''first''"
    "encode_event ext_unary printers0 (event0 1 (Some JNull)) = Ok ''first''"
    by (simp_all add: encode_event_def printers0_def event_to_json_def event0_def jopt_def)
  have "inj (pr_datetime printers0)"
    by (simp add: printers0_def inj_unary)
  moreover have "j = j'" if "pr_json printers0 j = Ok c" "pr_json printers0 j' = Ok c" for j j' c
    using that by (auto simp: printers0_def split: if_splits)
  ultimately show ?thesis
    using b messages_identify_events[OF inj_uuid_unary _ _ b,
        of "\<lparr>sq_client = 0, sq_queue_url = ''q'', sq_fifo = True\<rparr>"]
    by (simp add: event0_def Let_def)
qed

section \<open>The channel\<close>

text \<open>Any interleaving of emits and drain turns; a send that has to wait is retried later, so it
  does nothing here.\<close>

datatype channel_op = CO_Emit normalized_event | CO_Drain

fun channel_step :: "channel_op \<Rightarrow> normalized_event list \<times> normalized_event list \<times> channel
    \<Rightarrow> normalized_event list \<times> normalized_event list \<times> channel" where
  "channel_step (CO_Emit e) (sent, logged, ch) =
     (case channel_emit e ch of
        Some (Ok _, ch') \<Rightarrow> (sent @ [e], logged, ch')
      | Some (Err _, ch') \<Rightarrow> (sent, logged, ch')
      | None \<Rightarrow> (sent, logged, ch))"
| "channel_step CO_Drain (sent, logged, ch) =
     (case drain_turn ch of Some (e, ch') \<Rightarrow> (sent, logged @ [e], ch') | None \<Rightarrow> (sent, logged, ch))"

lemma channel_step_fifo:
  assumes "sent = logged @ ch_queue ch" and "length (ch_queue ch) \<le> ch_capacity ch"
    and "channel_step a (sent, logged, ch) = (sent', logged', ch')"
  shows "sent' = logged' @ ch_queue ch' \<and> length (ch_queue ch') \<le> ch_capacity ch'"
  using assms
  by (cases a) (auto simp: channel_emit_def drain_turn_def split: if_splits list.splits option.splits)

lemma channel_fifo:
  assumes "fold channel_step ops ([], [], ch) = (sent, logged, ch')" and "channel_new n = Some ch"
  shows "sent = logged @ ch_queue ch' \<and> length (ch_queue ch') \<le> ch_capacity ch'"
proof -
  have run: "sent = logged @ ch_queue ch' \<and> length (ch_queue ch') \<le> ch_capacity ch'"
    if "fold channel_step ops (s0, l0, c0) = (sent, logged, ch')"
      "s0 = l0 @ ch_queue c0" "length (ch_queue c0) \<le> ch_capacity c0" for s0 l0 c0
    using that
  proof (induction ops arbitrary: s0 l0 c0)
    case (Cons a ops)
    then show ?case
      by (metis channel_step_fifo fold_simps(2) prod_cases3)
  qed simp
  show ?thesis
    using assms(2) by (intro run[OF assms(1)]) (auto simp: channel_new_def split: if_splits)
qed

end
