(* ===== verification/Serve.thy ===== *)
theory Serve
  imports Emitters
begin

text \<open>
  The boot and shutdown sequence of \<^verbatim>\<open>crates/hookbox-server/src/serve.rs\<close>: the pipeline built from the
  configuration, one dispatch worker per emitter entry, the supervision of worker tasks, and the
  drain at shutdown. The database connection, the migration and the HTTP server are parameters: what
  each answers. A panic is \<open>None\<close>. Shown: every configured provider is served behind its own
  verifier; a valid configuration gets exactly one worker per entry, and a failed start leaves none
  behind; a worker's panic is never silent.
\<close>

definition DEFAULT_LEASE_DURATION :: duration where
  "DEFAULT_LEASE_DURATION = duration_from_secs 30"

section \<open>The pipeline\<close>

definition build_pipeline ::
  "externals \<Rightarrow> io \<Rightarrow> hookbox_config \<Rightarrow> (world pipeline \<times> recent_dedupe) anyhow option" where
  "build_pipeline x out config =
     (case recent_new (ddc_lru_capacity (hc_dedupe config)) of
        None \<Rightarrow> None
      | Some lru \<Rightarrow>
          (let emitter_names = map en_name (hc_emitters config);
               builder = builder_emitter_names emitter_names
                 (builder_dedupe (layered_check recent_check (storage_dedupe_check out))
                    (layered_record recent_record storage_dedupe_record)
                    (builder_storage pg_store pipeline_builder)) in
           (case build_provider_verifiers x (hc_providers config) of
              Err e \<Rightarrow> Some (Err e)
            | Ok verifiers \<Rightarrow>
                map_option (\<lambda>p. Ok (p, lru))
                  (builder_build (fold (\<lambda>v. verifier_boxed (verifier_object x v)) verifiers builder)))))"

section \<open>Emitter workers\<close>

text \<open>A spawned task: a supervised worker with its emitter, or the drain of a channel.\<close>

datatype task = T_Worker emitter_worker built_emitter | T_Drain channel

record boot =
  bo_health :: "(string \<times> emitter_health) list"
  bo_handles :: "(string \<times> task) list"

definition build_emitter_for_entry ::
  "brokers \<Rightarrow> emitter_entry \<Rightarrow> (built_emitter \<times> task option) anyhow" where
  "build_emitter_for_entry bk entry =
     and_then (build_emitter bk (to_emitter_config entry)) (\<lambda>built.
       (case built of
          BE_Ready e \<Rightarrow> Ok (BE_Ready e, None)
        | BE_Channel ch \<Rightarrow> Ok (BE_Channel ch, Some (T_Drain ch))))"

definition worker_of_entry :: "emitter_entry \<Rightarrow> emitter_worker" where
  "worker_of_entry entry =
     \<lparr>ew_name = en_name entry,
      ew_policy = into_policy (en_retry entry),
      ew_concurrency = en_concurrency entry,
      ew_poll_interval = duration_from_secs (en_poll_interval_seconds entry),
      ew_lease_duration =
        (case en_lease_duration_seconds entry of
           None \<Rightarrow> DEFAULT_LEASE_DURATION
         | Some s \<Rightarrow> duration_from_secs s)\<rparr>"

definition spawn_one :: "emitter_entry \<Rightarrow> built_emitter \<times> task option \<Rightarrow> boot \<Rightarrow> boot" where
  "spawn_one entry built b =
     b\<lparr>bo_health := bt_insert (en_name entry) emitter_health_default (bo_health b),
       bo_handles := bo_handles b
         @ (case snd built of None \<Rightarrow> [] | Some t \<Rightarrow> [(en_name entry @ ''-drain'', t)])
         @ [(en_name entry, T_Worker (worker_of_entry entry) (fst built))]\<rparr>"

text \<open>The answer, and the handles that are told to shut down and awaited because a later entry
  failed.\<close>

fun spawn_loop ::
  "brokers \<Rightarrow> emitter_entry list \<Rightarrow> boot \<Rightarrow> boot anyhow \<times> (string \<times> task) list" where
  "spawn_loop bk [] b = (Ok b, [])"
| "spawn_loop bk (entry # entries) b =
     (case build_emitter_for_entry bk entry of
        Err e \<Rightarrow> (Err e, bo_handles b)
      | Ok built \<Rightarrow> spawn_loop bk entries (spawn_one entry built b))"

definition spawn_emitter_workers ::
  "brokers \<Rightarrow> hookbox_config \<Rightarrow> boot anyhow \<times> (string \<times> task) list" where
  "spawn_emitter_workers bk config = spawn_loop bk (hc_emitters config) \<lparr>bo_health = [], bo_handles = []\<rparr>"

section \<open>Supervision and drain\<close>

text \<open>How an awaited task ended: it returned, it panicked, or it was cancelled.\<close>

datatype task_end = TE_Returned | TE_Panicked | TE_Cancelled

definition u32_saturating_add :: "nat \<Rightarrow> nat \<Rightarrow> nat" where
  "u32_saturating_add a b = min (2 ^ 32 - 1) (a + b)"

text \<open>How the supervising task itself ends, and the health cell it leaves.\<close>

definition supervise_worker :: "timestamp \<Rightarrow> task_end \<Rightarrow> emitter_health \<Rightarrow> task_end \<times> emitter_health" where
  "supervise_worker now inner previous =
     (let degraded = \<lparr>last_success_at = last_success_at previous,
            last_failure_at = Some now,
            consecutive_failures = u32_saturating_add (consecutive_failures previous) 1,
            eh_status = Unhealthy,
            dlq_depth = dlq_depth previous,
            pending_count = pending_count previous\<rparr> in
      (case inner of
         TE_Returned \<Rightarrow> (TE_Returned, previous)
       | TE_Panicked \<Rightarrow> (TE_Panicked, degraded)
       | TE_Cancelled \<Rightarrow> (TE_Returned, degraded)))"

definition debug_strings :: "string list \<Rightarrow> string" where
  "debug_strings xs = ''['' @ join '', '' (map debug_str xs) @ '']''"

definition drain_worker_handles :: "(string \<times> task_end) list \<Rightarrow> unit anyhow" where
  "drain_worker_handles ends =
     (let panicked = map fst (filter (\<lambda>(_, e). e \<noteq> TE_Returned) ends) in
      if panicked = [] then Ok ()
      else Err [''shutdown completed but '' @ dec (length panicked) @ '' emitter task(s) panicked: ''
                @ debug_strings panicked])"

section \<open>serve\_inner\<close>

record serve_env =
  sv_connect :: "unit anyhow"
  sv_migrate :: "unit anyhow"
  sv_serve :: "unit anyhow"
  sv_ends :: "(string \<times> task) list \<Rightarrow> (string \<times> task_end) list"

definition serve_inner ::
  "externals \<Rightarrow> io \<Rightarrow> brokers \<Rightarrow> serve_env \<Rightarrow> hookbox_config \<Rightarrow> unit anyhow option" where
  "serve_inner x out bk env config =
     (case validate_retry_config (hc_retry config) of Err e \<Rightarrow> Some (Err e) | Ok _ \<Rightarrow>
     (case with_context ''failed to connect to database'' (sv_connect env) of Err e \<Rightarrow> Some (Err e) | Ok _ \<Rightarrow>
     (case with_context ''database migration failed'' (sv_migrate env) of Err e \<Rightarrow> Some (Err e) | Ok _ \<Rightarrow>
     (case build_pipeline x out config of
        None \<Rightarrow> None
      | Some (Err e) \<Rightarrow> Some (Err e)
      | Some (Ok (p, lru)) \<Rightarrow>
     (case spawn_emitter_workers bk config of
        (Err e, _) \<Rightarrow> Some (Err e)
      | (Ok b, _) \<Rightarrow>
          (let serve_result = with_context ''server encountered a fatal error'' (sv_serve env);
               drain_result = drain_worker_handles (sv_ends env (bo_handles b)) in
           Some (and_then serve_result (\<lambda>_. drain_result))))))))"

section \<open>The verifiers of a built pipeline\<close>

lemma verifiers_after_boxed:
  "b_verifiers (fold (\<lambda>v. verifier_boxed (verifier_object x v)) vs b) =
     fold (\<lambda>v. AList.update (v_provider_name (verifier_object x v)) (verifier_object x v)) vs (b_verifiers b)"
  by (induction vs arbitrary: b) (simp_all add: verifier_boxed_def)

lemma parts_after_boxed:
  "b_storage (fold (\<lambda>v. verifier_boxed (verifier_object x v)) vs b) = b_storage b"
  "b_dedupe (fold (\<lambda>v. verifier_boxed (verifier_object x v)) vs b) = b_dedupe b"
  "b_emitter_names (fold (\<lambda>v. verifier_boxed (verifier_object x v)) vs b) = b_emitter_names b"
  by (induction vs arbitrary: b) (simp_all add: verifier_boxed_def)

lemma build_pipeline_eq:
  "build_pipeline x out config =
     (case recent_new (ddc_lru_capacity (hc_dedupe config)) of
        None \<Rightarrow> None
      | Some lru \<Rightarrow>
          Some (and_then (build_provider_verifiers x (hc_providers config)) (\<lambda>vs.
            Ok (server_pipeline out (map en_name (hc_emitters config))
                  (fold (\<lambda>v. AList.update (v_provider_name (verifier_object x v)) (verifier_object x v)) vs []),
                lru))))"
  by (simp add: build_pipeline_def Let_def builder_build_def parts_after_boxed verifiers_after_boxed
      builder_emitter_names_def builder_dedupe_def builder_storage_def pipeline_builder_def
      server_pipeline_def split: option.split result.split)

text \<open>A configured capacity of zero passes normalization, which never looks at it, and panics here.\<close>

lemma lru_capacity_zero_panics: "build_pipeline x out config = None \<longleftrightarrow> ddc_lru_capacity (hc_dedupe config) = 0"
  by (simp add: build_pipeline_eq recent_new_def)

lemma map_of_registered:
  assumes "list_all2 (\<lambda>np v. build_one_verifier x (fst np) (snd np) = Ok v) nps vs"
    and "distinct (map fst nps)"
  shows "map_of (fold (\<lambda>v. AList.update (v_provider_name (verifier_object x v)) (verifier_object x v)) vs m) name =
     (case map_of nps name of
        None \<Rightarrow> map_of m name
      | Some pc \<Rightarrow> (case build_one_verifier x name pc of Ok v \<Rightarrow> Some (verifier_object x v) | Err _ \<Rightarrow> None))"
  using assms
proof (induction arbitrary: m rule: list_all2_induct)
  case (Cons np nps v vs)
  then have v: "build_one_verifier x (fst np) (snd np) = Ok v" "map_of nps (fst np) = None"
    by (auto simp: map_of_eq_None_iff)
  show ?case
    using Cons v build_one_verifier_name[OF v(1)]
    by (cases np) (auto simp: update_conv' split: option.split)
qed simp

lemma map_of_sort_key_fst:
  assumes "distinct (map fst (ps :: (string \<times> 'a) list))"
  shows "map_of (sort_key fst ps) = map_of ps"
  using assms by (intro map_of_inject_set[THEN iffD2]) (simp_all add: distinct_map)

lemma built_verifiers:
  assumes "build_pipeline x out config = Some (Ok (p, lru))" and "distinct (map fst (hc_providers config))"
  shows "map_of (p_verifiers p) name =
     (case map_of (hc_providers config) name of
        None \<Rightarrow> None
      | Some pc \<Rightarrow> (case build_one_verifier x name pc of Ok v \<Rightarrow> Some (verifier_object x v) | Err _ \<Rightarrow> None))"
proof -
  obtain vs where vs: "build_provider_verifiers x (hc_providers config) = Ok vs"
    "p_verifiers p = fold (\<lambda>v. AList.update (v_provider_name (verifier_object x v)) (verifier_object x v)) vs []"
    using assms(1)
    by (auto simp: build_pipeline_eq server_pipeline_def split: option.splits elim!: and_then_OkE)
  have "distinct (map fst (sort_key fst (hc_providers config)))"
    using assms(2) by (simp add: distinct_map)
  from map_of_registered[OF vs(1)[unfolded build_provider_verifiers_Ok] this] show ?thesis
    by (simp add: vs(2) map_of_sort_key_fst[OF assms(2)] cong: option.case_cong)
qed

lemma built_pipeline:
  assumes "build_pipeline x out config = Some (Ok (p, lru))"
  shows "p = server_pipeline out (map en_name (hc_emitters config)) (p_verifiers p)"
    and "recent_new (ddc_lru_capacity (hc_dedupe config)) = Some lru"
    and "\<exists>vs. build_provider_verifiers x (hc_providers config) = Ok vs"
  using assms
  by (auto simp: build_pipeline_eq server_pipeline_def split: option.splits elim!: and_then_OkE)

lemma configured_builds:
  assumes "build_pipeline x out config = Some (Ok (p, lru))"
    and "map_of (hc_providers config) name = Some pc"
  shows "\<exists>v. build_one_verifier x name pc = Ok v"
proof -
  obtain vs where "build_provider_verifiers x (hc_providers config) = Ok vs"
    using built_pipeline(3)[OF assms(1)] by blast
  moreover have "(name, pc) \<in> set (sort_key fst (hc_providers config))"
    using map_of_SomeD[OF assms(2)] by simp
  ultimately show ?thesis
    unfolding build_provider_verifiers_Ok using list_all2_image by fastforce
qed

lemma registered_is_named:
  assumes "build_pipeline x out config = Some (Ok (p, lru))"
    and "distinct (map fst (hc_providers config))"
    and "map_of (hc_providers config) name = Some pc"
  shows "\<exists>v. build_one_verifier x name pc = Ok v \<and> map_of (p_verifiers p) name = Some (verifier_object x v)"
  using configured_builds[OF assms(1,3)] built_verifiers[OF assms(1,2), of name] assms(3) by auto

section \<open>Properties\<close>

text \<open>C5. No configured provider is served unverified. When the server's pipeline is built, every
  section under \<^verbatim>\<open>[providers]\<close> has a non-empty key and stands behind the verifier built from it, and a
  webhook for that provider whose signature does not meet the verifier's acceptance condition is
  answered \<^verbatim>\<open>VerificationFailed\<close>, with cache and tables unchanged. A provider without a section has no
  verifier.\<close>

theorem configured_providers_are_verified:
  assumes "build_pipeline x out config = Some (Ok (p, lru))"
    and "distinct (map fst (hc_providers config))"
  shows "case map_of (hc_providers config) name of
      None \<Rightarrow> map_of (p_verifiers p) name = None
    | Some pc \<Rightarrow> \<exists>v key. build_one_verifier x name pc = Ok v \<and> v_provider_name (verifier_object x v) = name
        \<and> provider_key pc = Some key \<and> key \<noteq> []
        \<and> (verifier_accepts x v (ie_clock env) hs body
           \<or> (\<exists>reason ms. ingest x p env name hs body w = (Ok (IR_VerificationFailed reason), ms, w)))"
proof (cases "map_of (hc_providers config) name")
  case None
  then show ?thesis using built_verifiers[OF assms, of name] by simp
next
  case (Some pc)
  obtain v where v: "build_one_verifier x name pc = Ok v" "map_of (p_verifiers p) name = Some (verifier_object x v)"
    using registered_is_named[OF assms Some] by blast
  then show ?thesis
    using Some build_one_verifier_name[OF v(1)] build_one_verifier_key[OF v(1)]
      scheme.not_accepted_no_trace[OF v(2), of env hs body x w] by auto
qed

lemma config0_pipeline:
  "\<exists>p lru. build_pipeline ext0 IO_Ok config0 = Some (Ok (p, lru))"
  by (simp add: build_pipeline_eq config0_def recent_new_def dedupe_config_default_def
      default_lru_capacity_def build_provider_verifiers_def with_context_def build_one_verifier_def
      non_empty_secret_def non_empty_def)

theorem configured_providers_are_verified_witness:
  "\<exists>p lru reason ms. build_pipeline ext0 IO_Ok config0 = Some (Ok (p, lru))
     \<and> ingest ext0 p (ienv0 1 10) ''stripe'' [] ''{}'' world0 = (Ok (IR_VerificationFailed reason), ms, world0)"
proof -
  obtain p lru where p: "build_pipeline ext0 IO_Ok config0 = Some (Ok (p, lru))"
    using config0_pipeline by blast
  have "\<not> verifier_accepts ext0 v (ie_clock (ienv0 1 10)) [] ''{}''"
    if "build_one_verifier ext0 ''stripe'' (snd (hd (hc_providers config0))) = Ok v" for v
    using that by (auto simp: config0_def build_one_verifier_def non_empty_secret_def non_empty_def
        timestamped_ok_def header_str_def header_get_def)
  then show ?thesis
    using p configured_providers_are_verified[OF p, of "''stripe''" "ienv0 1 10" "[]" "''{}''" world0]
    by (auto simp: config0_def)
qed

section \<open>The workers of a boot\<close>

definition handles_of :: "brokers \<Rightarrow> emitter_entry \<Rightarrow> (string \<times> task) list" where
  "handles_of bk entry =
     (case build_emitter_for_entry bk entry of
        Ok built \<Rightarrow> bo_handles (spawn_one entry built \<lparr>bo_health = [], bo_handles = []\<rparr>)
      | Err _ \<Rightarrow> [])"

definition workers_in :: "(string \<times> task) list \<Rightarrow> emitter_worker list" where
  "workers_in handles =
     List.map_filter (\<lambda>(_, t). case t of T_Worker wk _ \<Rightarrow> Some wk | T_Drain _ \<Rightarrow> None) handles"

definition worker_ok :: "emitter_worker \<Rightarrow> bool" where
  "worker_ok wk \<longleftrightarrow>
     ew_concurrency wk \<ge> 1 \<and> ew_poll_interval wk > 0 \<and> ew_lease_duration wk > 0
     \<and> max_attempts (ew_policy wk) \<ge> 1 \<and> jitter_ok (jitter (ew_policy wk))"

lemma spawn_one_handles:
  assumes "build_emitter_for_entry bk entry = Ok built"
  shows "bo_handles (spawn_one entry built b) = bo_handles b @ handles_of bk entry"
  using assms by (simp add: handles_of_def spawn_one_def)

lemma spawn_loop_Ok:
  assumes "spawn_loop bk es b = (Ok b', awaited)"
  shows "awaited = [] \<and> bo_handles b' = bo_handles b @ concat (map (handles_of bk) es)
    \<and> bo_health b' = fold (\<lambda>e. bt_insert (en_name e) emitter_health_default) es (bo_health b)
    \<and> list_all (\<lambda>e. is_ok (build_emitter_for_entry bk e)) es"
  using assms
proof (induction es arbitrary: b)
  case (Cons e es)
  then obtain built where "build_emitter_for_entry bk e = Ok built"
    by (cases "build_emitter_for_entry bk e") simp_all
  with Cons show ?case
    by (simp add: spawn_one_handles is_ok_def) (simp add: spawn_one_def)
qed simp

lemma spawn_loop_Err:
  assumes "spawn_loop bk es b = (Err err, awaited)"
  shows "\<exists>pre entry post. es = pre @ entry # post \<and> build_emitter_for_entry bk entry = Err err
    \<and> awaited = bo_handles b @ concat (map (handles_of bk) pre)"
  using assms
proof (induction es arbitrary: b)
  case (Cons e es)
  show ?case
  proof (cases "build_emitter_for_entry bk e")
    case (Ok built)
    with Cons obtain pre entry post where "es = pre @ entry # post"
      "build_emitter_for_entry bk entry = Err err"
      "awaited = bo_handles b @ handles_of bk e @ concat (map (handles_of bk) pre)"
      by (fastforce simp: spawn_one_handles)
    then show ?thesis by (intro exI[of _ "e # pre"]) simp
  next
    case (Err err')
    with Cons.prems show ?thesis by (intro exI[of _ "[]"]) simp
  qed
qed simp

lemma workers_in_append [simp]: "workers_in (xs @ ys) = workers_in xs @ workers_in ys"
  by (simp add: workers_in_def map_filter_def)

lemma workers_in_handles_of:
  assumes "is_ok (build_emitter_for_entry bk e)"
  shows "workers_in (handles_of bk e) = [worker_of_entry e]"
proof -
  obtain built where "build_emitter_for_entry bk e = Ok built"
    using assms by (auto simp: is_ok_def split: result.splits)
  moreover from this have "snd built = None \<or> (\<exists>ch. snd built = Some (T_Drain ch))"
    by (auto simp: build_emitter_for_entry_def elim!: and_then_OkE split: built_emitter.splits)
  ultimately show ?thesis
    by (auto simp: handles_of_def spawn_one_def workers_in_def map_filter_def)
qed

lemma workers_in_all:
  "list_all (\<lambda>e. is_ok (build_emitter_for_entry bk e)) es \<Longrightarrow>
   workers_in (concat (map (handles_of bk) es)) = map worker_of_entry es"
  by (induction es) (simp_all add: workers_in_handles_of, simp add: workers_in_def map_filter_def)

lemma map_of_default_health:
  assumes "bt_sorted m"
  shows "map_of (fold (\<lambda>e. bt_insert (en_name e) emitter_health_default) es m) name =
     (if name \<in> en_name ` set es then Some emitter_health_default else map_of m name)"
  using assms
  by (induction es arbitrary: m) (simp_all add: map_of_bt_insert bt_sorted_insert)

lemma worker_of_entry_ok: "entry_ok e \<Longrightarrow> worker_ok (worker_of_entry e)"
  by (auto simp: worker_ok_def worker_of_entry_def entry_ok_def into_policy_def duration_from_secs_def
      DEFAULT_LEASE_DURATION_def nanos_per_sec_def split: option.split)

definition creation_contexts :: "string list" where
  "creation_contexts = [''failed to create Kafka emitter'', ''failed to create NATS emitter'',
     ''failed to create SQS emitter'', ''failed to create Redis emitter'']"

lemma anyhow_emit_Err: "anyhow_emit msg r = Err chain \<Longrightarrow> \<exists>e. chain = [msg, emit_error_to_string e]"
  by (cases r) (simp_all add: anyhow_emit_def with_context_def, blast)

lemma build_emitter_for_entry_Err:
  "build_emitter_for_entry bk e = Err chain \<longleftrightarrow> build_emitter bk (to_emitter_config e) = Err chain"
  by (cases "build_emitter bk (to_emitter_config e)")
    (auto simp: build_emitter_for_entry_def split: built_emitter.split)

lemma valid_entry_fails_in_client:
  assumes "section_ok e" and "build_emitter_for_entry bk e = Err chain"
  shows "hd chain \<in> set creation_contexts"
  using assms unfolding build_emitter_for_entry_Err
  by (auto simp: section_ok_def build_emitter_def to_emitter_config_def
      section_required_def and_then_Err channel_new_def creation_contexts_def
      dest!: anyhow_emit_Err)

text \<open>C29. A valid configuration gets exactly one worker per \<^verbatim>\<open>[[emitters]]\<close> entry, in order, with the entry's
  policy, a positive concurrency, poll interval and lease, and a health cell under its name; nothing is
  awaited. The only other outcome is that a broker client could not be created: the error says so, and
  every task spawned for the earlier entries has been told to stop and awaited.\<close>

theorem workers_match_configuration:
  assumes "entries_ok (hc_emitters config)"
  shows "case spawn_emitter_workers bk config of
      (Ok b, awaited) \<Rightarrow>
        workers_in (bo_handles b) = map worker_of_entry (hc_emitters config)
        \<and> list_all worker_ok (workers_in (bo_handles b))
        \<and> map_of (bo_health b) name =
            (if name \<in> en_name ` set (hc_emitters config) then Some emitter_health_default else None)
        \<and> awaited = []
    | (Err chain, awaited) \<Rightarrow>
        \<exists>pre entry post. hc_emitters config = pre @ entry # post
          \<and> build_emitter_for_entry bk entry = Err chain \<and> hd chain \<in> set creation_contexts
          \<and> awaited = concat (map (handles_of bk) pre)"
proof (cases "spawn_emitter_workers bk config")
  case (Pair res awaited)
  have valid: "entry_ok e" if "e \<in> set (hc_emitters config)" for e
    using assms that by (auto simp: entries_ok_def list_all_iff)
  show ?thesis
  proof (cases res)
    case (Ok b)
    from spawn_loop_Ok[OF Pair[unfolded Ok spawn_emitter_workers_def]] show ?thesis
      using valid by (auto simp: Pair Ok workers_in_all map_of_default_health list_all_iff worker_of_entry_ok)
  next
    case (Err chain)
    from spawn_loop_Err[OF Pair[unfolded Err spawn_emitter_workers_def]]
    obtain pre entry post where split: "hc_emitters config = pre @ entry # post"
      "build_emitter_for_entry bk entry = Err chain" "awaited = concat (map (handles_of bk) pre)"
      by auto
    moreover have "section_ok entry"
      using valid[of entry] split(1) by (simp add: entry_ok_def)
    ultimately show ?thesis
      using valid_entry_fails_in_client by (auto simp: Pair Err)
  qed
qed

text \<open>Brokers without a reachable Kafka.\<close>

definition no_brokers :: brokers where
  "no_brokers =
     \<lparr>bk_kafka_create = (\<lambda>_. Err ''no brokers''), bk_kafka_send = (\<lambda>_ _ _. Err ''no brokers''),
      bk_nats_connect = (\<lambda>_. Ok 1), bk_nats_publish = (\<lambda>_ _ _. Ok ()), bk_redis_open = (\<lambda>_. Ok 1),
      bk_redis_connect = (\<lambda>_ _. Elapsed), bk_redis_xadd = (\<lambda>_ _ _. Elapsed), bk_sqs_client = (\<lambda>_ _. 1),
      bk_sqs_send = (\<lambda>_ _ _. Finished (Ok ()))\<rparr>"

definition config1 :: hookbox_config where
  "config1 = config0\<lparr>hc_emitters := chosen_emitters config0, hc_emitter := None\<rparr>"

theorem workers_match_configuration_witness:
  "\<exists>b. spawn_emitter_workers no_brokers config1 = (Ok b, [])
     \<and> workers_in (bo_handles b) = map worker_of_entry (hc_emitters config1)"
proof -
  have "entries_ok (hc_emitters config1)"
    using config0_ok by (simp add: config1_def config_ok_def)
  from workers_match_configuration[OF this, where bk = no_brokers and name = "''default''"] show ?thesis
    by (auto simp: config1_def config0_def chosen_emitters_def spawn_emitter_workers_def
        build_emitter_for_entry_def build_emitter_def to_emitter_config_def from_legacy_def
        emitter_config_default_def default_emitter_type_def channel_new_def)
qed

section \<open>Panics are not silent\<close>

lemma drain_Ok: "drain_worker_handles ends = Ok () \<longleftrightarrow> list_all (\<lambda>(_, e). e = TE_Returned) ends"
  by (auto simp: drain_worker_handles_def Let_def filter_empty_conv list_all_iff)

text \<open>C31. A worker's panic is never silent: the supervisor turns the health cell Unhealthy at once and
  ends in the same panic, and the server ends in success only if it started, served without error
  and every task it awaited had returned normally.\<close>

theorem panic_is_reported:
  assumes "serve_inner x out bk env config = Some (Ok ())"
  shows "(\<exists>b. spawn_emitter_workers bk config = (Ok b, [])
            \<and> list_all (\<lambda>(_, e). e = TE_Returned) (sv_ends env (bo_handles b)))
    \<and> sv_connect env = Ok () \<and> sv_migrate env = Ok () \<and> sv_serve env = Ok ()
    \<and> (let (e, h) = supervise_worker now TE_Panicked previous in
       e = TE_Panicked \<and> eh_status h = Unhealthy \<and> last_failure_at h = Some now
       \<and> consecutive_failures h > 0)"
proof -
  obtain b awaited where b: "spawn_emitter_workers bk config = (Ok b, awaited)"
    "and_then (with_context ''server encountered a fatal error'' (sv_serve env))
       (\<lambda>_. drain_worker_handles (sv_ends env (bo_handles b))) = Ok ()"
    and "with_context ''failed to connect to database'' (sv_connect env) = Ok ()"
    "with_context ''database migration failed'' (sv_migrate env) = Ok ()"
    using assms by (auto simp: serve_inner_def Let_def split: result.splits option.splits prod.splits)
  moreover have "awaited = []"
    using spawn_loop_Ok b(1) unfolding spawn_emitter_workers_def by blast
  ultimately show ?thesis
    by (auto simp: with_context_Ok drain_Ok supervise_worker_def u32_saturating_add_def elim!: and_then_OkE)
qed

theorem panic_is_reported_witness:
  "serve_inner ext0 IO_Ok no_brokers \<lparr>sv_connect = Ok (), sv_migrate = Ok (), sv_serve = Ok (),
      sv_ends = map (\<lambda>(n, _). (n, TE_Returned))\<rparr> config1 = Some (Ok ())
   \<and> fst (supervise_worker 7 TE_Panicked emitter_health_default) = TE_Panicked"
proof -
  let ?env = "\<lparr>sv_connect = Ok (), sv_migrate = Ok (), sv_serve = Ok (), sv_ends = map (\<lambda>(n, _). (n, TE_Returned))\<rparr>"
  have "build_pipeline ext0 IO_Ok config1 \<noteq> None \<and> (\<forall>e. build_pipeline ext0 IO_Ok config1 \<noteq> Some (Err e))"
    by (simp add: build_pipeline_eq config1_def config0_def recent_new_def dedupe_config_default_def
      default_lru_capacity_def build_provider_verifiers_def with_context_def build_one_verifier_def
      non_empty_secret_def non_empty_def)
  then obtain p lru where p: "build_pipeline ext0 IO_Ok config1 = Some (Ok (p, lru))"
    by (metis not_None_eq result.exhaust surj_pair)
  have "validate_retry_config (hc_retry config1) = Ok ()"
    by (simp add: validate_retry_config_def config1_def config0_def retry_config_default_def
        default_retry_interval_def default_max_attempts_def)
  moreover obtain b where "spawn_emitter_workers no_brokers config1 = (Ok b, [])"
    by (simp add: config1_def config0_def chosen_emitters_def spawn_emitter_workers_def
        build_emitter_for_entry_def build_emitter_def to_emitter_config_def from_legacy_def
        emitter_config_default_def default_emitter_type_def channel_new_def)
  ultimately have run: "serve_inner ext0 IO_Ok no_brokers ?env config1 = Some (Ok ())"
    using p by (simp add: serve_inner_def with_context_def Let_def drain_Ok list_all_iff split_beta)
  show ?thesis
    using panic_is_reported[OF run, of 7 emitter_health_default] run by (auto simp: Let_def split: prod.splits)
qed

end
