(* ===== verification/Admin.thy ===== *)
theory Admin
  imports Serve
begin

text \<open>
  The HTTP API besides ingestion: \<^verbatim>\<open>routes/health.rs\<close> and \<^verbatim>\<open>routes/admin.rs\<close> of \<^verbatim>\<open>crates/hookbox-server\<close>,
  and the router of \<^verbatim>\<open>lib.rs\<close> after axum has matched a path and extracted its parameters. A handler
  makes several storage calls; \<open>ae_gap k\<close> is what other tasks do to the tables before the \<open>k\<close>-th.
  Shown: readiness is exactly the health of the database and of every configured emitter, no admin
  endpoint does or tells anything without the token, and a replay creates exactly the rows it reports.
\<close>

section \<open>State and JSON forms\<close>

text \<open>\<^verbatim>\<open>AppState\<close>: the emitter names and storage are those of the pipeline; the recorder is the text it
  renders; the health cells hold the workers' latest snapshots.\<close>

record app_state =
  as_pipeline :: "world pipeline"
  as_pool :: bool
  as_admin_token :: "string option"
  as_prometheus :: "string option"
  as_emitter_health :: "(string \<times> emitter_health) list"

record api_env =
  ae_env :: "nat \<Rightarrow> dbenv"
  ae_gap :: "nat \<Rightarrow> db \<Rightarrow> db"

type_synonym response = "nat \<times> json"

text \<open>The derived \<^verbatim>\<open>Serialize\<close> of the domain types, as \<^verbatim>\<open>serde_json::to_value\<close> gives them.\<close>

definition receipt_to_json :: "externals \<Rightarrow> printers \<Rightarrow> webhook_receipt \<Rightarrow> json" where
  "receipt_to_json x pr r = jobj
     [(''receipt_id'', JString (x_uuid_to_string x (rid_uuid (receipt_id r)))),
      (''provider_name'', JString (provider_name r)),
      (''provider_event_id'', jopt JString (provider_event_id r)),
      (''external_reference'', jopt JString (external_reference r)),
      (''dedupe_key'', JString (dedupe_key r)),
      (''payload_hash'', JString (payload_hash r)),
      (''raw_body'', JString (x_b64_encode x (raw_body r))),
      (''parsed_payload'', jopt (\<lambda>v. v) (parsed_payload r)),
      (''raw_headers'', raw_headers r),
      (''normalized_event_type'', jopt JString (normalized_event_type r)),
      (''verification_status'', JString (verification_status_name (verification_status r))),
      (''verification_reason'', jopt JString (verification_reason r)),
      (''processing_state'', JString (processing_state_name (processing_state r))),
      (''emit_count'', jint (emit_count r)),
      (''last_error'', jopt JString (last_error r)),
      (''received_at'', JString (pr_datetime pr (received_at r))),
      (''processed_at'', jopt (\<lambda>t. JString (pr_datetime pr t)) (processed_at r)),
      (''metadata'', metadata r)]"

definition delivery_to_json :: "externals \<Rightarrow> printers \<Rightarrow> webhook_delivery \<Rightarrow> json" where
  "delivery_to_json x pr w = jobj
     [(''delivery_id'', JString (x_uuid_to_string x (did_uuid (wd_delivery_id w)))),
      (''receipt_id'', JString (x_uuid_to_string x (rid_uuid (wd_receipt_id w)))),
      (''emitter_name'', JString (wd_emitter_name w)),
      (''state'', JString (delivery_state_name (wd_state w))),
      (''attempt_count'', jint (wd_attempt_count w)),
      (''last_error'', jopt JString (wd_last_error w)),
      (''last_attempt_at'', jopt (\<lambda>t. JString (pr_datetime pr t)) (wd_last_attempt_at w)),
      (''next_attempt_at'', JString (pr_datetime pr (wd_next_attempt_at w))),
      (''emitted_at'', jopt (\<lambda>t. JString (pr_datetime pr t)) (wd_emitted_at w)),
      (''immutable'', JBool (wd_immutable w)),
      (''created_at'', JString (pr_datetime pr (wd_created_at w)))]"

text \<open>\<^verbatim>\<open>map.insert(k, v)\<close> on a value that is an object.\<close>

definition json_insert :: "string \<Rightarrow> json \<Rightarrow> json \<Rightarrow> json" where
  "json_insert k v j = (case j of JObject m \<Rightarrow> JObject (bt_insert k v m) | _ \<Rightarrow> j)"

definition summary_json :: "(string \<times> delivery_state) list \<Rightarrow> json" where
  "summary_json summary = JObject (map (\<lambda>(n, s). (n, JString (delivery_state_name s))) summary)"

definition receipt_list_item_json ::
  "externals \<Rightarrow> printers \<Rightarrow> webhook_receipt \<Rightarrow> webhook_delivery list \<Rightarrow> json" where
  "receipt_list_item_json x pr receipt dels =
     json_insert ''deliveries_summary'' (summary_json (receipt_deliveries_summary dels))
       (json_insert ''processing_state''
         (JString (processing_state_name (receipt_aggregate_state dels (processing_state receipt))))
         (receipt_to_json x pr receipt))"

definition receipt_detail_json ::
  "externals \<Rightarrow> printers \<Rightarrow> webhook_receipt \<Rightarrow> webhook_delivery list \<Rightarrow> json" where
  "receipt_detail_json x pr receipt dels =
     json_insert ''deliveries'' (JArray (map (delivery_to_json x pr) dels))
       (json_insert ''deliveries_summary'' (summary_json (receipt_deliveries_summary dels))
         (json_insert ''processing_state''
           (JString (processing_state_name (receipt_aggregate_state dels (processing_state receipt))))
           (receipt_to_json x pr receipt)))"

section \<open>Health\<close>

fun health_status_name :: "health_status \<Rightarrow> string" where
  "health_status_name Healthy = ''healthy''"
| "health_status_name Degraded = ''degraded''"
| "health_status_name Unhealthy = ''unhealthy''"

text \<open>\<^verbatim>\<open>EmitterHealthSnapshot\<close> copies the fields of \<^verbatim>\<open>EmitterHealth\<close>.\<close>

record emitter_health_snapshot =
  es_status :: health_status
  es_last_success_at :: "timestamp option"
  es_last_failure_at :: "timestamp option"
  es_consecutive_failures :: nat
  es_dlq_depth :: nat
  es_pending_count :: nat

definition health_snapshot :: "emitter_health \<Rightarrow> emitter_health_snapshot" where
  "health_snapshot h =
     \<lparr>es_status = eh_status h, es_last_success_at = last_success_at h,
      es_last_failure_at = last_failure_at h, es_consecutive_failures = consecutive_failures h,
      es_dlq_depth = dlq_depth h, es_pending_count = pending_count h\<rparr>"

definition missing_snapshot :: emitter_health_snapshot where
  "missing_snapshot =
     \<lparr>es_status = Unhealthy, es_last_success_at = None, es_last_failure_at = None,
      es_consecutive_failures = 0, es_dlq_depth = 0, es_pending_count = 0\<rparr>"

definition synthesize_missing_emitters ::
  "string list \<Rightarrow> (string \<times> emitter_health_snapshot) list \<Rightarrow> (string \<times> emitter_health_snapshot) list" where
  "synthesize_missing_emitters configured emitters =
     fold (\<lambda>name. bt_or_insert name missing_snapshot) configured emitters"

definition compute_overall_status ::
  "health_status \<Rightarrow> (string \<times> emitter_health_snapshot) list \<Rightarrow> health_status" where
  "compute_overall_status db_status emitters =
     (if db_status = Unhealthy then Unhealthy
      else if list_ex (\<lambda>(_, e). es_status e = Unhealthy) emitters then Unhealthy
      else if list_ex (\<lambda>(_, e). es_status e = Degraded) emitters then Degraded
      else Healthy)"

definition snapshot_fields :: "printers \<Rightarrow> emitter_health_snapshot \<Rightarrow> (string \<times> json) list" where
  "snapshot_fields pr e =
     [(''status'', JString (health_status_name (es_status e))),
      (''last_success_at'', jopt (\<lambda>t. JString (pr_datetime pr t)) (es_last_success_at e)),
      (''last_failure_at'', jopt (\<lambda>t. JString (pr_datetime pr t)) (es_last_failure_at e)),
      (''consecutive_failures'', jint (int (es_consecutive_failures e))),
      (''dlq_depth'', jint (int (es_dlq_depth e))),
      (''pending_count'', jint (int (es_pending_count e)))]"

definition healthz :: nat where
  "healthz = 200"

text \<open>The snapshots of the registered workers, completed by the configured names.\<close>

definition emitter_snapshots :: "app_state \<Rightarrow> (string \<times> emitter_health_snapshot) list" where
  "emitter_snapshots st =
     synthesize_missing_emitters (p_emitter_names (as_pipeline st))
       (map (\<lambda>(name, h). (name, health_snapshot h)) (as_emitter_health st))"

text \<open>The ping is \<^verbatim>\<open>SELECT 1\<close> under a timeout.\<close>

definition readyz :: "printers \<Rightarrow> app_state \<Rightarrow> (unit, string) result timed \<Rightarrow> response" where
  "readyz pr st ping =
     (let db_status = (if as_pool st
            then (case ping of Finished (Ok _) \<Rightarrow> Healthy | Finished (Err _) \<Rightarrow> Unhealthy | Elapsed \<Rightarrow> Unhealthy)
            else Unhealthy);
          emitters = emitter_snapshots st;
          overall = compute_overall_status db_status emitters;
          code = (case overall of Unhealthy \<Rightarrow> 503 | Degraded \<Rightarrow> 200 | Healthy \<Rightarrow> 200) in
      (code, JObject
         [(''status'', JString (health_status_name overall)),
          (''database'', JObject [(''status'', JString (health_status_name db_status))]),
          (''emitters'', JObject (map (\<lambda>(n, e). (n, JObject (snapshot_fields pr e))) emitters))]))"

definition metrics :: "app_state \<Rightarrow> string" where
  "metrics st =
     (case as_prometheus st of Some rendered \<Rightarrow> rendered
      | None \<Rightarrow> ''# no prometheus recorder installed'' @ [CHR 10])"

section \<open>Authorization\<close>

definition error_json :: "string \<Rightarrow> json" where
  "error_json msg = jobj [(''error'', JString msg)]"

definition check_auth :: "externals \<Rightarrow> app_state \<Rightarrow> headers \<Rightarrow> (unit, response) result" where
  "check_auth x st hs =
     (case as_admin_token st of
        None \<Rightarrow> Ok ()
      | Some expected \<Rightarrow>
     (case header_get hs ''authorization'' of
        None \<Rightarrow> Err (401, error_json ''missing authorization header'')
      | Some auth \<Rightarrow>
     (case x_header_to_str x auth of
        None \<Rightarrow> Err (401, error_json ''invalid authorization header'')
      | Some auth_str \<Rightarrow>
          if auth_str \<noteq> ''Bearer '' @ expected then Err (401, error_json ''invalid token'') else Ok ())))"

definition storage_failure :: "storage_error \<Rightarrow> response" where
  "storage_failure e = (500, error_json (storage_error_to_string e))"

section \<open>Handlers\<close>

record list_receipts_query =
  lr_provider :: "string option"
  lr_state :: "processing_state option"
  lr_limit :: "int option"
  lr_offset :: "int option"

record list_dlq_query =
  lq_emitter :: "string option"
  lq_limit :: "int option"
  lq_offset :: "int option"

text \<open>The loop of \<^verbatim>\<open>list_receipts\<close>; \<open>k\<close> counts the storage calls made.\<close>

fun list_items ::
  "externals \<Rightarrow> printers \<Rightarrow> api_env \<Rightarrow> nat \<Rightarrow> webhook_receipt list \<Rightarrow> db \<Rightarrow> json list answer \<times> db" where
  "list_items x pr env k [] d = (Ok [], d)"
| "list_items x pr env k (receipt # rs) d =
     (let d1 = ae_gap env k d in
      (case get_deliveries_for_receipt (e_io (ae_env env k) 0) (receipt_id receipt) d1 of
         Err e \<Rightarrow> (Err e, d1)
       | Ok dels \<Rightarrow>
          (case list_items x pr env (Suc k) rs d1 of
             (Err e, d2) \<Rightarrow> (Err e, d2)
           | (Ok items, d2) \<Rightarrow> (Ok (receipt_list_item_json x pr receipt dels # items), d2))))"

definition list_receipts ::
  "externals \<Rightarrow> printers \<Rightarrow> app_state \<Rightarrow> headers \<Rightarrow> list_receipts_query \<Rightarrow> api_env \<Rightarrow> db \<Rightarrow> response \<times> db" where
  "list_receipts x pr st hs params env d =
     (case check_auth x st hs of Err resp \<Rightarrow> (resp, d) | Ok _ \<Rightarrow>
     (let flt = receipt_filter_default\<lparr>rf_provider_name := lr_provider params,
            rf_processing_state := lr_state params, rf_limit := lr_limit params, rf_offset := lr_offset params\<rparr>;
          d0 = ae_gap env 0 d in
      (case storage_query (e_io (ae_env env 0) 0) flt d0 of
         Err e \<Rightarrow> (storage_failure e, d0)
       | Ok rs \<Rightarrow>
          (case list_items x pr env 1 rs d0 of
             (Err e, d1) \<Rightarrow> (storage_failure e, d1)
           | (Ok items, d1) \<Rightarrow> ((200, JArray items), d1)))))"

definition get_receipt ::
  "externals \<Rightarrow> printers \<Rightarrow> app_state \<Rightarrow> headers \<Rightarrow> uuid \<Rightarrow> api_env \<Rightarrow> db \<Rightarrow> response \<times> db" where
  "get_receipt x pr st hs i env d =
     (case check_auth x st hs of Err resp \<Rightarrow> (resp, d) | Ok _ \<Rightarrow>
     (let d0 = ae_gap env 0 d in
      (case storage_get (e_io (ae_env env 0) 0) i d0 of
         Err e \<Rightarrow> (storage_failure e, d0)
       | Ok None \<Rightarrow> ((404, error_json ''receipt not found''), d0)
       | Ok (Some receipt) \<Rightarrow>
          (let d1 = ae_gap env 1 d0 in
           (case get_deliveries_for_receipt (e_io (ae_env env 1) 0) (receipt_id receipt) d1 of
              Err e \<Rightarrow> (storage_failure e, d1)
            | Ok dels \<Rightarrow> ((200, receipt_detail_json x pr receipt (sort_key wd_created_at dels)), d1))))))"

definition not_configured :: "externals \<Rightarrow> string \<Rightarrow> uuid \<Rightarrow> response" where
  "not_configured x name i =
     (400, jobj [(''error'', JString (''emitter '' @ quoted name @ '' is not currently configured'')),
                 (''hint'', JString (''use POST /api/receipts/'' @ x_uuid_to_string x i
                                     @ ''/replay?emitter=<configured-name>''))])"

definition replay_receipt ::
  "externals \<Rightarrow> app_state \<Rightarrow> headers \<Rightarrow> uuid \<Rightarrow> string option \<Rightarrow> api_env \<Rightarrow> db \<Rightarrow> response \<times> db" where
  "replay_receipt x st hs i emitter env d =
     (case check_auth x st hs of Err resp \<Rightarrow> (resp, d) | Ok _ \<Rightarrow>
     (let d0 = ae_gap env 0 d in
      (case storage_get (e_io (ae_env env 0) 0) i d0 of
         Err e \<Rightarrow> (storage_failure e, d0)
       | Ok None \<Rightarrow> ((404, error_json ''receipt not found''), d0)
       | Ok (Some receipt) \<Rightarrow>
          (case (case emitter of
                   Some name \<Rightarrow>
                     if name \<notin> set (p_emitter_names (as_pipeline st))
                     then Err (not_configured x name i) else Ok [name]
                 | None \<Rightarrow> Ok (p_emitter_names (as_pipeline st))) of
             Err resp \<Rightarrow> (resp, d0)
           | Ok names \<Rightarrow>
              (let d1 = ae_gap env 1 d0 in
               (case insert_replays (ae_env env 1) (receipt_id receipt) names d1 of
                  (Err e, d2) \<Rightarrow> (storage_failure e, d2)
                | (Ok ids, d2) \<Rightarrow>
                    ((202, jobj [(''delivery_ids'',
                        JArray (map (\<lambda>j. JString (x_uuid_to_string x (did_uuid j))) ids))]), d2)))))))"

definition get_delivery_handler ::
  "externals \<Rightarrow> printers \<Rightarrow> app_state \<Rightarrow> headers \<Rightarrow> uuid \<Rightarrow> api_env \<Rightarrow> db \<Rightarrow> response \<times> db" where
  "get_delivery_handler x pr st hs i env d =
     (case check_auth x st hs of Err resp \<Rightarrow> (resp, d) | Ok _ \<Rightarrow>
     (let d0 = ae_gap env 0 d in
      (case get_delivery (ae_env env 0) (DeliveryId i) d0 of
         Ok (Some (delivery, receipt)) \<Rightarrow>
           ((200, jobj [(''delivery'', delivery_to_json x pr delivery),
                        (''receipt'', receipt_to_json x pr receipt)]), d0)
       | Ok None \<Rightarrow> ((404, error_json ''delivery not found''), d0)
       | Err e \<Rightarrow> (storage_failure e, d0))))"

definition replay_delivery ::
  "externals \<Rightarrow> app_state \<Rightarrow> headers \<Rightarrow> uuid \<Rightarrow> api_env \<Rightarrow> db \<Rightarrow> response \<times> db" where
  "replay_delivery x st hs i env d =
     (case check_auth x st hs of Err resp \<Rightarrow> (resp, d) | Ok _ \<Rightarrow>
     (let d0 = ae_gap env 0 d in
      (case get_delivery (ae_env env 0) (DeliveryId i) d0 of
         Ok None \<Rightarrow> ((404, error_json ''delivery not found''), d0)
       | Err e \<Rightarrow> (storage_failure e, d0)
       | Ok (Some (delivery, _)) \<Rightarrow>
          if wd_emitter_name delivery \<notin> set (p_emitter_names (as_pipeline st))
          then (not_configured x (wd_emitter_name delivery) (rid_uuid (wd_receipt_id delivery)), d0)
          else
            (let d1 = ae_gap env 1 d0 in
             (case insert_replay (ae_env env 1) (wd_receipt_id delivery) (wd_emitter_name delivery) d1 of
                (Ok j, d2) \<Rightarrow>
                  ((202, jobj [(''delivery_id'', JString (x_uuid_to_string x (did_uuid j)))]), d2)
              | (Err e, d2) \<Rightarrow> (storage_failure e, d2))))))"

definition list_emitters :: "externals \<Rightarrow> printers \<Rightarrow> app_state \<Rightarrow> headers \<Rightarrow> response" where
  "list_emitters x pr st hs =
     (case check_auth x st hs of Err resp \<Rightarrow> resp | Ok _ \<Rightarrow>
       (200, JArray (map (\<lambda>(name, e). json_insert ''name'' (JString name) (jobj (snapshot_fields pr e)))
                      (emitter_snapshots st))))"

definition list_dlq_handler ::
  "externals \<Rightarrow> printers \<Rightarrow> app_state \<Rightarrow> headers \<Rightarrow> list_dlq_query \<Rightarrow> api_env \<Rightarrow> db \<Rightarrow> response \<times> db" where
  "list_dlq_handler x pr st hs params env d =
     (case check_auth x st hs of Err resp \<Rightarrow> (resp, d) | Ok _ \<Rightarrow>
     (let lmt = (case lq_limit params of Some l \<Rightarrow> l | None \<Rightarrow> 100);
          off = (case lq_offset params of Some m \<Rightarrow> m | None \<Rightarrow> 0);
          d0 = ae_gap env 0 d in
      (case list_dlq (ae_env env 0) (lq_emitter params) lmt off d0 of
         Ok pairs \<Rightarrow>
           ((200, JArray (map (\<lambda>(delivery, receipt).
                jobj [(''delivery'', delivery_to_json x pr delivery),
                      (''receipt'', receipt_to_json x pr receipt)]) pairs)), d0)
       | Err e \<Rightarrow> (storage_failure e, d0))))"

section \<open>The admin routes\<close>

datatype admin_request =
    GetReceipts list_receipts_query
  | GetReceipt uuid
  | PostReceiptReplay uuid "string option"
  | GetDlq list_dlq_query
  | GetDelivery uuid
  | PostDeliveryReplay uuid
  | GetEmitters

fun admin_route ::
  "externals \<Rightarrow> printers \<Rightarrow> app_state \<Rightarrow> headers \<Rightarrow> admin_request \<Rightarrow> api_env \<Rightarrow> db \<Rightarrow> response \<times> db" where
  "admin_route x pr st hs (GetReceipts q) = list_receipts x pr st hs q"
| "admin_route x pr st hs (GetReceipt i) = get_receipt x pr st hs i"
| "admin_route x pr st hs (PostReceiptReplay i e) = replay_receipt x st hs i e"
| "admin_route x pr st hs (GetDlq q) = list_dlq_handler x pr st hs q"
| "admin_route x pr st hs (GetDelivery i) = get_delivery_handler x pr st hs i"
| "admin_route x pr st hs (PostDeliveryReplay i) = replay_delivery x st hs i"
| "admin_route x pr st hs GetEmitters = (\<lambda>env d. (list_emitters x pr st hs, d))"

section \<open>Readiness\<close>

lemma map_of_synthesized:
  "bt_sorted m \<Longrightarrow>
   bt_sorted (synthesize_missing_emitters names m)
   \<and> map_of (synthesize_missing_emitters names m) n =
     (case map_of m n of Some e \<Rightarrow> Some e | None \<Rightarrow> if n \<in> set names then Some missing_snapshot else None)"
proof (induction names arbitrary: m)
  case Nil
  then show ?case by (simp add: synthesize_missing_emitters_def split: option.split)
next
  case (Cons a names)
  have "bt_sorted (bt_or_insert a missing_snapshot m)"
    using Cons.prems by (simp add: bt_or_insert_def bt_sorted_upsert)
  from Cons.IH[OF this] show ?case
    using map_of_bt_or_insert[OF Cons.prems]
    by (auto simp: synthesize_missing_emitters_def split: option.splits)
qed

lemma list_ex_map_of:
  assumes "bt_sorted m"
  shows "list_ex (\<lambda>(_, e). P e) m \<longleftrightarrow> (\<exists>n e. map_of m n = Some e \<and> P e)"
  using map_of_eq_Some_iff[OF bt_sorted_distinct[OF assms]] by (auto simp: list_ex_iff)

lemma map_of_snapshots:
  "map_of (map (\<lambda>(n, h). (n, health_snapshot h)) m) n = map_option health_snapshot (map_of m n)"
  by (induction m) auto

lemma fst_snapshots: "map fst (map (\<lambda>(n, h). (n, health_snapshot h)) m) = map fst m"
  by (induction m) auto

text \<open>What is wrong with the emitters, if anything.\<close>

definition emitter_down :: "app_state \<Rightarrow> string \<Rightarrow> bool" where
  "emitter_down st name \<longleftrightarrow>
     (case map_of (as_emitter_health st) name of
        Some h \<Rightarrow> eh_status h = Unhealthy
      | None \<Rightarrow> name \<in> set (p_emitter_names (as_pipeline st)))"

lemma snapshot_status: "es_status (health_snapshot h) = eh_status h" "es_status missing_snapshot = Unhealthy"
  by (simp_all add: health_snapshot_def missing_snapshot_def)

lemma any_unhealthy_iff:
  assumes "bt_sorted (as_emitter_health st)"
  shows "list_ex (\<lambda>(_, e). es_status e = Unhealthy) (emitter_snapshots st) \<longleftrightarrow> (\<exists>n. emitter_down st n)"
proof -
  let ?m = "map (\<lambda>(n, h). (n, health_snapshot h)) (as_emitter_health st)"
  have m: "bt_sorted ?m" using assms unfolding fst_snapshots .
  note syn = map_of_synthesized[OF m, of "p_emitter_names (as_pipeline st)"]
  have "list_ex (\<lambda>(_, e). es_status e = Unhealthy) (emitter_snapshots st) \<longleftrightarrow>
      (\<exists>n e. map_of (emitter_snapshots st) n = Some e \<and> es_status e = Unhealthy)"
    by (rule list_ex_map_of) (use syn in \<open>simp add: emitter_snapshots_def\<close>)
  also have "\<dots> \<longleftrightarrow> (\<exists>n. emitter_down st n)"
  proof -
    have "(\<exists>e. map_of (emitter_snapshots st) n = Some e \<and> es_status e = Unhealthy) \<longleftrightarrow> emitter_down st n" for n
      unfolding emitter_snapshots_def conjunct2[OF syn] map_of_snapshots emitter_down_def
      by (cases "map_of (as_emitter_health st) n") (auto simp: snapshot_status)
    then show ?thesis by simp
  qed
  finally show ?thesis .
qed

text \<open>C28. \<^verbatim>\<open>GET /readyz\<close> answers 503 exactly when there is no pool, the ping fails or takes too long, a
  worker's health is Unhealthy, or a configured emitter has no health cell at all; otherwise 200.
  In particular an emitter whose worker never started, or whose task panicked, cannot go unnoticed.\<close>

theorem readyz_is_exact:
  assumes "bt_sorted (as_emitter_health st)"
  shows "fst (readyz pr st ping) =
    (if \<not> as_pool st \<or> ping \<noteq> Finished (Ok ()) \<or> (\<exists>name. emitter_down st name) then 503 else 200)"
proof -
  have ping: "(case ping of Finished (Ok u) \<Rightarrow> Healthy | Finished (Err e) \<Rightarrow> Unhealthy | Elapsed \<Rightarrow> Unhealthy) =
      (if ping = Finished (Ok ()) then Healthy else Unhealthy)"
    by (auto split: timed.split result.split)
  have overall: "compute_overall_status db_status (emitter_snapshots st) = Unhealthy
      \<longleftrightarrow> db_status = Unhealthy \<or> (\<exists>n. emitter_down st n)" for db_status
    by (auto simp: compute_overall_status_def any_unhealthy_iff[OF assms])
  have code: "(case s of Unhealthy \<Rightarrow> 503 | Degraded \<Rightarrow> 200 | Healthy \<Rightarrow> (200 :: nat)) =
      (if s = Unhealthy then 503 else 200)" for s
    by (cases s) simp_all
  show ?thesis
    unfolding readyz_def Let_def ping code fst_conv overall by auto
qed

definition app0 :: app_state where
  "app0 = \<lparr>as_pipeline = server_pipeline IO_Ok [''a'', ''b''] [], as_pool = True,
     as_admin_token = Some ''s3cret'', as_prometheus = None,
     as_emitter_health = [(''a'', emitter_health_default)]\<rparr>"

theorem readyz_is_exact_witness:
  "fst (readyz printers0 app0 (Finished (Ok ()))) = 503
   \<and> fst (readyz printers0 (app0\<lparr>as_emitter_health := [(''a'', emitter_health_default), (''b'', emitter_health_default)]\<rparr>)
         (Finished (Ok ()))) = 200"
proof -
  let ?full = "app0\<lparr>as_emitter_health := [(''a'', emitter_health_default), (''b'', emitter_health_default)]\<rparr>"
  have "emitter_down app0 ''b''"
    by (simp add: emitter_down_def app0_def server_pipeline_def)
  moreover have "\<not> emitter_down ?full name" for name
    by (auto simp: emitter_down_def app0_def server_pipeline_def emitter_health_default_def)
  moreover have "bt_sorted (as_emitter_health app0)" "bt_sorted (as_emitter_health ?full)"
    by (simp_all add: app0_def)
  ultimately show ?thesis
    using readyz_is_exact[of app0 printers0 "Finished (Ok ())"] readyz_is_exact[of ?full printers0 "Finished (Ok ())"]
    by (auto simp: app0_def)
qed

section \<open>Authorization\<close>

definition authorized :: "externals \<Rightarrow> app_state \<Rightarrow> headers \<Rightarrow> bool" where
  "authorized x st hs \<longleftrightarrow>
     (case as_admin_token st of
        None \<Rightarrow> True
      | Some t \<Rightarrow> (case header_get hs ''authorization'' of
                    None \<Rightarrow> False
                  | Some h \<Rightarrow> x_header_to_str x h = Some (''Bearer '' @ t)))"

lemma check_auth_iff: "check_auth x st hs = Ok () \<longleftrightarrow> authorized x st hs"
  by (auto simp: check_auth_def authorized_def split: option.split)

lemma check_auth_refused:
  assumes "\<not> authorized x st hs"
  obtains body where "check_auth x st hs = Err (401, body)"
proof -
  have "\<exists>body. check_auth x st hs = Err (401, body)"
    using assms by (auto simp: check_auth_def authorized_def split: option.splits if_splits)
  then show ?thesis using that by blast
qed

lemma check_auth_granted: "authorized x st hs \<Longrightarrow> check_auth x st hs = Ok ()"
  by (simp add: check_auth_iff)

lemmas handler_defs = list_receipts_def get_receipt_def replay_receipt_def list_dlq_handler_def
  get_delivery_handler_def replay_delivery_def list_emitters_def

text \<open>C27. With an admin token configured, a request to any \<^verbatim>\<open>/api\<close> route that does not carry exactly
  \<^verbatim>\<open>Authorization: Bearer token\<close> gets a 401 that depends neither on the request nor on what is stored,
  and no storage call is made; a request that does carry it is never answered 401.\<close>

theorem admin_needs_token:
  "if authorized x st hs
   then fst (fst (admin_route x pr st hs req env d)) \<noteq> 401
   else \<exists>body. \<forall>req env d. admin_route x pr st hs req env d = ((401, body), d)"
proof (cases "authorized x st hs")
  case True
  then show ?thesis
    using check_auth_granted[OF True]
    by (cases req) (auto simp: handler_defs Let_def storage_failure_def not_configured_def
        split: result.splits option.splits prod.splits)
next
  case False
  then obtain body where "check_auth x st hs = Err (401, body)" by (rule check_auth_refused)
  then have "admin_route x pr st hs req env d = ((401, body), d)" for req env d
    by (cases req) (simp_all add: handler_defs)
  then show ?thesis using False by auto
qed

section \<open>Replay\<close>

definition replay_targets :: "app_state \<Rightarrow> string option \<Rightarrow> string list" where
  "replay_targets st emitter =
     (case emitter of None \<Rightarrow> p_emitter_names (as_pipeline st) | Some name \<Rightarrow> [name])"

definition replayed_rows :: "uuid \<Rightarrow> string list \<Rightarrow> delivery_row list \<Rightarrow> bool" where
  "replayed_rows i names new \<longleftrightarrow>
     map dr_emitter_name new = names \<and> list_all (\<lambda>r. fresh_row r \<and> dr_receipt_id r = i) new"

text \<open>C24. A receipt replay is all-or-nothing and honest: it answers 202 only after inserting exactly one
  fresh pending row per target (the requested emitter, or every configured one), and lists the ids
  of those rows; every target is a configured emitter. With any other answer the tables are as the
  handler last found them, except that a lost reply to the commit gives 500 with all rows inserted.\<close>

theorem replay_receipt_effect:
  assumes "replay_receipt x st hs i emitter env d = ((code, body), d')"
  shows "let d0 = ae_gap env 0 d; d1 = ae_gap env 1 d0; names = replay_targets st emitter in
    if code = 202
    then set names \<subseteq> set (p_emitter_names (as_pipeline st))
      \<and> (\<exists>new. d' = d1\<lparr>deliveries := deliveries d1 @ new\<rparr> \<and> replayed_rows i names new
           \<and> body = jobj [(''delivery_ids'', JArray (map (\<lambda>r. JString (x_uuid_to_string x (dr_delivery_id r))) new))])
    else d' \<in> {d, d0, d1}
      \<or> code = 500 \<and> (\<exists>new. d' = d1\<lparr>deliveries := deliveries d1 @ new\<rparr> \<and> replayed_rows i names new)"
proof (cases "check_auth x st hs")
  case (Err resp)
  then have "code = 401 \<and> d' = d"
    using assms check_auth_iff[of x st hs] by (cases resp) (auto simp: replay_receipt_def elim: check_auth_refused)
  then show ?thesis by (simp add: Let_def)
next
  case (Ok u)
  let ?d0 = "ae_gap env 0 d"
  let ?names = "replay_targets st emitter"
  consider (Early) "d' = ?d0" "code \<noteq> 202"
    | (Insert) r res where "storage_get (e_io (ae_env env 0) 0) i ?d0 = Ok (Some r)"
      "set ?names \<subseteq> set (p_emitter_names (as_pipeline st))"
      "insert_replays (ae_env env 1) (receipt_id r) ?names (ae_gap env 1 ?d0) = (res, d')"
      "(code, body) = (case res of Err e \<Rightarrow> storage_failure e | Ok ids \<Rightarrow>
         (202, jobj [(''delivery_ids'', JArray (map (\<lambda>j. JString (x_uuid_to_string x (did_uuid j))) ids))]))"
    using assms Ok
    by (auto simp: replay_receipt_def Let_def storage_failure_def not_configured_def replay_targets_def
        split: result.splits option.splits prod.splits if_splits)
  then show ?thesis
  proof cases
    case Insert
    have i: "rid_uuid (receipt_id r) = i" using storage_get_id[OF Insert(1)] by simp
    from Insert(3) show ?thesis
    proof (cases rule: insert_replays_atomic)
      case (Nothing e)
      then show ?thesis using Insert(4) by (simp add: storage_failure_def Let_def)
    next
      case (All new)
      then have "replayed_rows i ?names new" by (simp add: replayed_rows_def i)
      then show ?thesis
        using All(1,4) Insert(2,4) by (auto simp: storage_failure_def Let_def comp_def)
    qed
  qed (simp add: Let_def)
qed

definition calm :: api_env where
  "calm = \<lparr>ae_env = (\<lambda>k. env_ok 9 (20 + 10 * k)), ae_gap = (\<lambda>_ d. d)\<rparr>"

theorem replay_receipt_effect_witness:
  "\<exists>body d' new. replay_receipt ext0 (app0\<lparr>as_admin_token := None\<rparr>) [] 1 (Some ''b'') calm pending_db
      = ((202, body), d')
    \<and> d' = pending_db\<lparr>deliveries := deliveries pending_db @ new\<rparr> \<and> replayed_rows 1 [''b''] new"
proof -
  let ?st = "app0\<lparr>as_admin_token := None\<rparr>"
  have get: "storage_get IO_Ok 1 pending_db = Ok (Some (decode_receipt (row_of (sample_receipt 1 ''k''))))"
    using pending_db_inv by (intro storage_get_Ok) (simp_all add: db_inv_def pending_db_rows)
  have i: "receipt_id (decode_receipt (row_of (sample_receipt 1 ''k''))) = ReceiptId 1"
    using storage_get_id[OF get] .
  obtain ids d' where ins: "insert_replays (env_ok 9 30) (ReceiptId 1) [''b''] pending_db = (Ok ids, d')"
    by (simp add: insert_replays_def env_ok_def tx_stmt_def insert_delivery_def has_delivery_def
        has_receipt_def pending_db_rows pending_row_def commit_tx_def)
  have "check_auth ext0 ?st [] = Ok ()"
    by (simp add: check_auth_def)
  then have "\<exists>body. replay_receipt ext0 ?st [] 1 (Some ''b'') calm pending_db = ((202, body), d')"
    using get i ins
    by (simp add: replay_receipt_def Let_def calm_def env_ok_def app0_def server_pipeline_def)
  then obtain body where run: "replay_receipt ext0 ?st [] 1 (Some ''b'') calm pending_db = ((202, body), d')"
    by blast
  from replay_receipt_effect[OF run] show ?thesis
    using run by (auto simp: Let_def calm_def replay_targets_def)
qed

end
