(* ===== verification/Cli.thy ===== *)
theory Cli
  imports Admin
begin

text \<open>
  The command line interface, \<^verbatim>\<open>crates/hookbox-cli\<close>: \<^verbatim>\<open>receipts\<close>, \<^verbatim>\<open>replay\<close>, \<^verbatim>\<open>dlq\<close>, \<^verbatim>\<open>emitters\<close>, \<^verbatim>\<open>config validate\<close>
  and \<^verbatim>\<open>serve\<close>, after clap has parsed the arguments. Files, the TOML parser, the connection and the
  standard streams are parameters; what a command logs or prints is part of its result. \<open>None\<close> is a
  panic. Between two storage calls the server may change the tables (\<open>ce_gap\<close>). Shown: the replay
  commands insert rows only for configured emitters, all or nothing, and \<^verbatim>\<open>dlq retry\<close> only for
  dead-lettered deliveries; durations parse as documented, and on which inputs parsing panics.
\<close>

section \<open>Environment\<close>

text \<open>\<open>ce_error_text\<close> is the message of a parser's error on a text.\<close>

record cli_env =
  ce_read :: "string \<Rightarrow> (string, string) result"
  ce_toml :: "string \<Rightarrow> (hookbox_config, string) result"
  ce_connect :: "string \<Rightarrow> (unit, string) result"
  ce_migrate :: "unit answer"
  ce_stderr :: "(unit, string) result"
  ce_stdout :: "nat \<Rightarrow> (unit, string) result"
  ce_error_text :: "string \<Rightarrow> string"
  ce_now :: timestamp
  ce_env :: "nat \<Rightarrow> dbenv"
  ce_gap :: "nat \<Rightarrow> db \<Rightarrow> db"

definition em_dash :: string where
  "em_dash = map char_of [226, 128, 148 :: nat]"

definition anyhow_storage :: "'a answer \<Rightarrow> 'a anyhow" where
  "anyhow_storage r = map_err (\<lambda>e. [storage_error_to_string e]) r"

definition anyhow_str :: "('a, string) result \<Rightarrow> 'a anyhow" where
  "anyhow_str r = map_err (\<lambda>e. [e]) r"

fun config_error_chain :: "config_error \<Rightarrow> string list" where
  "config_error_chain (CE_Validation m) = [''invalid configuration: '' @ m]"
| "config_error_chain (CE_Parse m) = [''failed to parse TOML: '' @ m, m]"

definition connect :: "cli_env \<Rightarrow> string \<Rightarrow> unit anyhow" where
  "connect ce database_url = with_context ''failed to connect to database'' (anyhow_str (ce_connect ce database_url))"

text \<open>Reading and normalizing the config, and the warnings on standard error, as every command does it.\<close>

definition load_config :: "cli_env \<Rightarrow> string \<Rightarrow> hookbox_config anyhow" where
  "load_config ce path =
     and_then (with_context (''failed to read config file: '' @ path) (anyhow_str (ce_read ce path))) (\<lambda>raw.
     and_then (with_context (''failed to parse config: '' @ path)
         (map_err config_error_chain (parse_and_normalize (ce_toml ce) raw))) (\<lambda>(parsed, warnings).
     and_then (if warnings = [] then Ok ()
               else with_context ''failed to write warning'' (anyhow_str (ce_stderr ce))) (\<lambda>_.
       Ok parsed)))"

section \<open>parse\_duration\<close>

text \<open>\<^verbatim>\<open>str::trim\<close>: the UTF-8 encodings of the characters with the Unicode property White\_Space.\<close>

definition ws_encodings :: "string list" where
  "ws_encodings =
     [CHR '' ''] # map (\<lambda>n. [char_of n]) ([9, 10, 11, 12, 13] :: nat list)
     @ [map char_of [194, 133 :: nat], map char_of [194, 160 :: nat], map char_of [225, 154, 128 :: nat]]
     @ map (\<lambda>n. map char_of [226, 128, n]) ([128..<139] @ [168, 169, 175 :: nat])
     @ [map char_of [226, 129, 159 :: nat], map char_of [227, 128, 128 :: nat]]"

fun strip_any :: "string list \<Rightarrow> string \<Rightarrow> string option" where
  "strip_any [] s = None"
| "strip_any (p # ps) s = (if p \<noteq> [] \<and> take (length p) s = p then Some (drop (length p) s) else strip_any ps s)"

lemma strip_any_shorter: "strip_any ps s = Some t \<Longrightarrow> length t < length s"
proof (induction ps s rule: strip_any.induct)
  case (2 p ps s)
  then show ?case by (cases s; cases p) (auto split: if_splits)
qed simp

function trim_with :: "string list \<Rightarrow> string \<Rightarrow> string" where
  "trim_with ps s = (case strip_any ps s of None \<Rightarrow> s | Some t \<Rightarrow> trim_with ps t)"
  by pat_completeness auto
termination
  by (relation "measure (\<lambda>(ps, s). length s)") (auto dest: strip_any_shorter)

declare trim_with.simps [simp del]

definition trim :: "string \<Rightarrow> string" where
  "trim s = rev (trim_with (map rev ws_encodings) (rev (trim_with ws_encodings s)))"

text \<open>The constructors of \<^verbatim>\<open>chrono::TimeDelta\<close> panic outside of \<open>\<plusminus>i64::MAX\<close> milliseconds.\<close>

definition chrono_max_secs :: int where
  "chrono_max_secs = (2 ^ 63 - 1) div 1000"

definition chrono_seconds :: "int \<Rightarrow> int option" where
  "chrono_seconds secs = (if \<bar>secs\<bar> \<le> chrono_max_secs then Some secs else None)"

fun unit_secs :: "string \<Rightarrow> int option" where
  "unit_secs u =
     (if u = ''s'' then Some 1 else if u = ''m'' then Some 60
      else if u = ''h'' then Some 3600 else if u = ''d'' then Some 86400 else None)"

declare unit_secs.simps [simp del]

text \<open>The duration in seconds; \<^verbatim>\<open>split_at\<close> panics off a character boundary.\<close>

definition parse_duration :: "cli_env \<Rightarrow> string \<Rightarrow> int anyhow option" where
  "parse_duration ce s0 =
     (let s = trim s0 in
      if s = [] then Some (Err [''duration string must not be empty''])
      else if cont_byte (byte (last s)) then None
      else
        (let num_str = butlast s; unit_str = [last s] in
         (case parse_i64 num_str of
            None \<Rightarrow> Some (Err [''invalid duration number: '' @ debug_str num_str, ce_error_text ce num_str])
          | Some n \<Rightarrow>
              (case unit_secs unit_str of
                 None \<Rightarrow> Some (Err [''unknown duration unit '' @ debug_str unit_str
                             @ '' '' @ em_dash @ '' expected s, m, h, or d''])
               | Some k \<Rightarrow> map_option Ok (chrono_seconds (n * k))))))"

text \<open>\<^verbatim>\<open>Utc::now() - duration\<close> panics before the first representable instant or past the last.\<close>

definition chrono_min_utc :: timestamp where
  "chrono_min_utc = - 8334601228800000000"

definition utc_sub :: "timestamp \<Rightarrow> int \<Rightarrow> timestamp option" where
  "utc_sub now secs =
     (let t = now - secs * 1000000 in if chrono_min_utc \<le> t \<and> t \<le> chrono_max_utc then Some t else None)"

section \<open>replay\<close>

text \<open>The reset loop of \<^verbatim>\<open>replay failed\<close>: the first error ends the command; \<open>k\<close> counts storage calls.\<close>

fun reset_all :: "externals \<Rightarrow> cli_env \<Rightarrow> nat \<Rightarrow> webhook_receipt list \<Rightarrow> db \<Rightarrow> unit anyhow \<times> db" where
  "reset_all x ce k [] d = (Ok (), d)"
| "reset_all x ce k (r # rs) d =
     (case reset_for_retry x (e_io (ce_env ce k) 0) (rid_uuid (receipt_id r)) (ce_gap ce k d) of
        (Err e, d1) \<Rightarrow> (anyhow_storage (Err e), d1)
      | (Ok _, d1) \<Rightarrow> reset_all x ce (Suc k) rs d1)"

definition replay_failed ::
  "externals \<Rightarrow> cli_env \<Rightarrow> string \<Rightarrow> string option \<Rightarrow> string \<Rightarrow> int \<Rightarrow> db \<Rightarrow> (unit anyhow \<times> db) option" where
  "replay_failed x ce url provider since lmt d =
     (case connect ce url of Err e \<Rightarrow> Some (Err e, d) | Ok _ \<Rightarrow>
     (case with_context ''migration failed'' (anyhow_storage (ce_migrate ce)) of Err e \<Rightarrow> Some (Err e, d) | Ok _ \<Rightarrow>
     (case parse_duration ce since of None \<Rightarrow> None | Some (Err e) \<Rightarrow> Some (Err e, d) | Some (Ok secs) \<Rightarrow>
     (case utc_sub (ce_now ce) secs of None \<Rightarrow> None | Some since_dt \<Rightarrow>
       (let d0 = ce_gap ce 0 d in
        (case query_failed_since (e_io (ce_env ce 0) 0) provider since_dt (Some lmt) d0 of
           Err e \<Rightarrow> Some (anyhow_storage (Err e), d0)
         | Ok rs \<Rightarrow> Some (reset_all x ce 1 rs d0)))))))"

definition btree_set :: "string list \<Rightarrow> string list" where
  "btree_set xs = sort (remdups xs)"

definition debug_set :: "string list \<Rightarrow> string" where
  "debug_set xs = ''{'' @ join '', '' (map debug_str xs) @ ''}''"

definition run_replay_id ::
  "externals \<Rightarrow> cli_env \<Rightarrow> string \<Rightarrow> string \<Rightarrow> uuid \<Rightarrow> string option \<Rightarrow> db \<Rightarrow> deliveryid list anyhow \<times> db" where
  "run_replay_id x ce url config i emitter d =
     (let rid = x_uuid_to_string x i in
      case load_config ce config of Err e \<Rightarrow> (Err e, d) | Ok parsed \<Rightarrow>
     (let configured = btree_set (map en_name (hc_emitters parsed)) in
      case connect ce url of Err e \<Rightarrow> (Err e, d) | Ok _ \<Rightarrow>
     (let d0 = ce_gap ce 0 d in
      case emitter of
        Some name \<Rightarrow>
          if name \<notin> set configured
          then (Err [''refusing to replay receipt '' @ rid @ '': emitter '' @ debug_str name
                     @ '' is not present in '' @ config @ ''; configured emitters: '' @ debug_set configured], d0)
          else
            (case insert_replay (ce_env ce 0) (ReceiptId i) name d0 of
               (Err e, d1) \<Rightarrow> (with_context (''insert_replay failed for receipt '' @ rid @ '' emitter '' @ name)
                                (anyhow_storage (Err e)), d1)
             | (Ok new_id, d1) \<Rightarrow> (Ok [new_id], d1))
      | None \<Rightarrow>
          (case get_deliveries_for_receipt (e_io (ce_env ce 0) 0) (ReceiptId i) d0 of
             Err e \<Rightarrow> (with_context (''get_deliveries_for_receipt failed for '' @ rid) (anyhow_storage (Err e)), d0)
           | Ok dels \<Rightarrow>
              if dels = [] then (Err [''receipt '' @ rid @ '' has no existing deliveries '' @ em_dash
                         @ '' cannot infer emitter set; pass --emitter explicitly''], d0)
              else
                (let historical = btree_set (map wd_emitter_name dels);
                     stale = filter (\<lambda>n. n \<notin> set configured) historical in
                 if stale \<noteq> []
                 then (Err [''refusing to replay receipt '' @ rid @ '': historical emitters '' @ debug_strings stale
                            @ '' are no longer present in '' @ config @ ''; configured emitters: ''
                            @ debug_set configured], d0)
                 else
                   (case insert_replays (ce_env ce 1) (ReceiptId i) historical (ce_gap ce 1 d0) of
                      (Err e, d1) \<Rightarrow> (with_context (''insert_replays failed for receipt '' @ rid)
                                       (anyhow_storage (Err e)), d1)
                    | (Ok ids, d1) \<Rightarrow> (Ok ids, d1)))))))"

section \<open>dlq\<close>

definition dlq_list ::
  "cli_env \<Rightarrow> string \<Rightarrow> string option \<Rightarrow> int \<Rightarrow> int \<Rightarrow> db \<Rightarrow> (webhook_delivery \<times> webhook_receipt) list anyhow" where
  "dlq_list ce url emitter lmt off d =
     and_then (connect ce url) (\<lambda>_.
       with_context ''failed to list dead-lettered deliveries''
         (anyhow_storage (list_dlq (ce_env ce 0) emitter lmt off (ce_gap ce 0 d))))"

definition fetch_delivery ::
  "externals \<Rightarrow> cli_env \<Rightarrow> uuid \<Rightarrow> db \<Rightarrow> (webhook_delivery \<times> webhook_receipt) anyhow" where
  "fetch_delivery x ce i d0 =
     and_then (with_context ''failed to fetch delivery''
         (anyhow_storage (get_delivery (ce_env ce 0) (DeliveryId i) d0)))
       (\<lambda>found. case found of
          None \<Rightarrow> Err [''delivery '' @ x_uuid_to_string x i @ '' not found'']
        | Some p \<Rightarrow> Ok p)"

text \<open>Printing a document, then a newline.\<close>

definition write_json :: "cli_env \<Rightarrow> unit anyhow" where
  "write_json ce =
     and_then (with_context ''failed to write to stdout'' (anyhow_str (ce_stdout ce 0)))
       (\<lambda>_. with_context ''failed to write newline'' (anyhow_str (ce_stdout ce 1)))"

definition dlq_inspect :: "externals \<Rightarrow> printers \<Rightarrow> cli_env \<Rightarrow> string \<Rightarrow> uuid \<Rightarrow> db \<Rightarrow> json anyhow" where
  "dlq_inspect x pr ce url i d =
     and_then (connect ce url) (\<lambda>_.
     and_then (fetch_delivery x ce i (ce_gap ce 0 d)) (\<lambda>(delivery, receipt).
     and_then (write_json ce) (\<lambda>_.
       Ok (jobj [(''delivery'', delivery_to_json x pr delivery), (''receipt'', receipt_to_json x pr receipt)]))))"

fun delivery_state_debug :: "delivery_state \<Rightarrow> string" where
  "delivery_state_debug DS_Pending = ''Pending''"
| "delivery_state_debug DS_InFlight = ''InFlight''"
| "delivery_state_debug DS_Emitted = ''Emitted''"
| "delivery_state_debug DS_Failed = ''Failed''"
| "delivery_state_debug DS_DeadLettered = ''DeadLettered''"

definition dlq_retry :: "externals \<Rightarrow> cli_env \<Rightarrow> string \<Rightarrow> string \<Rightarrow> uuid \<Rightarrow> db \<Rightarrow> deliveryid anyhow \<times> db" where
  "dlq_retry x ce url config i d =
     (let did = x_uuid_to_string x i in
      case load_config ce config of Err e \<Rightarrow> (Err e, d) | Ok parsed \<Rightarrow>
      (case connect ce url of Err e \<Rightarrow> (Err e, d) | Ok _ \<Rightarrow>
      (let d0 = ce_gap ce 0 d in
       case fetch_delivery x ce i d0 of Err e \<Rightarrow> (Err e, d0)
       | Ok (delivery, receipt) \<Rightarrow>
          if wd_state delivery \<noteq> DS_DeadLettered
          then (Err [''refusing to replay delivery '' @ did @ '': state is '' @ delivery_state_debug (wd_state delivery)
                     @ '', expected DeadLettered. Use `hookbox replay id` for non-DLQ receipts.''], d0)
          else if wd_emitter_name delivery \<notin> set (map en_name (hc_emitters parsed))
          then (Err [''refusing to replay delivery '' @ did @ '': emitter '' @ debug_str (wd_emitter_name delivery)
                     @ '' is no longer present in '' @ config @ ''; configured emitters: ''
                     @ debug_strings (map en_name (hc_emitters parsed))], d0)
          else
            (case insert_replay (ce_env ce 1) (receipt_id receipt) (wd_emitter_name delivery) (ce_gap ce 1 d0) of
               (Err e, d1) \<Rightarrow> (with_context ''failed to insert replay delivery'' (anyhow_storage (Err e)), d1)
             | (Ok new_id, d1) \<Rightarrow> (Ok new_id, d1)))))"

section \<open>receipts\<close>

definition parse_processing_state :: "externals \<Rightarrow> cli_env \<Rightarrow> string \<Rightarrow> (processing_state, string) result" where
  "parse_processing_state x ce s =
     (let text = [CHR ''\"''] @ s @ [CHR ''\"''] in
      case x_json_from_slice x text of
        Some (JString t) \<Rightarrow>
          (case find (\<lambda>p. processing_state_name p = t) all_processing_states of
             Some p \<Rightarrow> Ok p
           | None \<Rightarrow> Err (ce_error_text ce text))
      | _ \<Rightarrow> Err (ce_error_text ce text))"

definition receipts_list ::
  "externals \<Rightarrow> cli_env \<Rightarrow> string \<Rightarrow> string option \<Rightarrow> string option \<Rightarrow> int \<Rightarrow> db \<Rightarrow> webhook_receipt list anyhow" where
  "receipts_list x ce url provider state lmt d =
     and_then (connect ce url) (\<lambda>_.
     and_then (case state of
                 None \<Rightarrow> Ok None
               | Some s \<Rightarrow> with_context ''invalid --state value''
                   (and_then (anyhow_str (parse_processing_state x ce s)) (\<lambda>p. Ok (Some p)))) (\<lambda>pstate.
       anyhow_storage (storage_query (e_io (ce_env ce 0) 0)
         (receipt_filter_default\<lparr>rf_provider_name := provider, rf_processing_state := pstate, rf_limit := Some lmt\<rparr>)
         (ce_gap ce 0 d))))"

definition receipts_inspect :: "externals \<Rightarrow> printers \<Rightarrow> cli_env \<Rightarrow> string \<Rightarrow> uuid \<Rightarrow> db \<Rightarrow> json anyhow" where
  "receipts_inspect x pr ce url i d =
     and_then (connect ce url) (\<lambda>_.
     and_then (anyhow_storage (storage_get (e_io (ce_env ce 0) 0) i (ce_gap ce 0 d))) (\<lambda>found.
       (case found of
          None \<Rightarrow> Err [''receipt not found'']
        | Some receipt \<Rightarrow>
            and_then (write_json ce) (\<lambda>_. Ok (receipt_to_json x pr receipt)))))"

definition receipts_search :: "cli_env \<Rightarrow> string \<Rightarrow> string \<Rightarrow> int \<Rightarrow> db \<Rightarrow> webhook_receipt list anyhow" where
  "receipts_search ce url external_ref lmt d =
     and_then (connect ce url) (\<lambda>_.
       anyhow_storage (query_by_external_reference (e_io (ce_env ce 0) 0) external_ref (Some lmt) (ce_gap ce 0 d)))"

section \<open>emitters, config validate and serve\<close>

text \<open>\<open>{:<w}\<close> and \<open>{:>w}\<close>: pad to a width counted in characters.\<close>

definition pad_right :: "nat \<Rightarrow> string \<Rightarrow> string" where
  "pad_right w s = s @ replicate (w - chars_count s) CHR '' ''"

definition pad_left :: "nat \<Rightarrow> string \<Rightarrow> string" where
  "pad_left w s = replicate (w - chars_count s) CHR '' '' @ s"

definition table_row :: "string \<Rightarrow> string \<Rightarrow> string \<Rightarrow> string \<Rightarrow> string \<Rightarrow> string" where
  "table_row a b c1 c2 c3 =
     pad_right 24 a @ '' '' @ pad_right 10 b @ '' '' @ pad_left 8 c1 @ '' '' @ pad_left 8 c2 @ '' '' @ pad_left 10 c3"

text \<open>One row of the table; \<open>k\<close> counts the storage calls made, three to a line printed.\<close>

definition emitter_row :: "cli_env \<Rightarrow> nat \<Rightarrow> emitter_entry \<Rightarrow> db \<Rightarrow> string anyhow" where
  "emitter_row ce k e d =
     (let count = (\<lambda>what r. with_context (what @ '' failed for '' @ en_name e) (anyhow_storage r)) in
      and_then (count ''count_dlq'' (count_dlq (e_io (ce_env ce k) 0) (en_name e) (ce_gap ce k d))) (\<lambda>dlq.
      and_then (count ''count_pending''
          (count_pending (e_io (ce_env ce (k + 1)) 0) (e_now (ce_env ce (k + 1))) (en_name e) (ce_gap ce (k + 1) d)))
        (\<lambda>pending.
      and_then (count ''count_in_flight''
          (count_in_flight (e_io (ce_env ce (k + 2)) 0) (en_name e) (ce_gap ce (k + 2) d))) (\<lambda>in_flight.
      and_then (with_context ''failed to write row'' (anyhow_str (ce_stdout ce (k div 3 + 1)))) (\<lambda>_.
        Ok (table_row (en_name e) (en_emitter_type e) (dec dlq) (dec pending) (dec in_flight)))))))"

fun emitter_rows_from :: "cli_env \<Rightarrow> nat \<Rightarrow> emitter_entry list \<Rightarrow> db \<Rightarrow> string list anyhow" where
  "emitter_rows_from ce k [] d = Ok []"
| "emitter_rows_from ce k (e # es) d =
     and_then (emitter_row ce k e d) (\<lambda>row.
     and_then (emitter_rows_from ce (k + 3) es d) (\<lambda>rows. Ok (row # rows)))"

definition emitters_list :: "cli_env \<Rightarrow> string \<Rightarrow> string \<Rightarrow> db \<Rightarrow> string list anyhow" where
  "emitters_list ce config url d =
     and_then (load_config ce config) (\<lambda>parsed.
     and_then (connect ce url) (\<lambda>_.
     and_then (with_context ''failed to write header'' (anyhow_str (ce_stdout ce 0))) (\<lambda>_.
     and_then (emitter_rows_from ce 0 (hc_emitters parsed) d) (\<lambda>rows.
       Ok (table_row ''NAME'' ''TYPE'' ''DLQ'' ''PENDING'' ''IN_FLIGHT'' # rows)))))"

text \<open>The lines on standard error and on standard output.\<close>

definition config_validate :: "cli_env \<Rightarrow> string \<Rightarrow> (string list \<times> string list) anyhow" where
  "config_validate ce path =
     and_then (with_context (''reading '' @ path) (anyhow_str (ce_read ce path))) (\<lambda>raw.
     and_then (with_context (''normalizing config at '' @ path)
         (map_err config_error_chain (parse_and_normalize (ce_toml ce) raw))) (\<lambda>(config, warnings).
       Ok (map (\<lambda>w. ''WARNING: '' @ w) warnings,
           (''OK: '' @ dec (length (hc_emitters config)) @ '' emitter(s) configured'')
           # map (\<lambda>e. ''  - '' @ en_name e @ '' (type='' @ en_emitter_type e @ '')'') (hc_emitters config))))"

text \<open>\<^verbatim>\<open>serve::run\<close>: the runtime, the recorder and the listener are set up before \<^verbatim>\<open>serve_inner\<close>.\<close>

record boot_env =
  be_runtime :: "(unit, string) result"
  be_recorder :: "(unit, string) result"
  be_bind :: "string \<Rightarrow> (unit, string) result"

definition serve_run ::
  "externals \<Rightarrow> io \<Rightarrow> brokers \<Rightarrow> serve_env \<Rightarrow> boot_env \<Rightarrow> cli_env \<Rightarrow> string \<Rightarrow> unit anyhow option" where
  "serve_run x out bk env be ce path =
     (case with_context (''failed to read config file: '' @ path) (anyhow_str (ce_read ce path)) of
        Err e \<Rightarrow> Some (Err e) | Ok raw \<Rightarrow>
     (case with_context (''failed to parse config: '' @ path)
             (map_err config_error_chain (parse_and_normalize (ce_toml ce) raw)) of
        Err e \<Rightarrow> Some (Err e) | Ok (config, warnings) \<Rightarrow>
     (case with_context ''failed to build Tokio runtime'' (anyhow_str (be_runtime be)) of
        Err e \<Rightarrow> Some (Err e) | Ok _ \<Rightarrow>
     (case with_context ''failed to install Prometheus recorder'' (anyhow_str (be_recorder be)) of
        Err e \<Rightarrow> Some (Err e) | Ok _ \<Rightarrow>
     (let bind_addr = sc_host (hc_server config) @ '':'' @ dec (sc_port (hc_server config)) in
      case with_context (''failed to bind to '' @ bind_addr) (anyhow_str (be_bind be bind_addr)) of
        Err e \<Rightarrow> Some (Err e)
      | Ok _ \<Rightarrow> serve_inner x out bk env config)))))"

section \<open>Commands\<close>

text \<open>The parsed command line, and \<^verbatim>\<open>main\<close>: \<^verbatim>\<open>serve\<close>, or a command on a runtime of its own, of which only
  the status and the tables remain.\<close>

datatype receipts_command =
    RC_List string "string option" "string option" int
  | RC_Inspect string uuid
  | RC_Search string string int

datatype replay_command =
    RP_Id string string uuid "string option"
  | RP_Failed string "string option" string int

datatype dlq_command =
    DQ_List string "string option" int int
  | DQ_Inspect string uuid
  | DQ_Retry string string uuid

datatype emitters_command = EM_List string string

datatype config_command = CC_Validate string

datatype commands =
    CM_Serve
  | CM_Receipts receipts_command
  | CM_Replay replay_command
  | CM_Dlq dlq_command
  | CM_Emitters emitters_command
  | CM_Config config_command

definition exit_status :: "'a anyhow \<Rightarrow> unit anyhow" where
  "exit_status r = and_then r (\<lambda>_. Ok ())"

fun receipts_run :: "externals \<Rightarrow> printers \<Rightarrow> cli_env \<Rightarrow> receipts_command \<Rightarrow> db \<Rightarrow> unit anyhow" where
  "receipts_run x pr ce (RC_List url provider state lmt) d = exit_status (receipts_list x ce url provider state lmt d)"
| "receipts_run x pr ce (RC_Inspect url i) d = exit_status (receipts_inspect x pr ce url i d)"
| "receipts_run x pr ce (RC_Search url external_ref lmt) d = exit_status (receipts_search ce url external_ref lmt d)"

fun replay_run :: "externals \<Rightarrow> cli_env \<Rightarrow> replay_command \<Rightarrow> db \<Rightarrow> (unit anyhow \<times> db) option" where
  "replay_run x ce (RP_Id url config i emitter) d = Some (apfst exit_status (run_replay_id x ce url config i emitter d))"
| "replay_run x ce (RP_Failed url provider since lmt) d = replay_failed x ce url provider since lmt d"

fun dlq_run :: "externals \<Rightarrow> printers \<Rightarrow> cli_env \<Rightarrow> dlq_command \<Rightarrow> db \<Rightarrow> unit anyhow \<times> db" where
  "dlq_run x pr ce (DQ_List url emitter lmt off) d = (exit_status (dlq_list ce url emitter lmt off d), d)"
| "dlq_run x pr ce (DQ_Inspect url i) d = (exit_status (dlq_inspect x pr ce url i d), d)"
| "dlq_run x pr ce (DQ_Retry url config i) d = apfst exit_status (dlq_retry x ce url config i d)"

fun emitters_run :: "cli_env \<Rightarrow> emitters_command \<Rightarrow> db \<Rightarrow> unit anyhow" where
  "emitters_run ce (EM_List config url) d = exit_status (emitters_list ce config url d)"

fun config_run :: "cli_env \<Rightarrow> config_command \<Rightarrow> unit anyhow" where
  "config_run ce (CC_Validate path) = exit_status (config_validate ce path)"

text \<open>The commands other than \<^verbatim>\<open>serve\<close>, for which \<open>None\<close> is \<^verbatim>\<open>unreachable!()\<close>.\<close>

fun run_command ::
  "externals \<Rightarrow> printers \<Rightarrow> cli_env \<Rightarrow> commands \<Rightarrow> db \<Rightarrow> (unit anyhow \<times> db) option" where
  "run_command x pr ce (CM_Receipts c) d = Some (receipts_run x pr ce c d, d)"
| "run_command x pr ce (CM_Replay c) d = replay_run x ce c d"
| "run_command x pr ce (CM_Dlq c) d = Some (dlq_run x pr ce c d)"
| "run_command x pr ce (CM_Emitters c) d = Some (emitters_run ce c d, d)"
| "run_command x pr ce (CM_Config c) d = Some (config_run ce c, d)"
| "run_command x pr ce CM_Serve d = None"

definition cli_main ::
  "externals \<Rightarrow> printers \<Rightarrow> io \<Rightarrow> brokers \<Rightarrow> serve_env \<Rightarrow> boot_env \<Rightarrow> cli_env \<Rightarrow> string \<Rightarrow> commands \<Rightarrow> db
   \<Rightarrow> unit anyhow option + (unit anyhow \<times> db) option" where
  "cli_main x pr out bk env be ce config command d =
     (case command of
        CM_Serve \<Rightarrow> Inl (serve_run x out bk env be ce config)
      | other \<Rightarrow>
          Inr (case anyhow_str (be_runtime be) of
                 Err e \<Rightarrow> Some (Err e, d)
               | Ok _ \<Rightarrow> run_command x pr ce other d))"

section \<open>Durations\<close>

lemma byte_digit: "n < 10 \<Longrightarrow> byte (char_of (48 + n)) = 48 + n"
  by (simp add: byte_def)

lemma dec_digits: "list_all is_digit (dec n) \<and> dec n \<noteq> []"
proof (induction n rule: dec.induct)
  case (1 n)
  have "is_digit (char_of (48 + n mod 10))" using byte_digit[of "n mod 10"] by (simp add: is_digit_def)
  moreover have "is_digit (char_of (48 + n))" if "n < 10"
    using that byte_digit[of n] by (simp add: is_digit_def)
  ultimately show ?case using 1 by (subst (1 2) dec.simps) auto
qed

lemma fold_dec: "fold (\<lambda>c m. m * 10 + (byte c - 48)) (dec n) 0 = n"
proof (induction n rule: dec.induct)
  case (1 n)
  then show ?case
    using byte_digit[of n] byte_digit[of "n mod 10"] by (subst dec.simps) auto
qed

lemma parse_digits_dec: "parse_digits (dec n) = Some n"
  using dec_digits[of n] by (simp add: parse_digits_def fold_dec)

lemma digit_not_sign: "is_digit c \<Longrightarrow> c \<noteq> CHR ''-'' \<and> c \<noteq> CHR ''+''"
  by (auto simp: is_digit_def byte_def)

lemma parse_i64_dec: "n < 2 ^ 63 \<Longrightarrow> parse_i64 (dec n) = Some (int n)"
proof -
  assume n: "n < 2 ^ 63"
  obtain c t where ct: "dec n = c # t" using dec_digits[of n] by (cases "dec n") auto
  then have "is_digit c" using dec_digits[of n] by simp
  then show ?thesis
    using n digit_not_sign parse_digits_dec[of n] by (simp add: parse_i64_def ct)
qed

text \<open>Characters that start or end none of the white-space encodings.\<close>

definition solid :: "char \<Rightarrow> bool" where
  "solid c \<longleftrightarrow> 33 \<le> byte c \<and> byte c < 127"

lemma ws_encodings_ends:
  "list_all (\<lambda>p. p \<noteq> [] \<and> \<not> solid (hd p) \<and> \<not> solid (last p)) ws_encodings"
  by (simp add: ws_encodings_def solid_def byte_def upt_rec)

lemma strip_any_solid:
  assumes "list_all (\<lambda>p. p \<noteq> [] \<and> \<not> solid (hd p)) ps" and "solid c"
  shows "strip_any ps (c # s) = None"
  using assms
proof (induction ps)
  case (Cons p ps)
  then show ?case by (cases p) auto
qed simp

lemma trim_with_solid:
  assumes "list_all (\<lambda>p. p \<noteq> [] \<and> \<not> solid (hd p)) ps" and "solid c"
  shows "trim_with ps (c # s) = c # s"
  using strip_any_solid[OF assms] by (subst trim_with.simps) simp

lemma strip_space:
  "strip_any ws_encodings (CHR '' '' # s) = Some s" "strip_any (map rev ws_encodings) (CHR '' '' # s) = Some s"
  by (simp_all add: ws_encodings_def upt_rec)

lemma trim_with_spaces:
  "trim_with ws_encodings (replicate a CHR '' '' @ s) = trim_with ws_encodings s"
  "trim_with (map rev ws_encodings) (replicate a CHR '' '' @ s) = trim_with (map rev ws_encodings) s"
  by (induction a) (simp_all, (subst trim_with.simps, simp add: strip_space)+)

lemma trim_padded:
  assumes "solid (hd s)" and "solid (last s)" and "s \<noteq> []"
  shows "trim (replicate a CHR '' '' @ s @ replicate b CHR '' '') = s"
proof -
  have ends: "list_all (\<lambda>p. p \<noteq> [] \<and> \<not> solid (hd p)) ws_encodings"
    "list_all (\<lambda>p. p \<noteq> [] \<and> \<not> solid (hd p)) (map rev ws_encodings)"
    using ws_encodings_ends by (auto simp: list_all_iff hd_rev)
  have front: "trim_with ws_encodings (s @ t) = s @ t" for t
    using trim_with_solid[OF ends(1) assms(1), of "tl s @ t"] assms(3) by (cases s) auto
  obtain c r where c: "rev s = c # r" "solid c"
    using assms(2,3) by (cases "rev s") (auto simp: last_conv_nth hd_rev[symmetric])
  have "trim_with (map rev ws_encodings) (rev s) = rev s"
    unfolding c(1) by (rule trim_with_solid[OF ends(2) c(2)])
  then show ?thesis
    by (simp add: trim_def trim_with_spaces front)
qed

lemma unit_secs_Some: "unit_secs [u] = Some k \<Longrightarrow> solid u \<and> \<not> cont_byte (byte u) \<and> 0 < k"
  by (auto simp: unit_secs.simps solid_def cont_byte_def byte_def split: if_splits)

text \<open>Durations round-trip: a decimal number followed by one of the four units, with spaces around
  it, is read as that many units, for every number that fits 64 bits; except that the command
  panics, instead of reporting an error, when the result exceeds \<^verbatim>\<open>i64::MAX\<close> milliseconds.\<close>

lemma parse_duration_round_trip:
  assumes "unit_secs [u] = Some k" and "n < 2 ^ 63"
  shows "parse_duration ce (replicate a CHR '' '' @ (dec n @ [u]) @ replicate b CHR '' '') =
    (if int n * k \<le> chrono_max_secs then Some (Ok (int n * k)) else None)"
proof -
  note u = unit_secs_Some[OF assms(1)]
  have "solid (hd (dec n))"
    using dec_digits[of n] by (cases "dec n") (auto simp: is_digit_def solid_def)
  then have "trim (replicate a CHR '' '' @ (dec n @ [u]) @ replicate b CHR '' '') = dec n @ [u]"
    using dec_digits[of n] u by (intro trim_padded) auto
  then show ?thesis
    using u assms parse_i64_dec[of n] by (simp add: parse_duration_def Let_def chrono_seconds_def)
qed

text \<open>A command line with one good config file and no other activity.\<close>

definition ce0 :: cli_env where
  "ce0 = \<lparr>ce_read = (\<lambda>_. Ok ''toml''), ce_toml = (\<lambda>_. Ok config0), ce_connect = (\<lambda>_. Ok ()), ce_migrate = Ok (),
     ce_stderr = Ok (), ce_stdout = (\<lambda>_. Ok ()), ce_error_text = (\<lambda>_. ''error''), ce_now = 9,
     ce_env = (\<lambda>k. env_ok 9 (20 + 10 * k)), ce_gap = (\<lambda>_ d. d)\<rparr>"

lemma parse_duration_round_trip_example:
  "parse_duration ce0 '' 90m '' = Some (Ok 5400) \<and> parse_duration ce0 ''999999999999999d'' = None"
proof -
  have n: "dec 90 = ''90''" "dec 999999999999999 = ''999999999999999''"
    by (simp_all add: dec.simps char_of_def bit_0)
  have u: "unit_secs ''m'' = Some 60" "unit_secs ''d'' = Some 86400"
    by (simp_all add: unit_secs.simps)
  show ?thesis
    using parse_duration_round_trip[OF u(1), of 90 ce0 1 1]
      parse_duration_round_trip[OF u(2), of 999999999999999 ce0 0 0]
    by (simp add: n chrono_max_secs_def)
qed

section \<open>Replays from the command line\<close>

lemma insert_replay_cases:
  assumes "insert_replay env i name d = (res, d')"
  obtains (Nothing) e where "res = Err e" "d' = d"
  | (One) r where "d' = d\<lparr>deliveries := deliveries d @ [r]\<rparr>" "replayed_rows (rid_uuid i) [name] [r]"
      "res = Ok (DeliveryId (dr_delivery_id r)) \<or> (\<exists>e. res = Err e)"
proof -
  let ?r = "pending_row (e_now env) (e_uuid env 0) (rid_uuid i) name"
  have r: "replayed_rows (rid_uuid i) [name] [?r]" "dr_delivery_id ?r = e_uuid env 0"
    by (simp_all add: replayed_rows_def fresh_row_def pending_row_def)
  have "(\<exists>e. res = Err e) \<and> d' = d \<or> d' = d\<lparr>deliveries := deliveries d @ [?r]\<rparr>
      \<and> (res = Ok (DeliveryId (dr_delivery_id ?r)) \<or> (\<exists>e. res = Err e))"
    using assms r(2)
    by (auto simp: insert_replay_def exec_stmt_def insert_delivery_def
        split: io.splits if_splits)
  then show ?thesis using Nothing One[OF _ r(1)] by blast
qed

lemma set_btree_set [simp]: "set (btree_set xs) = set xs"
  by (simp add: btree_set_def)

lemma btree_set_Nil [simp]: "btree_set xs = [] \<longleftrightarrow> xs = []"
  by (metis set_btree_set set_empty)

text \<open>The databases a command's storage calls met, and what a replay added to one of them.\<close>

definition added_rows :: "db \<Rightarrow> uuid \<Rightarrow> string list \<Rightarrow> deliveryid list \<Rightarrow> db \<Rightarrow> bool" where
  "added_rows base i names ids d' \<longleftrightarrow>
     (\<exists>new. d' = base\<lparr>deliveries := deliveries base @ new\<rparr> \<and> replayed_rows i names new
        \<and> map (DeliveryId \<circ> dr_delivery_id) new = ids)"

lemma insert_replay_added:
  assumes "insert_replay env (ReceiptId i) name d = (res, d')"
  shows "(\<exists>e. res = Err e) \<and> d' = d
    \<or> (\<exists>j. added_rows d i [name] [j] d' \<and> (res = Ok j \<or> (\<exists>e. res = Err e)))"
  using assms
proof (cases rule: insert_replay_cases)
  case (One r)
  then show ?thesis
    by (intro disjI2 exI[of _ "DeliveryId (dr_delivery_id r)"]) (auto simp: added_rows_def intro!: exI[of _ "[r]"])
qed simp

lemma insert_replays_added:
  assumes "insert_replays env (ReceiptId i) names d = (res, d')"
  shows "(\<exists>e. res = Err e) \<and> d' = d
    \<or> (\<exists>ids. added_rows d i names ids d' \<and> (res = Ok ids \<or> (\<exists>e. res = Err e)))"
  using assms
proof (cases rule: insert_replays_atomic)
  case (All new)
  then show ?thesis
    by (intro disjI2 exI[of _ "map (DeliveryId \<circ> dr_delivery_id) new"])
      (auto simp: added_rows_def replayed_rows_def intro!: exI[of _ new])
qed simp

lemma with_context_Err [simp]: "with_context msg (Err e) = Err (msg # e)"
  by (simp add: with_context_def)

lemma anyhow_storage_Err [simp]: "anyhow_storage (Err e) = Err [storage_error_to_string e]"
  by (simp add: anyhow_storage_def)

lemma anyhow_storage_Ok [simp]: "anyhow_storage r = Ok a \<longleftrightarrow> r = Ok a"
  by (cases r) (simp_all add: anyhow_storage_def)

text \<open>Which emitters a replay of a receipt is for, as the tables stand when the command asks.\<close>

definition replay_id_targets :: "uuid \<Rightarrow> string option \<Rightarrow> db \<Rightarrow> string list \<Rightarrow> bool" where
  "replay_id_targets i emitter d0 names \<longleftrightarrow>
     (case emitter of
        Some name \<Rightarrow> names = [name]
      | None \<Rightarrow> names \<noteq> [] \<and> names = btree_set (map dr_emitter_name
                  (sort_key dr_created_at (filter (\<lambda>r. dr_receipt_id r = i) (deliveries d0)))))"

lemma delivery_emitters:
  assumes "get_deliveries_for_receipt out (ReceiptId i) d = Ok dels"
  shows "map wd_emitter_name dels =
    map dr_emitter_name (sort_key dr_created_at (filter (\<lambda>r. dr_receipt_id r = i) (deliveries d)))"
proof -
  have "list_all2 (\<lambda>r w. delivery_from_row r = Ok w)
      (sort_key dr_created_at (filter (\<lambda>r. dr_receipt_id r = i) (deliveries d))) dels"
    using assms
    by (auto simp: get_deliveries_for_receipt_def read_stmt_def collect_results_Ok_iff
        elim!: and_then_OkE split: io.splits)
  then show ?thesis
    by (induction rule: list_all2_induct) (auto simp: delivery_from_row_def elim!: and_then_OkE)
qed

text \<open>The outcomes of a replay: a refusal leaves the tables as found; otherwise exactly the target rows.\<close>

definition replay_outcome ::
  "hookbox_config \<Rightarrow> uuid \<Rightarrow> string list \<Rightarrow> db \<Rightarrow> deliveryid list anyhow \<times> db \<Rightarrow> bool" where
  "replay_outcome parsed i names d1 out \<longleftrightarrow>
     set names \<subseteq> en_name ` set (hc_emitters parsed)
     \<and> ((\<exists>e. fst out = Err e) \<and> snd out = d1
        \<or> (\<exists>ids. added_rows d1 i names ids (snd out) \<and> (fst out = Ok ids \<or> (\<exists>e. fst out = Err e))))"

lemma replay_id_one:
  assumes "load_config ce config = Ok parsed" and "connect ce url = Ok ()"
  shows "let out = run_replay_id x ce url config i (Some name) d in
    (\<exists>e. fst out = Err e) \<and> snd out = ce_gap ce 0 d \<or> replay_outcome parsed i [name] (ce_gap ce 0 d) out"
proof -
  obtain r1 d1 where r: "insert_replay (ce_env ce 0) (ReceiptId i) name (ce_gap ce 0 d) = (r1, d1)"
    by fastforce
  show ?thesis
    using insert_replay_added[OF r] assms r
    by (cases r1) (auto simp: run_replay_id_def Let_def replay_outcome_def)
qed

lemma replay_id_all:
  assumes "load_config ce config = Ok parsed" and "connect ce url = Ok ()"
  shows "let out = run_replay_id x ce url config i None d; d0 = ce_gap ce 0 d in
    (\<exists>e. fst out = Err e) \<and> snd out = d0
    \<or> (\<exists>names. replay_id_targets i None d0 names \<and> replay_outcome parsed i names (ce_gap ce 1 d0) out)"
proof (cases "get_deliveries_for_receipt (e_io (ce_env ce 0) 0) (ReceiptId i) (ce_gap ce 0 d)")
  case (Ok dels)
  let ?d0 = "ce_gap ce 0 d" and ?names = "btree_set (map wd_emitter_name dels)"
  show ?thesis
  proof (cases "dels = [] \<or> \<not> set ?names \<subseteq> en_name ` set (hc_emitters parsed)")
    case True
    then show ?thesis
      using assms Ok by (auto simp: run_replay_id_def Let_def filter_empty_conv)
  next
    case False
    obtain r1 d1 where r: "insert_replays (ce_env ce 1) (ReceiptId i) ?names (ce_gap ce 1 ?d0) = (r1, d1)"
      by fastforce
    have out: "run_replay_id x ce url config i None d =
        (case r1 of Err e \<Rightarrow> Err [''insert_replays failed for receipt '' @ x_uuid_to_string x i,
           storage_error_to_string e] | Ok ids \<Rightarrow> Ok ids, d1)"
      using False assms Ok r by (auto simp: run_replay_id_def Let_def filter_empty_conv split: result.splits)
    have "replay_id_targets i None ?d0 ?names"
      using False delivery_emitters[OF Ok]
      by (auto simp: replay_id_targets_def)
    moreover have "replay_outcome parsed i ?names (ce_gap ce 1 ?d0) (run_replay_id x ce url config i None d)"
      using insert_replays_added[OF r] False by (cases r1) (auto simp: out replay_outcome_def)
    ultimately show ?thesis by (auto simp: Let_def)
  qed
qed (use assms in \<open>simp add: run_replay_id_def Let_def\<close>)

text \<open>C25. \<^verbatim>\<open>hookbox replay id\<close> reaches only live emitters and is all-or-nothing: whatever it reports, either
  the tables are as its storage calls found them and it failed, or it added exactly one fresh
  pending row per target (the given emitter, or every emitter the receipt was ever delivered to),
  every target being configured; and success lists the ids of exactly those rows.\<close>

theorem replay_id_effect:
  assumes "run_replay_id x ce url config i emitter d = (res, d')"
  shows "let d0 = ce_gap ce 0 d; d1 = (if emitter = None then ce_gap ce 1 d0 else d0) in
      (\<exists>e. res = Err e) \<and> d' \<in> {d, d0}
    \<or> (\<exists>parsed names. load_config ce config = Ok parsed \<and> replay_id_targets i emitter d0 names
         \<and> replay_outcome parsed i names d1 (res, d'))"
proof (cases "load_config ce config")
  case (Ok parsed)
  show ?thesis
  proof (cases "connect ce url")
    case c: (Ok u)
    then show ?thesis
      using assms Ok replay_id_one[OF Ok, where url = url and x = x and i = i and name = "the emitter" and d = d]
        replay_id_all[OF Ok, where url = url and x = x and i = i and d = d]
      by (cases emitter) (auto simp: Let_def replay_id_targets_def)
  qed (use assms Ok in \<open>auto simp: run_replay_id_def Let_def\<close>)
qed (use assms in \<open>auto simp: run_replay_id_def Let_def\<close>)

lemma config0_emitters: "en_name ` set (chosen_emitters config0) = {''default''}"
  by (simp add: chosen_emitters_def config0_def from_legacy_def)

lemma load_config0:
  "load_config ce0 path = Ok (config0\<lparr>hc_emitters := chosen_emitters config0, hc_emitter := None\<rparr>)"
  using normalize_ok[OF config0_ok]
  by (simp add: load_config_def ce0_def parse_and_normalize_def anyhow_str_def with_context_def)

lemma ce0_tables: "ce_gap ce0 k d = d" "ce_env ce0 k = env_ok 9 (20 + 10 * k)"
  by (simp_all add: ce0_def)

lemma connect0: "connect ce0 url = Ok ()"
  by (simp add: connect_def ce0_def anyhow_str_def with_context_def)

text \<open>One receipt whose only delivery, to \<^verbatim>\<open>default\<close>, is dead-lettered.\<close>

definition dlq_db :: db where
  "dlq_db = \<lparr>receipts = [row_of (sample_receipt 1 ''k'')],
     deliveries = [(pending_row 5 10 1 ''default'')\<lparr>dr_state := ''dead_lettered''\<rparr>]\<rparr>"

lemma dlq_db_inv: "db_inv dlq_db"
  by (simp add: db_inv_def wf_db_def history_at_rest_def has_receipt_def pending_row_def dlq_db_def)

theorem replay_id_effect_witness:
  "\<exists>ids d'. run_replay_id ext0 ce0 ''url'' ''hookbox.toml'' 1 (Some ''default'') dlq_db = (Ok ids, d')
     \<and> added_rows dlq_db 1 [''default''] ids d'"
proof -
  have "\<exists>ids d'. run_replay_id ext0 ce0 ''url'' ''hookbox.toml'' 1 (Some ''default'') dlq_db = (Ok ids, d')"
    by (simp add: run_replay_id_def load_config0 connect0 config0_emitters ce0_tables insert_replay_def
        exec_stmt_def insert_delivery_def has_delivery_def has_receipt_def dlq_db_def env_ok_def pending_row_def)
  then obtain ids d' where run:
    "run_replay_id ext0 ce0 ''url'' ''hookbox.toml'' 1 (Some ''default'') dlq_db = (Ok ids, d')"
    by blast
  show ?thesis
    using replay_id_effect[OF run] run
    by (auto simp: replay_id_targets_def replay_outcome_def ce0_tables)
qed

lemma get_delivery_row:
  assumes "get_delivery env (DeliveryId i) d = Ok (Some (delivery, receipt))"
  obtains row where "find (\<lambda>r. dr_delivery_id r = i) (deliveries d) = Some row"
    "delivery_from_row row = Ok delivery" "receipt_id receipt = ReceiptId (dr_receipt_id row)"
proof (cases "find (\<lambda>r. dr_delivery_id r = i) (deliveries d)")
  case (Some row)
  then show ?thesis
    using assms that[of row] storage_get_id[of "e_io env 1" "dr_receipt_id row" d receipt]
    by (auto simp: get_delivery_def read_stmt_def elim!: and_then_OkE split: option.splits io.splits)
qed (use assms in \<open>auto simp: get_delivery_def read_stmt_def split: io.splits\<close>)

lemma fetch_delivery_Ok:
  "fetch_delivery x ce i d = Ok p \<Longrightarrow> get_delivery (ce_env ce 0) (DeliveryId i) d = Ok (Some p)"
  by (cases "get_delivery (ce_env ce 0) (DeliveryId i) d")
    (auto simp: fetch_delivery_def anyhow_storage_def with_context_def split: option.splits)

lemma delivery_from_row_fields:
  "delivery_from_row row = Ok w \<Longrightarrow>
     wd_emitter_name w = dr_emitter_name row \<and> delivery_state_name (wd_state w) = dr_state row"
  by (auto simp: delivery_from_row_def deserialize_enum_def elim!: and_then_OkE simp: find_Some_iff split: option.splits)

text \<open>C26. \<^verbatim>\<open>hookbox dlq retry\<close> resurrects dead letters only: either it fails and the tables are as found, or
  the named delivery was dead-lettered for an emitter that is still configured, and exactly one
  fresh pending row for its receipt and emitter is added, whose id a success reports.\<close>

theorem dlq_retry_effect:
  assumes "dlq_retry x ce url config i d = (res, d')"
  shows "let d0 = ce_gap ce 0 d; d1 = ce_gap ce 1 d0 in
      (\<exists>e. res = Err e) \<and> d' \<in> {d, d0, d1}
    \<or> (\<exists>parsed row j. load_config ce config = Ok parsed
         \<and> find (\<lambda>r. dr_delivery_id r = i) (deliveries d0) = Some row
         \<and> dr_state row = ''dead_lettered'' \<and> dr_emitter_name row \<in> en_name ` set (hc_emitters parsed)
         \<and> added_rows d1 (dr_receipt_id row) [dr_emitter_name row] [j] d'
         \<and> (res = Ok j \<or> (\<exists>e. res = Err e)))"
proof (cases "\<exists>parsed w r. load_config ce config = Ok parsed \<and> connect ce url = Ok ()
    \<and> fetch_delivery x ce i (ce_gap ce 0 d) = Ok (w, r) \<and> wd_state w = DS_DeadLettered
    \<and> wd_emitter_name w \<in> en_name ` set (hc_emitters parsed)")
  case True
  then obtain parsed w r where ok: "load_config ce config = Ok parsed" "connect ce url = Ok ()"
      "fetch_delivery x ce i (ce_gap ce 0 d) = Ok (w, r)" "wd_state w = DS_DeadLettered"
      "wd_emitter_name w \<in> en_name ` set (hc_emitters parsed)"
    by blast
  obtain row where row: "find (\<lambda>r. dr_delivery_id r = i) (deliveries (ce_gap ce 0 d)) = Some row"
      "delivery_from_row row = Ok w" "receipt_id r = ReceiptId (dr_receipt_id row)"
    using get_delivery_row[OF fetch_delivery_Ok[OF ok(3)]] .
  note fields = delivery_from_row_fields[OF row(2)]
  obtain r1 d1 where ins: "insert_replay (ce_env ce 1) (ReceiptId (dr_receipt_id row)) (dr_emitter_name row)
      (ce_gap ce 1 (ce_gap ce 0 d)) = (r1, d1)"
    by fastforce
  show ?thesis
    using insert_replay_added[OF ins] assms ok row fields ins
    by (cases r1) (auto simp: dlq_retry_def Let_def)
next
  case False
  then show ?thesis
    using assms by (auto simp: dlq_retry_def Let_def split: result.splits prod.splits if_splits)
qed

theorem dlq_retry_effect_witness:
  "\<exists>j d'. dlq_retry ext0 ce0 ''url'' ''hookbox.toml'' 10 dlq_db = (Ok j, d')
     \<and> added_rows dlq_db 1 [''default''] [j] d'"
proof -
  have get: "storage_get IO_Ok 1 dlq_db = Ok (Some (decode_receipt (row_of (sample_receipt 1 ''k''))))"
    using dlq_db_inv by (intro storage_get_Ok) (simp_all add: db_inv_def dlq_db_def)
  then have "receipt_id (decode_receipt (row_of (sample_receipt 1 ''k''))) = ReceiptId 1"
    by (rule storage_get_id)
  then obtain w r where fetch: "fetch_delivery ext0 ce0 10 dlq_db = Ok (w, r)" "wd_state w = DS_DeadLettered"
      "wd_emitter_name w = ''default''" "receipt_id r = ReceiptId 1"
    using get by (auto simp: fetch_delivery_def ce0_tables get_delivery_def read_stmt_def env_ok_def dlq_db_def
        delivery_from_row_def pending_row_def with_context_def anyhow_storage_def deserialize_enum_def
        all_delivery_states_def)
  have "\<exists>j d'. dlq_retry ext0 ce0 ''url'' ''hookbox.toml'' 10 dlq_db = (Ok j, d')"
    using fetch
    by (simp add: dlq_retry_def Let_def load_config0 connect0 config0_emitters ce0_tables insert_replay_def
        exec_stmt_def insert_delivery_def has_delivery_def has_receipt_def dlq_db_def env_ok_def pending_row_def)
  then obtain j d' where run: "dlq_retry ext0 ce0 ''url'' ''hookbox.toml'' 10 dlq_db = (Ok j, d')"
    by blast
  show ?thesis
    using dlq_retry_effect[OF run] run by (auto simp: Let_def ce0_tables dlq_db_def pending_row_def)
qed

end
