(* ===== verification/System.thy ===== *)
theory System
  imports Cli
begin

text \<open>
  The running system: webhooks, admin requests, dispatch workers and the command line over the same
  tables. Every mutation of the tables is one statement or one transaction (\<open>table_step\<close>), and the tasks
  interleave at these: each task of the other theories, run while others step in between, is a
  sequence of steps. Invariants are proved once, by rule induction over \<open>table_step\<close>, and hold after any
  interleaving of any tasks.
\<close>

section \<open>Statements\<close>

record deployment =
  dp_ext :: externals
  dp_names :: "string list"
  dp_verifiers :: "(string \<times> verifier) list"

definition dp_pipeline :: "deployment \<Rightarrow> io \<Rightarrow> world pipeline" where
  "dp_pipeline D out = server_pipeline out (dp_names D) (dp_verifiers D)"

text \<open>A receipt the pipeline may store: built from a request whose verification did not fail.\<close>

definition admissible :: "deployment \<Rightarrow> webhook_receipt \<Rightarrow> bool" where
  "admissible D r \<longleftrightarrow>
     (\<exists>rid now clock provider hs body status reason.
        fst (run_verification (dp_pipeline D IO_Ok) clock provider hs body) = Ok (status, reason)
        \<and> r = build_receipt (dp_ext D) rid now provider hs body status reason)"

inductive table_step :: "deployment \<Rightarrow> db \<Rightarrow> db \<Rightarrow> bool" for D where
  Store: "admissible D r \<Longrightarrow> table_step D d (snd (store_with_deliveries env r (dp_names D) d))"
| Claim: "table_step D d (snd (claim_pending env e n d))"
| Reclaim: "table_step D d (snd (reclaim_expired env e dur d))"
| Emitted: "table_step D d (snd (mark_emitted env i d))"
| Failed: "table_step D d (snd (mark_failed env i n t m d))"
| Dead: "table_step D d (snd (mark_dead_lettered env i m d))"
| Replay: "name \<in> set (dp_names D) \<Longrightarrow> table_step D d (snd (insert_replay env i name d))"
| Replays: "set names \<subseteq> set (dp_names D) \<Longrightarrow> table_step D d (snd (insert_replays env i names d))"

abbreviation steps :: "deployment \<Rightarrow> db \<Rightarrow> db \<Rightarrow> bool" where
  "steps D \<equiv> (table_step D)\<^sup>*\<^sup>*"

text \<open>Any number of steps of other tasks.\<close>

definition others :: "deployment \<Rightarrow> (db \<Rightarrow> db) \<Rightarrow> bool" where
  "others D g \<longleftrightarrow> (\<forall>d. steps D d (g d))"

lemma table_step_db_step:
  assumes "table_step D d d'" and "db_inv d"
  shows "db_step d d' \<and> db_inv d'"
  using assms
  by cases (simp_all add: store_with_deliveries_step claim_step reclaim_step mark_steps
      insert_replay_step insert_replays_step)

lemma steps_inv: "steps D d d' \<Longrightarrow> db_inv d \<Longrightarrow> db_inv d'"
  by (induction rule: rtranclp_induct) (auto dest: table_step_db_step)

lemma steps_committed: "steps D d d' \<Longrightarrow> db_inv d \<Longrightarrow> committed d r names \<Longrightarrow> committed d' r names"
  by (induction rule: rtranclp_induct) (auto dest: table_step_db_step steps_inv db_step_committed)

section \<open>What every reachable table satisfies\<close>

text \<open>Which rows a statement may add, and that all others keep their receipt and their emitter.\<close>

definition keeps :: "db \<Rightarrow> db \<Rightarrow> bool" where
  "keeps d d' \<longleftrightarrow> receipts d' = receipts d \<and> map dr_emitter_name (deliveries d') = map dr_emitter_name (deliveries d)"

lemma exec_update_keeps:
  assumes "\<And>r. dr_emitter_name (f r) = dr_emitter_name r"
  shows "keeps d (snd (exec_stmt out (update_deliveries p f) d))"
  using assms by (auto simp: keeps_def exec_stmt_def update_deliveries_def comp_def if_distrib split: io.splits)

lemma reclaim_keeps: "keeps d (snd (reclaim_expired env e dur d))"
proof (cases "interval_of_secs (as_secs_f64 dur)")
  case (Ok v)
  then have "reclaim_stmt (e_now env) (as_secs_f64 dur) e =
      update_deliveries (lease_expired (e_now env) v e) (reclaimed (e_now env))"
    by (intro ext) (simp add: reclaim_stmt_def)
  then show ?thesis
    using exec_update_keeps[of "reclaimed (e_now env)"] by (simp add: reclaim_expired_def reclaimed_def)
qed (simp add: reclaim_expired_def reclaim_stmt_def exec_stmt_def keeps_def split: io.splits)

lemma mark_keeps:
  "keeps d (snd (mark_emitted env i d))" "keeps d (snd (mark_failed env i n t m d))"
  "keeps d (snd (mark_dead_lettered env i m d))"
  by (simp_all add: mark_emitted_def mark_failed_def mark_dead_lettered_def exec_update_keeps marked_rows)

lemma claim_keeps: "db_inv d \<Longrightarrow> keeps d (snd (claim_pending env e n d))"
  using claim_pending_state[of d env e n]
  by (auto simp: keeps_def after_claim_def lease_def comp_def if_distrib)

lemma table_step_adds:
  assumes "table_step D d d'" and "db_inv d"
  obtains (Keeps) "keeps d d'"
  | (Receipt) env r where "admissible D r" "d' = fanout env r (dp_names D) d"
  | (Rows) new where "d' = d\<lparr>deliveries := deliveries d @ new\<rparr>" "dr_emitter_name ` set new \<subseteq> set (dp_names D)"
  using assms(1)
proof cases
  case (Store r env)
  obtain res where run: "store_with_deliveries env r (dp_names D) d = (res, d')"
    using Store(1) by (metis prod.collapse)
  from run show ?thesis
    using Keeps Receipt[OF Store(2)] by (cases rule: store_with_deliveries_cases) (auto simp: keeps_def)
next
  case (Replay name env i)
  obtain res where run: "insert_replay env i name d = (res, d')"
    using Replay(1) by (metis prod.collapse)
  from run show ?thesis
    using Keeps Rows Replay(2)
    by (cases rule: insert_replay_cases) (auto simp: keeps_def replayed_rows_def)
next
  case (Replays names env i)
  obtain res where run: "insert_replays env i names d = (res, d')"
    using Replays(1) by (metis prod.collapse)
  from run show ?thesis
  proof (cases rule: insert_replays_atomic)
    case (All new)
    then show ?thesis using Rows[of new] Replays(2) by (metis list.set_map)
  qed (use Keeps in \<open>simp add: keeps_def\<close>)
qed (simp_all add: Keeps claim_keeps[OF assms(2)] reclaim_keeps mark_keeps)

text \<open>Every receipt is one the pipeline built, unchanged since, with its deliveries; every delivery is
  for a configured emitter.\<close>

definition inbox :: "deployment \<Rightarrow> db \<Rightarrow> bool" where
  "inbox D d \<longleftrightarrow>
     (\<forall>row \<in> set (receipts d). \<exists>r. admissible D r \<and> row = row_of r \<and> committed d r (dp_names D))
     \<and> dr_emitter_name ` set (deliveries d) \<subseteq> set (dp_names D)"

lemma table_step_inbox:
  assumes "table_step D d d'" and "db_inv d" and "inbox D d"
  shows "inbox D d'"
proof -
  note st = table_step_db_step[OF assms(1,2)]
  have old: "\<exists>r. admissible D r \<and> row = row_of r \<and> committed d' r (dp_names D)" if "row \<in> set (receipts d)" for row
    using assms(3) that db_step_committed[OF conjunct1[OF st]] unfolding inbox_def by blast
  show ?thesis using assms(1,2)
  proof (cases rule: table_step_adds)
    case Keeps
    have "dr_emitter_name ` set (deliveries d') = dr_emitter_name ` set (deliveries d)"
      using Keeps by (metis keeps_def list.set_map)
    then show ?thesis using Keeps old assms(3) by (simp add: inbox_def keeps_def)
  next
    case (Receipt env r)
    have "committed d' r (dp_names D)"
      using committed_stored[of d env r "dp_names D"] assms(2) st by (simp add: Receipt(2) db_inv_def)
    moreover have "dr_emitter_name ` set (pending_rows env 0 (rid_uuid (receipt_id r)) (dp_names D)) = set (dp_names D)"
      using pending_rows_emitters by (metis list.set_map)
    ultimately show ?thesis
      using old assms(3) Receipt by (auto simp: inbox_def fanout_rows)
  next
    case (Rows new)
    then show ?thesis using old assms(3) by (auto simp: inbox_def)
  qed
qed

lemma steps_inbox: "steps D d d' \<Longrightarrow> db_inv d \<Longrightarrow> inbox D d \<Longrightarrow> inbox D d'"
  by (induction rule: rtranclp_induct) (auto dest: table_step_inbox steps_inv)

lemma empty_inbox: "db_inv empty_db \<and> inbox D empty_db"
  by (simp add: inbox_def db_inv_def history_at_rest_def) (simp add: empty_db_def)

section \<open>The cache\<close>

text \<open>The world is the cache and the tables; a recording follows a committed store.\<close>

inductive world_step :: "deployment \<Rightarrow> world \<Rightarrow> world \<Rightarrow> bool" for D where
  Tables: "table_step D d d' \<Longrightarrow> world_step D (l, d) (l, d')"
| Record: "(k, h) \<in> row_pairs d \<Longrightarrow> world_step D (l, d) (snd (recent_record l k h), d)"

inductive_cases world_stepE: "world_step D w w'"

abbreviation wsteps :: "deployment \<Rightarrow> world \<Rightarrow> world \<Rightarrow> bool" where
  "wsteps D \<equiv> (world_step D)\<^sup>*\<^sup>*"

definition wothers :: "deployment \<Rightarrow> (world \<Rightarrow> world) \<Rightarrow> bool" where
  "wothers D g \<longleftrightarrow> (\<forall>w. wsteps D w (g w))"

definition world_ok :: "deployment \<Rightarrow> world \<Rightarrow> bool" where
  "world_ok D w \<longleftrightarrow>
     recent_inv (fst w) \<and> set (recent_abs (fst w)) \<subseteq> row_pairs (snd w) \<and> db_inv (snd w) \<and> inbox D (snd w)"

lemma row_pairs_grow: "db_step d d' \<Longrightarrow> row_pairs d \<subseteq> row_pairs d'"
  by (auto simp: db_step_def row_pairs_def)

lemma world_step_ok: "world_step D w w' \<Longrightarrow> world_ok D w \<Longrightarrow> world_ok D w'"
proof (erule world_stepE)
  fix d d' l
  assume "w = (l, d)" "w' = (l, d')" "table_step D d d'" "world_ok D w"
  then show "world_ok D w'"
    using table_step_db_step[of D d d'] table_step_inbox[of D d d'] row_pairs_grow[of d d']
    by (auto simp: world_ok_def)
next
  fix k h d l
  assume "w = (l, d)" "w' = (snd (recent_record l k h), d)" "(k, h) \<in> row_pairs d" "world_ok D w"
  then show "world_ok D w'"
    using recent.record_inv[of l k h] recent.record_seen[of l k h] by (auto simp: world_ok_def)
qed

lemma wsteps_ok: "wsteps D w w' \<Longrightarrow> world_ok D w \<Longrightarrow> world_ok D w'"
  by (induction rule: rtranclp_induct) (auto dest: world_step_ok)

lemma wsteps_tables: "wsteps D w w' \<Longrightarrow> steps D (snd w) (snd w')"
proof (induction rule: rtranclp_induct)
  case (step v w')
  from step(2) have "steps D (snd v) (snd w')" by cases auto
  then show ?case using step(3) by simp
qed simp

lemma steps_world: "steps D d d' \<Longrightarrow> wsteps D (l, d) (l, d')"
proof (induction rule: rtranclp_induct)
  case (step d1 d2)
  then show ?case using Tables rtranclp.rtrancl_into_rtrancl by metis
qed simp

section \<open>Every task is a sequence of steps\<close>

subsection \<open>Webhooks\<close>

lemma store_wstep:
  assumes "p_store (dp_pipeline D out) env r (p_emitter_names (dp_pipeline D out)) w = (res, w')" and "admissible D r"
  shows "world_step D w w'"
  using assms Tables[OF Store[where d = "snd w" and env = env, OF assms(2)], where l = "fst w"]
  by (cases w) (auto simp: dp_pipeline_def server_pipeline_def pg_store_def split: prod.splits)

lemma run_verification_out:
  "run_verification (dp_pipeline D out) = run_verification (dp_pipeline D IO_Ok)"
  by (intro ext) (simp add: run_verification_def dp_pipeline_def server_pipeline_def)

lemma built_admissible:
  "fst (run_verification (dp_pipeline D out) clock provider hs body) = Ok (status, reason) \<Longrightarrow>
   admissible D (build_receipt (dp_ext D) rid now provider hs body status reason)"
  unfolding run_verification_out[of D out] admissible_def by blast

lemma ingest_steps:
  assumes "ingest (dp_ext D) (dp_pipeline D out) env provider hs body w = (res, ms, w')"
    and "wothers D (ie_gap1 env)" and "wothers D (ie_gap2 env)" and "world_ok D w"
  shows "wsteps D w w'"
  using assms(1)
proof (cases rule: ingest_cases)
  case (StoreError status reason e)
  then show ?thesis
    using store_wstep[OF _ built_admissible] assms(2) unfolding wothers_def
    by (metis rtranclp.rtrancl_into_rtrancl)
next
  case (Duplicate status reason i)
  then show ?thesis
    using store_wstep[OF _ built_admissible] assms(2) unfolding wothers_def
    by (metis rtranclp.rtrancl_into_rtrancl)
next
  case (Accepted status reason w1)
  let ?r = "build_receipt (dp_ext D) (ie_receipt_id env) (ie_now env) provider hs body status reason"
  let ?w2 = "ie_gap2 env w1" and ?h = "compute_payload_hash (dp_ext D) body"
  have g1: "wsteps D w (ie_gap1 env w)" using assms(2) unfolding wothers_def by blast
  have ok1: "world_ok D (ie_gap1 env w)" by (rule wsteps_ok[OF g1 assms(4)])
  have s1: "world_step D (ie_gap1 env w) w1" by (rule store_wstep[OF Accepted(2) built_admissible[OF Accepted(1)]])
  have g2: "wsteps D w1 ?w2" using assms(3) unfolding wothers_def by blast
  have "committed (snd w1) ?r (p_emitter_names (dp_pipeline D out))"
    using server.store_Stored[of "ie_gap1 env w" out "dp_names D" "dp_verifiers D" "ie_db env" ?r _ w1]
      Accepted(2) ok1
    by (simp add: dp_pipeline_def world_inv_def world_ok_def)
  then have "committed (snd ?w2) ?r (p_emitter_names (dp_pipeline D out))"
    using steps_committed[OF wsteps_tables[OF g2]] world_step_ok[OF s1 ok1] by (simp add: world_ok_def)
  then have "(dedupe_key ?r, payload_hash ?r) \<in> row_pairs (snd ?w2)"
    by (force simp: committed_def row_pairs_def)
  then have "world_step D ?w2 w'"
    using Record[of "provider @ '':'' @ ?h" ?h "snd ?w2" D "fst ?w2"] Accepted(4)
    by (auto simp: build_receipt_def dp_pipeline_def server_pipeline_def layered_record_def
        storage_dedupe_record_def split: result.splits prod.splits)
  then show ?thesis using g1 s1 g2 by (meson rtranclp.rtrancl_into_rtrancl rtranclp_trans)
qed simp_all

subsection \<open>Workers\<close>

text \<open>The storage as a worker meets it: other tasks step before each of its statements.\<close>

type_synonym amid = "db \<times> (nat \<Rightarrow> db \<Rightarrow> db)"

definition gapped :: "(db \<Rightarrow> 'a \<times> db) \<Rightarrow> amid \<Rightarrow> 'a \<times> amid" where
  "gapped f s = (case f (snd s 0 (fst s)) of (r, d') \<Rightarrow> (r, (d', \<lambda>k. snd s (Suc k))))"

definition amid_ops :: "amid delivery_ops" where
  "amid_ops =
     \<lparr>do_claim_pending = (\<lambda>env e n. gapped (claim_pending env e n)),
      do_reclaim_expired = (\<lambda>env e dur. gapped (reclaim_expired env e dur)),
      do_mark_emitted = (\<lambda>env i. gapped (mark_emitted env i)),
      do_mark_failed = (\<lambda>env i n t m. gapped (mark_failed env i n t m)),
      do_mark_dead_lettered = (\<lambda>env i m. gapped (mark_dead_lettered env i m)),
      do_count_dlq = (\<lambda>env e s. count_dlq (e_io env 0) e (fst s)),
      do_count_pending = (\<lambda>env e s. count_pending (e_io env 0) (e_now env) e (fst s)),
      do_count_in_flight = (\<lambda>env e s. count_in_flight (e_io env 0) e (fst s))\<rparr>"

definition amid_inv :: "deployment \<Rightarrow> amid \<Rightarrow> bool" where
  "amid_inv D s \<longleftrightarrow> (\<forall>k. others D (snd s k))"

definition amid_step :: "deployment \<Rightarrow> amid \<Rightarrow> amid \<Rightarrow> bool" where
  "amid_step D s s' \<longleftrightarrow> steps D (fst s) (fst s')"

lemma gapped_steps:
  assumes "amid_inv D s" and "\<And>d. table_step D d (snd (f d))"
  shows "amid_step D s (snd (gapped f s)) \<and> amid_inv D (snd (gapped f s))"
proof -
  have "steps D (fst s) (snd s 0 (fst s))" using assms(1) by (simp add: amid_inv_def others_def)
  then have "steps D (fst s) (snd (f (snd s 0 (fst s))))"
    using assms(2) by (rule rtranclp.rtrancl_into_rtrancl)
  then show ?thesis
    using assms(1) by (auto simp: gapped_def amid_step_def amid_inv_def split: prod.splits)
qed

interpretation amid: delivery_store amid_ops "amid_inv D" "amid_step D" for D
  by unfold_locales
    (simp_all add: amid_ops_def gapped_steps Claim Reclaim Emitted Failed Dead)

lemma amid_steps: "(amid_step D)\<^sup>*\<^sup>* s s' \<Longrightarrow> steps D (fst s) (fst s')"
  by (induction rule: rtranclp_induct) (auto simp: amid_step_def)

lemma worker_steps:
  assumes "worker_run powi_fn amid_ops wk envs s = Some f" and "\<And>k. others D (snd (ws_store s) k)"
  shows "steps D (fst (ws_store s)) (fst (ws_store (flow_state f)))"
  using amid.run_steps[OF _ assms(1)] assms(2) amid_steps by (simp add: amid_inv_def)

subsection \<open>Admin requests\<close>

lemma others_steps: "others D g \<Longrightarrow> steps D d (g d)"
  by (simp add: others_def)

lemma list_items_steps:
  assumes "\<And>k. others D (ae_gap env k)" and "list_items x pr env k rs d = (res, d')"
  shows "steps D d d'"
  using assms(2)
proof (induction rs arbitrary: k d res d')
  case (Cons r rs)
  have g: "steps D d (ae_gap env k d)" by (rule others_steps[OF assms(1)])
  obtain res1 d1 where rec: "list_items x pr env (Suc k) rs (ae_gap env k d) = (res1, d1)" by fastforce
  have "d' = ae_gap env k d \<or> d' = d1"
    using Cons.prems rec by (auto simp: Let_def split: result.splits)
  then show ?case using g Cons.IH[OF rec] by (auto intro: rtranclp_trans)
qed simp

lemma insert_replay_into:
  assumes "insert_replay env i name d = (res, d')" and "name \<in> set (dp_names D)"
  shows "steps D d d'"
  using Replay[OF assms(2), of d env i] assms(1) by auto

lemma insert_replays_into:
  assumes "insert_replays env i names d = (res, d')" and "set names \<subseteq> set (dp_names D)"
  shows "steps D d d'"
  using Replays[OF assms(2), of d env i] assms(1) by auto

lemma replay_receipt_steps:
  assumes "replay_receipt x st hs i emitter env d = (resp, d')" and "\<And>k. others D (ae_gap env k)"
    and "p_emitter_names (as_pipeline st) = dp_names D"
  shows "steps D d d'"
proof -
  let ?d0 = "ae_gap env 0 d"
  have g: "steps D d ?d0" "steps D d (ae_gap env 1 ?d0)"
    using others_steps[OF assms(2)] by (blast intro: rtranclp_trans)+
  consider "d' = d" | "d' = ?d0" | j res where "set (replay_targets st emitter) \<subseteq> set (dp_names D)"
      "insert_replays (ae_env env 1) j (replay_targets st emitter) (ae_gap env 1 ?d0) = (res, d')"
    using assms(1,3)
    by (auto simp: replay_receipt_def replay_targets_def Let_def split: result.splits option.splits prod.splits if_splits)
  then show ?thesis
  proof cases
    case 3
    then show ?thesis using g(2) insert_replays_into by (metis rtranclp_trans)
  qed (use g in simp_all)
qed

lemma replay_delivery_steps:
  assumes "replay_delivery x st hs i env d = (resp, d')" and "\<And>k. others D (ae_gap env k)"
    and "p_emitter_names (as_pipeline st) = dp_names D"
  shows "steps D d d'"
proof -
  let ?d0 = "ae_gap env 0 d"
  have g: "steps D d ?d0" "steps D d (ae_gap env 1 ?d0)"
    using others_steps[OF assms(2)] by (blast intro: rtranclp_trans)+
  consider "d' = d" | "d' = ?d0" | name j res where "name \<in> set (dp_names D)"
      "insert_replay (ae_env env 1) j name (ae_gap env 1 ?d0) = (res, d')"
    using assms(1,3)
    by (auto simp: replay_delivery_def Let_def split: result.splits option.splits prod.splits if_splits)
  then show ?thesis
  proof cases
    case 3
    then show ?thesis using g(2) insert_replay_into by (metis rtranclp_trans)
  qed (use g in simp_all)
qed

lemma list_receipts_steps:
  assumes "list_receipts x pr st hs q env d = (resp, d')" and "\<And>k. others D (ae_gap env k)"
  shows "steps D d d'"
proof -
  let ?d0 = "ae_gap env 0 d"
  consider "d' = d" | "d' = ?d0" | rs res where "list_items x pr env 1 rs ?d0 = (res, d')"
    using assms(1) by (auto simp: list_receipts_def Let_def split: result.splits prod.splits)
  then show ?thesis
    using others_steps[OF assms(2)[of 0], of d] list_items_steps[OF assms(2)]
    by cases (auto intro: rtranclp_trans)
qed

lemma get_receipt_steps:
  assumes "get_receipt x pr st hs i env d = (resp, d')" and "\<And>k. others D (ae_gap env k)"
  shows "steps D d d'"
proof -
  have "d' \<in> {d, ae_gap env 0 d, ae_gap env 1 (ae_gap env 0 d)}"
    using assms(1) by (auto simp: get_receipt_def Let_def split: result.splits option.splits)
  then show ?thesis
    using others_steps[OF assms(2)] by (auto intro: rtranclp_trans)
qed

lemma read_handler_tables:
  "snd (list_dlq_handler x pr st hs q env d) \<in> {d, ae_gap env 0 d}"
  "snd (get_delivery_handler x pr st hs i env d) \<in> {d, ae_gap env 0 d}"
  by (auto simp: list_dlq_handler_def get_delivery_handler_def Let_def
      split: result.splits option.splits prod.splits)

lemma admin_steps:
  assumes "admin_route x pr st hs req env d = (resp, d')" and "\<And>k. others D (ae_gap env k)"
    and "p_emitter_names (as_pipeline st) = dp_names D"
  shows "steps D d d'"
  using assms
proof (cases req)
  case (GetDlq q)
  then show ?thesis using assms others_steps read_handler_tables(1)[of x pr st hs q env d] by auto
next
  case (GetDelivery i)
  then show ?thesis using assms others_steps read_handler_tables(2)[of x pr st hs i env d] by auto
qed (auto intro: list_receipts_steps get_receipt_steps replay_receipt_steps replay_delivery_steps)

subsection \<open>Commands\<close>

text \<open>The command line reads the server's configuration.\<close>

definition same_config :: "deployment \<Rightarrow> cli_env \<Rightarrow> bool" where
  "same_config D ce \<longleftrightarrow>
     (\<forall>path parsed. load_config ce path = Ok parsed \<longrightarrow> en_name ` set (hc_emitters parsed) \<subseteq> set (dp_names D))"

text \<open>No statement of the server ever changes the column \<^verbatim>\<open>processing_state\<close>.\<close>

lemma inbox_stored: "inbox D d \<Longrightarrow> row \<in> set (receipts d) \<Longrightarrow> rr_processing_state row = ''stored''"
  by (auto simp: inbox_def admissible_def build_receipt_def receipt_to_row_def)

lemma inbox_no_failed:
  assumes "inbox D d" and "query_failed_since out provider since lmt d = Ok rs"
  shows "rs = []"
proof -
  have "filter (\<lambda>r. (rr_processing_state r = ''emit_failed'' \<or> rr_processing_state r = ''dead_lettered'')
      \<and> rr_received_at r \<ge> since \<and> opt_matches provider (Some (rr_provider_name r))) (receipts d) = []"
    using inbox_stored[OF assms(1)] by (auto simp: filter_empty_conv)
  then show ?thesis
    using assms(2)
    by (auto simp: query_failed_since_def read_stmt_Ok sql_window_def oldest_first_def
        elim!: and_then_OkE split: if_splits option.splits io.splits)
qed

lemma replay_failed_tables:
  assumes "inbox D (ce_gap ce 0 d)" and "replay_failed x ce url provider since lmt d = Some (res, d')"
  shows "d' \<in> {d, ce_gap ce 0 d}"
  using assms(2)
  by (auto simp: replay_failed_def Let_def split: result.splits option.splits dest!: inbox_no_failed[OF assms(1)])

lemma configured_names:
  "same_config D ce \<Longrightarrow> load_config ce config = Ok parsed \<Longrightarrow> N \<subseteq> en_name ` set (hc_emitters parsed) \<Longrightarrow>
   N \<subseteq> set (dp_names D)"
  unfolding same_config_def by blast

lemma steps_replay:
  "steps D d d1 \<Longrightarrow> name \<in> set (dp_names D) \<Longrightarrow> steps D d (snd (insert_replay env i name d1))"
  by (erule rtranclp.rtrancl_into_rtrancl, erule Replay)

lemma steps_replays:
  "steps D d d1 \<Longrightarrow> set names \<subseteq> set (dp_names D) \<Longrightarrow> steps D d (snd (insert_replays env i names d1))"
  by (erule rtranclp.rtrancl_into_rtrancl, erule Replays)

lemma replay_id_one_tables:
  assumes "run_replay_id x ce url config i (Some name) d = (res, d')"
  shows "d' \<in> {d, ce_gap ce 0 d} \<or> (\<exists>parsed. load_config ce config = Ok parsed
    \<and> name \<in> en_name ` set (hc_emitters parsed)
    \<and> d' = snd (insert_replay (ce_env ce 0) (ReceiptId i) name (ce_gap ce 0 d)))"
  using assms
  by (auto simp: run_replay_id_def Let_def split: result.splits prod.splits if_splits)

lemma replay_id_all_tables:
  assumes "run_replay_id x ce url config i None d = (res, d')"
  shows "\<exists>dels :: webhook_delivery list. d' \<in> {d, ce_gap ce 0 d} \<or> (\<exists>parsed. load_config ce config = Ok parsed
    \<and> set (map wd_emitter_name dels) \<subseteq> en_name ` set (hc_emitters parsed)
    \<and> d' = snd (insert_replays (ce_env ce 1) (ReceiptId i) (btree_set (map wd_emitter_name dels))
               (ce_gap ce 1 (ce_gap ce 0 d))))"
proof (cases "get_deliveries_for_receipt (e_io (ce_env ce 0) 0) (ReceiptId i) (ce_gap ce 0 d)")
  case (Ok dels)
  have "d' \<in> {d, ce_gap ce 0 d} \<or> (\<exists>parsed. load_config ce config = Ok parsed
    \<and> set (map wd_emitter_name dels) \<subseteq> en_name ` set (hc_emitters parsed)
    \<and> d' = snd (insert_replays (ce_env ce 1) (ReceiptId i) (btree_set (map wd_emitter_name dels))
               (ce_gap ce 1 (ce_gap ce 0 d))))"
    using assms Ok
    by (auto simp: run_replay_id_def Let_def filter_empty_conv split: result.splits prod.splits if_splits)
  then show ?thesis by (rule exI)
qed (use assms in \<open>auto simp: run_replay_id_def Let_def split: result.splits\<close>)

lemma replay_id_steps:
  assumes "run_replay_id x ce url config i emitter d = (res, d')" and "\<And>k. others D (ce_gap ce k)"
    and "same_config D ce"
  shows "steps D d d'"
proof -
  let ?d0 = "ce_gap ce 0 d"
  have g: "steps D d ?d0" "steps D d (ce_gap ce 1 ?d0)"
    using others_steps[OF assms(2)] by (blast intro: rtranclp_trans)+
  show ?thesis
  proof (cases emitter)
    case None
    have "steps D d d'" if "load_config ce config = Ok parsed"
      "set (map wd_emitter_name dels) \<subseteq> en_name ` set (hc_emitters parsed)"
      "d' = snd (insert_replays (ce_env ce 1) (ReceiptId i) (btree_set (map wd_emitter_name dels)) (ce_gap ce 1 ?d0))"
      for parsed dels
      using steps_replays[OF g(2)] configured_names[OF assms(3) that(1,2)] that(3) by simp
    then show ?thesis
      using replay_id_all_tables[OF assms(1)[unfolded None]] g(1) by blast
  next
    case (Some name)
    have "steps D d d'" if "load_config ce config = Ok parsed" "name \<in> en_name ` set (hc_emitters parsed)"
      "d' = snd (insert_replay (ce_env ce 0) (ReceiptId i) name ?d0)" for parsed
      using steps_replay[OF g(1)] configured_names[OF assms(3) that(1), of "{name}"] that(2,3) by simp
    then show ?thesis
      using replay_id_one_tables[OF assms(1)[unfolded Some]] g(1) by blast
  qed
qed

lemma dlq_retry_tables:
  assumes "dlq_retry x ce url config i d = (res, d')"
  shows "d' \<in> {d, ce_gap ce 0 d} \<or> (\<exists>parsed j name. load_config ce config = Ok parsed
    \<and> name \<in> en_name ` set (hc_emitters parsed)
    \<and> d' = snd (insert_replay (ce_env ce 1) j name (ce_gap ce 1 (ce_gap ce 0 d))))"
proof (cases "fetch_delivery x ce i (ce_gap ce 0 d)")
  case (Ok p)
  obtain w r where p: "p = (w, r)" by (cases p)
  have "d' \<in> {d, ce_gap ce 0 d} \<or> (\<exists>parsed. load_config ce config = Ok parsed
    \<and> wd_emitter_name w \<in> en_name ` set (hc_emitters parsed)
    \<and> d' = snd (insert_replay (ce_env ce 1) (receipt_id r) (wd_emitter_name w) (ce_gap ce 1 (ce_gap ce 0 d))))"
    using assms Ok p by (auto simp: dlq_retry_def Let_def split: result.splits prod.splits if_splits)
  then show ?thesis by blast
qed (use assms in \<open>auto simp: dlq_retry_def Let_def split: result.splits\<close>)

lemma dlq_retry_steps:
  assumes "dlq_retry x ce url config i d = (res, d')" and "\<And>k. others D (ce_gap ce k)" and "same_config D ce"
  shows "steps D d d'"
proof -
  let ?d0 = "ce_gap ce 0 d"
  have g: "steps D d ?d0" "steps D d (ce_gap ce 1 ?d0)"
    using others_steps[OF assms(2)] by (blast intro: rtranclp_trans)+
  have "steps D d d'" if "load_config ce config = Ok parsed" "name \<in> en_name ` set (hc_emitters parsed)"
    "d' = snd (insert_replay (ce_env ce 1) j name (ce_gap ce 1 ?d0))" for parsed j name
    using steps_replay[OF g(2)] configured_names[OF assms(3) that(1), of "{name}"] that(2,3) by simp
  then show ?thesis using dlq_retry_tables[OF assms(1)] g(1) by blast
qed

lemma command_steps:
  assumes "run_command x pr ce c d = Some (res, d')" and "\<And>k. others D (ce_gap ce k)"
    and "same_config D ce" and "db_inv d" and "inbox D d"
  shows "steps D d d'"
proof (cases c)
  case (CM_Replay rc)
  have g: "steps D d (ce_gap ce 0 d)" by (rule others_steps[OF assms(2)])
  show ?thesis
  proof (cases rc)
    case (RP_Failed url provider since lmt)
    have "inbox D (ce_gap ce 0 d)"
      using steps_inbox[OF g assms(4,5)] .
    then show ?thesis
      using replay_failed_tables[of D ce d x url provider since lmt res d'] assms(1) g
      by (auto simp: CM_Replay RP_Failed)
  next
    case (RP_Id url config i emitter)
    obtain r where "run_replay_id x ce url config i emitter d = (r, d')"
      using assms(1) by (cases "run_replay_id x ce url config i emitter d") (auto simp: CM_Replay RP_Id)
    then show ?thesis by (rule replay_id_steps[OF _ assms(2,3)])
  qed
next
  case (CM_Dlq dc)
  show ?thesis
  proof (cases dc)
    case (DQ_Retry url config i)
    obtain r where "dlq_retry x ce url config i d = (r, d')"
      using assms(1) by (cases "dlq_retry x ce url config i d") (auto simp: CM_Dlq DQ_Retry)
    then show ?thesis by (rule dlq_retry_steps[OF _ assms(2,3)])
  qed (use assms(1) in \<open>simp_all add: CM_Dlq\<close>)
qed (use assms(1) in simp_all)

section \<open>Runs\<close>

text \<open>
  One task at a time from its start to its end, with anything other tasks may do in between; or a
  restart of the server, which loses the cache. Two overlapping tasks are each a task whose gaps
  hold the other's statements.
\<close>

inductive system_step :: "deployment \<Rightarrow> world \<Rightarrow> world \<Rightarrow> bool" for D where
  Webhook: "wothers D (ie_gap1 env) \<Longrightarrow> wothers D (ie_gap2 env) \<Longrightarrow>
    ingest_webhook (dp_ext D) (dp_pipeline D out) env provider hs body w = (resp, ms, w') \<Longrightarrow>
    system_step D w w'"
| Worker: "(\<And>k. others D (g k)) \<Longrightarrow> ws_store s = (d, g) \<Longrightarrow>
    worker_run powi_fn amid_ops wk envs s = Some f \<Longrightarrow>
    system_step D (l, d) (l, fst (ws_store (flow_state f)))"
| Admin: "(\<And>k. others D (ae_gap env k)) \<Longrightarrow> p_emitter_names (as_pipeline st) = dp_names D \<Longrightarrow>
    admin_route (dp_ext D) pr st hs req env d = (resp, d') \<Longrightarrow>
    system_step D (l, d) (l, d')"
| Command: "(\<And>k. others D (ce_gap ce k)) \<Longrightarrow> same_config D ce \<Longrightarrow>
    run_command (dp_ext D) pr ce c d = Some (res, d') \<Longrightarrow>
    system_step D (l, d) (l, d')"
| Restart: "recent_new cap = Some l' \<Longrightarrow> system_step D (l, d) (l', d)"

lemma system_step_cases:
  assumes "system_step D w w'" and "world_ok D w"
  shows "wsteps D w w' \<or> (\<exists>cap. recent_new cap = Some (fst w')) \<and> snd w' = snd w"
  using assms(1)
proof (cases rule: system_step.cases)
  case (Webhook env out provider hs body resp ms)
  then obtain res where "ingest (dp_ext D) (dp_pipeline D out) env provider hs body w = (res, ms, w')"
    by (auto simp: ingest_webhook_def split: prod.splits)
  from ingest_steps[OF this Webhook(1,2) assms(2)] show ?thesis by blast
next
  case (Worker g s d powi_fn wk envs f l)
  from worker_steps[OF Worker(5), of D] have "steps D d (fst (ws_store (flow_state f)))"
    using Worker(3,4) by simp
  then show ?thesis using steps_world Worker(1,2) by blast
next
  case (Admin env st pr hs req d resp d' l)
  from admin_steps[OF Admin(5) Admin(3,4)] show ?thesis using steps_world Admin(1,2) by blast
next
  case (Command ce pr c d res d' l)
  from command_steps[OF Command(5) Command(3,4)] show ?thesis
    using steps_world Command(1,2) assms(2) by (auto simp: world_ok_def)
next
  case (Restart cap l' l d)
  then show ?thesis by auto
qed

definition running :: "deployment \<Rightarrow> world \<Rightarrow> bool" where
  "running D w \<longleftrightarrow> (\<exists>cap c. recent_new cap = Some c \<and> (system_step D)\<^sup>*\<^sup>* (c, empty_db) w)"

lemma system_step_ok:
  assumes "system_step D w w'" and "world_ok D w"
  shows "world_ok D w' \<and> steps D (snd w) (snd w')"
  using system_step_cases[OF assms]
proof
  assume "wsteps D w w'"
  then show ?thesis using wsteps_ok[OF _ assms(2)] wsteps_tables by blast
next
  assume "(\<exists>cap. recent_new cap = Some (fst w')) \<and> snd w' = snd w"
  then show ?thesis using assms(2) recent_new_inv by (auto simp: world_ok_def)
qed

lemma system_steps_ok:
  "(system_step D)\<^sup>*\<^sup>* w w' \<Longrightarrow> world_ok D w \<Longrightarrow> world_ok D w' \<and> steps D (snd w) (snd w')"
proof (induction rule: rtranclp_induct)
  case (step v w')
  then show ?case using system_step_ok[of D v w'] by (auto intro: rtranclp_trans)
qed simp

lemma start_ok: "recent_new cap = Some c \<Longrightarrow> world_ok D (c, empty_db)"
  using recent_new_inv[of cap c] empty_inbox[of D] by (simp add: world_ok_def)

lemma running_ok: "running D w \<Longrightarrow> world_ok D w"
  using system_steps_ok start_ok unfolding running_def by blast

section \<open>Histories\<close>

text \<open>A delivery row later on: the same identity, and unchanged once it was final.\<close>

definition row_later :: "delivery_row \<Rightarrow> delivery_row \<Rightarrow> bool" where
  "row_later r r' \<longleftrightarrow>
     dr_delivery_id r' = dr_delivery_id r \<and> dr_receipt_id r' = dr_receipt_id r
     \<and> dr_emitter_name r' = dr_emitter_name r \<and> dr_created_at r' = dr_created_at r
     \<and> (dr_state r = ''emitted'' \<or> dr_state r = ''dead_lettered'' \<or> dr_immutable r \<longrightarrow> r' = r)"

definition later :: "db \<Rightarrow> db \<Rightarrow> bool" where
  "later d d' \<longleftrightarrow>
     take (length (receipts d)) (receipts d') = receipts d
     \<and> list_all2 row_later (deliveries d) (take (length (deliveries d)) (deliveries d'))"

lemma row_step_later: "row_step r r' \<Longrightarrow> row_later r r'"
  using row_step_keeps row_step_terminal unfolding row_later_def by blast

lemma row_later_trans: "row_later a b \<Longrightarrow> row_later b c \<Longrightarrow> row_later a c"
  unfolding row_later_def by metis

lemma later_refl: "later d d"
  by (simp add: later_def list_all2_same row_later_def)

lemma later_length: "later d d' \<Longrightarrow> length (deliveries d) \<le> length (deliveries d')"
  by (auto simp: later_def dest!: list_all2_lengthD)

lemma db_step_later:
  assumes "db_step d d'" shows "later d d'"
proof -
  obtain rs old new where d': "receipts d' = receipts d @ rs" "deliveries d' = old @ new"
      "list_all2 row_step (deliveries d) old"
    using assms by (auto simp: db_step_def)
  then have "list_all2 row_later (deliveries d) old" "length old = length (deliveries d)"
    using list_all2_mono[OF d'(3) row_step_later] by (auto dest: list_all2_lengthD)
  then show ?thesis using d' by (simp add: later_def)
qed

lemma later_trans:
  assumes "later a b" and "later b c" shows "later a c"
proof -
  let ?n = "length (deliveries a)" and ?m = "length (receipts a)"
  have m: "?m \<le> length (receipts b)"
    using arg_cong[where f = length, OF conjunct1[OF assms(1)[unfolded later_def]]] by simp
  have "take ?m (receipts c) = take ?m (take (length (receipts b)) (receipts c))"
    using m by (simp add: min_def)
  also have "\<dots> = receipts a" using assms unfolding later_def by metis
  finally have rs: "take ?m (receipts c) = receipts a" .
  have "list_all2 row_later (take ?n (deliveries b)) (take ?n (take (length (deliveries b)) (deliveries c)))"
    using assms(2) by (intro list_all2_takeI) (simp add: later_def)
  then have bc: "list_all2 row_later (take ?n (deliveries b)) (take ?n (deliveries c))"
    using later_length[OF assms(1)] by (simp add: min_def)
  have ab: "list_all2 row_later (deliveries a) (take ?n (deliveries b))"
    using assms(1) by (simp add: later_def)
  have "list_all2 row_later (deliveries a) (take ?n (deliveries c))"
    by (rule list_all2_trans[OF _ ab bc]) (rule row_later_trans)
  then show ?thesis using rs by (simp add: later_def)
qed

lemma steps_later: "steps D d d' \<Longrightarrow> db_inv d \<Longrightarrow> later d d'"
proof (induction rule: rtranclp_induct)
  case (step e d')
  then have "db_step e d'" using table_step_db_step steps_inv by blast
  then show ?case using step later_trans db_step_later by blast
qed (rule later_refl)

section \<open>The advisory check\<close>

lemma inbox_key:
  assumes "inbox D d" and "row \<in> set (receipts d)"
  obtains provider body where "rr_dedupe_key row = provider @ '':'' @ compute_payload_hash (dp_ext D) body"
    "rr_payload_hash row = compute_payload_hash (dp_ext D) body"
proof -
  obtain r where "admissible D r" "row = row_of r" using assms by (auto simp: inbox_def)
  then show ?thesis
    using that by (auto simp: admissible_def build_receipt_def receipt_to_row_def)
qed

text \<open>With digests of one length, a key determines its digest.\<close>

lemma inbox_pairs:
  assumes "inbox D d" and "(provider @ '':'' @ compute_payload_hash (dp_ext D) body, h) \<in> row_pairs d"
    and "\<And>b b'. length (compute_payload_hash (dp_ext D) b) = length (compute_payload_hash (dp_ext D) b')"
  shows "h = compute_payload_hash (dp_ext D) body"
proof -
  obtain row where row: "row \<in> set (receipts d)" "rr_payload_hash row = h"
      "rr_dedupe_key row = provider @ '':'' @ compute_payload_hash (dp_ext D) body"
    using assms(2) by (auto simp: row_pairs_def)
  obtain provider' body' where "rr_dedupe_key row = provider' @ '':'' @ compute_payload_hash (dp_ext D) body'"
      "rr_payload_hash row = compute_payload_hash (dp_ext D) body'"
    by (rule inbox_key[OF assms(1) row(1)])
  then show ?thesis using row assms(3)[of body body'] by simp
qed

lemma storage_query_total:
  assumes "wf_db d" and "rf_limit f = None" and "rf_offset f = None"
  obtains rs where "storage_query IO_Ok f d = Ok rs"
proof -
  let ?rows = "newest_first (filter (filter_matches f (map_option processing_state_name (rf_processing_state f)))
    (receipts d))"
  have "receipt_from_row r = Ok (decode_receipt r)" if "r \<in> set (take 1000 ?rows)" for r
    using in_set_takeD[OF that] assms(1)
    by (intro decode_receipt_Ok) (auto simp: newest_first_def wf_db_def list_all_iff)
  then have "collect_results receipt_from_row (take 1000 ?rows) = Ok (map decode_receipt (take 1000 ?rows))"
    by (rule collect_results_all_Ok)
  then show ?thesis
    using that assms(2,3) by (simp add: storage_query_def read_stmt_def sql_window_def)
qed

end
