(* ===== verification/Progress.thy ===== *)
theory Progress
  imports System
begin

text \<open>
  Progress of the dispatch workers (\<^verbatim>\<open>crates/hookbox-server/src/worker.rs\<close>): while the database answers
  and the downstream accepts, every iteration of a worker emits a full batch of the oldest due rows,
  so a run of enough iterations emits everything that was due. The measure is the backlog, the number
  of rows of the emitter that are not yet final.
\<close>

text \<open>An iteration without faults, at or after \<open>t0\<close>, that finds the downstream accepting. The reclaim and
  the gauges may still fail.\<close>

definition calm_tick :: "timestamp \<Rightarrow> tick_env \<Rightarrow> bool" where
  "calm_tick t0 env \<longleftrightarrow>
     te_wake env = W_Timer \<and> \<not> te_shutdown env
     \<and> (\<forall>k. e_io (te_claim env) k = IO_Ok) \<and> e_locked (te_claim env) = [] \<and> t0 \<le> e_now (te_claim env)
     \<and> (\<forall>k. de_emit (te_dispatch env k) = Ok () \<and> e_io (de_db (te_dispatch env k)) 0 = IO_Ok)"

definition open_row :: "string \<Rightarrow> delivery_row \<Rightarrow> bool" where
  "open_row e r \<longleftrightarrow>
     dr_emitter_name r = e \<and> \<not> dr_immutable r
     \<and> (dr_state r = ''pending'' \<or> dr_state r = ''failed'' \<or> dr_state r = ''in_flight'')"

definition backlog :: "string \<Rightarrow> db \<Rightarrow> nat" where
  "backlog e d = length (filter (open_row e) (deliveries d))"

section \<open>A batch\<close>

definition emits :: "uuid set \<Rightarrow> delivery_row \<Rightarrow> delivery_row \<Rightarrow> bool" where
  "emits ids r r' \<longleftrightarrow>
     (if dr_delivery_id r \<in> ids \<and> dr_state r = ''in_flight'' then \<exists>t. r' = emitted_row t r else r' = r)"

lemma emits_trans: "emits {i} a b \<Longrightarrow> emits ids b c \<Longrightarrow> emits (insert i ids) a c"
  by (auto simp: emits_def emitted_row_def split: if_splits)

lemma dispatch_one_emits:
  assumes "de_emit env = Ok ()" and "e_io (de_db env) 0 = IO_Ok"
  obtains s' where "dispatch_one powi_fn pg_ops wk env x r s = Some s'"
    "list_all2 (emits {did_uuid (wd_delivery_id x)}) (deliveries (ws_store s)) (deliveries (ws_store s'))"
proof -
  let ?t = "e_now (de_db env)"
  obtain s' where s': "dispatch_one powi_fn pg_ops wk env x r s = Some s'"
      "ws_store s' = mark_rows (wd_delivery_id x) (emitted_row ?t) (ws_store s)"
    using assms
    by (simp add: dispatch_one_def Let_def pg_ops_def mark_emitted_def exec_stmt_def update_deliveries_def
        mark_rows_def)
  have "list_all2 (emits {did_uuid (wd_delivery_id x)}) (deliveries (ws_store s)) (deliveries (ws_store s'))"
    by (auto simp: s'(2) mark_rows_def list_all2_conv_all_nth emits_def in_flight_row_def)
  then show ?thesis using that s'(1) by blast
qed

lemma dispatch_all_emits:
  assumes "\<And>k. de_emit (envs k) = Ok () \<and> e_io (de_db (envs k)) 0 = IO_Ok"
  shows "\<exists>s'. dispatch_all powi_fn pg_ops wk envs ps s = Some s'
    \<and> list_all2 (emits (did_uuid ` wd_delivery_id ` fst ` set ps)) (deliveries (ws_store s)) (deliveries (ws_store s'))"
  using assms
proof (induction ps arbitrary: envs s)
  case Nil
  then show ?case by (simp add: emits_def list_all2_same)
next
  case (Cons p ps)
  obtain x r where p: "p = (x, r)" by (cases p)
  obtain s1 where s1: "dispatch_one powi_fn pg_ops wk (envs 0) x r s = Some s1"
    "list_all2 (emits {did_uuid (wd_delivery_id x)}) (deliveries (ws_store s)) (deliveries (ws_store s1))"
    using dispatch_one_emits[of "envs 0"] Cons.prems by blast
  obtain s' where s': "dispatch_all powi_fn pg_ops wk (\<lambda>k. envs (Suc k)) ps s1 = Some s'"
    "list_all2 (emits (did_uuid ` wd_delivery_id ` fst ` set ps)) (deliveries (ws_store s1)) (deliveries (ws_store s'))"
    using Cons.IH[of "\<lambda>k. envs (Suc k)" s1] Cons.prems by blast
  have "list_all2 (emits (insert (did_uuid (wd_delivery_id x)) (did_uuid ` wd_delivery_id ` fst ` set ps)))
      (deliveries (ws_store s)) (deliveries (ws_store s'))"
    by (rule list_all2_trans[OF _ s1(2) s'(2)]) (rule emits_trans)
  then show ?case using s1(1) s'(1) by (simp add: p)
qed

section \<open>An iteration\<close>

text \<open>What a calm iteration does to the rows after its reclaim: the claimed ones end emitted.\<close>

definition served :: "delivery_row list \<Rightarrow> delivery_row \<Rightarrow> delivery_row \<Rightarrow> bool" where
  "served c r r' \<longleftrightarrow>
     (if r \<in> set c then dr_state r' = ''emitted'' \<and> dr_delivery_id r' = dr_delivery_id r else r' = r)"

lemma decode_lease_id: "wd_delivery_id (decode_delivery (lease now r)) = DeliveryId (dr_delivery_id r)"
  using delivery_from_row_Ok[of "lease now r" DS_InFlight] by (simp add: lease_def)

lemma claim_calm:
  fixes e :: string
  assumes "db_inv d" and "\<And>k. e_io env k = IO_Ok" and "e_locked env = []" and "0 \<le> b"
  defines "c \<equiv> claimed_rows (e_now env) [] e (nat b) d"
  obtains ps where "claim_pending env e b d = (Ok ps, after_claim (e_now env) [] e (nat b) d)"
    "did_uuid ` wd_delivery_id ` fst ` set ps = dr_delivery_id ` set c" "ps = [] \<longleftrightarrow> c = []"
proof -
  obtain ps where ps: "with_receipts env 1 (map (lease (e_now env)) c) (after_claim (e_now env) [] e (nat b) d) = Ok ps"
    "map fst ps = map decode_delivery (map (lease (e_now env)) c)"
    unfolding c_def using leased_with_receipts[OF assms(1,2), of "e_now env" "[]" e "nat b"] by blast
  have "fst ` set ps = decode_delivery ` lease (e_now env) ` set c"
    using arg_cong[OF ps(2), of set] by (simp add: image_image)
  then have "did_uuid ` wd_delivery_id ` fst ` set ps = dr_delivery_id ` set c"
    by (simp add: image_image decode_lease_id)
  moreover have "ps = [] \<longleftrightarrow> c = []" using arg_cong[OF ps(2), of length] by auto
  moreover have "claim_pending env e b d = (Ok ps, after_claim (e_now env) [] e (nat b) d)"
    using assms(1-4) ps(1) by (simp add: claim_pending_def exec_stmt_def claim_stmt_eq db_inv_def c_def)
  ultimately show ?thesis using that by blast
qed

lemma claimed_then_emitted:
  assumes "wf_db d" and "c = claimed_rows now [] e n d"
    and "list_all2 (emits (dr_delivery_id ` set c)) (deliveries (after_claim now [] e n d)) rows"
  shows "list_all2 (served c) (deliveries d) rows"
proof -
  have "served c r r'" if "r \<in> set (deliveries d)"
    "emits (dr_delivery_id ` set c) (if r \<in> set c then lease now r else r) r'" for r r'
    using that claimed_ids[OF assms(1) that(1), of now "[]" e n]
    by (auto simp: served_def emits_def assms(2) lease_def emitted_row_def split: if_splits)
  then show ?thesis
    using assms(3) unfolding after_claim_def assms(2)
    by (auto simp: list_all2_conv_all_nth)
qed

lemma reclaim_map:
  obtains f where "deliveries (snd (reclaim_expired env e dur d)) = map f (deliveries d)"
    "\<forall>r. f r = r \<or> dr_emitter_name r = e \<and> dr_state r = ''in_flight'' \<and> f r = reclaimed (e_now env) r"
proof (cases "snd (reclaim_expired env e dur d) = d")
  case True
  then show ?thesis using that[of "\<lambda>r. r"] by simp
next
  case False
  then obtain us where "snd (reclaim_expired env e dur d) = d\<lparr>deliveries := map (\<lambda>r.
      if lease_expired (e_now env) us e r then reclaimed (e_now env) r else r) (deliveries d)\<rparr>"
    by (cases "interval_of_secs (as_secs_f64 dur)")
      (auto simp: reclaim_expired_def exec_stmt_def reclaim_stmt_def update_deliveries_def split: io.splits)
  then show ?thesis
    using that[of "\<lambda>r. if lease_expired (e_now env) us e r then reclaimed (e_now env) r else r"]
    by (auto simp: lease_expired_def)
qed

lemma reclaim_backlog: "backlog e (snd (reclaim_expired env n dur d)) = backlog e d"
proof -
  obtain f where f: "deliveries (snd (reclaim_expired env n dur d)) = map f (deliveries d)"
    "\<forall>r. f r = r \<or> dr_emitter_name r = n \<and> dr_state r = ''in_flight'' \<and> f r = reclaimed (e_now env) r"
    by (rule reclaim_map[where env = env and e = n and dur = dur and d = d])
  have "open_row e (f r) = open_row e r" for r
    using f(2)[rule_format, of r] by (auto simp: open_row_def reclaimed_def)
  then show ?thesis by (simp add: backlog_def f(1) filter_map comp_def)
qed

lemma reclaim_due:
  assumes "r \<in> set (deliveries d)" and "claimable t e r"
  shows "r \<in> set (deliveries (snd (reclaim_expired env n dur d)))"
proof -
  obtain f where f: "deliveries (snd (reclaim_expired env n dur d)) = map f (deliveries d)"
    "\<forall>r. f r = r \<or> dr_emitter_name r = n \<and> dr_state r = ''in_flight'' \<and> f r = reclaimed (e_now env) r"
    by (rule reclaim_map[where env = env and e = n and dur = dur and d = d])
  have "f r = r" using f(2)[rule_format, of r] assms(2) by (auto simp: claimable_def)
  then show ?thesis using assms(1) by (auto simp: f(1) intro: rev_image_eqI)
qed

lemma pg_ops_calls: "do_reclaim_expired pg_ops = reclaim_expired" "do_claim_pending pg_ops = claim_pending"
  by (simp_all add: pg_ops_def)

text \<open>One calm iteration: it goes on, and the rows are served.\<close>

lemma tick_serves:
  fixes wk :: emitter_worker and env :: tick_env and s :: "db worker_state"
  assumes "calm_tick t0 env" and "db_inv (ws_store s)" and "ew_concurrency wk < 2 ^ 63"
  defines "d1 \<equiv> snd (reclaim_expired (te_reclaim env) (ew_name wk) (ew_lease_duration wk) (ws_store s))"
    and "c \<equiv> claimed_rows (e_now (te_claim env)) [] (ew_name wk) (ew_concurrency wk)
      (snd (reclaim_expired (te_reclaim env) (ew_name wk) (ew_lease_duration wk) (ws_store s)))"
  obtains s' where "worker_tick powi_fn pg_ops wk env s = Some (Continue s')"
    "list_all2 (served c) (deliveries d1) (deliveries (ws_store s'))"
proof -
  let ?e = "ew_name wk" and ?now = "e_now (te_claim env)"
  obtain n where rc: "reclaim_expired (te_reclaim env) ?e (ew_lease_duration wk) (ws_store s) = (n, d1)"
    unfolding d1_def by (metis prod.collapse)
  have inv: "db_inv d1" using reclaim_step[OF assms(2)] unfolding d1_def by blast
  have wf: "wf_db d1" using inv by (simp add: db_inv_def)
  have b: "usize_as_i64 (ew_concurrency wk) = int (ew_concurrency wk)" by (rule usize_as_i64_small[OF assms(3)])
  have c: "c = claimed_rows ?now [] ?e (ew_concurrency wk) d1" by (simp add: c_def d1_def)
  have calm: "e_io (te_claim env) k = IO_Ok" "e_locked (te_claim env) = []" for k
    using assms(1) by (simp_all add: calm_tick_def)
  obtain ps where ps: "claim_pending (te_claim env) ?e (int (ew_concurrency wk)) d1
      = (Ok ps, after_claim ?now [] ?e (ew_concurrency wk) d1)"
    "did_uuid ` wd_delivery_id ` fst ` set ps = dr_delivery_id ` set c" "ps = [] \<longleftrightarrow> c = []"
    by (rule claim_calm[OF inv calm, of "int (ew_concurrency wk)" ?e]) (simp_all add: c)
  define s2 where "s2 = s\<lparr>ws_metrics := ws_metrics s @ reclaim_metrics ?e n,
    ws_store := after_claim ?now [] ?e (ew_concurrency wk) d1\<rparr>"
  obtain s3 where s3: "dispatch_all powi_fn pg_ops wk (te_dispatch env) ps s2 = Some s3"
    "list_all2 (emits (dr_delivery_id ` set c)) (deliveries (ws_store s2)) (deliveries (ws_store s3))"
    using dispatch_all_emits[of "te_dispatch env" powi_fn wk ps s2] assms(1) ps(2) by (auto simp: calm_tick_def)
  have finished: "list_all2 (served c) (deliveries d1) (deliveries (ws_store s3))"
    using claimed_then_emitted[OF wf c] s3(2) by (simp add: s2_def)
  let ?s4 = "refresh_gauges pg_ops wk (te_gauges env) (te_now env) s3"
  have "worker_tick powi_fn pg_ops wk env s = Some (Continue ?s4)"
    using assms(1) rc ps(1) s3(1)
    by (cases "ps = []") (simp_all add: worker_tick_def pg_ops_calls calm_tick_def b s2_def)
  then show ?thesis using that[of ?s4] finished by simp
qed

section \<open>The backlog shrinks\<close>

lemma served_backlog:
  assumes "list_all2 (served c) (deliveries d) (deliveries d')" and "wf_db d"
    and "distinct c" and "set c \<subseteq> set (filter (open_row e) (deliveries d))"
  shows "backlog e d' + length c = backlog e d"
proof -
  let ?o = "filter (open_row e) (deliveries d)"
  from assms(1) have "length (filter (open_row e) (deliveries d'))
      = length (filter (\<lambda>r. r \<notin> set c) (filter (open_row e) (deliveries d)))"
    by (induction rule: list_all2_induct) (auto simp: served_def open_row_def split: if_splits)
  moreover have "length (filter (\<lambda>r. r \<in> set c) ?o) = length c"
  proof -
    have "distinct (filter (\<lambda>r. r \<in> set c) ?o)"
      using assms(2) by (intro distinct_filter) (simp add: wf_db_def distinct_map)
    then have "length (filter (\<lambda>r. r \<in> set c) ?o) = card (set (filter (\<lambda>r. r \<in> set c) ?o))"
      by (rule distinct_card[symmetric])
    also have "set (filter (\<lambda>r. r \<in> set c) ?o) = set c" using assms(4) by auto
    finally show ?thesis using distinct_card[OF assms(3)] by simp
  qed
  ultimately show ?thesis
    using sum_length_filter_compl[of "\<lambda>r. r \<in> set c" ?o] by (simp add: backlog_def)
qed

lemma claimable_open: "claimable t e r \<Longrightarrow> open_row e r"
  by (auto simp: claimable_def open_row_def)

lemma claimed_facts:
  fixes now :: timestamp and e :: string and n :: nat
  assumes "wf_db d"
  defines "c \<equiv> claimed_rows now [] e n d"
  shows "distinct c" and "set c \<subseteq> set (filter (open_row e) (deliveries d))"
    and "r \<in> set (deliveries d) \<Longrightarrow> claimable now e r \<Longrightarrow> r \<in> set c \<or> length c = n"
proof -
  show "distinct c"
    using assms(1) by (simp add: c_def claimed_rows_def wf_db_def distinct_map)
  show "set c \<subseteq> set (filter (open_row e) (deliveries d))"
    using set_claimed_rows[of _ now "[]" e n d] claimable_open unfolding c_def by auto
  assume r: "r \<in> set (deliveries d)" "claimable now e r"
  show "r \<in> set c \<or> length c = n"
  proof (rule disjCI)
    assume "length c \<noteq> n"
    then have "take n (sort_key dr_next_attempt_at (filter (claimable now e) (deliveries d)))
        = sort_key dr_next_attempt_at (filter (claimable now e) (deliveries d))"
      by (simp add: c_def claimed_rows_def min_def split: if_splits)
    then show "r \<in> set c" using r by (simp add: c_def claimed_rows_def)
  qed
qed

lemma claimable_mono: "claimable t e r \<Longrightarrow> t \<le> t' \<Longrightarrow> claimable t' e r"
  by (auto simp: claimable_def)

text \<open>After a calm iteration a due row is emitted, or the backlog is a full batch smaller.\<close>

lemma tick_progress:
  assumes "calm_tick t0 env" and "db_inv (ws_store s)" and "ew_concurrency wk < 2 ^ 63"
  obtains s' where "worker_tick powi_fn pg_ops wk env s = Some (Continue s')"
    "backlog (ew_name wk) (ws_store s') \<le> backlog (ew_name wk) (ws_store s)"
    "\<And>r. r \<in> set (deliveries (ws_store s)) \<Longrightarrow> claimable t0 (ew_name wk) r \<Longrightarrow>
       (\<exists>r' \<in> set (deliveries (ws_store s')). dr_delivery_id r' = dr_delivery_id r \<and> dr_state r' = ''emitted'')
       \<or> r \<in> set (deliveries (ws_store s'))
         \<and> backlog (ew_name wk) (ws_store s') + ew_concurrency wk = backlog (ew_name wk) (ws_store s)"
proof -
  let ?e = "ew_name wk" and ?now = "e_now (te_claim env)"
  define d1 where "d1 = snd (reclaim_expired (te_reclaim env) ?e (ew_lease_duration wk) (ws_store s))"
  define c where "c = claimed_rows ?now [] ?e (ew_concurrency wk) d1"
  obtain s' where s': "worker_tick powi_fn pg_ops wk env s = Some (Continue s')"
    "list_all2 (served c) (deliveries d1) (deliveries (ws_store s'))"
    using tick_serves[OF assms, of powi_fn] unfolding c_def d1_def by blast
  have wf: "wf_db d1" using reclaim_step[OF assms(2)] unfolding d1_def db_inv_def by blast
  note cf = claimed_facts[OF wf, where now = ?now and e = ?e and n = "ew_concurrency wk", folded c_def]
  have count: "backlog ?e (ws_store s') + length c = backlog ?e (ws_store s)"
    using served_backlog[OF s'(2) wf cf(1,2)] reclaim_backlog by (simp add: d1_def)
  have row: "(\<exists>r' \<in> set (deliveries (ws_store s')). dr_delivery_id r' = dr_delivery_id r \<and> dr_state r' = ''emitted'')
      \<or> r \<in> set (deliveries (ws_store s')) \<and> backlog ?e (ws_store s') + ew_concurrency wk = backlog ?e (ws_store s)"
    if "r \<in> set (deliveries (ws_store s))" "claimable t0 ?e r" for r
  proof -
    have r1: "r \<in> set (deliveries d1)" using reclaim_due[OF that] by (simp add: d1_def)
    have "claimable ?now ?e r" using that(2) assms(1) claimable_mono by (simp add: calm_tick_def)
    note full = cf(3)[OF r1 this]
    obtain r' where "r' \<in> set (deliveries (ws_store s'))" "served c r r'"
      using s'(2) r1 by (metis in_set_conv_nth list_all2_conv_all_nth)
    then show ?thesis using full count by (auto simp: served_def split: if_splits)
  qed
  show ?thesis by (rule that[OF s'(1) _ row]) (use count in simp_all)
qed

section \<open>Runs\<close>

lemma db_steps_later: "db_step\<^sup>*\<^sup>* d d' \<Longrightarrow> later d d'"
  by (induction rule: rtranclp_induct) (auto intro: later_refl later_trans db_step_later)

lemma later_emitted:
  assumes "later d d'" and "r \<in> set (deliveries d)" and "dr_state r = ''emitted''"
  shows "r \<in> set (deliveries d')"
proof -
  obtain r' where "r' \<in> set (take (length (deliveries d)) (deliveries d'))" "row_later r r'"
    using assms(1,2) unfolding later_def by (metis in_set_conv_nth list_all2_conv_all_nth)
  then show ?thesis using assms(3) in_set_takeD by (fastforce simp: row_later_def)
qed

lemma calm_run:
  assumes "list_all (calm_tick t0) envs" and "db_inv (ws_store s)" and "ew_concurrency wk < 2 ^ 63"
  shows "\<exists>s'. worker_run powi_fn pg_ops wk envs s = Some (Continue s') \<and> later (ws_store s) (ws_store s')"
  using assms(1,2)
proof (induction envs arbitrary: s)
  case Nil
  then show ?case by (simp add: later_refl)
next
  case (Cons env envs)
  obtain s1 where s1: "worker_tick powi_fn pg_ops wk env s = Some (Continue s1)"
    using tick_progress[of t0 env s wk powi_fn] Cons.prems assms(3) by auto
  have "db_step\<^sup>*\<^sup>* (ws_store s) (ws_store s1) \<and> db_inv (ws_store s1)"
    using pg.tick_steps[OF Cons.prems(2) s1] by (simp add: flow_state_def)
  then show ?case
    using Cons.IH[of s1] Cons.prems(1) s1 db_steps_later later_trans by fastforce
qed

text \<open>C8. A worker drains its backlog: once the database answers and the downstream accepts, a run of
  enough iterations (backlog over concurrency, rounded up) keeps going and emits every row of its
  emitter that was due at the start, whatever reclaims and retries came before.\<close>

theorem worker_drains_backlog:
  assumes "db_inv (ws_store s)" and "list_all (calm_tick t0) envs"
    and "0 < ew_concurrency wk" and "ew_concurrency wk < 2 ^ 63"
    and "backlog (ew_name wk) (ws_store s) \<le> length envs * ew_concurrency wk"
  shows "\<exists>s'. worker_run powi_fn pg_ops wk envs s = Some (Continue s')
    \<and> (\<forall>r \<in> set (deliveries (ws_store s)). claimable t0 (ew_name wk) r \<longrightarrow>
         (\<exists>r' \<in> set (deliveries (ws_store s')). dr_delivery_id r' = dr_delivery_id r \<and> dr_state r' = ''emitted''))"
  using assms(1,2,5)
proof (induction envs arbitrary: s)
  case Nil
  then have "filter (open_row (ew_name wk)) (deliveries (ws_store s)) = []" by (simp add: backlog_def)
  then show ?case using claimable_open by (fastforce simp: filter_empty_conv)
next
  case (Cons env envs)
  let ?e = "ew_name wk" and ?n = "ew_concurrency wk"
  let ?gone = "\<lambda>r s'. \<exists>r' \<in> set (deliveries (ws_store s')). dr_delivery_id r' = dr_delivery_id r \<and> dr_state r' = ''emitted''"
  have env: "calm_tick t0 env" "list_all (calm_tick t0) envs" using Cons.prems(2) by simp_all
  obtain s1 where s1: "worker_tick powi_fn pg_ops wk env s = Some (Continue s1)"
    and row: "\<And>r. r \<in> set (deliveries (ws_store s)) \<Longrightarrow> claimable t0 ?e r \<Longrightarrow> ?gone r s1
       \<or> r \<in> set (deliveries (ws_store s1)) \<and> backlog ?e (ws_store s1) + ?n = backlog ?e (ws_store s)"
    by (rule tick_progress[OF env(1) Cons.prems(1) assms(4)]) blast
  have inv1: "db_inv (ws_store s1)"
    using pg.tick_steps[OF Cons.prems(1) s1] by (simp add: flow_state_def)
  obtain s' where s': "worker_run powi_fn pg_ops wk envs s1 = Some (Continue s')" "later (ws_store s1) (ws_store s')"
    using calm_run[OF env(2) inv1 assms(4)] by blast
  have "?gone r s'" if r: "r \<in> set (deliveries (ws_store s))" "claimable t0 ?e r" for r
    using row[OF r]
  proof
    assume "?gone r s1"
    then show ?thesis using later_emitted[OF s'(2)] by blast
  next
    assume left: "r \<in> set (deliveries (ws_store s1)) \<and> backlog ?e (ws_store s1) + ?n = backlog ?e (ws_store s)"
    then have "backlog ?e (ws_store s1) \<le> length envs * ?n" using Cons.prems(3) by simp
    then show ?thesis using Cons.IH[OF inv1 env(2)] s'(1) left r(2) by auto
  qed
  then show ?case using s1 s'(1) by simp
qed

definition calm9 :: tick_env where
  "calm9 = (tick_with (Ok ()) 9)\<lparr>te_shutdown := False\<rparr>"

theorem worker_drains_backlog_witness:
  "\<exists>s' r'. worker_run (\<lambda>_ _. Fin 1) pg_ops worker0 [calm9] (wstate pending_db) = Some (Continue s')
     \<and> r' \<in> set (deliveries (ws_store s')) \<and> dr_delivery_id r' = 10 \<and> dr_state r' = ''emitted''"
proof -
  have store: "ws_store (wstate pending_db) = pending_db" by (simp add: wstate_def)
  have wk: "0 < ew_concurrency worker0" "ew_concurrency worker0 < 2 ^ 63" by (simp_all add: worker0_def)
  have calm: "list_all (calm_tick 9) [calm9]"
    by (simp add: calm_tick_def calm9_def tick_with_def env_ok_def)
  have due: "claimable 9 (ew_name worker0) (pending_row 5 10 1 ''a'')"
    "backlog (ew_name worker0) pending_db \<le> length [calm9] * ew_concurrency worker0"
    by (simp_all add: claimable_def worker0_def pending_row_def backlog_def pending_db_rows)
  show ?thesis
    using worker_drains_backlog[of "wstate pending_db" 9 "[calm9]" worker0 "\<lambda>_ _. Fin 1"]
      pending_db_inv calm wk due
    by (auto simp: store pending_db_rows pending_row_def)
qed

end
