(* ===== verification/End_To_End.thy ===== *)
theory End_To_End
  imports Progress
begin

text \<open>
  From acceptance to delivery: the dispatch workers of all emitters
  (\<^verbatim>\<open>crates/hookbox-server/src/worker.rs\<close>, one task each, spawned by \<^verbatim>\<open>serve.rs\<close>) in any
  interleaving of their iterations on one database. Each iteration serves its own emitter and leaves the
  rows of the others alone, so the backlogs of the emitters shrink independently; together they emit
  every row that was due.
\<close>

section \<open>Schedules\<close>

type_synonym schedule = "(emitter_worker \<times> tick_env) list"

fun run_schedule :: "(f64 \<Rightarrow> int \<Rightarrow> f64) \<Rightarrow> schedule \<Rightarrow> db \<Rightarrow> db option" where
  "run_schedule powi_fn [] d = Some d"
| "run_schedule powi_fn ((wk, env) # sched) d =
     (case worker_tick powi_fn pg_ops wk env (wstate d) of
        None \<Rightarrow> None
      | Some f \<Rightarrow> run_schedule powi_fn sched (ws_store (flow_state f)))"

text \<open>How many rows of an emitter the iterations of a schedule can claim.\<close>

definition capacity :: "string \<Rightarrow> schedule \<Rightarrow> nat" where
  "capacity e sched = sum_list (map (ew_concurrency \<circ> fst) (filter (\<lambda>p. ew_name (fst p) = e) sched))"

definition calm_entry :: "timestamp \<Rightarrow> emitter_worker \<times> tick_env \<Rightarrow> bool" where
  "calm_entry t0 p \<longleftrightarrow> calm_tick t0 (snd p) \<and> ew_concurrency (fst p) < 2 ^ 63"

lemma capacity_Cons:
  "capacity e ((wk, env) # sched) = (if ew_name wk = e then ew_concurrency wk else 0) + capacity e sched"
  by (simp add: capacity_def)

section \<open>What one iteration does to every row\<close>

lemma db_steps_rows:
  "db_step\<^sup>*\<^sup>* d d' \<Longrightarrow>
   \<exists>old new. deliveries d' = old @ new \<and> list_all2 row_step\<^sup>*\<^sup>* (deliveries d) old"
proof (induction rule: rtranclp_induct)
  case base
  show ?case by (intro exI[of _ "deliveries d"] exI[of _ "[]"]) (simp add: list_all2_same)
next
  case (step d1 d2)
  obtain old new where o1: "deliveries d1 = old @ new" "list_all2 row_step\<^sup>*\<^sup>* (deliveries d) old"
    using step.IH by blast
  obtain old2 new2 where o2: "deliveries d2 = old2 @ new2" "list_all2 row_step (old @ new) old2"
    using step.hyps(2) unfolding db_step_def o1(1) by blast
  obtain a b where ab: "old2 = a @ b" "list_all2 row_step old a"
    using o2(2) by (auto simp: list_all2_append1)
  have "list_all2 row_step\<^sup>*\<^sup>* (deliveries d) a"
    by (rule list_all2_trans[OF _ o1(2) ab(2)]) (rule rtranclp.rtrancl_into_rtrancl)
  then show ?case using o2(1) ab(1) by auto
qed

lemma row_steps_keep:
  "row_step\<^sup>*\<^sup>* r r' \<Longrightarrow> dr_delivery_id r' = dr_delivery_id r \<and> dr_receipt_id r' = dr_receipt_id r
     \<and> dr_emitter_name r' = dr_emitter_name r \<and> dr_created_at r' = dr_created_at r
     \<and> dr_immutable r' = dr_immutable r"
  by (induction rule: rtranclp_induct) (auto dest: row_step_keeps)

text \<open>After an iteration of a worker: a row of another emitter is untouched, and a due row of its own is
  emitted or still there behind a full batch.\<close>

definition ticked :: "timestamp \<Rightarrow> string \<Rightarrow> bool \<Rightarrow> delivery_row \<Rightarrow> delivery_row \<Rightarrow> bool" where
  "ticked t0 e full r r' \<longleftrightarrow>
     row_step\<^sup>*\<^sup>* r r' \<and> (dr_emitter_name r \<noteq> e \<longrightarrow> r' = r)
     \<and> (claimable t0 e r \<longrightarrow> dr_state r' = ''emitted'' \<or> r' = r \<and> full)"

lemma tick_rows:
  assumes "calm_tick t0 env" and "db_inv d" and "ew_concurrency wk < 2 ^ 63"
  obtains s' where "worker_tick powi_fn pg_ops wk env (wstate d) = Some (Continue s')" "db_inv (ws_store s')"
    "list_all2 (ticked t0 (ew_name wk) (backlog (ew_name wk) (ws_store s') + ew_concurrency wk = backlog (ew_name wk) d))
       (deliveries d) (deliveries (ws_store s'))"
proof -
  let ?e = "ew_name wk" and ?now = "e_now (te_claim env)" and ?n = "ew_concurrency wk"
  have w: "ws_store (wstate d) = d" by (simp add: wstate_def)
  define d1 where "d1 = snd (reclaim_expired (te_reclaim env) ?e (ew_lease_duration wk) d)"
  define c where "c = claimed_rows ?now [] ?e ?n d1"
  obtain s' where s': "worker_tick powi_fn pg_ops wk env (wstate d) = Some (Continue s')"
    "list_all2 (served c) (deliveries d1) (deliveries (ws_store s'))"
    using tick_serves[of t0 env "wstate d" wk powi_fn] assms unfolding c_def d1_def w by blast
  have "db_step\<^sup>*\<^sup>* d (ws_store s') \<and> db_inv (ws_store s')"
    using pg.tick_steps[OF _ s'(1)] assms(2) by (simp add: w flow_state_def)
  then obtain old new where moved: "db_inv (ws_store s')" "deliveries (ws_store s') = old @ new"
    "list_all2 row_step\<^sup>*\<^sup>* (deliveries d) old"
    using db_steps_rows by blast
  obtain f where f: "deliveries d1 = map f (deliveries d)"
    "\<forall>r. f r = r \<or> dr_emitter_name r = ?e \<and> dr_state r = ''in_flight'' \<and> f r = reclaimed (e_now (te_reclaim env)) r"
    unfolding d1_def by (rule reclaim_map[where env = "te_reclaim env" and e = ?e and dur = "ew_lease_duration wk" and d = d])
  have wf: "wf_db d1" using reclaim_step[OF assms(2)] unfolding d1_def db_inv_def by blast
  note cf = claimed_facts[OF wf, where now = ?now and e = ?e and n = ?n, folded c_def]
  have count: "backlog ?e (ws_store s') + length c = backlog ?e d"
    using served_backlog[OF s'(2) wf cf(1,2)] reclaim_backlog by (simp add: d1_def)
  have new: "new = []" using s'(2) moved(2,3) f(1) by (auto dest!: list_all2_lengthD)
  have "ticked t0 ?e (backlog ?e (ws_store s') + ?n = backlog ?e d) r r'"
    if r: "r \<in> set (deliveries d)" and "row_step\<^sup>*\<^sup>* r r'" and sv: "served c (f r) r'" for r r'
  proof -
    have other: "r' = r" if "dr_emitter_name r \<noteq> ?e"
      using sv cf(2) f(2)[rule_format, of r] that by (auto simp: served_def open_row_def split: if_splits)
    have due: "dr_state r' = ''emitted'' \<or> r' = r \<and> backlog ?e (ws_store s') + ?n = backlog ?e d"
      if "claimable t0 ?e r"
    proof -
      have fr: "f r = r" using f(2)[rule_format, of r] that by (auto simp: claimable_def)
      then have "r \<in> set (deliveries d1)" using r f(1) by (metis image_eqI list.set_map)
      moreover have "claimable ?now ?e r" using that assms(1) claimable_mono by (simp add: calm_tick_def)
      ultimately have "r \<in> set c \<or> length c = ?n" by (rule cf(3))
      then show ?thesis using sv fr count by (auto simp: served_def split: if_splits)
    qed
    show ?thesis using other due that(2) by (auto simp: ticked_def)
  qed
  then have "list_all2 (ticked t0 ?e (backlog ?e (ws_store s') + ?n = backlog ?e d))
      (deliveries d) (deliveries (ws_store s'))"
    using s'(2) moved(2,3) by (simp add: f(1) new list_all2_conv_all_nth)
  then show ?thesis using that s'(1) moved(1) by blast
qed

lemma ticked_backlog:
  "list_all2 (ticked t0 n full) xs ys \<Longrightarrow> e \<noteq> n \<Longrightarrow>
   length (filter (open_row e) ys) = length (filter (open_row e) xs)"
proof (induction rule: list_all2_induct)
  case (Cons r xs r' ys)
  have "dr_emitter_name r' = dr_emitter_name r" using Cons(1) row_steps_keep by (auto simp: ticked_def)
  then have "open_row e r' = open_row e r"
    using Cons(1,4) by (cases "dr_emitter_name r = n") (auto simp: ticked_def open_row_def)
  then show ?case using Cons by simp
qed simp

section \<open>A schedule emits what was due\<close>

lemma row_steps_emitted: "row_step\<^sup>*\<^sup>* r r' \<Longrightarrow> dr_state r = ''emitted'' \<Longrightarrow> r' = r"
  by (induction rule: rtranclp_induct) (auto dest: row_step_terminal)

definition delivered_from :: "timestamp \<Rightarrow> string set \<Rightarrow> delivery_row \<Rightarrow> delivery_row \<Rightarrow> bool" where
  "delivered_from t0 es r r' \<longleftrightarrow>
     row_step\<^sup>*\<^sup>* r r' \<and> (\<forall>e \<in> es. claimable t0 e r \<longrightarrow> dr_state r' = ''emitted'')"

lemma schedule_delivers:
  assumes "list_all (calm_entry t0) sched" and "db_inv d"
  shows "\<exists>d'. run_schedule powi_fn sched d = Some d' \<and> db_inv d'
    \<and> list_all2 (delivered_from t0 {e. backlog e d \<le> capacity e sched}) (deliveries d) (deliveries d')"
  using assms
proof (induction sched arbitrary: d)
  case Nil
  have "\<not> claimable t0 e r" if "backlog e d \<le> 0" "r \<in> set (deliveries d)" for e r
    using that claimable_open by (fastforce simp: backlog_def filter_empty_conv)
  then show ?case using Nil by (auto simp: delivered_from_def capacity_def intro!: list.rel_refl_strong)
next
  case (Cons p sched)
  obtain wk env where p: "p = (wk, env)" by (cases p)
  let ?n = "ew_name wk"
  have "calm_entry t0 (wk, env)" and rest: "list_all (calm_entry t0) sched"
    using Cons.prems(1) by (simp_all add: p)
  then have calm: "calm_tick t0 env" "ew_concurrency wk < 2 ^ 63" by (simp_all add: calm_entry_def)
  obtain s1 where s1: "worker_tick powi_fn pg_ops wk env (wstate d) = Some (Continue s1)" "db_inv (ws_store s1)"
    "list_all2 (ticked t0 ?n (backlog ?n (ws_store s1) + ew_concurrency wk = backlog ?n d))
       (deliveries d) (deliveries (ws_store s1))"
    by (rule tick_rows[OF calm(1) Cons.prems(2) calm(2)])
  obtain d' where d': "run_schedule powi_fn sched (ws_store s1) = Some d'" "db_inv d'"
    "list_all2 (delivered_from t0 {e. backlog e (ws_store s1) \<le> capacity e sched}) (deliveries (ws_store s1)) (deliveries d')"
    using Cons.IH[OF rest s1(2)] by blast
  have same: "backlog e (ws_store s1) = backlog e d" if "e \<noteq> ?n" for e
    using ticked_backlog[OF s1(3) that] by (simp add: backlog_def)
  have row: "delivered_from t0 {e. backlog e d \<le> capacity e ((wk, env) # sched)} r r''"
    if t: "ticked t0 ?n (backlog ?n (ws_store s1) + ew_concurrency wk = backlog ?n d) r r'"
      and l: "delivered_from t0 {e. backlog e (ws_store s1) \<le> capacity e sched} r' r''" for r r' r''
  proof -
    have steps: "row_step\<^sup>*\<^sup>* r r''" using t l unfolding ticked_def delivered_from_def by (blast intro: rtranclp_trans)
    have "dr_state r'' = ''emitted''" if e: "backlog e d \<le> capacity e ((wk, env) # sched)" "claimable t0 e r" for e
    proof (cases "r' = r \<and> backlog e (ws_store s1) \<le> capacity e sched")
      case True
      then show ?thesis using l e(2) by (auto simp: delivered_from_def)
    next
      case False
      then have "dr_state r' = ''emitted''"
        using t e same[of e] by (cases "e = ?n") (auto simp: ticked_def claimable_def capacity_Cons)
      then show ?thesis using l row_steps_emitted by (auto simp: delivered_from_def)
    qed
    then show ?thesis using steps by (auto simp: delivered_from_def)
  qed
  have "list_all2 (delivered_from t0 {e. backlog e d \<le> capacity e ((wk, env) # sched)}) (deliveries d) (deliveries d')"
    by (rule list_all2_trans[OF _ s1(3) d'(3)]) (rule row)
  then show ?case using s1(1) d'(1,2) by (simp add: p flow_state_def)
qed

section \<open>The rows of an accepted webhook\<close>

lemma accepted_fanout:
  assumes "world_ok D w" and "wothers D (ie_gap1 env)" and "ie_gap2 env = (\<lambda>w. w)"
    and "ingest (dp_ext D) (dp_pipeline D out) env provider hs body w = (Ok (IR_Accepted i), ms, w')"
  obtains r d where "snd w' = fanout (ie_db env) r (dp_names D) d" "receipt_id r = i" "wf_db d" "db_inv (snd w')"
proof -
  have gap2: "wothers D (ie_gap2 env)" by (simp add: wothers_def assms(3))
  have "world_ok D w'" by (rule wsteps_ok[OF ingest_steps[OF assms(4,2) gap2 assms(1)] assms(1)])
  then have inv: "db_inv (snd w')" by (simp add: world_ok_def)
  have ok1: "world_ok D (ie_gap1 env w)" using assms(1,2) wsteps_ok unfolding wothers_def by blast
  from assms(4) show ?thesis
  proof (cases rule: ingest_cases)
    case (Accepted status reason w1)
    let ?r = "build_receipt (dp_ext D) (ie_receipt_id env) (ie_now env) provider hs body status reason"
    have "store_with_deliveries (ie_db env) ?r (dp_names D) (snd (ie_gap1 env w)) = (Ok SR_Stored, snd w1)"
      using Accepted(2) by (auto simp: dp_pipeline_def server_pipeline_def pg_store_def split: prod.splits)
    then have "snd w1 = fanout (ie_db env) ?r (dp_names D) (snd (ie_gap1 env w))"
      by (cases rule: store_with_deliveries_cases) simp_all
    moreover have "snd w' = snd w1"
      using Accepted(4) by (auto simp: assms(3) dp_pipeline_def server_pipeline_def layered_record_def
          storage_dedupe_record_def split: result.splits prod.splits)
    moreover have "receipt_id ?r = i" using Accepted(3) by (simp add: build_receipt_def)
    ultimately show ?thesis using that inv ok1 by (simp add: world_ok_def db_inv_def)
  qed simp_all
qed

lemma list_all2_filter:
  "list_all2 P xs ys \<Longrightarrow> (\<And>x y. P x y \<Longrightarrow> q y = q x) \<Longrightarrow> list_all2 P (filter q xs) (filter q ys)"
  by (induction rule: list_all2_induct) auto

text \<open>The rows of the receipt after the schedule: the same emitters, all emitted and mutable.\<close>

lemma delivered_rows:
  assumes "list_all2 (delivered_from t0 es) (deliveries d) (deliveries d')"
    and "filter (\<lambda>x. dr_receipt_id x = u) (deliveries d) = pending_rows env 0 u names"
    and "e_now env \<le> t0" and "set names \<subseteq> es"
  defines "rows \<equiv> filter (\<lambda>x. dr_receipt_id x = u) (deliveries d')"
  shows "map dr_emitter_name rows = names"
    and "list_all (\<lambda>r. dr_state r = ''emitted'' \<and> \<not> dr_immutable r) rows"
proof -
  have "list_all2 (delivered_from t0 es) (pending_rows env 0 u names) rows"
    unfolding rows_def assms(2)[symmetric]
    by (rule list_all2_filter[OF assms(1)]) (auto simp: delivered_from_def dest: row_steps_keep)
  then have "list_all2 (\<lambda>r r'. dr_emitter_name r' = dr_emitter_name r \<and> dr_state r' = ''emitted'' \<and> \<not> dr_immutable r')
      (pending_rows env 0 u names) rows"
  proof (rule list.rel_mono_strong)
    fix r r' assume r: "r \<in> set (pending_rows env 0 u names)" and to: "delivered_from t0 es r r'"
    have "dr_emitter_name r \<in> set names" using r pending_rows_emitters by (metis image_eqI list.set_map)
    then have "claimable t0 (dr_emitter_name r) r" "dr_emitter_name r \<in> es"
      using pending_rows_fields[OF r] assms(3,4) by (auto simp: claimable_def)
    then show "dr_emitter_name r' = dr_emitter_name r \<and> dr_state r' = ''emitted'' \<and> \<not> dr_immutable r'"
      using to row_steps_keep[of r r'] pending_rows_fields[OF r] by (auto simp: delivered_from_def)
  qed
  then have "map dr_emitter_name rows = map dr_emitter_name (pending_rows env 0 u names)
      \<and> list_all (\<lambda>r. dr_state r = ''emitted'' \<and> \<not> dr_immutable r) rows"
    by (induction rule: list_all2_induct) simp_all
  then show "map dr_emitter_name rows = names"
      "list_all (\<lambda>r. dr_state r = ''emitted'' \<and> \<not> dr_immutable r) rows"
    by simp_all
qed

lemma deliveries_read:
  fixes i :: receiptid
  assumes "wf_db d"
  defines "rows \<equiv> sort_key dr_created_at (filter (\<lambda>x. dr_receipt_id x = rid_uuid i) (deliveries d))"
  shows "get_deliveries_for_receipt IO_Ok i d = Ok (map decode_delivery rows)"
proof -
  have "list_all (\<lambda>x. delivery_from_row x = Ok (decode_delivery x)) rows"
    using wf_delivery_from_row[OF assms(1)] by (auto simp: rows_def list_all_iff)
  then have "collect_results delivery_from_row rows = Ok (map decode_delivery rows)"
    by (induction rows) simp_all
  then show ?thesis by (simp add: get_deliveries_for_receipt_def read_stmt_def rows_def)
qed

text \<open>The state operators see once every delivery is out.\<close>

lemma all_emitted_aggregate:
  assumes "ds \<noteq> []" and "list_all (\<lambda>d. wd_state d = DS_Emitted \<and> \<not> wd_immutable d) ds"
  shows "receipt_aggregate_state ds fallback = PS_Emitted"
proof -
  let ?l = "latest_mutable_per_emitter ds"
  obtain d ds' where ds: "ds = d # ds'" using assms(1) by (cases ds) simp_all
  have rows: "emitter_rows (wd_emitter_name d) ds \<noteq> []"
    using assms(2) by (simp add: ds emitter_rows_def)
  have new: "wd_state x = DS_Emitted" if "first_newest (emitter_rows e ds) = Some x" for e x
  proof -
    have "x \<in> set (emitter_rows e ds)" using that by (auto simp: first_newest_iff newest_at_def)
    then show ?thesis using assms(2) by (simp add: emitter_rows_def list_all_iff)
  qed
  have "map_of ?l (wd_emitter_name d) \<noteq> None"
    using rows by (simp add: map_of_latest first_newest_None)
  then have "?l \<noteq> []" by auto
  moreover have "set (map snd ?l) \<subseteq> {DS_Emitted}"
    unfolding latest_states using new by (auto simp: map_of_latest)
  ultimately show ?thesis
    by (auto simp: receipt_aggregate_state_def aggregate_from_states_def list_all_iff)
qed

lemma accepted_delivered:
  assumes "world_ok D w" and "wothers D (ie_gap1 env)" and "ie_gap2 env = (\<lambda>w. w)"
    and "ingest (dp_ext D) (dp_pipeline D out) env provider hs body w = (Ok (IR_Accepted i), ms, w')"
    and "e_now (ie_db env) \<le> t0" and "list_all (calm_entry t0) sched"
    and "list_all (\<lambda>e. backlog e (snd w') \<le> capacity e sched) (dp_names D)"
  shows "\<exists>d' ds. run_schedule powi_fn sched (snd w') = Some d'
    \<and> get_deliveries_for_receipt IO_Ok i d' = Ok ds
    \<and> mset (map wd_emitter_name ds) = mset (dp_names D)
    \<and> list_all (\<lambda>d. wd_state d = DS_Emitted \<and> \<not> wd_immutable d) ds"
proof -
  obtain r d where w': "snd w' = fanout (ie_db env) r (dp_names D) d" "receipt_id r = i" "wf_db d" "db_inv (snd w')"
    by (rule accepted_fanout[OF assms(1-4)])
  let ?es = "{e. backlog e (snd w') \<le> capacity e sched}"
  obtain d' where d': "run_schedule powi_fn sched (snd w') = Some d'" "db_inv d'"
    "list_all2 (delivered_from t0 ?es) (deliveries (snd w')) (deliveries d')"
    using schedule_delivers[OF assms(6) w'(4), of powi_fn] by blast
  let ?rows = "filter (\<lambda>x. dr_receipt_id x = rid_uuid i) (deliveries d')"
  let ?ds = "map decode_delivery (sort_key dr_created_at ?rows)"
  have wf: "wf_db (fanout (ie_db env) r (dp_names D) d)" using w'(1,4) by (simp add: db_inv_def)
  have start: "filter (\<lambda>x. dr_receipt_id x = rid_uuid i) (deliveries (snd w'))
      = pending_rows (ie_db env) 0 (rid_uuid i) (dp_names D)"
    using fanout_receipt_rows[OF w'(3) wf] unfolding w'(1,2) .
  have es: "set (dp_names D) \<subseteq> ?es" using assms(7) by (auto simp: list_all_iff)
  note rows = delivered_rows[OF d'(3) start assms(5) es]
  have dec: "wd_emitter_name (decode_delivery x) = dr_emitter_name x \<and> wd_state (decode_delivery x) = DS_Emitted
      \<and> \<not> wd_immutable (decode_delivery x)" if "x \<in> set ?rows" for x
    using delivery_from_row_Ok[of x DS_Emitted] rows(2) that by (simp add: list_all_iff)
  have names: "map wd_emitter_name ?ds = map dr_emitter_name (sort_key dr_created_at ?rows)"
    using dec by simp
  have "mset (map wd_emitter_name ?ds) = mset (map dr_emitter_name ?rows)"
    by (simp only: names mset_map mset_sort)
  moreover have "list_all (\<lambda>d. wd_state d = DS_Emitted \<and> \<not> wd_immutable d) ?ds"
    using dec by (simp add: list_all_iff)
  moreover have "get_deliveries_for_receipt IO_Ok i d' = Ok ?ds"
    using deliveries_read d'(2) by (simp add: db_inv_def)
  ultimately show ?thesis using d'(1) rows(1) by (intro exI[of _ d'] exI[of _ ?ds]) simp
qed

end
