(* ===== verification/Shutdown.thy ===== *)
theory Shutdown
  imports Prelude
begin

text \<open>
  Graceful shutdown (\<^verbatim>\<open>crates/hookbox-server/src/shutdown.rs\<close>): the future the server stops on. The operating
  system is a parameter: whether each handler can be installed, and which signals have been delivered
  when the future is polled.
\<close>

datatype signal = SIGINT | SIGTERM

text \<open>What the installations of the two handlers answer, whether the target is Unix, and which ready branch
  \<^verbatim>\<open>select!\<close> looks at first in the k-th poll (it starts at a random one).\<close>

record signal_env =
  sg_ctrl_c :: "(unit, string) result"
  sg_terminate :: "(unit, string) result"
  sg_unix :: bool
  sg_int_first :: "nat \<Rightarrow> bool"

text \<open>The signals delivered since the previous poll. A stream keeps a signal for the next poll, so no
  delivery between two polls is missed.\<close>

type_synonym poll = "signal set"

definition ctrl_c_ready :: "signal_env \<Rightarrow> poll \<Rightarrow> bool" where
  "ctrl_c_ready env p = (case sg_ctrl_c env of Ok _ \<Rightarrow> SIGINT \<in> p | Err _ \<Rightarrow> False)"

definition terminate_ready :: "signal_env \<Rightarrow> poll \<Rightarrow> bool" where
  "terminate_ready env p =
     (if sg_unix env then (case sg_terminate env of Ok _ \<Rightarrow> SIGTERM \<in> p | Err _ \<Rightarrow> False) else False)"

text \<open>The \<^verbatim>\<open>select!\<close>: the first branch found ready completes it, \<open>None\<close> is a future still pending.\<close>

fun shutdown_select :: "signal_env \<Rightarrow> nat \<Rightarrow> poll list \<Rightarrow> signal option" where
  "shutdown_select env k [] = None"
| "shutdown_select env k (p # ps) =
     (if sg_int_first env k
      then (if ctrl_c_ready env p then Some SIGINT
            else if terminate_ready env p then Some SIGTERM else shutdown_select env (Suc k) ps)
      else (if terminate_ready env p then Some SIGTERM
            else if ctrl_c_ready env p then Some SIGINT else shutdown_select env (Suc k) ps))"

text \<open>What is logged by the first poll, and on completion.\<close>

definition install_log :: "signal_env \<Rightarrow> string list" where
  "install_log env =
     (case sg_ctrl_c env of Ok _ \<Rightarrow> [] | Err e \<Rightarrow> [''failed to install Ctrl+C handler'']) @
     (if sg_unix env
      then (case sg_terminate env of Ok _ \<Rightarrow> [] | Err e \<Rightarrow> [''failed to install SIGTERM handler'']) else [])"

definition received_log :: "signal \<Rightarrow> string" where
  "received_log s = (case s of SIGINT \<Rightarrow> ''received SIGINT, shutting down''
                             | SIGTERM \<Rightarrow> ''received SIGTERM, shutting down'')"

definition shutdown_signal :: "signal_env \<Rightarrow> poll list \<Rightarrow> signal option" where
  "shutdown_signal env polls = shutdown_select env 0 polls"

section \<open>It completes exactly on a signal it can hear\<close>

definition heard :: "signal_env \<Rightarrow> signal \<Rightarrow> bool" where
  "heard env s = (case s of SIGINT \<Rightarrow> is_ok (sg_ctrl_c env) | SIGTERM \<Rightarrow> sg_unix env \<and> is_ok (sg_terminate env))"

lemma ready_heard:
  "ctrl_c_ready env p \<longleftrightarrow> heard env SIGINT \<and> SIGINT \<in> p"
  "terminate_ready env p \<longleftrightarrow> heard env SIGTERM \<and> SIGTERM \<in> p"
  by (auto simp: ctrl_c_ready_def terminate_ready_def heard_def is_ok_def split: result.splits)

lemma shutdown_select_pending:
  "shutdown_select env k polls = None \<longleftrightarrow> (\<forall>p \<in> set polls. \<forall>s \<in> p. \<not> heard env s)"
proof (induction polls arbitrary: k)
  case (Cons p ps)
  have "(\<forall>s \<in> p. \<not> heard env s) \<longleftrightarrow> \<not> ctrl_c_ready env p \<and> \<not> terminate_ready env p"
    unfolding ready_heard by (metis signal.exhaust)
  then show ?case using Cons.IH[of "Suc k"] by simp
qed simp

text \<open>The poll that completes it is the first one that carries a signal whose handler is installed, and
  the signal reported is one of those.\<close>

lemma shutdown_select_first:
  assumes "shutdown_select env k polls = Some s"
  shows "\<exists>before p after. polls = before @ p # after \<and> s \<in> p \<and> heard env s
    \<and> shutdown_select env k before = None"
  using assms
proof (induction polls arbitrary: k)
  case (Cons p ps)
  show ?case
  proof (cases "ctrl_c_ready env p \<or> terminate_ready env p")
    case True
    then have "s \<in> p" "heard env s"
      using Cons.prems by (auto simp: ready_heard split: if_splits)
    then show ?thesis by (intro exI[of _ "[]"] exI[of _ p] exI[of _ ps]) simp
  next
    case False
    then have "shutdown_select env (Suc k) ps = Some s" using Cons.prems by (simp split: if_splits)
    from Cons.IH[OF this] obtain before q after where
      "ps = before @ q # after" "s \<in> q" "heard env s" "shutdown_select env (Suc k) before = None"
      by blast
    then show ?thesis using False by (intro exI[of _ "p # before"] exI[of _ q] exI[of _ after]) simp
  qed
qed simp

lemma shutdown_signal_exact:
  "(shutdown_signal env polls \<noteq> None \<longleftrightarrow> (\<exists>p \<in> set polls. \<exists>s \<in> p. heard env s))
   \<and> (\<forall>s. shutdown_signal env polls = Some s \<longrightarrow> heard env s \<and> (\<exists>p \<in> set polls. s \<in> p))"
  using shutdown_select_pending[of env 0 polls] shutdown_select_first[of env 0 polls]
  by (fastforce simp: shutdown_signal_def)

text \<open>With neither handler the server cannot be stopped by a signal.\<close>

lemma no_handler_no_shutdown:
  assumes "sg_ctrl_c env = Err e" and "\<not> sg_unix env \<or> sg_terminate env = Err e'"
  shows "shutdown_signal env polls = None"
proof -
  have "\<not> heard env s" for s using assms by (cases s) (auto simp: heard_def is_ok_def)
  then show ?thesis by (simp add: shutdown_signal_def shutdown_select_pending)
qed

end
