(* ===== verification/Signing.thy ===== *)
theory Signing
  imports Cli "HOL-Library.Monad_Syntax"
begin

text \<open>
  The providers' side of the seven signature schemes, as the test helpers \<^verbatim>\<open>compute_sig\<close> and \<^verbatim>\<open>sign_body\<close> of
  \<^verbatim>\<open>crates/hookbox-providers/src\<close> write it: what a provider puts into the headers of a webhook. Shown: every
  verifier accepts what its provider sends, exactly while the timestamp is in the window. \<open>None\<close> is a failed
  \<^verbatim>\<open>expect\<close>.
\<close>

section \<open>What providers send\<close>

definition hex_mac :: "externals \<Rightarrow> bytes \<Rightarrow> bytes \<Rightarrow> string option" where
  "hex_mac x secret body = do { mac \<leftarrow> x_hmac_sha256 x secret body; Some (x_hex_encode x mac) }"

definition b64_mac :: "externals \<Rightarrow> bytes \<Rightarrow> bytes \<Rightarrow> string option" where
  "b64_mac x secret body = do { mac \<leftarrow> x_hmac_sha256 x secret body; Some (x_b64_encode x mac) }"

definition ghmac_compute_sig :: "externals \<Rightarrow> bytes \<Rightarrow> bytes \<Rightarrow> string option" where
  "ghmac_compute_sig x secret body = hex_mac x secret body"

definition bvnk_compute_sig :: "externals \<Rightarrow> bytes \<Rightarrow> bytes \<Rightarrow> string option" where
  "bvnk_compute_sig x secret body = b64_mac x secret body"

definition adyen_compute_sig :: "externals \<Rightarrow> bytes \<Rightarrow> bytes \<Rightarrow> string option" where
  "adyen_compute_sig x key_bytes body = b64_mac x key_bytes body"

definition sign_body :: "externals \<Rightarrow> (bytes \<Rightarrow> bytes) \<Rightarrow> bytes \<Rightarrow> string" where
  "sign_body x sign body = x_b64_encode x (sign body)"

definition compute_stripe_sig :: "externals \<Rightarrow> string \<Rightarrow> nat \<Rightarrow> bytes \<Rightarrow> string option" where
  "compute_stripe_sig x secret timestamp body =
     do { body_str \<leftarrow> from_utf8 body; hex_mac x secret (dec timestamp @ ''.'' @ body_str) }"

definition crypto_compute_sig :: "externals \<Rightarrow> string \<Rightarrow> nat \<Rightarrow> bytes \<Rightarrow> string option" where
  "crypto_compute_sig x secret timestamp body =
     do { body_str \<leftarrow> from_utf8 body; hex_mac x secret (dec timestamp @ ''.'' @ body_str) }"

definition svix_compute_sig :: "externals \<Rightarrow> bytes \<Rightarrow> string \<Rightarrow> nat \<Rightarrow> bytes \<Rightarrow> string option" where
  "svix_compute_sig x key msg_id timestamp body =
     b64_mac x key (msg_id @ ''.'' @ dec timestamp @ ''.'' @ body)"

definition timestamped_header :: "nat \<Rightarrow> string \<Rightarrow> string" where
  "timestamped_header ts sig = ''t='' @ dec ts @ '',v1='' @ sig"

text \<open>The headers a provider sends with a body, for the key its verifier is configured with.\<close>

fun provider_sends ::
  "externals \<Rightarrow> (bytes \<Rightarrow> bytes) \<Rightarrow> provider_verifier \<Rightarrow> nat \<Rightarrow> string \<Rightarrow> bytes \<Rightarrow> (string \<times> string) list option" where
  "provider_sends x sign (PV_GenericHmac v) ts msg_id body =
     do { sig \<leftarrow> ghmac_compute_sig x (gh_secret v) body; Some [(gh_header_name v, sig)] }"
| "provider_sends x sign (PV_Bvnk v) ts msg_id body =
     do { sig \<leftarrow> bvnk_compute_sig x (bv_secret v) body; Some [(''x-signature'', sig)] }"
| "provider_sends x sign (PV_Adyen v) ts msg_id body =
     do { sig \<leftarrow> adyen_compute_sig x (ad_key_bytes v) body; Some [(''HmacSignature'', sig)] }"
| "provider_sends x sign (PV_TripleAFiat v) ts msg_id body =
     Some [(''TripleA-Signature'', sign_body x sign body)]"
| "provider_sends x sign (PV_Stripe v) ts msg_id body =
     do { sig \<leftarrow> compute_stripe_sig x (st_secret v) ts body;
          Some [(''Stripe-Signature'', timestamped_header ts sig)] }"
| "provider_sends x sign (PV_TripleACrypto v) ts msg_id body =
     do { sig \<leftarrow> crypto_compute_sig x (tc_secret v) ts body;
          Some [(''triplea-signature'', timestamped_header ts sig)] }"
| "provider_sends x sign (PV_Walapay v) ts msg_id body =
     do { sig \<leftarrow> svix_compute_sig x (wp_key v) msg_id ts body;
          Some [(''svix-id'', msg_id), (''svix-timestamp'', dec ts), (''svix-signature'', ''v1,'' @ sig)] }"

fun tolerance_of :: "provider_verifier \<Rightarrow> duration option" where
  "tolerance_of (PV_Stripe v) = Some (st_tolerance v)"
| "tolerance_of (PV_TripleACrypto v) = Some (tc_tolerance v)"
| "tolerance_of (PV_Walapay v) = Some (wp_tolerance v)"
| "tolerance_of _ = None"

definition in_window :: "provider_verifier \<Rightarrow> int \<Rightarrow> nat \<Rightarrow> bool" where
  "in_window pv now ts \<longleftrightarrow>
     (case tolerance_of pv of None \<Rightarrow> True
      | Some tol \<Rightarrow> \<bar>int (clock_u64 now) - int ts\<bar> \<le> int (duration_as_secs tol))"

text \<open>Documented behaviour of the crates: decoding inverts encoding, and neither alphabet has a comma or
  white space; the RSA key pair, where there is one, belongs together.\<close>

definition codecs_ok :: "externals \<Rightarrow> bool" where
  "codecs_ok x \<longleftrightarrow>
     (\<forall>b. x_hex_decode x (x_hex_encode x b) = Some b \<and> CHR '','' \<notin> set (x_hex_encode x b))
     \<and> (\<forall>b. x_b64_decode x (x_b64_encode x b) = Some b \<and> list_all (\<lambda>c. \<not> is_ws c) (x_b64_encode x b))"

fun key_pair_ok :: "externals \<Rightarrow> (bytes \<Rightarrow> bytes) \<Rightarrow> provider_verifier \<Rightarrow> bool" where
  "key_pair_ok x sign (PV_TripleAFiat v) \<longleftrightarrow>
     (\<forall>m. \<exists>sig. x_rsa_signature x (sign m) = Some sig \<and> x_rsa_verify x (tf_verifying_key v) m sig)"
| "key_pair_ok x sign _ \<longleftrightarrow> True"

lemma parse_u64_dec: "n < 2 ^ 64 \<Longrightarrow> parse_u64 (dec n) = Some n"
proof -
  assume n: "n < 2 ^ 64"
  obtain c t where ct: "dec n = c # t" using dec_digits[of n] by (cases "dec n") auto
  then have "c \<noteq> CHR ''+''" using dec_digits[of n] digit_not_sign by simp
  then show ?thesis using n parse_digits_dec[of n] by (simp add: parse_u64_def ct)
qed

lemma dec_no_comma: "CHR '','' \<notin> set (dec n)"
  using dec_digits[of n] by (auto simp: list_all_iff is_digit_def byte_def)

lemma timestamped_parts:
  assumes "CHR '','' \<notin> set sig"
  shows "parts_with ''t='' (timestamped_header ts sig) = [dec ts]"
    and "parts_with ''v1='' (timestamped_header ts sig) = [sig]"
proof -
  have "split_char (CHR '','') (timestamped_header ts sig) = [''t='' @ dec ts, ''v1='' @ sig]"
    using split_char_append[of "CHR '',''" "''t='' @ dec ts" "''v1='' @ sig"] dec_no_comma assms
    by (simp add: timestamped_header_def split_char_single)
  moreover have "strip_prefix ''v1='' (''t='' @ dec ts) = None" "strip_prefix ''t='' (''v1='' @ sig) = None"
    by (simp_all add: strip_prefix_def)
  ultimately show "parts_with ''t='' (timestamped_header ts sig) = [dec ts]"
      "parts_with ''v1='' (timestamped_header ts sig) = [sig]"
    unfolding parts_with_def
    by (simp_all add: List.map_filter_simps strip_prefix_append[of "''t=''" "dec ts", simplified]
        strip_prefix_append[of "''v1=''" sig, simplified])
qed

lemma timestamped_sent:
  assumes "codecs_ok x" and "ts < 2 ^ 64" and "hex_mac x secret (dec ts @ ''.'' @ body) = Some sig"
    and "header_str x hs name = Some (timestamped_header ts sig)"
  shows "timestamped_ok x secret tol name now hs body \<longleftrightarrow>
    \<bar>int (clock_u64 now) - int ts\<bar> \<le> int (duration_as_secs tol)"
proof -
  obtain mac where mac: "x_hmac_sha256 x secret (dec ts @ ''.'' @ body) = Some mac" "sig = x_hex_encode x mac"
    using assms(3) by (auto simp: hex_mac_def bind_eq_Some_conv)
  have hex: "CHR '','' \<notin> set sig" "x_hex_decode x sig = Some mac"
    using assms(1) by (auto simp: codecs_ok_def mac(2))
  show ?thesis
    using assms(4) mac(1) hex(2)
    by (auto simp: timestamped_ok_def timestamped_parts[OF hex(1)] fresh_timestamp_def parse_u64_dec[OF assms(2)])
qed

lemma svix_sent:
  assumes "codecs_ok x" and "ts < 2 ^ 64" and "svix_compute_sig x key i ts body = Some sig"
    and "header_str x hs ''svix-id'' = Some i" and "header_str x hs ''svix-timestamp'' = Some (dec ts)"
    and "header_str x hs ''svix-signature'' = Some (''v1,'' @ sig)"
  shows "svix_ok x key tol now hs body \<longleftrightarrow> \<bar>int (clock_u64 now) - int ts\<bar> \<le> int (duration_as_secs tol)"
proof -
  obtain mac where mac: "x_hmac_sha256 x key (i @ ''.'' @ dec ts @ ''.'' @ body) = Some mac" "sig = x_b64_encode x mac"
    using assms(3) by (auto simp: svix_compute_sig_def b64_mac_def bind_eq_Some_conv)
  have "list_all (\<lambda>c. \<not> is_ws c) (''v1,'' @ sig)"
    using assms(1) by (simp add: codecs_ok_def mac(2) is_ws_def byte_def)
  then have "split_whitespace (''v1,'' @ sig) = [''v1,'' @ sig]" by (rule split_whitespace_word) simp
  then show ?thesis
    using assms(4-6) mac by (auto simp: svix_ok_def fresh_timestamp_def parse_u64_dec[OF assms(2)])
qed

lemma sent_is_accepted:
  assumes "codecs_ok x" and "key_pair_ok x sign pv" and "ts < 2 ^ 64"
    and "provider_sends x sign pv ts msg_id body = Some sent"
    and "list_all (\<lambda>(name, s). header_str x hs name = Some s) sent"
  shows "verifier_accepts x pv now hs body \<longleftrightarrow> in_window pv now ts"
proof (cases pv)
  case (PV_TripleAFiat v)
  obtain sig where "x_rsa_signature x (sign body) = Some sig" "x_rsa_verify x (tf_verifying_key v) body sig"
    using assms(2) unfolding PV_TripleAFiat key_pair_ok.simps by blast
  then show ?thesis
    using assms(1,4,5) by (auto simp: PV_TripleAFiat fiat_ok_def sign_body_def codecs_ok_def in_window_def)
next
  case (PV_Stripe v)
  then obtain b sig where "from_utf8 body = Some b" "hex_mac x (st_secret v) (dec ts @ ''.'' @ b) = Some sig"
      "sent = [(''Stripe-Signature'', timestamped_header ts sig)]"
    using assms(4) by (auto simp: compute_stripe_sig_def bind_eq_Some_conv)
  moreover from this(1) have "b = body" by (simp add: from_utf8_def split: if_splits)
  ultimately show ?thesis
    using assms(5) timestamped_sent[OF assms(1,3), of "st_secret v" body sig hs]
    by (simp add: PV_Stripe in_window_def)
next
  case (PV_TripleACrypto v)
  then obtain b sig where "from_utf8 body = Some b" "hex_mac x (tc_secret v) (dec ts @ ''.'' @ b) = Some sig"
      "sent = [(''triplea-signature'', timestamped_header ts sig)]"
    using assms(4) by (auto simp: crypto_compute_sig_def bind_eq_Some_conv)
  moreover from this(1) have "b = body" by (simp add: from_utf8_def split: if_splits)
  ultimately show ?thesis
    using assms(5) timestamped_sent[OF assms(1,3), of "tc_secret v" body sig hs]
    by (simp add: PV_TripleACrypto in_window_def)
next
  case (PV_Walapay v)
  then obtain sig where sig: "svix_compute_sig x (wp_key v) msg_id ts body = Some sig"
    "sent = [(''svix-id'', msg_id), (''svix-timestamp'', dec ts), (''svix-signature'', ''v1,'' @ sig)]"
    using assms(4) by (auto simp: bind_eq_Some_conv)
  then have "header_str x hs ''svix-id'' = Some msg_id" "header_str x hs ''svix-timestamp'' = Some (dec ts)"
      "header_str x hs ''svix-signature'' = Some (''v1,'' @ sig)"
    using assms(5) by simp_all
  from svix_sent[OF assms(1,3) sig(1) this] show ?thesis by (simp add: PV_Walapay in_window_def)
qed (use assms in \<open>auto simp: bind_eq_Some_conv ghmac_compute_sig_def bvnk_compute_sig_def adyen_compute_sig_def
    hex_mac_def b64_mac_def body_mac_ok_def codecs_ok_def in_window_def\<close>)

text \<open>C23. Providers and verifiers agree. A webhook whose headers its provider made with the configured key
  (the scheme of each provider: hex or Base64 HMAC of the body, of timestamp and body, of id, timestamp
  and body, or an RSA signature) is verified as long as its timestamp, if the scheme has one, is within
  the tolerance of the clock, boundary included, and is rejected as soon as it is not.\<close>

theorem signed_webhooks_are_accepted:
  assumes "codecs_ok x" and "key_pair_ok x sign pv" and "ts < 2 ^ 64"
    and "provider_sends x sign pv ts msg_id body = Some sent"
    and "list_all (\<lambda>(name, s). header_str x hs name = Some s) sent"
  shows "vr_status (v_verify (verifier_object x pv) now hs body) =
    (if in_window pv now ts then VS_Verified else VS_Failed)"
  using sent_is_accepted[OF assms] by (simp add: verifier_verdict)

section \<open>An instance\<close>

definition ext_codecs :: externals where
  "ext_codecs = ext_hex\<lparr>x_b64_encode := nibbles, x_b64_decode := unnibbles\<rparr>"

lemma nibbles_letters: "list_all (\<lambda>c. 97 \<le> byte c \<and> byte c \<le> 112) (nibbles b)"
proof (induction b)
  case (Cons c b)
  have "byte c div 16 < 16" "byte c mod 16 < 16" using byte_less[of c] by auto
  then show ?case using Cons by (simp add: nibbles_def byte_char_of)
qed (simp add: nibbles_def)

lemma codecs_ok_ext_codecs: "codecs_ok ext_codecs"
proof -
  have "CHR '','' \<notin> set (nibbles b)" "list_all (\<lambda>c. \<not> is_ws c) (nibbles b)" for b
    using nibbles_letters[of b] by (auto simp: list_all_iff is_ws_def byte_def)
  then show ?thesis by (simp add: codecs_ok_def ext_codecs_def ext_hex_def unnibbles_nibbles)
qed

theorem signed_webhooks_are_accepted_witness:
  "vr_status (v_verify (verifier_object ext_codecs (PV_Stripe (stripe_new ''stripe'' ''k''))) 1200
      [(''stripe-signature'', timestamped_header 900 (nibbles ''k900.{}''))] ''{}'') = VS_Verified
   \<and> vr_status (v_verify (verifier_object ext_codecs (PV_Stripe (stripe_new ''stripe'' ''k''))) 1201
      [(''stripe-signature'', timestamped_header 900 (nibbles ''k900.{}''))] ''{}'') = VS_Failed"
proof -
  let ?pv = "PV_Stripe (stripe_new ''stripe'' ''k'')" and ?h = "timestamped_header 900 (nibbles ''k900.{}'')"
  have "from_utf8 ''{}'' = Some ''{}''" by (simp add: from_utf8_def byte_def)
  moreover have "dec 900 = ''900''" by code_simp
  ultimately have sends: "provider_sends ext_codecs (\<lambda>m. m) ?pv 900 [] ''{}'' = Some [(''Stripe-Signature'', ?h)]"
    by (simp add: compute_stripe_sig_def hex_mac_def stripe_new_def ext_codecs_def ext_hex_def ext0_def)
  have hs: "list_all (\<lambda>(name, s). header_str ext_codecs [(''stripe-signature'', ?h)] name = Some s) [(''Stripe-Signature'', ?h)]"
    by (simp add: header_str_def header_get_def to_ascii_lowercase_def byte_def char_of_def bit_0
        ext_codecs_def ext_hex_def ext0_def)
  have w: "in_window ?pv 1200 900" "\<not> in_window ?pv 1201 900"
    by (simp_all add: in_window_def stripe_new_def clock_u64_def duration_as_secs_def duration_from_secs_def
        nanos_per_sec_def DEFAULT_TOLERANCE_SECS_def)
  have k: "key_pair_ok ext_codecs (\<lambda>m. m) ?pv" "(900::nat) < 2 ^ 64" by simp_all
  show ?thesis
    using signed_webhooks_are_accepted[OF codecs_ok_ext_codecs k sends hs, of 1200]
      signed_webhooks_are_accepted[OF codecs_ok_ext_codecs k sends hs, of 1201] w by simp
qed

end
