(* ===== verification/Provider_Tests.thy ===== *)
theory Provider_Tests
  imports Signing
begin

text \<open>
  The unit tests of \<^verbatim>\<open>crates/hookbox-providers/src\<close>, each as a predicate on its surroundings: the crates for
  HMAC, RSA, hex, Base64 and headers, the clock the test reads and the one \<^verbatim>\<open>verify\<close> reads after it. A test
  that panics in an \<^verbatim>\<open>expect\<close> is \<open>None\<close>. Shown: the tests pass in every surrounding in which the crates behave
  as documented, provided the clock does not move by more than a minute between its two readings; the
  boundary tests pass only if it does not move at all.
\<close>

record lab =
  lb_ext :: externals
  lb_from_str :: "string \<Rightarrow> bytes option" \<comment> \<open>\<^verbatim>\<open>HeaderValue::from_str\<close>\<close>
  lb_from_bytes :: "bytes \<Rightarrow> bytes option" \<comment> \<open>\<^verbatim>\<open>HeaderValue::from_bytes\<close>\<close>
  lb_now :: int
  lb_verify_now :: int
  lb_pem :: string
  lb_sign :: "bytes \<Rightarrow> bytes"

text \<open>\<^verbatim>\<open>HeaderMap::insert\<close> replaces what the name had.\<close>

definition header_insert :: "string \<Rightarrow> bytes \<Rightarrow> headers \<Rightarrow> headers" where
  "header_insert name v hs = AList.update (to_ascii_lowercase name) v (filter (\<lambda>(k, _). k \<noteq> to_ascii_lowercase name) hs)"

definition with_header :: "lab \<Rightarrow> string \<Rightarrow> string \<Rightarrow> headers \<Rightarrow> headers option" where
  "with_header T name s hs = do { v \<leftarrow> lb_from_str T s; Some (header_insert name v hs) }"

definition now_secs :: "lab \<Rightarrow> nat" where
  "now_secs T = clock_u64 (lb_now T)"

section \<open>generic\_hmac.rs\<close>

definition generic_hmac_new :: "string \<Rightarrow> bytes \<Rightarrow> string \<Rightarrow> generic_hmac_verifier" where
  "generic_hmac_new provider secret header_name =
     \<lparr>gh_provider = provider, gh_secret = secret, gh_header_name = header_name\<rparr>"

definition ghmac_valid_signature_passes :: "lab \<Rightarrow> bool" where
  "ghmac_valid_signature_passes T =
     (do { sig \<leftarrow> ghmac_compute_sig (lb_ext T) ''test-secret'' ''hello world'';
           headers \<leftarrow> with_header T ''X-Signature'' sig [];
           Some (generic_hmac_verify (lb_ext T) (generic_hmac_new ''test-provider'' ''test-secret'' ''X-Signature'')
                   headers ''hello world'') }
      = Some (v_verified ''signature_valid''))"

definition bad_hex_sig :: string where
  "bad_hex_sig = ''deadbeefdeadbeefdeadbeefdeadbeefdeadbeefdeadbeefdeadbeefdeadbeef''"

definition ghmac_invalid_signature_fails :: "lab \<Rightarrow> bool" where
  "ghmac_invalid_signature_fails T =
     (do { headers \<leftarrow> with_header T ''X-Signature'' bad_hex_sig [];
           Some (generic_hmac_verify (lb_ext T) (generic_hmac_new ''test-provider'' ''test-secret'' ''X-Signature'')
                   headers ''hello world'') }
      = Some (v_failed ''signature_mismatch''))"

definition ghmac_missing_header_fails :: "lab \<Rightarrow> bool" where
  "ghmac_missing_header_fails T =
     (generic_hmac_verify (lb_ext T) (generic_hmac_new ''test-provider'' ''test-secret'' ''X-Signature'') [] ''hello world''
      = v_failed ''missing_signature_header'')"

definition ghmac_invalid_hex_signature_fails :: "lab \<Rightarrow> bool" where
  "ghmac_invalid_hex_signature_fails T =
     (do { headers \<leftarrow> with_header T ''X-Signature'' ''ZZZZZZNOTHEX'' [];
           Some (generic_hmac_verify (lb_ext T) (generic_hmac_new ''test-provider'' ''test-secret'' ''X-Signature'')
                   headers ''hello world'') }
      = Some (v_failed ''invalid_hex_signature''))"

definition ghmac_invalid_header_encoding_fails :: "lab \<Rightarrow> bool" where
  "ghmac_invalid_header_encoding_fails T =
     (do { header_val \<leftarrow> lb_from_bytes T [CHR 0xC3, CHR 0xA9];
           Some (generic_hmac_verify (lb_ext T) (generic_hmac_new ''test-provider'' ''test-secret'' ''X-Signature'')
                   (header_insert ''X-Signature'' header_val []) ''hello world'') }
      = Some (v_failed ''invalid_signature_header_encoding''))"

definition ghmac_provider_name_returns_configured_name :: "lab \<Rightarrow> bool" where
  "ghmac_provider_name_returns_configured_name T =
     (v_provider_name (generic_hmac_object (lb_ext T) (generic_hmac_new ''my-provider'' ''secret'' ''X-Sig''))
      = ''my-provider'')"

section \<open>adyen.rs\<close>

definition zero_sig :: string where
  "zero_sig = ''AAAAAAAAAAAAAAAAAAAAAAAAAAAAAAAAAAAAAAAAAAA=''"

definition adyen_body :: bytes where
  "adyen_body = ''{\"live\":\"false\",\"notificationItems\":[]}''"

definition adyen_valid_signature_passes :: "lab \<Rightarrow> bool" where
  "adyen_valid_signature_passes T =
     (do { key_bytes \<leftarrow> x_hex_decode (lb_ext T) ''deadbeefdeadbeef'';
           sig \<leftarrow> adyen_compute_sig (lb_ext T) key_bytes adyen_body;
           verifier \<leftarrow> adyen_new (lb_ext T) ''adyen'' ''deadbeefdeadbeef'';
           headers \<leftarrow> with_header T ''HmacSignature'' sig [];
           Some (adyen_verify (lb_ext T) verifier headers adyen_body) }
      = Some (v_verified ''signature_valid''))"

definition adyen_invalid_signature_fails :: "lab \<Rightarrow> bool" where
  "adyen_invalid_signature_fails T =
     (do { verifier \<leftarrow> adyen_new (lb_ext T) ''adyen'' ''deadbeefdeadbeef'';
           headers \<leftarrow> with_header T ''HmacSignature'' zero_sig [];
           Some (adyen_verify (lb_ext T) verifier headers ''{\"live\":\"false\"}'') }
      = Some (v_failed ''signature_mismatch''))"

definition adyen_missing_header_fails :: "lab \<Rightarrow> bool" where
  "adyen_missing_header_fails T =
     (do { verifier \<leftarrow> adyen_new (lb_ext T) ''adyen'' ''deadbeefdeadbeef'';
           Some (adyen_verify (lb_ext T) verifier [] ''irrelevant body'') }
      = Some (v_failed ''missing_signature_header''))"

definition adyen_invalid_hex_key_returns_none :: "lab \<Rightarrow> bool" where
  "adyen_invalid_hex_key_returns_none T = (adyen_new (lb_ext T) ''adyen'' ''not-valid-hex!!'' = None)"

definition adyen_empty_hex_key_returns_none :: "lab \<Rightarrow> bool" where
  "adyen_empty_hex_key_returns_none T = (adyen_new (lb_ext T) ''adyen'' '''' = None)"

definition adyen_invalid_base64_signature_fails :: "lab \<Rightarrow> bool" where
  "adyen_invalid_base64_signature_fails T =
     (do { headers \<leftarrow> with_header T ''HmacSignature'' ''!!!not-base64!!!'' [];
           verifier \<leftarrow> adyen_new (lb_ext T) ''adyen'' ''deadbeefdeadbeef'';
           Some (adyen_verify (lb_ext T) verifier headers ''body'') }
      = Some (v_failed ''invalid_base64_signature''))"

definition adyen_provider_name_returns_configured :: "lab \<Rightarrow> bool" where
  "adyen_provider_name_returns_configured T =
     (map_option (\<lambda>v. v_provider_name (adyen_object (lb_ext T) v)) (adyen_new (lb_ext T) ''adyen-prod'' ''deadbeefdeadbeef'')
      = Some ''adyen-prod'')"

section \<open>bvnk.rs\<close>

definition bvnk_new :: "string \<Rightarrow> bytes \<Rightarrow> bvnk_verifier" where
  "bvnk_new provider secret = \<lparr>bv_provider = provider, bv_secret = secret\<rparr>"

definition bvnk_valid_signature_passes :: "lab \<Rightarrow> bool" where
  "bvnk_valid_signature_passes T =
     (let body = ''{\"type\":\"PAYMENT_RECEIVED\",\"amount\":100}'' in
      do { sig \<leftarrow> bvnk_compute_sig (lb_ext T) ''bvnk-test-secret'' body;
           headers \<leftarrow> with_header T ''x-signature'' sig [];
           Some (bvnk_verify (lb_ext T) (bvnk_new ''bvnk'' ''bvnk-test-secret'') headers body) }
      = Some (v_verified ''signature_valid''))"

definition bvnk_invalid_signature_fails :: "lab \<Rightarrow> bool" where
  "bvnk_invalid_signature_fails T =
     (do { headers \<leftarrow> with_header T ''x-signature'' zero_sig [];
           Some (bvnk_verify (lb_ext T) (bvnk_new ''bvnk'' ''bvnk-test-secret'') headers
                   ''{\"type\":\"PAYMENT_RECEIVED\"}'') }
      = Some (v_failed ''signature_mismatch''))"

definition bvnk_missing_header_fails :: "lab \<Rightarrow> bool" where
  "bvnk_missing_header_fails T =
     (bvnk_verify (lb_ext T) (bvnk_new ''bvnk'' ''bvnk-test-secret'') [] ''irrelevant body''
      = v_failed ''missing_signature_header'')"

definition bvnk_invalid_base64_signature_fails :: "lab \<Rightarrow> bool" where
  "bvnk_invalid_base64_signature_fails T =
     (do { headers \<leftarrow> with_header T ''x-signature'' ''!!!not-base64!!!'' [];
           Some (bvnk_verify (lb_ext T) (bvnk_new ''bvnk'' ''bvnk-test-secret'') headers ''body'') }
      = Some (v_failed ''invalid_base64_signature''))"

definition bvnk_provider_name_returns_configured :: "lab \<Rightarrow> bool" where
  "bvnk_provider_name_returns_configured T =
     (v_provider_name (bvnk_object (lb_ext T) (bvnk_new ''bvnk-prod'' ''secret'')) = ''bvnk-prod'')"

section \<open>triplea.rs\<close>

definition fiat_valid_rsa_signature_passes :: "lab \<Rightarrow> bool" where
  "fiat_valid_rsa_signature_passes T =
     (let body = ''{\"payout_id\":\"abc123\",\"status\":\"completed\"}'' in
      do { verifier \<leftarrow> triplea_fiat_new (lb_ext T) ''triplea-fiat'' (lb_pem T);
           headers \<leftarrow> with_header T ''TripleA-Signature'' (sign_body (lb_ext T) (lb_sign T) body) [];
           Some (triplea_fiat_verify (lb_ext T) verifier headers body) }
      = Some (v_verified ''signature_valid''))"

definition fiat_invalid_signature_fails :: "lab \<Rightarrow> bool" where
  "fiat_invalid_signature_fails T =
     (let sig_b64 = sign_body (lb_ext T) (lb_sign T) ''{\"payout_id\":\"WRONG\"}'' in
      do { verifier \<leftarrow> triplea_fiat_new (lb_ext T) ''triplea-fiat'' (lb_pem T);
           headers \<leftarrow> with_header T ''TripleA-Signature'' sig_b64 [];
           Some (triplea_fiat_verify (lb_ext T) verifier headers ''{\"payout_id\":\"abc123\"}'') }
      = Some (v_failed ''signature_mismatch''))"

definition fiat_missing_header_fails :: "lab \<Rightarrow> bool" where
  "fiat_missing_header_fails T =
     (do { verifier \<leftarrow> triplea_fiat_new (lb_ext T) ''triplea-fiat'' (lb_pem T);
           Some (triplea_fiat_verify (lb_ext T) verifier [] ''body'') }
      = Some (v_failed ''missing_signature_header''))"

definition fiat_invalid_pem_returns_none :: "lab \<Rightarrow> bool" where
  "fiat_invalid_pem_returns_none T = (triplea_fiat_new (lb_ext T) ''triplea-fiat'' ''not-a-valid-pem'' = None)"

definition fiat_provider_name_returns_configured :: "lab \<Rightarrow> bool" where
  "fiat_provider_name_returns_configured T =
     (map_option (\<lambda>v. v_provider_name (triplea_fiat_object (lb_ext T) v)) (triplea_fiat_new (lb_ext T) ''triplea-prod'' (lb_pem T))
      = Some ''triplea-prod'')"

section \<open>stripe.rs\<close>

definition stripe_valid_stripe_signature :: "lab \<Rightarrow> bool" where
  "stripe_valid_stripe_signature T =
     (let ts = now_secs T in
      do { sig \<leftarrow> compute_stripe_sig (lb_ext T) ''whsec_test_secret'' ts ''{\"type\":\"payment_intent.created\"}'';
           headers \<leftarrow> with_header T ''Stripe-Signature'' (timestamped_header ts sig) [];
           Some (stripe_verify (lb_ext T) (stripe_new ''stripe'' ''whsec_test_secret'') (lb_verify_now T) headers ''{\"type\":\"payment_intent.created\"}'') }
      = Some (v_verified ''signature_valid''))"

definition stripe_expired_timestamp_fails :: "lab \<Rightarrow> bool" where
  "stripe_expired_timestamp_fails T =
     (let ts = now_secs T - 601 in
      do { sig \<leftarrow> compute_stripe_sig (lb_ext T) ''whsec_test_secret'' ts ''{\"type\":\"payment_intent.created\"}'';
           headers \<leftarrow> with_header T ''Stripe-Signature'' (timestamped_header ts sig) [];
           Some (stripe_verify (lb_ext T) (stripe_new ''stripe'' ''whsec_test_secret'') (lb_verify_now T) headers ''{\"type\":\"payment_intent.created\"}'') }
      = Some (v_failed ''timestamp_expired''))"

definition stripe_wrong_secret_fails :: "lab \<Rightarrow> bool" where
  "stripe_wrong_secret_fails T =
     (let ts = now_secs T in
      do { sig \<leftarrow> compute_stripe_sig (lb_ext T) ''wrong_secret'' ts ''{\"type\":\"payment_intent.created\"}'';
           headers \<leftarrow> with_header T ''Stripe-Signature'' (timestamped_header ts sig) [];
           Some (stripe_verify (lb_ext T) (stripe_new ''stripe'' ''correct_secret'') (lb_verify_now T) headers ''{\"type\":\"payment_intent.created\"}'') }
      = Some (v_failed ''signature_mismatch''))"

definition missing_stripe_header_fails :: "lab \<Rightarrow> bool" where
  "missing_stripe_header_fails T =
     (stripe_verify (lb_ext T) (stripe_new ''stripe'' ''whsec_test_secret'') (lb_verify_now T) [] ''irrelevant body''
      = v_failed ''missing_signature_header'')"

definition stripe_with_tolerance_builder :: "lab \<Rightarrow> bool" where
  "stripe_with_tolerance_builder T =
     (let ts = now_secs T in
      map_option vr_status (
        do { sig \<leftarrow> compute_stripe_sig (lb_ext T) ''whsec_test_secret'' ts ''{}'';
           headers \<leftarrow> with_header T ''Stripe-Signature'' (timestamped_header ts sig) [];
           Some (stripe_verify (lb_ext T) (stripe_with_tolerance (duration_from_secs 60) (stripe_new ''stripe'' ''whsec_test_secret'')) (lb_verify_now T) headers ''{}'') })
      = Some VS_Verified)"

definition multiple_v1_signatures_during_rotation :: "lab \<Rightarrow> bool" where
  "multiple_v1_signatures_during_rotation T =
     (let ts = now_secs T in
      do { old_sig \<leftarrow> compute_stripe_sig (lb_ext T) ''whsec_old_secret'' ts ''{\"type\":\"charge.succeeded\"}'';
           new_sig \<leftarrow> compute_stripe_sig (lb_ext T) ''whsec_new_secret'' ts ''{\"type\":\"charge.succeeded\"}'';
           headers \<leftarrow> with_header T ''Stripe-Signature'' (''t='' @ dec ts @ '',v1='' @ old_sig @ '',v1='' @ new_sig) [];
           Some (stripe_verify (lb_ext T) (stripe_new ''stripe'' ''whsec_new_secret'') (lb_verify_now T) headers ''{\"type\":\"charge.succeeded\"}'') }
      = Some (v_verified ''signature_valid''))"

definition stripe_missing_timestamp_fails :: "lab \<Rightarrow> bool" where
  "stripe_missing_timestamp_fails T =
     (do { headers \<leftarrow> with_header T ''Stripe-Signature'' ''v1=aabbccdd'' [];
           Some (stripe_verify (lb_ext T) (stripe_new ''stripe'' ''whsec_test_secret'') (lb_verify_now T) headers ''{}'') }
      = Some (v_failed ''missing_timestamp''))"

definition stripe_missing_v1_signature_fails :: "lab \<Rightarrow> bool" where
  "stripe_missing_v1_signature_fails T =
     (do { headers \<leftarrow> with_header T ''Stripe-Signature'' (''t='' @ dec (now_secs T)) [];
           Some (stripe_verify (lb_ext T) (stripe_new ''stripe'' ''whsec_test_secret'') (lb_verify_now T) headers ''{}'') }
      = Some (v_failed ''missing_v1_signature''))"

definition stripe_invalid_timestamp_fails :: "lab \<Rightarrow> bool" where
  "stripe_invalid_timestamp_fails T =
     (do { headers \<leftarrow> with_header T ''Stripe-Signature'' ''t=notanumber,v1=aabbccdd'' [];
           Some (stripe_verify (lb_ext T) (stripe_new ''stripe'' ''whsec_test_secret'') (lb_verify_now T) headers ''{}'') }
      = Some (v_failed ''invalid_timestamp''))"

definition stripe_non_utf8_body_fails :: "lab \<Rightarrow> bool" where
  "stripe_non_utf8_body_fails T =
     (do { headers \<leftarrow> with_header T ''Stripe-Signature'' (timestamped_header (now_secs T) ''aabbccdd'') [];
           Some (stripe_verify (lb_ext T) (stripe_new ''stripe'' ''whsec_test_secret'') (lb_verify_now T) headers [CHR 0xFF, CHR 0xFE, CHR 0x00]) }
      = Some (v_failed ''invalid_body_encoding''))"

definition invalid_hex_in_v1_skips_to_mismatch :: "lab \<Rightarrow> bool" where
  "invalid_hex_in_v1_skips_to_mismatch T =
     (do { headers \<leftarrow> with_header T ''Stripe-Signature'' (timestamped_header (now_secs T) ''ZZZZZZ'') [];
           Some (stripe_verify (lb_ext T) (stripe_new ''stripe'' ''whsec_test_secret'') (lb_verify_now T) headers ''{}'') }
      = Some (v_failed ''signature_mismatch''))"

definition stripe_provider_name_returns_configured_name :: "lab \<Rightarrow> bool" where
  "stripe_provider_name_returns_configured_name T =
     (v_provider_name (stripe_object (lb_ext T) (stripe_new ''stripe-prod'' ''secret'')) = ''stripe-prod'')"

definition stripe_timestamp_exactly_at_tolerance_boundary_is_accepted :: "lab \<Rightarrow> bool" where
  "stripe_timestamp_exactly_at_tolerance_boundary_is_accepted T =
     (let ts = now_secs T - 120 in
      map_option vr_status (
        do { sig \<leftarrow> compute_stripe_sig (lb_ext T) ''whsec_test_secret'' ts ''{\"type\":\"payment_intent.created\"}'';
           headers \<leftarrow> with_header T ''Stripe-Signature'' (timestamped_header ts sig) [];
           Some (stripe_verify (lb_ext T) (stripe_with_tolerance (duration_from_secs 120) (stripe_new ''stripe'' ''whsec_test_secret'')) (lb_verify_now T) headers ''{\"type\":\"payment_intent.created\"}'') })
      = Some VS_Verified)"

section \<open>triplea\_crypto.rs\<close>

definition crypto_valid_signature_passes :: "lab \<Rightarrow> bool" where
  "crypto_valid_signature_passes T =
     (let ts = now_secs T in
      do { sig \<leftarrow> crypto_compute_sig (lb_ext T) ''test_notify_secret'' ts ''{\"event\":\"payment\",\"status\":\"good\"}'';
           headers \<leftarrow> with_header T ''triplea-signature'' (timestamped_header ts sig) [];
           Some (triplea_crypto_verify (lb_ext T) (triplea_crypto_new ''triplea'' ''test_notify_secret'') (lb_verify_now T) headers ''{\"event\":\"payment\",\"status\":\"good\"}'') }
      = Some (v_verified ''signature_valid''))"

definition crypto_expired_timestamp_fails :: "lab \<Rightarrow> bool" where
  "crypto_expired_timestamp_fails T =
     (let ts = now_secs T - 601 in
      do { sig \<leftarrow> crypto_compute_sig (lb_ext T) ''test_notify_secret'' ts ''{\"event\":\"payment\"}'';
           headers \<leftarrow> with_header T ''triplea-signature'' (timestamped_header ts sig) [];
           Some (triplea_crypto_verify (lb_ext T) (triplea_crypto_new ''triplea'' ''test_notify_secret'') (lb_verify_now T) headers ''{\"event\":\"payment\"}'') }
      = Some (v_failed ''timestamp_expired''))"

definition crypto_wrong_secret_fails :: "lab \<Rightarrow> bool" where
  "crypto_wrong_secret_fails T =
     (let ts = now_secs T in
      do { sig \<leftarrow> crypto_compute_sig (lb_ext T) ''wrong_secret'' ts ''{\"event\":\"payment\"}'';
           headers \<leftarrow> with_header T ''triplea-signature'' (timestamped_header ts sig) [];
           Some (triplea_crypto_verify (lb_ext T) (triplea_crypto_new ''triplea'' ''correct_secret'') (lb_verify_now T) headers ''{\"event\":\"payment\"}'') }
      = Some (v_failed ''signature_mismatch''))"

definition crypto_missing_header_fails :: "lab \<Rightarrow> bool" where
  "crypto_missing_header_fails T =
     (triplea_crypto_verify (lb_ext T) (triplea_crypto_new ''triplea'' ''test_notify_secret'') (lb_verify_now T) [] ''irrelevant body''
      = v_failed ''missing_signature_header'')"

definition crypto_with_tolerance_builder :: "lab \<Rightarrow> bool" where
  "crypto_with_tolerance_builder T =
     (let ts = now_secs T in
      map_option vr_status (
        do { sig \<leftarrow> crypto_compute_sig (lb_ext T) ''test_notify_secret'' ts ''{}'';
           headers \<leftarrow> with_header T ''triplea-signature'' (timestamped_header ts sig) [];
           Some (triplea_crypto_verify (lb_ext T) (triplea_crypto_with_tolerance (duration_from_secs 60) (triplea_crypto_new ''triplea'' ''test_notify_secret'')) (lb_verify_now T) headers ''{}'') })
      = Some VS_Verified)"

definition crypto_provider_name_returns_configured_name :: "lab \<Rightarrow> bool" where
  "crypto_provider_name_returns_configured_name T =
     (v_provider_name (triplea_crypto_object (lb_ext T) (triplea_crypto_new ''triplea-prod'' ''secret'')) = ''triplea-prod'')"

definition crypto_timestamp_exactly_at_tolerance_boundary_is_accepted :: "lab \<Rightarrow> bool" where
  "crypto_timestamp_exactly_at_tolerance_boundary_is_accepted T =
     (let ts = now_secs T - 120 in
      map_option vr_status (
        do { sig \<leftarrow> crypto_compute_sig (lb_ext T) ''test_notify_secret'' ts ''{\"event\":\"payment\"}'';
           headers \<leftarrow> with_header T ''triplea-signature'' (timestamped_header ts sig) [];
           Some (triplea_crypto_verify (lb_ext T) (triplea_crypto_with_tolerance (duration_from_secs 120) (triplea_crypto_new ''triplea'' ''test_notify_secret'')) (lb_verify_now T) headers ''{\"event\":\"payment\"}'') })
      = Some VS_Verified)"

section \<open>walapay.rs\<close>

definition TEST_SECRET :: string where
  "TEST_SECRET = ''whsec_dGVzdF9rZXlfZm9yX3dhbGFwYXlfdGVzdHM=''"

definition TEST_KEY :: bytes where
  "TEST_KEY = ''test_key_for_walapay_tests''"

text \<open>The three headers of a Svix message, inserted in this order.\<close>

definition svix_headers :: "lab \<Rightarrow> string \<Rightarrow> nat \<Rightarrow> string \<Rightarrow> headers option" where
  "svix_headers T msg_id ts header_sig =
     do { headers \<leftarrow> with_header T ''svix-id'' msg_id [];
          headers \<leftarrow> with_header T ''svix-timestamp'' (dec ts) headers;
          with_header T ''svix-signature'' header_sig headers }"

definition walapay_valid_signature_passes :: "lab \<Rightarrow> bool" where
  "walapay_valid_signature_passes T =
     (let ts = now_secs T in
      do { sig \<leftarrow> svix_compute_sig (lb_ext T) TEST_KEY ''msg_abc123'' ts ''{\"event\":\"payment.completed\"}'';
           verifier \<leftarrow> walapay_new (lb_ext T) ''walapay'' TEST_SECRET;
           headers \<leftarrow> svix_headers T ''msg_abc123'' ts (''v1,'' @ sig);
           Some (walapay_verify (lb_ext T) verifier (lb_verify_now T) headers ''{\"event\":\"payment.completed\"}'') }
      = Some (v_verified ''signature_valid''))"

definition missing_svix_id_fails :: "lab \<Rightarrow> bool" where
  "missing_svix_id_fails T =
     (do { verifier \<leftarrow> walapay_new (lb_ext T) ''walapay'' TEST_SECRET;
           headers \<leftarrow> with_header T ''svix-timestamp'' (dec (now_secs T)) [];
           headers \<leftarrow> with_header T ''svix-signature'' ''v1,somesig'' headers;
           Some (walapay_verify (lb_ext T) verifier (lb_verify_now T) headers ''{}'') }
      = Some (v_failed ''missing_svix_id_header''))"

definition missing_svix_timestamp_fails :: "lab \<Rightarrow> bool" where
  "missing_svix_timestamp_fails T =
     (do { verifier \<leftarrow> walapay_new (lb_ext T) ''walapay'' TEST_SECRET;
           headers \<leftarrow> with_header T ''svix-id'' ''msg_abc'' [];
           headers \<leftarrow> with_header T ''svix-signature'' ''v1,somesig'' headers;
           Some (walapay_verify (lb_ext T) verifier (lb_verify_now T) headers ''{}'') }
      = Some (v_failed ''missing_svix_timestamp_header''))"

definition walapay_expired_timestamp_fails :: "lab \<Rightarrow> bool" where
  "walapay_expired_timestamp_fails T =
     (let ts = now_secs T - 601 in
      do { sig \<leftarrow> svix_compute_sig (lb_ext T) TEST_KEY ''msg_expired'' ts ''{\"event\":\"payment.completed\"}'';
           verifier \<leftarrow> walapay_new (lb_ext T) ''walapay'' TEST_SECRET;
           headers \<leftarrow> svix_headers T ''msg_expired'' ts (''v1,'' @ sig);
           Some (walapay_verify (lb_ext T) verifier (lb_verify_now T) headers ''{\"event\":\"payment.completed\"}'') }
      = Some (v_failed ''timestamp_expired''))"

definition walapay_wrong_secret_fails :: "lab \<Rightarrow> bool" where
  "walapay_wrong_secret_fails T =
     (let ts = now_secs T in
      do { sig \<leftarrow> svix_compute_sig (lb_ext T) ''wrong_key'' ''msg_wrong'' ts ''{\"event\":\"payment.completed\"}'';
           verifier \<leftarrow> walapay_new (lb_ext T) ''walapay'' TEST_SECRET;
           headers \<leftarrow> svix_headers T ''msg_wrong'' ts (''v1,'' @ sig);
           Some (walapay_verify (lb_ext T) verifier (lb_verify_now T) headers ''{\"event\":\"payment.completed\"}'') }
      = Some (v_failed ''signature_mismatch''))"

definition multiple_signatures_any_match :: "lab \<Rightarrow> bool" where
  "multiple_signatures_any_match T =
     (let ts = now_secs T in
      do { good_sig \<leftarrow> svix_compute_sig (lb_ext T) TEST_KEY ''msg_multi'' ts ''{\"event\":\"payment.completed\"}'';
           verifier \<leftarrow> walapay_new (lb_ext T) ''walapay'' TEST_SECRET;
           headers \<leftarrow> svix_headers T ''msg_multi'' ts (''v1,'' @ x_b64_encode (lb_ext T) ''not_a_real_signature'' @ '' v1,'' @ good_sig);
           Some (walapay_verify (lb_ext T) verifier (lb_verify_now T) headers ''{\"event\":\"payment.completed\"}'') }
      = Some (v_verified ''signature_valid''))"

definition invalid_secret_no_prefix_returns_none :: "lab \<Rightarrow> bool" where
  "invalid_secret_no_prefix_returns_none T = (walapay_new (lb_ext T) ''walapay'' ''no_whsec_prefix_here'' = None)"

definition invalid_secret_bad_base64_returns_none :: "lab \<Rightarrow> bool" where
  "invalid_secret_bad_base64_returns_none T =
     (walapay_new (lb_ext T) ''walapay'' ''whsec_!!!not_valid_base64!!!'' = None)"

definition empty_whsec_key_returns_none :: "lab \<Rightarrow> bool" where
  "empty_whsec_key_returns_none T = (walapay_new (lb_ext T) ''walapay'' ''whsec_'' = None)"

definition walapay_provider_name_returns_configured_name :: "lab \<Rightarrow> bool" where
  "walapay_provider_name_returns_configured_name T =
     (map_option (\<lambda>v. v_provider_name (walapay_object (lb_ext T) v)) (walapay_new (lb_ext T) ''walapay-prod'' TEST_SECRET)
      = Some ''walapay-prod'')"

definition walapay_timestamp_exactly_at_tolerance_boundary_is_accepted :: "lab \<Rightarrow> bool" where
  "walapay_timestamp_exactly_at_tolerance_boundary_is_accepted T =
     (let ts = now_secs T - 120 in
      map_option vr_status (
        do { sig \<leftarrow> svix_compute_sig (lb_ext T) TEST_KEY ''msg_boundary_test'' ts ''{\"event\":\"payment.completed\"}'';
           verifier \<leftarrow> walapay_new (lb_ext T) ''walapay'' TEST_SECRET;
           headers \<leftarrow> svix_headers T ''msg_boundary_test'' ts (''v1,'' @ sig);
           Some (walapay_verify (lb_ext T) (walapay_with_tolerance (duration_from_secs 120) verifier) (lb_verify_now T) headers ''{\"event\":\"payment.completed\"}'') })
      = Some VS_Verified)"

section \<open>Surroundings\<close>

definition printable :: "char \<Rightarrow> bool" where
  "printable c \<longleftrightarrow> 32 \<le> byte c \<and> byte c < 127"

text \<open>Documented behaviour of the crates: HMAC takes keys of any length, a value made of visible ASCII is a
  header and reads back as itself, other bytes do not read as text, and both encodings use visible
  ASCII.\<close>

definition lab_ok :: "lab \<Rightarrow> bool" where
  "lab_ok T \<longleftrightarrow>
     codecs_ok (lb_ext T)
     \<and> (\<forall>key m. x_hmac_sha256 (lb_ext T) key m \<noteq> None)
     \<and> (\<forall>s. list_all printable s \<longrightarrow> (\<exists>v. lb_from_str T s = Some v \<and> x_header_to_str (lb_ext T) v = Some s))
     \<and> (\<forall>b. list_all printable (x_hex_encode (lb_ext T) b) \<and> list_all printable (x_b64_encode (lb_ext T) b))
     \<and> (\<exists>v. lb_from_bytes T [CHR 0xC3, CHR 0xA9] = Some v \<and> x_header_to_str (lb_ext T) v = None)"

text \<open>What the decoders make of the literals of the tests.\<close>

definition decodings_ok :: "externals \<Rightarrow> bool" where
  "decodings_ok x \<longleftrightarrow>
     x_hex_decode x ''ZZZZZZNOTHEX'' = None \<and> x_hex_decode x ''ZZZZZZ'' = None \<and> x_hex_decode x ''not-valid-hex!!'' = None
     \<and> x_hex_decode x bad_hex_sig \<noteq> None \<and> x_hex_decode x ''deadbeefdeadbeef'' \<noteq> None
     \<and> x_b64_decode x ''!!!not-base64!!!'' = None \<and> x_b64_decode x ''!!!not_valid_base64!!!'' = None
     \<and> x_b64_decode x '''' = Some [] \<and> x_b64_decode x zero_sig \<noteq> None
     \<and> x_b64_decode x ''dGVzdF9rZXlfZm9yX3dhbGFwYXlfdGVzdHM='' = Some TEST_KEY"

text \<open>The key pair of a test belongs together and its signature of one body is none of the other.\<close>

definition rsa_ok :: "lab \<Rightarrow> bool" where
  "rsa_ok T \<longleftrightarrow>
     x_rsa_from_pem (lb_ext T) ''not-a-valid-pem'' = None
     \<and> (\<exists>key. x_rsa_from_pem (lb_ext T) (lb_pem T) = Some key
         \<and> (\<forall>m. \<exists>sig. x_rsa_signature (lb_ext T) (lb_sign T m) = Some sig \<and> x_rsa_verify (lb_ext T) key m sig)
         \<and> (\<forall>sig. x_rsa_signature (lb_ext T) (lb_sign T ''{\"payout_id\":\"WRONG\"}'') = Some sig
              \<longrightarrow> \<not> x_rsa_verify (lb_ext T) key ''{\"payout_id\":\"abc123\"}'' sig))"

text \<open>The wrong signatures of the tests are no collisions.\<close>

definition no_collisions :: "lab \<Rightarrow> bool" where
  "no_collisions T \<longleftrightarrow> (let x = lb_ext T; ts = dec (now_secs T) in
     x_hmac_sha256 x ''test-secret'' ''hello world'' \<noteq> x_hex_decode x bad_hex_sig
     \<and> x_hmac_sha256 x (the (x_hex_decode x ''deadbeefdeadbeef'')) ''{\"live\":\"false\"}'' \<noteq> x_b64_decode x zero_sig
     \<and> x_hmac_sha256 x ''bvnk-test-secret'' ''{\"type\":\"PAYMENT_RECEIVED\"}'' \<noteq> x_b64_decode x zero_sig
     \<and> x_hmac_sha256 x ''wrong_secret'' (ts @ ''.{\"type\":\"payment_intent.created\"}'')
         \<noteq> x_hmac_sha256 x ''correct_secret'' (ts @ ''.{\"type\":\"payment_intent.created\"}'')
     \<and> x_hmac_sha256 x ''wrong_secret'' (ts @ ''.{\"event\":\"payment\"}'')
         \<noteq> x_hmac_sha256 x ''correct_secret'' (ts @ ''.{\"event\":\"payment\"}'')
     \<and> x_hmac_sha256 x ''wrong_key'' (''msg_wrong.'' @ ts @ ''.{\"event\":\"payment.completed\"}'')
         \<noteq> x_hmac_sha256 x TEST_KEY (''msg_wrong.'' @ ts @ ''.{\"event\":\"payment.completed\"}''))"

text \<open>The test reads the clock before \<^verbatim>\<open>verify\<close> does, at most a minute earlier, and after 1970.\<close>

definition clock_ok :: "lab \<Rightarrow> bool" where
  "clock_ok T \<longleftrightarrow> 601 \<le> lb_now T \<and> lb_now T \<le> lb_verify_now T \<and> lb_verify_now T \<le> lb_now T + 60 \<and> lb_verify_now T < 2 ^ 63"

section \<open>Headers and verdicts\<close>

lemma lab_codecs: "lab_ok T \<Longrightarrow> codecs_ok (lb_ext T)"
  by (simp add: lab_ok_def)

lemma printable_codecs:
  assumes "lab_ok T"
  shows "list_all printable (x_hex_encode (lb_ext T) b)" "list_all printable (x_b64_encode (lb_ext T) b)"
  using assms by (simp_all add: lab_ok_def)

lemma printable_dec: "list_all printable (dec n)"
  using dec_digits[of n] by (auto simp: list_all_iff is_digit_def printable_def)

lemma printable_timestamped: "list_all printable sig \<Longrightarrow> list_all printable (timestamped_header ts sig)"
  by (simp add: timestamped_header_def printable_dec) (simp add: printable_def byte_def)

lemma mac_total:
  assumes "lab_ok T" obtains mac where "x_hmac_sha256 (lb_ext T) key m = Some mac"
  using assms that unfolding lab_ok_def by (metis not_None_eq)

lemma header_get_insert:
  "header_get (header_insert name v hs) n =
     (if to_ascii_lowercase n = to_ascii_lowercase name then Some v else header_get hs n)"
proof -
  have "map_of (filter (\<lambda>(k, _). k \<noteq> name) hs) n = map_of hs n" if "n \<noteq> name" for name n
    using that by (induction hs) auto
  then show ?thesis by (simp add: header_get_def header_insert_def update_conv')
qed

lemma with_header_ok:
  assumes "lab_ok T" and "list_all printable s"
  obtains v where "with_header T name s hs = Some (header_insert name v hs)" "x_header_to_str (lb_ext T) v = Some s"
  using assms unfolding lab_ok_def with_header_def by (metis Option.bind.bind_lunit)

lemma verified_reason:
  "vr_status (v_verify (verifier_object x pv) now hs body) = VS_Verified \<Longrightarrow>
   v_verify (verifier_object x pv) now hs body = v_verified ''signature_valid''"
  by (cases pv)
    (auto simp: generic_hmac_object_def bvnk_object_def adyen_object_def triplea_fiat_object_def
      stripe_object_def triplea_crypto_object_def walapay_object_def generic_hmac_verify_def bvnk_verify_def
      adyen_verify_def triplea_fiat_verify_def stripe_verify_def triplea_crypto_verify_def walapay_verify_def
      split: option.splits if_splits prod.splits)

lemma sent_verifies:
  assumes "codecs_ok x" and "key_pair_ok x sign pv" and "ts < 2 ^ 64"
    and "provider_sends x sign pv ts msg_id body = Some sent"
    and "list_all (\<lambda>(name, s). header_str x hs name = Some s) sent" and "in_window pv now ts"
  shows "v_verify (verifier_object x pv) now hs body = v_verified ''signature_valid''"
  by (rule verified_reason) (use sent_is_accepted[OF assms(1-5)] assms(6) in \<open>simp add: verifier_verdict\<close>)

text \<open>The timestamped verifiers on a well-formed header.\<close>

lemma parse_timestamped:
  assumes "CHR '','' \<notin> set sig"
  shows "parse_sig_parts (split_char (CHR '','') (timestamped_header ts sig)) None [] = (Some (dec ts), [sig])"
  using timestamped_parts[OF assms, of ts] by (simp add: parse_sig_parts_eq parts_with_def)

lemma stripe_on_header:
  assumes "CHR '','' \<notin> set sig" and "ts < 2 ^ 64" and "header_get hs ''Stripe-Signature'' = Some hv"
    and "x_header_to_str x hv = Some (timestamped_header ts sig)"
  shows "stripe_verify x v now hs body =
    (if abs_diff (clock_u64 now) ts > duration_as_secs (st_tolerance v) then v_failed ''timestamp_expired''
     else (case from_utf8 body of None \<Rightarrow> v_failed ''invalid_body_encoding''
      | Some b \<Rightarrow> (case x_hmac_sha256 x (st_secret v) (dec ts @ ''.'' @ b) of None \<Rightarrow> v_failed ''invalid_secret_length''
      | Some mac \<Rightarrow> if x_hex_decode x sig = Some mac then v_verified ''signature_valid'' else v_failed ''signature_mismatch'')))"
  using assms(3,4) parse_timestamped[OF assms(1)] parse_u64_dec[OF assms(2)]
  by (simp add: stripe_verify_def any_hex_match_iff split: option.split)

lemma crypto_on_header:
  assumes "CHR '','' \<notin> set sig" and "ts < 2 ^ 64" and "header_get hs ''triplea-signature'' = Some hv"
    and "x_header_to_str x hv = Some (timestamped_header ts sig)"
  shows "triplea_crypto_verify x v now hs body =
    (if abs_diff (clock_u64 now) ts > duration_as_secs (tc_tolerance v) then v_failed ''timestamp_expired''
     else (case x_hmac_sha256 x (tc_secret v) (dec ts @ ''.'' @ body) of None \<Rightarrow> v_failed ''invalid_secret_length''
      | Some mac \<Rightarrow> if x_hex_decode x sig = Some mac then v_verified ''signature_valid'' else v_failed ''signature_mismatch''))"
  using assms(3,4) parse_timestamped[OF assms(1)] parse_u64_dec[OF assms(2)]
  by (simp add: triplea_crypto_verify_def any_hex_match_iff split: option.split)

section \<open>The tests pass\<close>

lemma decode_encode:
  assumes "lab_ok T"
  shows "x_hex_decode (lb_ext T) (x_hex_encode (lb_ext T) b) = Some b"
    and "x_b64_decode (lb_ext T) (x_b64_encode (lb_ext T) b) = Some b"
    and "CHR '','' \<notin> set (x_hex_encode (lb_ext T) b)"
    and "list_all (\<lambda>c. \<not> is_ws c) (x_b64_encode (lb_ext T) b)"
  using assms by (simp_all add: lab_ok_def codecs_ok_def)

lemma printable_literals:
  "list_all printable bad_hex_sig" "list_all printable ''ZZZZZZNOTHEX''" "list_all printable zero_sig"
  "list_all printable ''!!!not-base64!!!''"
  by (simp_all add: bad_hex_sig_def zero_sig_def printable_def byte_def)

lemma ghmac_tests_pass:
  assumes "lab_ok T" and "decodings_ok (lb_ext T)" and "no_collisions T"
  shows "ghmac_valid_signature_passes T" and "ghmac_invalid_signature_fails T" and "ghmac_missing_header_fails T"
    and "ghmac_invalid_hex_signature_fails T" and "ghmac_invalid_header_encoding_fails T"
    and "ghmac_provider_name_returns_configured_name T"
proof -
  obtain mac where mac: "x_hmac_sha256 (lb_ext T) ''test-secret'' ''hello world'' = Some mac" by (rule mac_total[OF assms(1)])
  note header = with_header_ok[OF assms(1), where name = "''X-Signature''" and hs = "[]"]
  note verify = generic_hmac_verify_def generic_hmac_new_def header_get_insert ct_eq_def mac
  obtain v where "with_header T ''X-Signature'' (x_hex_encode (lb_ext T) mac) [] = Some (header_insert ''X-Signature'' v [])"
    "x_header_to_str (lb_ext T) v = Some (x_hex_encode (lb_ext T) mac)"
    using header[OF printable_codecs(1)[OF assms(1)]] by metis
  then show "ghmac_valid_signature_passes T"
    by (simp add: ghmac_valid_signature_passes_def ghmac_compute_sig_def hex_mac_def verify decode_encode[OF assms(1)])
  obtain v where v: "with_header T ''X-Signature'' bad_hex_sig [] = Some (header_insert ''X-Signature'' v [])"
    "x_header_to_str (lb_ext T) v = Some bad_hex_sig"
    using header[OF printable_literals(1)] by metis
  obtain b where "x_hex_decode (lb_ext T) bad_hex_sig = Some b" using assms(2) by (auto simp: decodings_ok_def)
  then show "ghmac_invalid_signature_fails T"
    using v assms(3) by (simp add: ghmac_invalid_signature_fails_def verify no_collisions_def Let_def)
  show "ghmac_missing_header_fails T" by (simp add: ghmac_missing_header_fails_def verify header_get_def)
  obtain v where "with_header T ''X-Signature'' ''ZZZZZZNOTHEX'' [] = Some (header_insert ''X-Signature'' v [])"
    "x_header_to_str (lb_ext T) v = Some ''ZZZZZZNOTHEX''"
    using header[OF printable_literals(2)] by metis
  then show "ghmac_invalid_hex_signature_fails T"
    using assms(2) by (simp add: ghmac_invalid_hex_signature_fails_def verify decodings_ok_def)
  show "ghmac_invalid_header_encoding_fails T"
    using assms(1) by (auto simp: ghmac_invalid_header_encoding_fails_def verify lab_ok_def)
  show "ghmac_provider_name_returns_configured_name T"
    by (simp add: ghmac_provider_name_returns_configured_name_def generic_hmac_object_def generic_hmac_new_def)
qed

lemma adyen_tests_pass:
  assumes "lab_ok T" and "decodings_ok (lb_ext T)" and "no_collisions T"
  shows "adyen_valid_signature_passes T" and "adyen_invalid_signature_fails T" and "adyen_missing_header_fails T"
    and "adyen_invalid_hex_key_returns_none T" and "adyen_empty_hex_key_returns_none T"
    and "adyen_invalid_base64_signature_fails T" and "adyen_provider_name_returns_configured T"
proof -
  obtain key where key: "x_hex_decode (lb_ext T) ''deadbeefdeadbeef'' = Some key"
    using assms(2) by (auto simp: decodings_ok_def)
  obtain mac where mac: "x_hmac_sha256 (lb_ext T) key adyen_body = Some mac" by (rule mac_total[OF assms(1)])
  obtain mac' where mac': "x_hmac_sha256 (lb_ext T) key ''{\"live\":\"false\"}'' = Some mac'" by (rule mac_total[OF assms(1)])
  note header = with_header_ok[OF assms(1), where name = "''HmacSignature''" and hs = "[]"]
  note verify = adyen_verify_def adyen_new_def header_get_insert ct_eq_def key
  obtain v where "with_header T ''HmacSignature'' (x_b64_encode (lb_ext T) mac) [] = Some (header_insert ''HmacSignature'' v [])"
    "x_header_to_str (lb_ext T) v = Some (x_b64_encode (lb_ext T) mac)"
    using header[OF printable_codecs(2)[OF assms(1)]] by metis
  then show "adyen_valid_signature_passes T"
    by (simp add: adyen_valid_signature_passes_def adyen_compute_sig_def b64_mac_def verify mac decode_encode[OF assms(1)])
  obtain v where v: "with_header T ''HmacSignature'' zero_sig [] = Some (header_insert ''HmacSignature'' v [])"
    "x_header_to_str (lb_ext T) v = Some zero_sig"
    using header[OF printable_literals(3)] by metis
  obtain b where "x_b64_decode (lb_ext T) zero_sig = Some b" using assms(2) by (auto simp: decodings_ok_def)
  then show "adyen_invalid_signature_fails T"
    using v assms(3) by (simp add: adyen_invalid_signature_fails_def verify mac' no_collisions_def Let_def)
  obtain v where "with_header T ''HmacSignature'' ''!!!not-base64!!!'' [] = Some (header_insert ''HmacSignature'' v [])"
    "x_header_to_str (lb_ext T) v = Some ''!!!not-base64!!!''"
    using header[OF printable_literals(4)] by metis
  then show "adyen_invalid_base64_signature_fails T"
    using assms(2) by (simp add: adyen_invalid_base64_signature_fails_def verify decodings_ok_def)
  show "adyen_missing_header_fails T" by (simp add: adyen_missing_header_fails_def verify header_get_def)
  show "adyen_invalid_hex_key_returns_none T" "adyen_empty_hex_key_returns_none T"
    using assms(2) by (simp_all add: adyen_invalid_hex_key_returns_none_def adyen_empty_hex_key_returns_none_def
        adyen_new_def decodings_ok_def)
  show "adyen_provider_name_returns_configured T"
    by (simp add: adyen_provider_name_returns_configured_def adyen_object_def adyen_new_def key)
qed

lemma bvnk_tests_pass:
  assumes "lab_ok T" and "decodings_ok (lb_ext T)" and "no_collisions T"
  shows "bvnk_valid_signature_passes T" and "bvnk_invalid_signature_fails T" and "bvnk_missing_header_fails T"
    and "bvnk_invalid_base64_signature_fails T" and "bvnk_provider_name_returns_configured T"
proof -
  let ?body = "''{\"type\":\"PAYMENT_RECEIVED\",\"amount\":100}''"
  obtain mac where mac: "x_hmac_sha256 (lb_ext T) ''bvnk-test-secret'' ?body = Some mac" by (rule mac_total[OF assms(1)])
  obtain mac' where mac': "x_hmac_sha256 (lb_ext T) ''bvnk-test-secret'' ''{\"type\":\"PAYMENT_RECEIVED\"}'' = Some mac'"
    by (rule mac_total[OF assms(1)])
  note header = with_header_ok[OF assms(1), where name = "''x-signature''" and hs = "[]"]
  note verify = bvnk_verify_def bvnk_new_def header_get_insert ct_eq_def
  obtain v where "with_header T ''x-signature'' (x_b64_encode (lb_ext T) mac) [] = Some (header_insert ''x-signature'' v [])"
    "x_header_to_str (lb_ext T) v = Some (x_b64_encode (lb_ext T) mac)"
    using header[OF printable_codecs(2)[OF assms(1)]] by metis
  then show "bvnk_valid_signature_passes T"
    by (simp add: bvnk_valid_signature_passes_def bvnk_compute_sig_def b64_mac_def verify mac decode_encode[OF assms(1)])
  obtain v where v: "with_header T ''x-signature'' zero_sig [] = Some (header_insert ''x-signature'' v [])"
    "x_header_to_str (lb_ext T) v = Some zero_sig"
    using header[OF printable_literals(3)] by metis
  obtain b where "x_b64_decode (lb_ext T) zero_sig = Some b" using assms(2) by (auto simp: decodings_ok_def)
  then show "bvnk_invalid_signature_fails T"
    using v assms(3) by (simp add: bvnk_invalid_signature_fails_def verify mac' no_collisions_def Let_def)
  obtain v where "with_header T ''x-signature'' ''!!!not-base64!!!'' [] = Some (header_insert ''x-signature'' v [])"
    "x_header_to_str (lb_ext T) v = Some ''!!!not-base64!!!''"
    using header[OF printable_literals(4)] by metis
  then show "bvnk_invalid_base64_signature_fails T"
    using assms(2) by (simp add: bvnk_invalid_base64_signature_fails_def verify decodings_ok_def)
  show "bvnk_missing_header_fails T" by (simp add: bvnk_missing_header_fails_def verify header_get_def)
  show "bvnk_provider_name_returns_configured T"
    by (simp add: bvnk_provider_name_returns_configured_def bvnk_object_def bvnk_new_def)
qed

lemma fiat_tests_pass:
  assumes "lab_ok T" and "rsa_ok T"
  shows "fiat_valid_rsa_signature_passes T" and "fiat_invalid_signature_fails T" and "fiat_missing_header_fails T"
    and "fiat_invalid_pem_returns_none T" and "fiat_provider_name_returns_configured T"
proof -
  let ?x = "lb_ext T" and ?wrong = "''{\"payout_id\":\"WRONG\"}''"
  obtain key where key: "x_rsa_from_pem ?x (lb_pem T) = Some key"
    and signs: "\<And>m. \<exists>sig. x_rsa_signature ?x (lb_sign T m) = Some sig \<and> x_rsa_verify ?x key m sig"
    and other: "\<And>sig. x_rsa_signature ?x (lb_sign T ?wrong) = Some sig \<Longrightarrow> \<not> x_rsa_verify ?x key ''{\"payout_id\":\"abc123\"}'' sig"
    using assms(2) unfolding rsa_ok_def by blast
  note header = with_header_ok[OF assms(1) printable_codecs(2)[OF assms(1)], where name = "''TripleA-Signature''" and hs = "[]"]
  note verify = triplea_fiat_verify_def triplea_fiat_new_def header_get_insert sign_body_def key decode_encode[OF assms(1)]
  have sent: "\<exists>v. with_header T ''TripleA-Signature'' (x_b64_encode ?x (lb_sign T m)) [] = Some (header_insert ''TripleA-Signature'' v [])
      \<and> x_header_to_str ?x v = Some (x_b64_encode ?x (lb_sign T m))" for m
    using header by metis
  show "fiat_valid_rsa_signature_passes T"
    using sent[of "''{\"payout_id\":\"abc123\",\"status\":\"completed\"}''"]
      signs[of "''{\"payout_id\":\"abc123\",\"status\":\"completed\"}''"]
    by (auto simp: fiat_valid_rsa_signature_passes_def verify)
  show "fiat_invalid_signature_fails T"
    using sent[of ?wrong] signs[of ?wrong] other by (auto simp: fiat_invalid_signature_fails_def verify)
  show "fiat_missing_header_fails T" by (simp add: fiat_missing_header_fails_def verify header_get_def)
  show "fiat_invalid_pem_returns_none T"
    using assms(2) by (simp add: fiat_invalid_pem_returns_none_def triplea_fiat_new_def rsa_ok_def)
  show "fiat_provider_name_returns_configured T"
    by (simp add: fiat_provider_name_returns_configured_def triplea_fiat_object_def triplea_fiat_new_def key)
qed

lemma clock_facts:
  assumes "clock_ok T"
  shows "now_secs T < 2 ^ 64" "now_secs T - n < 2 ^ 64"
    "abs_diff (clock_u64 (lb_verify_now T)) (now_secs T) \<le> 60"
    "600 < abs_diff (clock_u64 (lb_verify_now T)) (now_secs T - 601)"
  using assms by (auto simp: clock_ok_def now_secs_def clock_u64_def abs_diff_def)

lemma timestamped_header_ok:
  assumes "lab_ok T"
  obtains v where "with_header T name (timestamped_header ts (x_hex_encode (lb_ext T) mac)) [] = Some (header_insert name v [])"
    "x_header_to_str (lb_ext T) v = Some (timestamped_header ts (x_hex_encode (lb_ext T) mac))"
  by (rule with_header_ok[OF assms printable_timestamped[OF printable_codecs(1)[OF assms]]])

lemmas secs = duration_as_secs_def duration_from_secs_def nanos_per_sec_def DEFAULT_TOLERANCE_SECS_def

text \<open>A header signed with \<open>secret\<close>, met by a verifier with \<open>secret'\<close> and a tolerance.\<close>

lemma stripe_signed:
  assumes "lab_ok T" and "ts < 2 ^ 64" and "from_utf8 body = Some body"
    and "x_hmac_sha256 (lb_ext T) secret (dec ts @ ''.'' @ body) = Some mac"
    and "x_hmac_sha256 (lb_ext T) (st_secret v) (dec ts @ ''.'' @ body) = Some mac'"
  shows "do { sig \<leftarrow> compute_stripe_sig (lb_ext T) secret ts body;
      headers \<leftarrow> with_header T ''Stripe-Signature'' (timestamped_header ts sig) [];
      Some (stripe_verify (lb_ext T) v now headers body) }
    = Some (if abs_diff (clock_u64 now) ts > duration_as_secs (st_tolerance v) then v_failed ''timestamp_expired''
        else if mac = mac' then v_verified ''signature_valid'' else v_failed ''signature_mismatch'')"
proof -
  let ?sig = "x_hex_encode (lb_ext T) mac"
  have sig: "compute_stripe_sig (lb_ext T) secret ts body = Some ?sig"
    using assms(3,4) by (simp add: compute_stripe_sig_def hex_mac_def)
  obtain hv where hv: "with_header T ''Stripe-Signature'' (timestamped_header ts ?sig) [] = Some (header_insert ''Stripe-Signature'' hv [])"
    "x_header_to_str (lb_ext T) hv = Some (timestamped_header ts ?sig)"
    by (rule timestamped_header_ok[OF assms(1)])
  show ?thesis
    using stripe_on_header[OF decode_encode(3)[OF assms(1)] assms(2) _ hv(2), of "header_insert ''Stripe-Signature'' hv []" v now body]
      assms(3,5) by (simp add: sig hv(1) header_get_insert decode_encode[OF assms(1)])
qed

lemma crypto_signed:
  assumes "lab_ok T" and "ts < 2 ^ 64" and "from_utf8 body = Some body"
    and "x_hmac_sha256 (lb_ext T) secret (dec ts @ ''.'' @ body) = Some mac"
    and "x_hmac_sha256 (lb_ext T) (tc_secret v) (dec ts @ ''.'' @ body) = Some mac'"
  shows "do { sig \<leftarrow> crypto_compute_sig (lb_ext T) secret ts body;
      headers \<leftarrow> with_header T ''triplea-signature'' (timestamped_header ts sig) [];
      Some (triplea_crypto_verify (lb_ext T) v now headers body) }
    = Some (if abs_diff (clock_u64 now) ts > duration_as_secs (tc_tolerance v) then v_failed ''timestamp_expired''
        else if mac = mac' then v_verified ''signature_valid'' else v_failed ''signature_mismatch'')"
proof -
  let ?sig = "x_hex_encode (lb_ext T) mac"
  have sig: "crypto_compute_sig (lb_ext T) secret ts body = Some ?sig"
    using assms(3,4) by (simp add: crypto_compute_sig_def hex_mac_def)
  obtain hv where hv: "with_header T ''triplea-signature'' (timestamped_header ts ?sig) [] = Some (header_insert ''triplea-signature'' hv [])"
    "x_header_to_str (lb_ext T) hv = Some (timestamped_header ts ?sig)"
    by (rule timestamped_header_ok[OF assms(1)])
  show ?thesis
    using crypto_on_header[OF decode_encode(3)[OF assms(1)] assms(2) _ hv(2), of "header_insert ''triplea-signature'' hv []" v now body]
      assms(3,5) by (simp add: sig hv(1) header_get_insert decode_encode[OF assms(1)])
qed

lemma utf8_literals:
  "from_utf8 ''{\"type\":\"payment_intent.created\"}'' = Some ''{\"type\":\"payment_intent.created\"}''"
  "from_utf8 ''{\"type\":\"charge.succeeded\"}'' = Some ''{\"type\":\"charge.succeeded\"}''"
  "from_utf8 ''{\"event\":\"payment\",\"status\":\"good\"}'' = Some ''{\"event\":\"payment\",\"status\":\"good\"}''"
  "from_utf8 ''{\"event\":\"payment\"}'' = Some ''{\"event\":\"payment\"}''" "from_utf8 ''{}'' = Some ''{}''"
  by (simp_all add: from_utf8_def byte_def)

lemma stripe_signed_tests_pass:
  assumes "lab_ok T" and "no_collisions T" and "clock_ok T"
  shows "stripe_valid_stripe_signature T" and "stripe_expired_timestamp_fails T"
    and "stripe_wrong_secret_fails T" and "stripe_with_tolerance_builder T"
proof -
  let ?x = "lb_ext T" and ?b = "''{\"type\":\"payment_intent.created\"}''" and ?now = "dec (now_secs T)"
  note clock = clock_facts[OF assms(3)] and mac = mac_total[OF assms(1)]
  note signed = stripe_signed[OF assms(1) clock(1) utf8_literals(1)] stripe_signed[OF assms(1) clock(2) utf8_literals(1)]
    stripe_signed[OF assms(1) clock(1) utf8_literals(5)]
  obtain m1 where m1: "x_hmac_sha256 ?x ''whsec_test_secret'' (?now @ ''.'' @ ?b) = Some m1" by (rule mac)
  obtain m2 where m2: "x_hmac_sha256 ?x ''whsec_test_secret'' (dec (now_secs T - 601) @ ''.'' @ ?b) = Some m2" by (rule mac)
  obtain m3 where m3: "x_hmac_sha256 ?x ''wrong_secret'' (?now @ ''.'' @ ?b) = Some m3" by (rule mac)
  obtain m4 where m4: "x_hmac_sha256 ?x ''correct_secret'' (?now @ ''.'' @ ?b) = Some m4" by (rule mac)
  obtain m5 where m5: "x_hmac_sha256 ?x ''whsec_test_secret'' (?now @ ''.'' @ ''{}'') = Some m5" by (rule mac)
  have differ: "m3 \<noteq> m4" using assms(2) m3 m4 by (auto simp: no_collisions_def Let_def)
  show "stripe_valid_stripe_signature T"
    unfolding stripe_valid_stripe_signature_def Let_def using signed(1)[OF m1] m1 clock(3)
    by (simp add: stripe_new_def secs)
  show "stripe_expired_timestamp_fails T"
    unfolding stripe_expired_timestamp_fails_def Let_def using signed(2)[OF m2] m2 clock(4)
    by (simp add: stripe_new_def secs)
  show "stripe_wrong_secret_fails T"
    unfolding stripe_wrong_secret_fails_def Let_def using signed(1)[OF m3] m4 differ clock(3)
    by (simp add: stripe_new_def secs)
  show "stripe_with_tolerance_builder T"
    unfolding stripe_with_tolerance_builder_def Let_def using signed(3)[OF m5] m5 clock(3)
    by (simp add: stripe_new_def stripe_with_tolerance_def secs)
qed

text \<open>The header of a key rotation.\<close>

lemma rotation_parts:
  assumes "CHR '','' \<notin> set old" and "CHR '','' \<notin> set new"
  shows "parse_sig_parts (split_char (CHR '','') (''t='' @ dec ts @ '',v1='' @ old @ '',v1='' @ new)) None [] = (Some (dec ts), [old, new])"
proof -
  have "split_char (CHR '','') (''t='' @ dec ts @ '',v1='' @ old @ '',v1='' @ new)
      = [''t='' @ dec ts, ''v1='' @ old, ''v1='' @ new]"
    using split_char_append[of "CHR '',''" "''t='' @ dec ts" "''v1='' @ old @ '',v1='' @ new"]
      split_char_append[of "CHR '',''" "''v1='' @ old" "''v1='' @ new"] dec_no_comma assms
    by (simp add: split_char_single)
  then show ?thesis by (simp add: strip_prefix_def)
qed

lemma rotation_test_passes:
  assumes "lab_ok T" and "clock_ok T"
  shows "multiple_v1_signatures_during_rotation T"
proof -
  let ?x = "lb_ext T" and ?m = "dec (now_secs T) @ ''.'' @ ''{\"type\":\"charge.succeeded\"}''"
  note clock = clock_facts[OF assms(2)] and mac = mac_total[OF assms(1)]
  obtain m1 where m1: "x_hmac_sha256 ?x ''whsec_old_secret'' ?m = Some m1" by (rule mac)
  obtain m2 where m2: "x_hmac_sha256 ?x ''whsec_new_secret'' ?m = Some m2" by (rule mac)
  let ?h = "''t='' @ dec (now_secs T) @ '',v1='' @ x_hex_encode ?x m1 @ '',v1='' @ x_hex_encode ?x m2"
  have "list_all printable ?h"
    by (simp add: printable_dec printable_codecs(1)[OF assms(1)]) (simp add: printable_def byte_def)
  then obtain v where v: "with_header T ''Stripe-Signature'' ?h [] = Some (header_insert ''Stripe-Signature'' v [])"
    "x_header_to_str ?x v = Some ?h"
    by (rule with_header_ok[OF assms(1)])
  have "stripe_verify ?x (stripe_new ''stripe'' ''whsec_new_secret'') (lb_verify_now T)
      (header_insert ''Stripe-Signature'' v []) ''{\"type\":\"charge.succeeded\"}'' = v_verified ''signature_valid''"
    unfolding stripe_verify_def header_get_insert
    using v(2) rotation_parts[OF decode_encode(3)[OF assms(1), of m1] decode_encode(3)[OF assms(1), of m2], of "now_secs T"] parse_u64_dec[OF clock(1)]
      m2 clock(3) utf8_literals(2)
    by (simp add: stripe_new_def secs ct_eq_def decode_encode[OF assms(1)] split: option.split)
  then show ?thesis
    using v(1) m1 m2 utf8_literals(2)
    by (simp add: multiple_v1_signatures_during_rotation_def Let_def compute_stripe_sig_def hex_mac_def)
qed

lemma stripe_header:
  assumes "lab_ok T" and "list_all printable s"
  shows "\<exists>v. with_header T ''Stripe-Signature'' s [] = Some (header_insert ''Stripe-Signature'' v [])
    \<and> x_header_to_str (lb_ext T) v = Some s"
  by (rule with_header_ok[OF assms]) blast

lemma stripe_malformed_tests_pass:
  assumes "lab_ok T"
  shows "missing_stripe_header_fails T" and "stripe_missing_timestamp_fails T"
    and "stripe_missing_v1_signature_fails T" and "stripe_invalid_timestamp_fails T"
    and "stripe_provider_name_returns_configured_name T"
proof -
  let ?now = "now_secs T"
  show "missing_stripe_header_fails T" by (simp add: missing_stripe_header_fails_def stripe_verify_def header_get_def)
  show "stripe_provider_name_returns_configured_name T"
    by (simp add: stripe_provider_name_returns_configured_name_def stripe_object_def stripe_new_def)
  have "list_all printable ''v1=aabbccdd''" by (simp add: printable_def byte_def)
  from stripe_header[OF assms this] show "stripe_missing_timestamp_fails T"
    by (auto simp: stripe_missing_timestamp_fails_def stripe_verify_def header_get_insert strip_prefix_def)
  have "list_all printable (''t='' @ dec ?now)"
    by (simp add: printable_dec) (simp add: printable_def byte_def)
  from stripe_header[OF assms this] obtain v where
    v: "with_header T ''Stripe-Signature'' (''t='' @ dec ?now) [] = Some (header_insert ''Stripe-Signature'' v [])"
      "x_header_to_str (lb_ext T) v = Some (''t='' @ dec ?now)" by blast
  have "split_char (CHR '','') (''t='' @ dec ?now) = [''t='' @ dec ?now]"
    using dec_no_comma by (intro split_char_single) simp
  then have "parse_sig_parts (split_char (CHR '','') (''t='' @ dec ?now)) None [] = (Some (dec ?now), [])"
    by (simp add: strip_prefix_def)
  then have "stripe_verify (lb_ext T) (stripe_new ''stripe'' ''whsec_test_secret'') (lb_verify_now T)
      (header_insert ''Stripe-Signature'' v []) ''{}'' = v_failed ''missing_v1_signature''"
    unfolding stripe_verify_def header_get_insert by (simp only: v(2) option.case prod.case if_True refl)
  then show "stripe_missing_v1_signature_fails T"
    unfolding stripe_missing_v1_signature_fails_def v(1) by simp
  have "list_all printable ''t=notanumber,v1=aabbccdd''" by (simp add: printable_def byte_def)
  from stripe_header[OF assms this] show "stripe_invalid_timestamp_fails T"
    by (auto simp: stripe_invalid_timestamp_fails_def stripe_verify_def header_get_insert strip_prefix_def
        parse_u64_def parse_digits_def is_digit_def byte_def)
qed

lemma stripe_bad_content_tests_pass:
  assumes "lab_ok T" and "decodings_ok (lb_ext T)" and "clock_ok T"
  shows "stripe_non_utf8_body_fails T" and "invalid_hex_in_v1_skips_to_mismatch T"
proof -
  let ?x = "lb_ext T" and ?now = "now_secs T" and ?v = "stripe_new ''stripe'' ''whsec_test_secret''"
  note clock = clock_facts[OF assms(3)]
  have "list_all printable ''aabbccdd''" "list_all printable ''ZZZZZZ''" by (simp_all add: printable_def byte_def)
  note h = stripe_header[OF assms(1) printable_timestamped[OF this(1)]] stripe_header[OF assms(1) printable_timestamped[OF this(2)]]
  obtain v where v: "with_header T ''Stripe-Signature'' (timestamped_header ?now ''aabbccdd'') [] = Some (header_insert ''Stripe-Signature'' v [])"
    "x_header_to_str ?x v = Some (timestamped_header ?now ''aabbccdd'')" using h(1) by blast
  show "stripe_non_utf8_body_fails T"
    using v(1) stripe_on_header[OF _ clock(1) _ v(2), of "header_insert ''Stripe-Signature'' v []" ?v
        "lb_verify_now T" "[CHR 0xFF, CHR 0xFE, CHR 0x00]"] clock(3)
    by (simp add: stripe_non_utf8_body_fails_def header_get_insert stripe_new_def secs from_utf8_def byte_def)
  obtain v where v: "with_header T ''Stripe-Signature'' (timestamped_header ?now ''ZZZZZZ'') [] = Some (header_insert ''Stripe-Signature'' v [])"
    "x_header_to_str ?x v = Some (timestamped_header ?now ''ZZZZZZ'')" using h(2) by blast
  obtain mac where "x_hmac_sha256 ?x ''whsec_test_secret'' (dec ?now @ ''.{}'') = Some mac" by (rule mac_total[OF assms(1)])
  then show "invalid_hex_in_v1_skips_to_mismatch T"
    using v(1) stripe_on_header[OF _ clock(1) _ v(2), of "header_insert ''Stripe-Signature'' v []" ?v
        "lb_verify_now T" "''{}''"] clock(3) assms(2)
    by (simp add: invalid_hex_in_v1_skips_to_mismatch_def header_get_insert stripe_new_def secs utf8_literals decodings_ok_def)
qed

lemma crypto_tests_pass:
  assumes "lab_ok T" and "no_collisions T" and "clock_ok T"
  shows "crypto_valid_signature_passes T" and "crypto_expired_timestamp_fails T" and "crypto_wrong_secret_fails T"
    and "crypto_missing_header_fails T" and "crypto_with_tolerance_builder T" and "crypto_provider_name_returns_configured_name T"
proof -
  let ?x = "lb_ext T" and ?b = "''{\"event\":\"payment\",\"status\":\"good\"}''" and ?e = "''{\"event\":\"payment\"}''"
  let ?now = "dec (now_secs T)"
  note clock = clock_facts[OF assms(3)] and mac = mac_total[OF assms(1)]
  note signed = crypto_signed[OF assms(1) clock(1) utf8_literals(3)] crypto_signed[OF assms(1) clock(2) utf8_literals(4)]
    crypto_signed[OF assms(1) clock(1) utf8_literals(4)] crypto_signed[OF assms(1) clock(1) utf8_literals(5)]
  obtain m1 where m1: "x_hmac_sha256 ?x ''test_notify_secret'' (?now @ ''.'' @ ?b) = Some m1" by (rule mac)
  obtain m2 where m2: "x_hmac_sha256 ?x ''test_notify_secret'' (dec (now_secs T - 601) @ ''.'' @ ?e) = Some m2" by (rule mac)
  obtain m3 where m3: "x_hmac_sha256 ?x ''wrong_secret'' (?now @ ''.'' @ ?e) = Some m3" by (rule mac)
  obtain m4 where m4: "x_hmac_sha256 ?x ''correct_secret'' (?now @ ''.'' @ ?e) = Some m4" by (rule mac)
  obtain m5 where m5: "x_hmac_sha256 ?x ''test_notify_secret'' (?now @ ''.'' @ ''{}'') = Some m5" by (rule mac)
  have differ: "m3 \<noteq> m4" using assms(2) m3 m4 by (auto simp: no_collisions_def Let_def)
  show "crypto_valid_signature_passes T"
    unfolding crypto_valid_signature_passes_def Let_def using signed(1)[OF m1] m1 clock(3)
    by (simp add: triplea_crypto_new_def secs)
  show "crypto_expired_timestamp_fails T"
    unfolding crypto_expired_timestamp_fails_def Let_def using signed(2)[OF m2] m2 clock(4)
    by (simp add: triplea_crypto_new_def secs)
  show "crypto_wrong_secret_fails T"
    unfolding crypto_wrong_secret_fails_def Let_def using signed(3)[OF m3] m4 differ clock(3)
    by (simp add: triplea_crypto_new_def secs)
  show "crypto_with_tolerance_builder T"
    unfolding crypto_with_tolerance_builder_def Let_def using signed(4)[OF m5] m5 clock(3)
    by (simp add: triplea_crypto_new_def triplea_crypto_with_tolerance_def secs)
  show "crypto_missing_header_fails T" "crypto_provider_name_returns_configured_name T"
    by (simp_all add: crypto_missing_header_fails_def triplea_crypto_verify_def header_get_def
        crypto_provider_name_returns_configured_name_def triplea_crypto_object_def triplea_crypto_new_def)
qed

text \<open>A Svix message on the wire.\<close>

lemma svix_names:
  "to_ascii_lowercase ''svix-id'' = ''svix-id''" "to_ascii_lowercase ''svix-timestamp'' = ''svix-timestamp''"
  "to_ascii_lowercase ''svix-signature'' = ''svix-signature''"
  by (simp_all add: to_ascii_lowercase_def byte_def)

lemma svix_headers_ok:
  assumes "lab_ok T" and "list_all printable i" and "list_all printable s"
  obtains hs where "svix_headers T i ts s = Some hs" "header_str (lb_ext T) hs ''svix-id'' = Some i"
    "header_str (lb_ext T) hs ''svix-timestamp'' = Some (dec ts)" "header_str (lb_ext T) hs ''svix-signature'' = Some s"
proof -
  note header = with_header_ok[OF assms(1)]
  obtain a where a: "with_header T ''svix-id'' i [] = Some (header_insert ''svix-id'' a [])" "x_header_to_str (lb_ext T) a = Some i"
    by (rule header[OF assms(2)])
  obtain b where b: "with_header T ''svix-timestamp'' (dec ts) (header_insert ''svix-id'' a [])
      = Some (header_insert ''svix-timestamp'' b (header_insert ''svix-id'' a []))" "x_header_to_str (lb_ext T) b = Some (dec ts)"
    by (rule header[OF printable_dec])
  obtain c where c: "with_header T ''svix-signature'' s (header_insert ''svix-timestamp'' b (header_insert ''svix-id'' a []))
      = Some (header_insert ''svix-signature'' c (header_insert ''svix-timestamp'' b (header_insert ''svix-id'' a [])))"
      "x_header_to_str (lb_ext T) c = Some s"
    by (rule header[OF assms(3)])
  show ?thesis
    by (rule that[of "header_insert ''svix-signature'' c (header_insert ''svix-timestamp'' b (header_insert ''svix-id'' a []))"])
      (simp_all add: svix_headers_def a b c header_str_def header_get_insert svix_names)
qed

lemma walapay_test_verifier:
  assumes "decodings_ok x"
  shows "walapay_new x ''walapay'' TEST_SECRET =
    Some \<lparr>wp_provider = ''walapay'', wp_key = TEST_KEY, wp_tolerance = duration_from_secs DEFAULT_TOLERANCE_SECS\<rparr>"
proof -
  have "strip_prefix ''whsec_'' TEST_SECRET = Some ''dGVzdF9rZXlfZm9yX3dhbGFwYXlfdGVzdHM=''"
    by (simp add: TEST_SECRET_def strip_prefix_def)
  moreover have "TEST_KEY \<noteq> []" by (simp add: TEST_KEY_def)
  ultimately show ?thesis using assms by (simp add: walapay_new_def decodings_ok_def)
qed

text \<open>A verifier on readable Svix headers whose signature entries are known.\<close>

lemma walapay_on_headers:
  assumes "header_str x hs ''svix-id'' = Some i" and "header_str x hs ''svix-timestamp'' = Some (dec ts)"
    and "header_str x hs ''svix-signature'' = Some s" and "ts < 2 ^ 64"
    and "x_hmac_sha256 x (wp_key v) (i @ ''.'' @ dec ts @ ''.'' @ body) = Some mac"
  shows "walapay_verify x v now hs body =
    (if abs_diff (clock_u64 now) ts > duration_as_secs (wp_tolerance v) then v_failed ''timestamp_expired''
     else if ''v1,'' @ x_b64_encode x mac \<in> set (split_whitespace s) then v_verified ''signature_valid''
     else v_failed ''signature_mismatch'')"
  using assms(1-3) assms(5) parse_u64_dec[OF assms(4)]
  by (auto simp: header_str_Some walapay_verify_def any_v1_entry_iff)

lemma svix_entries:
  assumes "list_all (\<lambda>c. \<not> is_ws c) a" and "list_all (\<lambda>c. \<not> is_ws c) b"
  shows "split_whitespace (''v1,'' @ a) = [''v1,'' @ a]"
    and "split_whitespace (''v1,'' @ a @ '' v1,'' @ b) = [''v1,'' @ a, ''v1,'' @ b]"
proof -
  have ws: "list_all (\<lambda>c. \<not> is_ws c) (''v1,'' @ c)" if "list_all (\<lambda>c. \<not> is_ws c) c" for c
    using that by (simp add: is_ws_def byte_def)
  show "split_whitespace (''v1,'' @ a) = [''v1,'' @ a]"
    by (rule split_whitespace_word[OF ws[OF assms(1)]]) simp
  have "split_ws acc (s @ CHR '' '' # t) = (rev acc @ s) # split_ws [] t"
    if "list_all (\<lambda>c. \<not> is_ws c) s" "s \<noteq> [] \<or> acc \<noteq> []" for acc s t
    using that by (induction s arbitrary: acc) (auto simp: is_ws_def[of "CHR '' ''"] byte_def)
  from this[OF ws[OF assms(1)], of "[]" "''v1,'' @ b"]
  show "split_whitespace (''v1,'' @ a @ '' v1,'' @ b) = [''v1,'' @ a, ''v1,'' @ b]"
    using split_ws_word[OF ws[OF assms(2)], of "[]"] by (simp add: split_whitespace_def)
qed

text \<open>A message signed with \<open>key\<close>, whatever signature header is made of it, met by the verifier of the tests.\<close>

lemma svix_signed:
  fixes T :: lab and i body :: string and hdr :: "string \<Rightarrow> string" and t :: "nat option"
  assumes "lab_ok T" and "decodings_ok (lb_ext T)" and "ts < 2 ^ 64" and "list_all printable i"
    and "x_hmac_sha256 (lb_ext T) key (i @ ''.'' @ dec ts @ ''.'' @ body) = Some mac"
    and "x_hmac_sha256 (lb_ext T) TEST_KEY (i @ ''.'' @ dec ts @ ''.'' @ body) = Some mac'"
    and "list_all printable (hdr (x_b64_encode (lb_ext T) mac))"
  defines "tol \<equiv> \<lambda>v. case t of None \<Rightarrow> v | Some secs \<Rightarrow> walapay_with_tolerance (duration_from_secs secs) v"
  shows "do { sig \<leftarrow> svix_compute_sig (lb_ext T) key i ts body;
      verifier \<leftarrow> walapay_new (lb_ext T) ''walapay'' TEST_SECRET;
      headers \<leftarrow> svix_headers T i ts (hdr sig);
      Some (walapay_verify (lb_ext T) (tol verifier) now headers body) }
    = Some (if abs_diff (clock_u64 now) ts > (case t of None \<Rightarrow> 300 | Some secs \<Rightarrow> secs) then v_failed ''timestamp_expired''
        else if ''v1,'' @ x_b64_encode (lb_ext T) mac' \<in> set (split_whitespace (hdr (x_b64_encode (lb_ext T) mac)))
        then v_verified ''signature_valid'' else v_failed ''signature_mismatch'')"
proof -
  let ?v = "\<lparr>wp_provider = ''walapay'', wp_key = TEST_KEY, wp_tolerance = duration_from_secs DEFAULT_TOLERANCE_SECS\<rparr>"
  obtain hs where hs: "svix_headers T i ts (hdr (x_b64_encode (lb_ext T) mac)) = Some hs" "header_str (lb_ext T) hs ''svix-id'' = Some i"
    "header_str (lb_ext T) hs ''svix-timestamp'' = Some (dec ts)"
    "header_str (lb_ext T) hs ''svix-signature'' = Some (hdr (x_b64_encode (lb_ext T) mac))"
    by (rule svix_headers_ok[OF assms(1,4,7)])
  have v: "wp_key (tol ?v) = TEST_KEY" "duration_as_secs (wp_tolerance (tol ?v)) = (case t of None \<Rightarrow> 300 | Some secs \<Rightarrow> secs)"
    by (simp_all add: tol_def walapay_with_tolerance_def secs split: option.split)
  have "x_hmac_sha256 (lb_ext T) (wp_key (tol ?v)) (i @ ''.'' @ dec ts @ ''.'' @ body) = Some mac'" using assms(6) v(1) by simp
  from walapay_on_headers[OF hs(2-4) assms(3) this, of now] show ?thesis
    using assms(5) hs(1) walapay_test_verifier[OF assms(2)]
    by (simp add: svix_compute_sig_def b64_mac_def v(2))
qed

lemma printable_svix:
  assumes "lab_ok T"
  shows "list_all printable (''v1,'' @ x_b64_encode (lb_ext T) b)"
    and "list_all printable (''v1,'' @ x_b64_encode (lb_ext T) a @ '' v1,'' @ x_b64_encode (lb_ext T) b)"
    and "list_all printable ''msg_abc123''" and "list_all printable ''msg_expired''" and "list_all printable ''msg_wrong''"
    and "list_all printable ''msg_multi''" and "list_all printable ''msg_boundary_test''"
  using printable_codecs(2)[OF assms] by (simp_all add: printable_def byte_def)

lemma walapay_signed_tests_pass:
  assumes "lab_ok T" and "decodings_ok (lb_ext T)" and "no_collisions T" and "clock_ok T"
  shows "walapay_valid_signature_passes T" and "walapay_expired_timestamp_fails T"
    and "walapay_wrong_secret_fails T" and "multiple_signatures_any_match T"
proof -
  let ?x = "lb_ext T" and ?b = "''{\"event\":\"payment.completed\"}''" and ?now = "now_secs T"
  let ?h = "\<lambda>sig. ''v1,'' @ sig" and ?hh = "\<lambda>sig. ''v1,'' @ x_b64_encode ?x ''not_a_real_signature'' @ '' v1,'' @ sig"
  note clock = clock_facts[OF assms(4)] and mac = mac_total[OF assms(1)] and pr = printable_svix[OF assms(1)]
  note ws = decode_encode(4)[OF assms(1)]
  note entries = svix_entries(1)[OF ws ws] svix_entries(2)[OF ws ws]
  obtain m1 where m1: "x_hmac_sha256 ?x TEST_KEY (''msg_abc123'' @ ''.'' @ dec ?now @ ''.'' @ ?b) = Some m1" by (rule mac)
  obtain m2 where m2: "x_hmac_sha256 ?x TEST_KEY (''msg_expired'' @ ''.'' @ dec (?now - 601) @ ''.'' @ ?b) = Some m2" by (rule mac)
  obtain m3 where m3: "x_hmac_sha256 ?x ''wrong_key'' (''msg_wrong'' @ ''.'' @ dec ?now @ ''.'' @ ?b) = Some m3" by (rule mac)
  obtain m4 where m4: "x_hmac_sha256 ?x TEST_KEY (''msg_wrong'' @ ''.'' @ dec ?now @ ''.'' @ ?b) = Some m4" by (rule mac)
  obtain m5 where m5: "x_hmac_sha256 ?x TEST_KEY (''msg_multi'' @ ''.'' @ dec ?now @ ''.'' @ ?b) = Some m5" by (rule mac)
  have "m3 \<noteq> m4" using assms(3) m3 m4 by (auto simp: no_collisions_def Let_def)
  then have differ: "x_b64_encode ?x m4 \<noteq> x_b64_encode ?x m3" using decode_encode(2)[OF assms(1)] by (metis option.inject)
  show "walapay_valid_signature_passes T"
    unfolding walapay_valid_signature_passes_def Let_def
    using svix_signed[OF assms(1,2) clock(1) pr(3) m1 m1, where t = None and hdr = ?h, OF pr(1)] clock(3) by (simp add: entries(1)[simplified])
  show "walapay_expired_timestamp_fails T"
    unfolding walapay_expired_timestamp_fails_def Let_def
    using svix_signed[OF assms(1,2) clock(2) pr(4) m2 m2, where t = None and hdr = ?h, OF pr(1)] clock(4) by simp
  show "walapay_wrong_secret_fails T"
    unfolding walapay_wrong_secret_fails_def Let_def
    using svix_signed[OF assms(1,2) clock(1) pr(5) m3 m4, where t = None and hdr = ?h, OF pr(1)] clock(3) differ by (simp add: entries(1)[simplified])
  show "multiple_signatures_any_match T"
    unfolding multiple_signatures_any_match_def Let_def
    using svix_signed[OF assms(1,2) clock(1) pr(6) m5 m5, where t = None and hdr = ?hh, OF pr(2)] clock(3) by (simp add: entries(2)[simplified])
qed

lemma walapay_malformed_tests_pass:
  assumes "lab_ok T" and "decodings_ok (lb_ext T)"
  shows "missing_svix_id_fails T" and "missing_svix_timestamp_fails T" and "invalid_secret_no_prefix_returns_none T"
    and "invalid_secret_bad_base64_returns_none T" and "empty_whsec_key_returns_none T"
    and "walapay_provider_name_returns_configured_name T"
proof -
  have pr: "list_all printable ''v1,somesig''" "list_all printable ''msg_abc''" by (simp_all add: printable_def byte_def)
  note header = with_header_ok[OF assms(1)] and names = header_get_insert svix_names header_get_def[of "[]"]
  obtain a where a: "with_header T ''svix-timestamp'' (dec (now_secs T)) [] = Some (header_insert ''svix-timestamp'' a [])"
    by (rule header[OF printable_dec])
  obtain b where "with_header T ''svix-signature'' ''v1,somesig'' (header_insert ''svix-timestamp'' a [])
      = Some (header_insert ''svix-signature'' b (header_insert ''svix-timestamp'' a []))"
    by (rule header[OF pr(1)])
  then show "missing_svix_id_fails T"
    using a by (simp add: missing_svix_id_fails_def walapay_test_verifier[OF assms(2)] walapay_verify_def names)
  obtain c where c: "with_header T ''svix-id'' ''msg_abc'' [] = Some (header_insert ''svix-id'' c [])"
    by (rule header[OF pr(2)])
  obtain e where "with_header T ''svix-signature'' ''v1,somesig'' (header_insert ''svix-id'' c [])
      = Some (header_insert ''svix-signature'' e (header_insert ''svix-id'' c []))"
    by (rule header[OF pr(1)])
  then show "missing_svix_timestamp_fails T"
    using c by (simp add: missing_svix_timestamp_fails_def walapay_test_verifier[OF assms(2)] walapay_verify_def names)
  show "invalid_secret_no_prefix_returns_none T" "invalid_secret_bad_base64_returns_none T" "empty_whsec_key_returns_none T"
    using assms(2) by (simp_all add: invalid_secret_no_prefix_returns_none_def invalid_secret_bad_base64_returns_none_def
        empty_whsec_key_returns_none_def walapay_new_def strip_prefix_def decodings_ok_def)
  have "strip_prefix ''whsec_'' TEST_SECRET = Some ''dGVzdF9rZXlfZm9yX3dhbGFwYXlfdGVzdHM=''" "TEST_KEY \<noteq> []"
    by (simp_all add: TEST_SECRET_def TEST_KEY_def strip_prefix_def)
  then show "walapay_provider_name_returns_configured_name T"
    using assms(2) by (simp add: walapay_provider_name_returns_configured_name_def walapay_new_def walapay_object_def decodings_ok_def)
qed

definition provider_tests :: "(lab \<Rightarrow> bool) list" where
  "provider_tests =
     [ghmac_valid_signature_passes, ghmac_invalid_signature_fails, ghmac_missing_header_fails,
      ghmac_invalid_hex_signature_fails, ghmac_invalid_header_encoding_fails, ghmac_provider_name_returns_configured_name,
      adyen_valid_signature_passes, adyen_invalid_signature_fails, adyen_missing_header_fails,
      adyen_invalid_hex_key_returns_none, adyen_empty_hex_key_returns_none, adyen_invalid_base64_signature_fails,
      adyen_provider_name_returns_configured,
      bvnk_valid_signature_passes, bvnk_invalid_signature_fails, bvnk_missing_header_fails,
      bvnk_invalid_base64_signature_fails, bvnk_provider_name_returns_configured,
      fiat_valid_rsa_signature_passes, fiat_invalid_signature_fails, fiat_missing_header_fails,
      fiat_invalid_pem_returns_none, fiat_provider_name_returns_configured,
      stripe_valid_stripe_signature, stripe_expired_timestamp_fails, stripe_wrong_secret_fails, missing_stripe_header_fails,
      stripe_with_tolerance_builder, multiple_v1_signatures_during_rotation, stripe_missing_timestamp_fails,
      stripe_missing_v1_signature_fails, stripe_invalid_timestamp_fails, stripe_non_utf8_body_fails,
      invalid_hex_in_v1_skips_to_mismatch, stripe_provider_name_returns_configured_name,
      crypto_valid_signature_passes, crypto_expired_timestamp_fails, crypto_wrong_secret_fails,
      crypto_missing_header_fails, crypto_with_tolerance_builder, crypto_provider_name_returns_configured_name,
      walapay_valid_signature_passes, missing_svix_id_fails, missing_svix_timestamp_fails,
      walapay_expired_timestamp_fails, walapay_wrong_secret_fails, multiple_signatures_any_match,
      invalid_secret_no_prefix_returns_none, invalid_secret_bad_base64_returns_none, empty_whsec_key_returns_none,
      walapay_provider_name_returns_configured_name]"

text \<open>The tests pass wherever the crates behave as documented and the clock moves by less than a minute
  between the two readings of a test.\<close>

lemma provider_tests_pass:
  assumes "lab_ok T" and "decodings_ok (lb_ext T)" and "rsa_ok T" and "no_collisions T" and "clock_ok T"
  shows "list_all (\<lambda>test. test T) provider_tests"
  using ghmac_tests_pass[OF assms(1,2,4)] adyen_tests_pass[OF assms(1,2,4)] bvnk_tests_pass[OF assms(1,2,4)]
    fiat_tests_pass[OF assms(1,3)] stripe_signed_tests_pass[OF assms(1,4,5)] rotation_test_passes[OF assms(1,5)]
    stripe_malformed_tests_pass[OF assms(1)] stripe_bad_content_tests_pass[OF assms(1,2,5)]
    crypto_tests_pass[OF assms(1,4,5)] walapay_signed_tests_pass[OF assms(1,2,4,5)]
    walapay_malformed_tests_pass[OF assms(1,2)]
  by (simp add: provider_tests_def)

section \<open>The boundary tests\<close>

lemma boundary_distance:
  assumes "clock_ok T"
  shows "abs_diff (clock_u64 (lb_verify_now T)) (now_secs T - 120) > 120 \<longleftrightarrow> lb_verify_now T \<noteq> lb_now T"
  using assms by (auto simp: clock_ok_def now_secs_def clock_u64_def abs_diff_def)

text \<open>A timestamp exactly as old as the tolerance is accepted, as the tests say; but the tests take the
  age from a clock that \<^verbatim>\<open>verify\<close> reads again, so they pass exactly when no second begins in between.\<close>

lemma boundary_tests_need_a_still_clock:
  assumes "lab_ok T" and "decodings_ok (lb_ext T)" and "clock_ok T"
  shows "stripe_timestamp_exactly_at_tolerance_boundary_is_accepted T \<longleftrightarrow> lb_verify_now T = lb_now T"
    and "crypto_timestamp_exactly_at_tolerance_boundary_is_accepted T \<longleftrightarrow> lb_verify_now T = lb_now T"
    and "walapay_timestamp_exactly_at_tolerance_boundary_is_accepted T \<longleftrightarrow> lb_verify_now T = lb_now T"
proof -
  let ?x = "lb_ext T" and ?ts = "now_secs T - 120"
  note clock = clock_facts(2)[OF assms(3), of 120] and mac = mac_total[OF assms(1)] and late = boundary_distance[OF assms(3)]
  obtain m1 where m1: "x_hmac_sha256 ?x ''whsec_test_secret'' (dec ?ts @ ''.'' @ ''{\"type\":\"payment_intent.created\"}'') = Some m1" by (rule mac)
  obtain m2 where m2: "x_hmac_sha256 ?x ''test_notify_secret'' (dec ?ts @ ''.'' @ ''{\"event\":\"payment\"}'') = Some m2" by (rule mac)
  obtain m3 where m3: "x_hmac_sha256 ?x TEST_KEY (''msg_boundary_test'' @ ''.'' @ dec ?ts @ ''.'' @ ''{\"event\":\"payment.completed\"}'') = Some m3"
    by (rule mac)
  show "stripe_timestamp_exactly_at_tolerance_boundary_is_accepted T \<longleftrightarrow> lb_verify_now T = lb_now T"
    unfolding stripe_timestamp_exactly_at_tolerance_boundary_is_accepted_def Let_def
    using stripe_signed[OF assms(1) clock utf8_literals(1) m1] m1 late
    by (simp add: stripe_new_def stripe_with_tolerance_def secs)
  show "crypto_timestamp_exactly_at_tolerance_boundary_is_accepted T \<longleftrightarrow> lb_verify_now T = lb_now T"
    unfolding crypto_timestamp_exactly_at_tolerance_boundary_is_accepted_def Let_def
    using crypto_signed[OF assms(1) clock utf8_literals(4) m2] m2 late
    by (simp add: triplea_crypto_new_def triplea_crypto_with_tolerance_def secs)
  have pr: "list_all printable ''msg_boundary_test''" "list_all printable (''v1,'' @ x_b64_encode ?x m3)"
    using printable_svix[OF assms(1)] by blast+
  have "split_whitespace (''v1,'' @ x_b64_encode ?x m3) = [''v1,'' @ x_b64_encode ?x m3]"
    using svix_entries(1)[OF decode_encode(4)[OF assms(1)] decode_encode(4)[OF assms(1)]] .
  then show "walapay_timestamp_exactly_at_tolerance_boundary_is_accepted T \<longleftrightarrow> lb_verify_now T = lb_now T"
    unfolding walapay_timestamp_exactly_at_tolerance_boundary_is_accepted_def Let_def
    using svix_signed[OF assms(1,2) clock pr(1) m3 m3, where t = "Some 120" and hdr = "\<lambda>sig. ''v1,'' @ sig", OF pr(2)] late
    by simp
qed

section \<open>A surrounding in which they run\<close>

definition ext_lab :: externals where
  "ext_lab = ext0\<lparr>x_hex_encode := nibbles,
     x_hex_decode := (\<lambda>s. if CHR ''Z'' \<in> set s \<or> CHR ''!'' \<in> set s then None else unnibbles s),
     x_b64_encode := nibbles,
     x_b64_decode := (\<lambda>s. if CHR ''!'' \<in> set s then None
        else if s = ''dGVzdF9rZXlfZm9yX3dhbGFwYXlfdGVzdHM='' then Some TEST_KEY else unnibbles s),
     x_header_to_str := (\<lambda>v. if list_all printable v then Some v else None),
     x_rsa_from_pem := (\<lambda>s. if s = ''not-a-valid-pem'' then None else Some s)\<rparr>"

definition lab0 :: lab where
  "lab0 = \<lparr>lb_ext = ext_lab, lb_from_str = (\<lambda>s. if list_all printable s then Some s else None), lb_from_bytes = Some,
     lb_now = 1000, lb_verify_now = 1000, lb_pem = ''pem'', lb_sign = (\<lambda>m. ''pem'' @ m)\<rparr>"

lemma nibbles_chars:
  "CHR '','' \<notin> set (nibbles b)" "CHR ''Z'' \<notin> set (nibbles b)" "CHR ''!'' \<notin> set (nibbles b)"
  "CHR ''G'' \<notin> set (nibbles b)" "list_all printable (nibbles b)" "list_all (\<lambda>c. \<not> is_ws c) (nibbles b)"
  using nibbles_letters[of b] by (auto simp: list_all_iff byte_def printable_def is_ws_def)

lemma lab0_ok: "lab_ok lab0"
proof -
  have "nibbles b \<noteq> ''dGVzdF9rZXlfZm9yX3dhbGFwYXlfdGVzdHM=''" for b
    using nibbles_chars(4)[of b] by (metis list.set_intros(1,2))
  then have "codecs_ok ext_lab"
    using nibbles_chars by (simp add: codecs_ok_def ext_lab_def unnibbles_nibbles)
  then show ?thesis
    using nibbles_chars by (simp add: lab_ok_def lab0_def) (simp add: ext_lab_def ext0_def printable_def byte_def)
qed

lemma lab0_decodings: "decodings_ok ext_lab"
  unfolding decodings_ok_def
  by (intro conjI) (simp_all add: ext_lab_def bad_hex_sig_def zero_sig_def TEST_KEY_def)

lemma lab0_collisions: "no_collisions lab0"
proof -
  have len: "length b = 32" if "x_hex_decode ext_lab bad_hex_sig = Some b" for b
    using that by (auto simp: ext_lab_def bad_hex_sig_def)
  have len': "length b = 22" if "x_b64_decode ext_lab zero_sig = Some b" for b
    using that by (auto simp: ext_lab_def zero_sig_def)
  show ?thesis
    unfolding no_collisions_def Let_def lab0_def
    using len[of "''test-secrethello world''"] len'[of "''bvnk-test-secret{\"type\":\"PAYMENT_RECEIVED\"}''"]
    by (auto simp: ext_lab_def ext0_def TEST_KEY_def zero_sig_def)
qed

lemma provider_tests_pass_example:
  "list_all (\<lambda>test. test lab0) provider_tests
   \<and> stripe_timestamp_exactly_at_tolerance_boundary_is_accepted lab0
   \<and> \<not> stripe_timestamp_exactly_at_tolerance_boundary_is_accepted (lab0\<lparr>lb_verify_now := 1001\<rparr>)"
proof -
  have rsa: "rsa_ok lab0" by (simp add: rsa_ok_def lab0_def ext_lab_def ext0_def)
  have clock: "clock_ok lab0" "clock_ok (lab0\<lparr>lb_verify_now := 1001\<rparr>)" by (simp_all add: clock_ok_def lab0_def)
  have dec: "decodings_ok (lb_ext lab0)" using lab0_decodings by (simp add: lab0_def)
  have "lab_ok (lab0\<lparr>lb_verify_now := 1001\<rparr>)" using lab0_ok by (simp add: lab_ok_def)
  from boundary_tests_need_a_still_clock(1)[OF this _ clock(2)]
    boundary_tests_need_a_still_clock(1)[OF lab0_ok dec clock(1)]
    provider_tests_pass[OF lab0_ok dec rsa lab0_collisions clock(1)] dec
  show ?thesis by (simp add: lab0_def)
qed

end
