(* ===== verification/Worker_Tests.thy ===== *)
theory Worker_Tests
  imports Cli "HOL-Library.Monad_Syntax"
begin

text \<open>
  The unit tests of \<^verbatim>\<open>crates/hookbox-server/src/worker.rs\<close> with the storage and the emitter they use: a
  storage of two hash maps, whose marks ignore the state of the row, behind the same interface as
  PostgreSQL (locale \<open>delivery_store\<close>). Each test is a predicate on its surroundings: the identifiers drawn,
  the clock readings, the random sample and the power function. Shown: the tests pass in all of them, as
  far as the clock moves slowly enough for the windows they assert.
\<close>

section \<open>MemDeliveryStorage\<close>

record stub_store =
  sd_deliveries :: "uuid \<rightharpoonup> webhook_delivery"
  sd_receipts :: "uuid \<rightharpoonup> webhook_receipt"

text \<open>\<open>clock\<close> gives the readings of \<^verbatim>\<open>Utc::now()\<close> in order.\<close>

definition with_in_flight :: "externals \<Rightarrow> (nat \<Rightarrow> timestamp) \<Rightarrow> uuid \<Rightarrow> uuid \<Rightarrow> int \<Rightarrow> stub_store" where
  "with_in_flight x clock did rid attempts =
     \<lparr>sd_deliveries = [did \<mapsto>
        \<lparr>wd_delivery_id = DeliveryId did, wd_receipt_id = ReceiptId rid, wd_emitter_name = ''test'',
         wd_state = DS_InFlight, wd_attempt_count = attempts, wd_last_error = None,
         wd_last_attempt_at = Some (clock 0), wd_next_attempt_at = clock 1, wd_emitted_at = None,
         wd_immutable = False, wd_created_at = clock 2\<rparr>],
      sd_receipts = [rid \<mapsto>
        \<lparr>receipt_id = ReceiptId rid, provider_name = ''test'', provider_event_id = None, external_reference = None,
         dedupe_key = ''test:'' @ x_uuid_to_string x rid, payload_hash = ''h'', raw_body = ''{}'',
         parsed_payload = None, raw_headers = JObject [], normalized_event_type = None,
         verification_status = VS_Verified, verification_reason = None, processing_state = PS_Stored,
         emit_count = 0, last_error = None, received_at = clock 3, processed_at = None, metadata = JObject []\<rparr>]\<rparr>"

definition stub_get :: "uuid \<Rightarrow> stub_store \<Rightarrow> webhook_delivery option" where
  "stub_get i s = sd_deliveries s i"

text \<open>\<^verbatim>\<open>get_mut\<close>: change the row if there is one.\<close>

definition stub_update :: "deliveryid \<Rightarrow> (webhook_delivery \<Rightarrow> webhook_delivery) \<Rightarrow> stub_store \<Rightarrow> stub_store" where
  "stub_update i f s =
     (case sd_deliveries s (did_uuid i) of
        None \<Rightarrow> s
      | Some row \<Rightarrow> s\<lparr>sd_deliveries := (sd_deliveries s)(did_uuid i \<mapsto> f row)\<rparr>)"

definition stub_claim_pending ::
  "dbenv \<Rightarrow> string \<Rightarrow> int \<Rightarrow> stub_store \<Rightarrow> (webhook_delivery \<times> webhook_receipt) list answer \<times> stub_store" where
  "stub_claim_pending env e lmt s = (Ok [], s)"

definition stub_reclaim_expired :: "dbenv \<Rightarrow> string \<Rightarrow> duration \<Rightarrow> stub_store \<Rightarrow> nat answer \<times> stub_store" where
  "stub_reclaim_expired env e dur s = (Ok 0, s)"

definition stub_mark_emitted :: "dbenv \<Rightarrow> deliveryid \<Rightarrow> stub_store \<Rightarrow> unit answer \<times> stub_store" where
  "stub_mark_emitted env i s =
     (Ok (), stub_update i (\<lambda>row. row\<lparr>wd_state := DS_Emitted, wd_emitted_at := Some (e_now env)\<rparr>) s)"

definition stub_mark_failed ::
  "dbenv \<Rightarrow> deliveryid \<Rightarrow> int \<Rightarrow> timestamp \<Rightarrow> string \<Rightarrow> stub_store \<Rightarrow> unit answer \<times> stub_store" where
  "stub_mark_failed env i attempts next_at err s =
     (Ok (), stub_update i (\<lambda>row. row\<lparr>wd_state := DS_Failed, wd_attempt_count := attempts,
        wd_next_attempt_at := next_at, wd_last_error := Some err\<rparr>) s)"

definition stub_mark_dead_lettered :: "dbenv \<Rightarrow> deliveryid \<Rightarrow> string \<Rightarrow> stub_store \<Rightarrow> unit answer \<times> stub_store" where
  "stub_mark_dead_lettered env i err s =
     (Ok (), stub_update i (\<lambda>row. row\<lparr>wd_state := DS_DeadLettered, wd_last_error := Some err\<rparr>) s)"

definition stub_count :: "dbenv \<Rightarrow> string \<Rightarrow> stub_store \<Rightarrow> nat answer" where
  "stub_count env e s = Ok 0"

definition stub_ops :: "stub_store delivery_ops" where
  "stub_ops =
     \<lparr>do_claim_pending = stub_claim_pending, do_reclaim_expired = stub_reclaim_expired,
      do_mark_emitted = stub_mark_emitted, do_mark_failed = stub_mark_failed,
      do_mark_dead_lettered = stub_mark_dead_lettered,
      do_count_dlq = stub_count, do_count_pending = stub_count, do_count_in_flight = stub_count\<rparr>"

text \<open>The rest of \<^verbatim>\<open>DeliveryStorage\<close>; \<open>fresh\<close> is what \<^verbatim>\<open>Uuid::new_v4\<close> draws.\<close>

definition stub_insert_replay :: "uuid \<Rightarrow> receiptid \<Rightarrow> string \<Rightarrow> stub_store \<Rightarrow> deliveryid answer" where
  "stub_insert_replay fresh i e s = Ok (DeliveryId fresh)"

text \<open>The default \<^verbatim>\<open>insert_replays\<close> of the trait: one \<^verbatim>\<open>insert_replay\<close> after the other, the first error ends it.\<close>

fun default_insert_replays ::
  "(nat \<Rightarrow> receiptid \<Rightarrow> string \<Rightarrow> 's \<Rightarrow> deliveryid answer) \<Rightarrow> nat \<Rightarrow> receiptid \<Rightarrow> string list \<Rightarrow> 's \<Rightarrow> deliveryid list answer" where
  "default_insert_replays ins k i [] s = Ok []"
| "default_insert_replays ins k i (name # names) s =
     and_then (ins k i name s) (\<lambda>did. and_then (default_insert_replays ins (Suc k) i names s) (\<lambda>ids. Ok (did # ids)))"

definition stub_get_delivery :: "deliveryid \<Rightarrow> stub_store \<Rightarrow> (webhook_delivery \<times> webhook_receipt) option answer" where
  "stub_get_delivery i s =
     (case sd_deliveries s (did_uuid i) of
        None \<Rightarrow> Ok None
      | Some delivery \<Rightarrow>
          (case sd_receipts s (rid_uuid (wd_receipt_id delivery)) of
             None \<Rightarrow> Ok None
           | Some receipt \<Rightarrow> Ok (Some (delivery, receipt))))"

definition stub_get_deliveries_for_receipt :: "receiptid \<Rightarrow> stub_store \<Rightarrow> webhook_delivery list answer" where
  "stub_get_deliveries_for_receipt i s = Ok []"

definition stub_list_dlq ::
  "string option \<Rightarrow> int \<Rightarrow> int \<Rightarrow> stub_store \<Rightarrow> (webhook_delivery \<times> webhook_receipt) list answer" where
  "stub_list_dlq e lmt off s = Ok []"

text \<open>The stub meets the worker's contract: rows are never lost and keep their identity.\<close>

definition stub_step :: "stub_store \<Rightarrow> stub_store \<Rightarrow> bool" where
  "stub_step s s' \<longleftrightarrow>
     sd_receipts s' = sd_receipts s \<and> dom (sd_deliveries s') = dom (sd_deliveries s)
     \<and> (\<forall>i row row'. sd_deliveries s i = Some row \<longrightarrow> sd_deliveries s' i = Some row' \<longrightarrow>
          wd_delivery_id row' = wd_delivery_id row \<and> wd_receipt_id row' = wd_receipt_id row
          \<and> wd_emitter_name row' = wd_emitter_name row \<and> wd_created_at row' = wd_created_at row)"

lemma stub_update_step:
  assumes "\<And>row. wd_delivery_id (f row) = wd_delivery_id row \<and> wd_receipt_id (f row) = wd_receipt_id row
      \<and> wd_emitter_name (f row) = wd_emitter_name row \<and> wd_created_at (f row) = wd_created_at row"
  shows "stub_step s (stub_update i f s)"
  using assms by (auto simp: stub_step_def stub_update_def split: option.split if_splits)

interpretation stub: delivery_store stub_ops "\<lambda>_. True" stub_step
  by unfold_locales
    (auto simp: stub_ops_def stub_claim_pending_def stub_reclaim_expired_def stub_mark_emitted_def
      stub_mark_failed_def stub_mark_dead_lettered_def stub_step_def[of s s for s] intro!: stub_update_step)

section \<open>The tests\<close>

text \<open>\<^verbatim>\<open>FakeEmitter\<close>.\<close>

definition stub_emit :: "bool \<Rightarrow> (unit, emit_error) result" where
  "stub_emit should_succeed = (if should_succeed then Ok () else Err (EE_Downstream ''fake failure''))"

text \<open>Surroundings: drawn ids, the readings of the clock while the storage is seeded, what the dispatch
  reads (its emitter's answer aside), the readings of the final assertions, and the power function.\<close>

record worker_lab =
  wl_ext :: externals
  wl_delivery :: uuid
  wl_receipt :: uuid
  wl_fresh :: "nat \<Rightarrow> uuid"
  wl_seed :: "nat \<Rightarrow> timestamp"
  wl_dispatch :: dispatch_env
  wl_check :: "nat \<Rightarrow> timestamp"
  wl_powi :: "f64 \<Rightarrow> int \<Rightarrow> f64"

definition make_worker_with_storage :: "retry_policy \<Rightarrow> emitter_worker" where
  "make_worker_with_storage policy =
     \<lparr>ew_name = ''test'', ew_policy = policy, ew_concurrency = 1, ew_poll_interval = duration_from_secs 5,
      ew_lease_duration = duration_from_secs 60\<rparr>"

text \<open>Seed, dispatch once, read the row back.\<close>

definition dispatched :: "worker_lab \<Rightarrow> bool \<Rightarrow> int \<Rightarrow> retry_policy \<Rightarrow> webhook_delivery option" where
  "dispatched W succeeds attempts policy =
     (let storage = with_in_flight (wl_ext W) (wl_seed W) (wl_delivery W) (wl_receipt W) attempts;
          worker = make_worker_with_storage policy in
      do { delivery \<leftarrow> stub_get (wl_delivery W) storage;
           receipt \<leftarrow> sd_receipts storage (wl_receipt W);
           s \<leftarrow> dispatch_one (wl_powi W) stub_ops worker ((wl_dispatch W)\<lparr>de_emit := stub_emit succeeds\<rparr>) delivery receipt
                  \<lparr>ws_store = storage, ws_health = emitter_health_default, ws_log = [], ws_metrics = []\<rparr>;
           stub_get (wl_delivery W) (ws_store s) })"

definition dispatch_one_success_marks_emitted :: "worker_lab \<Rightarrow> bool" where
  "dispatch_one_success_marks_emitted W =
     (case dispatched W True 0 (retry_policy_default\<lparr>max_attempts := 5\<rparr>) of
        None \<Rightarrow> False
      | Some row \<Rightarrow> wd_state row = DS_Emitted \<and> wd_emitted_at row \<noteq> None)"

definition dispatch_one_failure_below_max_marks_failed_with_backoff :: "worker_lab \<Rightarrow> bool" where
  "dispatch_one_failure_below_max_marks_failed_with_backoff W =
     (case dispatched W False 0 (retry_policy_default\<lparr>max_attempts := 5, initial_backoff := duration_from_secs 30,
             jitter := Fin 0\<rparr>) of
        None \<Rightarrow> False
      | Some row \<Rightarrow>
          wd_state row = DS_Failed \<and> wd_attempt_count row = 1
          \<and> wd_next_attempt_at row \<ge> wl_check W 0 + 25 * 1000000
          \<and> wd_next_attempt_at row \<le> wl_check W 1 + 35 * 1000000)"

definition dispatch_one_failure_at_max_marks_dead_lettered :: "worker_lab \<Rightarrow> bool" where
  "dispatch_one_failure_at_max_marks_dead_lettered W =
     (case dispatched W False 4 (retry_policy_default\<lparr>max_attempts := 5\<rparr>) of
        None \<Rightarrow> False
      | Some row \<Rightarrow> wd_state row = DS_DeadLettered)"

text \<open>Health after failures at the given instants.\<close>

definition health_state_consecutive_failures_threshold :: "worker_lab \<Rightarrow> bool" where
  "health_state_consecutive_failures_threshold W =
     (let nine = fold (\<lambda>k. update_health (wl_seed W k) False) [0 ..< 9] emitter_health_default;
          ten = update_health (wl_seed W 9) False nine;
          recovered = update_health (wl_seed W 10) True ten in
      eh_status nine = Degraded \<and> eh_status ten = Unhealthy \<and> consecutive_failures recovered = 0)"

definition derive_status_healthy_with_no_failures :: "worker_lab \<Rightarrow> bool" where
  "derive_status_healthy_with_no_failures W = (derive_status (wl_check W 0) 0 None = Healthy)"

definition derive_status_degraded_within_window :: "worker_lab \<Rightarrow> bool" where
  "derive_status_degraded_within_window W =
     (derive_status (wl_check W 0) 1 (Some (wl_seed W 0 - 10 * 1000000)) = Degraded)"

definition derive_status_ages_back_to_healthy_after_window :: "worker_lab \<Rightarrow> bool" where
  "derive_status_ages_back_to_healthy_after_window W =
     (derive_status (wl_check W 0) 1 (Some (wl_seed W 0 - 120 * 1000000)) = Healthy)"

definition derive_status_unhealthy_at_threshold :: "worker_lab \<Rightarrow> bool" where
  "derive_status_unhealthy_at_threshold W =
     (derive_status (wl_check W 0) 10 (Some (wl_seed W 0 - 5 * 1000000)) = Unhealthy
      \<and> derive_status (wl_check W 0) 99 None = Unhealthy)"

definition mem_delivery_storage_stubs_are_callable :: "worker_lab \<Rightarrow> dbenv \<Rightarrow> bool" where
  "mem_delivery_storage_stubs_are_callable W env =
     (let storage = with_in_flight (wl_ext W) (wl_seed W) (wl_delivery W) (wl_receipt W) 0;
          rid = ReceiptId (wl_receipt W) in
      fst (stub_claim_pending env ''anything'' 10 storage) = Ok []
      \<and> fst (stub_reclaim_expired env ''anything'' (duration_from_secs 30) storage) = Ok 0
      \<and> do_count_dlq stub_ops env ''anything'' storage = Ok 0
      \<and> do_count_pending stub_ops env ''anything'' storage = Ok 0
      \<and> do_count_in_flight stub_ops env ''anything'' storage = Ok 0
      \<and> (case stub_insert_replay (wl_fresh W 0) rid ''anything'' storage of
           Err _ \<Rightarrow> False | Ok replay \<Rightarrow> did_uuid replay \<noteq> wl_delivery W)
      \<and> (case default_insert_replays (\<lambda>k. stub_insert_replay (wl_fresh W k)) 1 rid [''a'', ''b''] storage of
           Err _ \<Rightarrow> False | Ok batch \<Rightarrow> length batch = 2)
      \<and> (case stub_get_delivery (DeliveryId (wl_delivery W)) storage of
           Ok (Some found) \<Rightarrow> did_uuid (wd_delivery_id (fst found)) = wl_delivery W | _ \<Rightarrow> False)
      \<and> stub_get_delivery (DeliveryId (wl_fresh W 3)) storage = Ok None
      \<and> stub_get_deliveries_for_receipt rid storage = Ok []
      \<and> stub_list_dlq (Some ''anything'') 10 0 storage = Ok [] \<and> stub_list_dlq None 10 0 storage = Ok [])"

section \<open>The tests pass\<close>

text \<open>What the tests rely on: drawn ids are new, the clock does not go back and an assertion reads it
  within five seconds of the dispatch, in this century's range, and a power of zero is one.\<close>

definition worker_lab_ok :: "worker_lab \<Rightarrow> bool" where
  "worker_lab_ok W \<longleftrightarrow>
     (\<forall>k. wl_fresh W k \<noteq> wl_delivery W)
     \<and> wl_seed W 0 \<le> wl_check W 0 \<and> wl_check W 0 < wl_seed W 0 + 50 * 1000000
     \<and> wl_check W 0 \<le> de_now (wl_dispatch W) + 5 * 1000000 \<and> de_now (wl_dispatch W) \<le> wl_check W 1 + 5 * 1000000
     \<and> de_now (wl_dispatch W) + 30 * 1000000 \<le> chrono_max_utc
     \<and> wl_powi W (Fin 2) 0 = Fin 1"

lemma seeded:
  "stub_get (wl_delivery W) (with_in_flight x clock (wl_delivery W) rid n)
     = Some \<lparr>wd_delivery_id = DeliveryId (wl_delivery W), wd_receipt_id = ReceiptId rid, wd_emitter_name = ''test'',
         wd_state = DS_InFlight, wd_attempt_count = n, wd_last_error = None,
         wd_last_attempt_at = Some (clock 0), wd_next_attempt_at = clock 1, wd_emitted_at = None,
         wd_immutable = False, wd_created_at = clock 2\<rparr>"
  "\<exists>r. sd_receipts (with_in_flight x clock did rid n) rid = Some r"
  by (simp_all add: stub_get_def with_in_flight_def)

lemma stub_get_update:
  "stub_get (did_uuid i) (stub_update i f s) = map_option f (stub_get (did_uuid i) s)"
  by (simp add: stub_get_def stub_update_def split: option.split)

lemmas stub_marks = stub_ops_def stub_mark_emitted_def stub_mark_failed_def stub_mark_dead_lettered_def

lemma success_test_passes: "dispatch_one_success_marks_emitted W"
  using seeded(2)[of "wl_ext W" "wl_seed W" "wl_delivery W" "wl_receipt W" 0]
    stub_get_update[of "DeliveryId (wl_delivery W)"]
  by (auto simp: dispatch_one_success_marks_emitted_def dispatched_def seeded(1) dispatch_one_def Let_def
      stub_emit_def stub_marks)

lemma dead_letter_test_passes: "dispatch_one_failure_at_max_marks_dead_lettered W"
  using seeded(2)[of "wl_ext W" "wl_seed W" "wl_delivery W" "wl_receipt W" 4]
    stub_get_update[of "DeliveryId (wl_delivery W)"]
  by (auto simp: dispatch_one_failure_at_max_marks_dead_lettered_def dispatched_def seeded(1) dispatch_one_def Let_def
      stub_emit_def stub_marks make_worker_with_storage_def i32_add_def)

lemma failure_test_passes:
  assumes "worker_lab_ok W"
  shows "dispatch_one_failure_below_max_marks_failed_with_backoff W"
proof -
  let ?p = "retry_policy_default\<lparr>max_attempts := 5, initial_backoff := duration_from_secs 30, jitter := Fin 0\<rparr>"
  have fields: "backoff_multiplier ?p = Fin 2" "max_backoff ?p = duration_from_secs 3600"
    using f64_round_nat[of 2] by (simp_all add: retry_policy_default_def)
  have "compute_backoff False (wl_powi W) (de_sample (wl_dispatch W)) 1 ?p = Some (min (initial_backoff ?p) (max_backoff ?p))"
    by (rule compute_backoff_first[OF fields(1) _ _ _ _ _ fields(2), where i = 30]) (use assms in \<open>simp_all add: worker_lab_ok_def\<close>)
  then have backoff: "compute_backoff False (wl_powi W) (de_sample (wl_dispatch W)) 1 ?p = Some (duration_from_secs 30)"
    using fields(2) by (simp add: duration_from_secs_def min_def)
  have next_at: "chrono_from_std (duration_from_secs 30) = Some (duration_from_secs 30)"
      "utc_add (de_now (wl_dispatch W)) (duration_from_secs 30) = Some (de_now (wl_dispatch W) + 30 * 1000000)"
    using assms by (simp_all add: chrono_from_std_def utc_add_def worker_lab_ok_def duration_from_secs_def nanos_per_sec_def Let_def)
  have "i32_add 0 1 = 1" by (simp add: i32_add_def)
  then have "dispatched W False 0 ?p = Some \<lparr>wd_delivery_id = DeliveryId (wl_delivery W), wd_receipt_id = ReceiptId (wl_receipt W),
      wd_emitter_name = ''test'', wd_state = DS_Failed, wd_attempt_count = 1,
      wd_last_error = Some (emit_error_to_string (EE_Downstream ''fake failure'')),
      wd_last_attempt_at = Some (wl_seed W 0), wd_next_attempt_at = de_now (wl_dispatch W) + 30 * 1000000,
      wd_emitted_at = None, wd_immutable = False, wd_created_at = wl_seed W 2\<rparr>"
    using seeded(2)[of "wl_ext W" "wl_seed W" "wl_delivery W" "wl_receipt W" 0] backoff next_at
      stub_get_update[of "DeliveryId (wl_delivery W)"]
    by (auto simp: dispatched_def seeded(1) dispatch_one_def Let_def stub_emit_def stub_marks make_worker_with_storage_def)
  then show ?thesis
    using assms by (simp add: dispatch_one_failure_below_max_marks_failed_with_backoff_def worker_lab_ok_def)
qed

lemma health_test_passes: "health_state_consecutive_failures_threshold W"
proof -
  have "consecutive_failures (fold (\<lambda>k. update_health (f k) False) [0 ..< n] emitter_health_default) = n" if "n < 2 ^ 32" for f n
    using that by (induction n) (simp_all add: emitter_health_default_def update_health_def Let_def)
  note nine = this[of 9 "wl_seed W"]
  have last: "fold (\<lambda>k. update_health (wl_seed W k) False) [0 ..< 9] emitter_health_default
      = update_health (wl_seed W 8) False (fold (\<lambda>k. update_health (wl_seed W k) False) [0 ..< 8] emitter_health_default)"
    by (simp add: numeral_eq_Suc)
  then have "eh_status (fold (\<lambda>k. update_health (wl_seed W k) False) [0 ..< 9] emitter_health_default) = Degraded"
    using nine by (auto simp: update_health_def derive_status_def Let_def)
  then show ?thesis
    using nine by (simp add: health_state_consecutive_failures_threshold_def Let_def update_health_def derive_status_def)
qed

lemma worker_unit_tests_pass:
  assumes "worker_lab_ok W"
  shows "dispatch_one_success_marks_emitted W" and "dispatch_one_failure_below_max_marks_failed_with_backoff W"
    and "dispatch_one_failure_at_max_marks_dead_lettered W" and "health_state_consecutive_failures_threshold W"
    and "derive_status_healthy_with_no_failures W" and "derive_status_degraded_within_window W"
    and "derive_status_ages_back_to_healthy_after_window W" and "derive_status_unhealthy_at_threshold W"
    and "mem_delivery_storage_stubs_are_callable W env"
proof -
  show "dispatch_one_success_marks_emitted W" "dispatch_one_failure_at_max_marks_dead_lettered W"
      "health_state_consecutive_failures_threshold W"
    by (rule success_test_passes dead_letter_test_passes health_test_passes)+
  show "dispatch_one_failure_below_max_marks_failed_with_backoff W" by (rule failure_test_passes[OF assms])
  show "derive_status_healthy_with_no_failures W" "derive_status_degraded_within_window W"
      "derive_status_ages_back_to_healthy_after_window W" "derive_status_unhealthy_at_threshold W"
    using assms by (auto simp: derive_status_healthy_with_no_failures_def derive_status_degraded_within_window_def
        derive_status_ages_back_to_healthy_after_window_def derive_status_unhealthy_at_threshold_def
        derive_status_def worker_lab_ok_def)
  show "mem_delivery_storage_stubs_are_callable W env"
    using assms by (simp add: mem_delivery_storage_stubs_are_callable_def worker_lab_ok_def with_in_flight_def Let_def
        stub_claim_pending_def stub_reclaim_expired_def stub_ops_def stub_count_def stub_insert_replay_def
        stub_get_delivery_def stub_get_deliveries_for_receipt_def stub_list_dlq_def)
qed

definition worker_lab0 :: worker_lab where
  "worker_lab0 = \<lparr>wl_ext = ext0, wl_delivery = 1, wl_receipt = 2, wl_fresh = (\<lambda>k. 3), wl_seed = (\<lambda>k. int k),
     wl_dispatch = \<lparr>de_emit = Ok (), de_now = 100, de_sample = Fin 0, de_db = env_ok 100 0\<rparr>,
     wl_check = (\<lambda>k. 200), wl_powi = (\<lambda>_ _. Fin 1)\<rparr>"

lemma worker_unit_tests_pass_example: "dispatch_one_failure_below_max_marks_failed_with_backoff worker_lab0"
  by (rule worker_unit_tests_pass(2)) (simp add: worker_lab_ok_def worker_lab0_def chrono_max_utc_def)

end
