(* ===== verification/Config_File.thy ===== *)
theory Config_File
  imports Cli
begin

text \<open>
  Reading the configuration file (\<^verbatim>\<open>crates/hookbox-server/src/config.rs\<close>): the \<^verbatim>\<open>Deserialize\<close> implementations
  that the structs derive, from the tree of a TOML document to \<open>hookbox_config\<close>, as their serde attributes
  say: \<^verbatim>\<open>rename\<close>, \<^verbatim>\<open>default\<close>, \<^verbatim>\<open>deny_unknown_fields\<close>, optional fields, integer widths. The entries of a table are
  visited in document order, the first one that does not fit is the error; missing fields are found
  after that, in the order of the struct. The text of a document is the \<^verbatim>\<open>toml\<close> crate's. Structs are given
  as tables (serde would also take an array, by position) and there are no date values. Shown: what is
  read lies within the widths of its fields, what is left out takes its default, and which tables
  reject misspelt keys.
\<close>

datatype toml =
    TStr string
  | TInt int \<comment> \<open>an \<^verbatim>\<open>i64\<close>\<close>
  | TFloat f64
  | TBool bool
  | TArr "toml list"
  | TTab "(string \<times> toml) list" \<comment> \<open>distinct keys, in document order\<close>

datatype de_error = DE_MissingField string | DE_UnknownField string | DE_InvalidType | DE_InvalidValue

type_synonym 'a de = "toml \<Rightarrow> ('a, de_error) result"

section \<open>Values\<close>

definition de_string :: "string de" where
  "de_string v = (case v of TStr s \<Rightarrow> Ok s | _ \<Rightarrow> Err DE_InvalidType)"

definition de_bool :: "bool de" where
  "de_bool v = (case v of TBool b \<Rightarrow> Ok b | _ \<Rightarrow> Err DE_InvalidType)"

text \<open>Unsigned integers of a width, and \<^verbatim>\<open>i32\<close>.\<close>

definition de_unsigned :: "nat \<Rightarrow> nat de" where
  "de_unsigned bits v =
     (case v of TInt i \<Rightarrow> if 0 \<le> i \<and> i < 2 ^ bits \<and> i < 2 ^ 63 then Ok (nat i) else Err DE_InvalidValue
      | _ \<Rightarrow> Err DE_InvalidType)"

definition de_i32 :: "int de" where
  "de_i32 v =
     (case v of TInt i \<Rightarrow> if - (2 ^ 31) \<le> i \<and> i < 2 ^ 31 then Ok i else Err DE_InvalidValue
      | _ \<Rightarrow> Err DE_InvalidType)"

text \<open>A double may be written as an integer.\<close>

definition de_f64 :: "f64 de" where
  "de_f64 v = (case v of TFloat f \<Rightarrow> Ok f | TInt i \<Rightarrow> Ok (f64_round (of_int i)) | _ \<Rightarrow> Err DE_InvalidType)"

definition de_option :: "'a de \<Rightarrow> 'a option de" where
  "de_option d v = and_then (d v) (\<lambda>a. Ok (Some a))"

definition de_vec :: "'a de \<Rightarrow> 'a list de" where
  "de_vec d v = (case v of TArr vs \<Rightarrow> collect_results d vs | _ \<Rightarrow> Err DE_InvalidType)"

definition de_map :: "'a de \<Rightarrow> (string \<times> 'a) list de" where
  "de_map d v =
     (case v of TTab t \<Rightarrow> collect_results (\<lambda>(k, v). and_then (d v) (\<lambda>a. Ok (k, a))) t | _ \<Rightarrow> Err DE_InvalidType)"

section \<open>Tables\<close>

type_synonym field_checks = "(string \<times> (toml \<Rightarrow> (unit, de_error) result)) list"

definition checked :: "'a de \<Rightarrow> toml \<Rightarrow> (unit, de_error) result" where
  "checked d v = and_then (d v) (\<lambda>_. Ok ())"

fun check_entries :: "bool \<Rightarrow> field_checks \<Rightarrow> (string \<times> toml) list \<Rightarrow> (unit, de_error) result" where
  "check_entries deny fs [] = Ok ()"
| "check_entries deny fs ((k, v) # t) =
     (case map_of fs k of
        None \<Rightarrow> if deny then Err (DE_UnknownField k) else check_entries deny fs t
      | Some chk \<Rightarrow> and_then (chk v) (\<lambda>_. check_entries deny fs t))"

definition check_required :: "string list \<Rightarrow> (string \<times> toml) list \<Rightarrow> (unit, de_error) result" where
  "check_required required t =
     (case find (\<lambda>f. map_of t f = None) required of None \<Rightarrow> Ok () | Some f \<Rightarrow> Err (DE_MissingField f))"

text \<open>A field of a checked table, or its default.\<close>

definition field :: "'a de \<Rightarrow> 'a \<Rightarrow> (string \<times> toml) list \<Rightarrow> string \<Rightarrow> 'a" where
  "field d dflt t k =
     (case map_of t k of None \<Rightarrow> dflt | Some v \<Rightarrow> (case d v of Ok a \<Rightarrow> a | Err _ \<Rightarrow> dflt))"

definition de_struct :: "bool \<Rightarrow> field_checks \<Rightarrow> string list \<Rightarrow> ((string \<times> toml) list \<Rightarrow> 'a) \<Rightarrow> 'a de" where
  "de_struct deny fs required build v =
     (case v of
        TTab t \<Rightarrow> and_then (check_entries deny fs t) (\<lambda>_. and_then (check_required required t) (\<lambda>_. Ok (build t)))
      | _ \<Rightarrow> Err DE_InvalidType)"

section \<open>The structs\<close>

definition de_server :: "server_config de" where
  "de_server = de_struct False
     [(''host'', checked de_string), (''port'', checked (de_unsigned 16)), (''body_limit'', checked (de_unsigned 64))] []
     (\<lambda>t. \<lparr>sc_host = field de_string default_host t ''host'',
           sc_port = field (de_unsigned 16) default_port t ''port'',
           sc_body_limit = field (de_unsigned 64) default_body_limit t ''body_limit''\<rparr>)"

definition de_database :: "database_config de" where
  "de_database = de_struct False
     [(''url'', checked de_string), (''max_connections'', checked (de_unsigned 32))] [''url'']
     (\<lambda>t. \<lparr>dc_url = field de_string [] t ''url'',
           dc_max_connections = field (de_unsigned 32) default_max_connections t ''max_connections''\<rparr>)"

definition de_provider :: "provider_config de" where
  "de_provider = de_struct False
     [(''type'', checked de_string), (''secret'', checked de_string), (''public_key'', checked de_string),
      (''header'', checked de_string), (''tolerance_seconds'', checked (de_unsigned 64))] []
     (\<lambda>t. \<lparr>pc_verifier_type = field de_string default_provider_type t ''type'',
           pc_secret = field (de_option de_string) None t ''secret'',
           pc_public_key = field (de_option de_string) None t ''public_key'',
           pc_header = field (de_option de_string) None t ''header'',
           pc_tolerance_seconds = field (de_option (de_unsigned 64)) None t ''tolerance_seconds''\<rparr>)"

definition de_dedupe :: "dedupe_config de" where
  "de_dedupe = de_struct False [(''lru_capacity'', checked (de_unsigned 64))] []
     (\<lambda>t. \<lparr>ddc_lru_capacity = field (de_unsigned 64) default_lru_capacity t ''lru_capacity''\<rparr>)"

definition de_admin :: "admin_config de" where
  "de_admin = de_struct False [(''bearer_token'', checked de_string)] []
     (\<lambda>t. \<lparr>ac_bearer_token = field (de_option de_string) None t ''bearer_token''\<rparr>)"

definition de_retry :: "retry_config de" where
  "de_retry = de_struct False
     [(''interval_seconds'', checked (de_unsigned 64)), (''max_attempts'', checked de_i32)] []
     (\<lambda>t. \<lparr>rc_interval_seconds = field (de_unsigned 64) default_retry_interval t ''interval_seconds'',
           rc_max_attempts = field de_i32 default_max_attempts t ''max_attempts''\<rparr>)"

definition default_kafka_client_id :: string where "default_kafka_client_id = ''hookbox''"
definition default_kafka_acks :: string where "default_kafka_acks = ''all''"
definition default_kafka_timeout :: nat where "default_kafka_timeout = 5000"
definition default_redis_timeout_ms :: nat where "default_redis_timeout_ms = 5000"

definition de_kafka :: "kafka_emitter_config de" where
  "de_kafka = de_struct True
     [(''brokers'', checked de_string), (''topic'', checked de_string), (''client_id'', checked de_string),
      (''acks'', checked de_string), (''timeout_ms'', checked (de_unsigned 64))] [''brokers'', ''topic'']
     (\<lambda>t. \<lparr>kc_brokers = field de_string [] t ''brokers'', kc_topic = field de_string [] t ''topic'',
           kc_client_id = field de_string default_kafka_client_id t ''client_id'',
           kc_acks = field de_string default_kafka_acks t ''acks'',
           kc_timeout_ms = field (de_unsigned 64) default_kafka_timeout t ''timeout_ms''\<rparr>)"

definition de_nats :: "nats_emitter_config de" where
  "de_nats = de_struct True [(''url'', checked de_string), (''subject'', checked de_string)] [''url'', ''subject'']
     (\<lambda>t. \<lparr>nc_url = field de_string [] t ''url'', nc_subject = field de_string [] t ''subject''\<rparr>)"

definition de_sqs :: "sqs_emitter_config de" where
  "de_sqs = de_struct True
     [(''queue_url'', checked de_string), (''region'', checked de_string), (''fifo'', checked de_bool),
      (''endpoint_url'', checked de_string)] [''queue_url'']
     (\<lambda>t. \<lparr>qc_queue_url = field de_string [] t ''queue_url'',
           qc_region = field (de_option de_string) None t ''region'', qc_fifo = field de_bool False t ''fifo'',
           qc_endpoint_url = field (de_option de_string) None t ''endpoint_url''\<rparr>)"

definition de_redis :: "redis_emitter_config de" where
  "de_redis = de_struct True
     [(''url'', checked de_string), (''stream'', checked de_string), (''maxlen'', checked (de_unsigned 64)),
      (''timeout_ms'', checked (de_unsigned 64))] [''url'', ''stream'']
     (\<lambda>t. \<lparr>rdc_url = field de_string [] t ''url'', rdc_stream = field de_string [] t ''stream'',
           rdc_maxlen = field (de_option (de_unsigned 64)) None t ''maxlen'',
           rdc_timeout_ms = field (de_unsigned 64) default_redis_timeout_ms t ''timeout_ms''\<rparr>)"

definition backend_checks :: field_checks where
  "backend_checks =
     [(''kafka'', checked de_kafka), (''nats'', checked de_nats), (''sqs'', checked de_sqs), (''redis'', checked de_redis)]"

definition de_emitter_config :: "emitter_config de" where
  "de_emitter_config = de_struct True ((''type'', checked de_string) # backend_checks) []
     (\<lambda>t. \<lparr>ec_emitter_type = field de_string default_emitter_type t ''type'',
           ec_kafka = field (de_option de_kafka) None t ''kafka'', ec_nats = field (de_option de_nats) None t ''nats'',
           ec_sqs = field (de_option de_sqs) None t ''sqs'', ec_redis = field (de_option de_redis) None t ''redis''\<rparr>)"

text \<open>The container attribute \<^verbatim>\<open>default\<close>: what is missing is taken from the default of the struct.\<close>

definition de_retry_policy :: "retry_policy_config de" where
  "de_retry_policy = de_struct True
     [(''max_attempts'', checked de_i32), (''initial_backoff_seconds'', checked (de_unsigned 64)),
      (''max_backoff_seconds'', checked (de_unsigned 64)), (''backoff_multiplier'', checked de_f64),
      (''jitter'', checked de_f64)] []
     (\<lambda>t. let d = retry_policy_config_default in
       \<lparr>rpc_max_attempts = field de_i32 (rpc_max_attempts d) t ''max_attempts'',
        rpc_initial_backoff_seconds = field (de_unsigned 64) (rpc_initial_backoff_seconds d) t ''initial_backoff_seconds'',
        rpc_max_backoff_seconds = field (de_unsigned 64) (rpc_max_backoff_seconds d) t ''max_backoff_seconds'',
        rpc_backoff_multiplier = field de_f64 (rpc_backoff_multiplier d) t ''backoff_multiplier'',
        rpc_jitter = field de_f64 (rpc_jitter d) t ''jitter''\<rparr>)"

definition de_emitter_entry :: "emitter_entry de" where
  "de_emitter_entry = de_struct True
     ([(''name'', checked de_string), (''type'', checked de_string), (''poll_interval_seconds'', checked (de_unsigned 64)),
       (''concurrency'', checked (de_unsigned 64)), (''lease_duration_seconds'', checked (de_unsigned 64)),
       (''retry'', checked de_retry_policy)] @ backend_checks) [''name'', ''type'']
     (\<lambda>t. \<lparr>en_name = field de_string [] t ''name'', en_emitter_type = field de_string [] t ''type'',
           en_poll_interval_seconds = field (de_unsigned 64) default_poll_interval t ''poll_interval_seconds'',
           en_concurrency = field (de_unsigned 64) default_concurrency t ''concurrency'',
           en_lease_duration_seconds = field (de_option (de_unsigned 64)) None t ''lease_duration_seconds'',
           en_kafka = field (de_option de_kafka) None t ''kafka'', en_nats = field (de_option de_nats) None t ''nats'',
           en_sqs = field (de_option de_sqs) None t ''sqs'', en_redis = field (de_option de_redis) None t ''redis'',
           en_retry = field de_retry_policy retry_policy_config_default t ''retry''\<rparr>)"

definition de_config :: "hookbox_config de" where
  "de_config = de_struct False
     [(''server'', checked de_server), (''database'', checked de_database), (''providers'', checked (de_map de_provider)),
      (''dedupe'', checked de_dedupe), (''admin'', checked de_admin), (''retry'', checked de_retry),
      (''emitter'', checked de_emitter_config), (''emitters'', checked (de_vec de_emitter_entry))] [''database'']
     (\<lambda>t. \<lparr>hc_server = field de_server server_config_default t ''server'',
           hc_database = field de_database \<lparr>dc_url = [], dc_max_connections = default_max_connections\<rparr> t ''database'',
           hc_providers = field (de_map de_provider) [] t ''providers'',
           hc_dedupe = field de_dedupe dedupe_config_default t ''dedupe'',
           hc_admin = field de_admin \<lparr>ac_bearer_token = None\<rparr> t ''admin'',
           hc_retry = field de_retry retry_config_default t ''retry'',
           hc_emitter = field (de_option de_emitter_config) None t ''emitter'',
           hc_emitters = field (de_vec de_emitter_entry) [] t ''emitters''\<rparr>)"

section \<open>Reading tables\<close>

lemma de_struct_Ok:
  "de_struct deny fs required build v = Ok a \<longleftrightarrow>
     (\<exists>t. v = TTab t \<and> check_entries deny fs t = Ok () \<and> check_required required t = Ok () \<and> a = build t)"
  by (cases v) (auto simp: de_struct_def elim!: and_then_OkE)

lemma check_entries_Ok:
  "check_entries deny fs t = Ok () \<longleftrightarrow>
     list_all (\<lambda>(k, v). case map_of fs k of None \<Rightarrow> \<not> deny | Some chk \<Rightarrow> chk v = Ok ()) t"
  by (induction t rule: check_entries.induct[of _ deny fs]) (auto split: option.splits elim!: and_then_OkE)

text \<open>A key that no field has is an error of a strict table and nothing to a lenient one.\<close>

lemma strict_tables:
  assumes "de_struct True fs required build (TTab t) = Ok a" and "k \<in> fst ` set t"
  shows "k \<in> fst ` set fs"
proof -
  obtain v where kv: "(k, v) \<in> set t" using assms(2) by auto
  have "check_entries True fs t = Ok ()" using assms(1) by (simp add: de_struct_Ok)
  then have "map_of fs k \<noteq> None" using kv by (auto simp: check_entries_Ok list_all_iff split: option.splits)
  then show ?thesis by (simp add: map_of_eq_None_iff)
qed

lemma lenient_tables:
  assumes "\<And>k. k \<in> fst ` set junk \<Longrightarrow> map_of fs k = None"
  shows "check_entries False fs (t @ junk) = check_entries False fs t"
proof -
  have "check_entries False fs junk = Ok ()"
    using assms by (fastforce simp: check_entries_Ok list_all_iff split: option.split)
  then show ?thesis
    by (induction t rule: check_entries.induct[of _ False fs]) (auto split: option.split)
qed

section \<open>Widths\<close>

lemma de_unsigned_Ok: "de_unsigned bits v = Ok n \<Longrightarrow> n < 2 ^ bits \<and> n < 2 ^ 63"
  by (auto simp: de_unsigned_def nat_less_iff split: toml.splits if_splits)

lemma de_i32_Ok: "de_i32 v = Ok i \<Longrightarrow> - (2 ^ 31) \<le> i \<and> i < 2 ^ 31"
  by (auto simp: de_i32_def split: toml.splits if_splits)

lemma field_holds:
  assumes "P dflt" and "\<And>v a. d v = Ok a \<Longrightarrow> P a"
  shows "P (field d dflt t k)"
  using assms by (auto simp: field_def split: option.split result.split)

text \<open>A 64-bit field is below \<open>2 ^ 63\<close>, since the integers of TOML are signed.\<close>

abbreviation fits_i32 :: "int \<Rightarrow> bool" where
  "fits_i32 i \<equiv> - (2 ^ 31) \<le> i \<and> i < 2 ^ 31"

abbreviation fits_u64 :: "nat \<Rightarrow> bool" where
  "fits_u64 n \<equiv> n < 2 ^ 63"

definition kafka_fits :: "kafka_emitter_config \<Rightarrow> bool" where
  "kafka_fits k \<longleftrightarrow> fits_u64 (kc_timeout_ms k)"

definition redis_fits :: "redis_emitter_config \<Rightarrow> bool" where
  "redis_fits r \<longleftrightarrow> pred_option fits_u64 (rdc_maxlen r) \<and> fits_u64 (rdc_timeout_ms r)"

definition policy_fits :: "retry_policy_config \<Rightarrow> bool" where
  "policy_fits p \<longleftrightarrow>
     fits_i32 (rpc_max_attempts p) \<and> fits_u64 (rpc_initial_backoff_seconds p) \<and> fits_u64 (rpc_max_backoff_seconds p)"

definition entry_fits :: "emitter_entry \<Rightarrow> bool" where
  "entry_fits e \<longleftrightarrow>
     fits_u64 (en_concurrency e) \<and> fits_u64 (en_poll_interval_seconds e)
     \<and> pred_option fits_u64 (en_lease_duration_seconds e) \<and> policy_fits (en_retry e)
     \<and> pred_option kafka_fits (en_kafka e) \<and> pred_option redis_fits (en_redis e)"

definition legacy_fits :: "emitter_config \<Rightarrow> bool" where
  "legacy_fits e \<longleftrightarrow> pred_option kafka_fits (ec_kafka e) \<and> pred_option redis_fits (ec_redis e)"

text \<open>Every integer of a configuration.\<close>

definition config_fits :: "hookbox_config \<Rightarrow> bool" where
  "config_fits c \<longleftrightarrow>
     sc_port (hc_server c) < 2 ^ 16 \<and> fits_u64 (sc_body_limit (hc_server c))
     \<and> dc_max_connections (hc_database c) < 2 ^ 32
     \<and> list_all (\<lambda>(_, p). pred_option fits_u64 (pc_tolerance_seconds p)) (hc_providers c)
     \<and> fits_u64 (ddc_lru_capacity (hc_dedupe c))
     \<and> fits_u64 (rc_interval_seconds (hc_retry c)) \<and> fits_i32 (rc_max_attempts (hc_retry c))
     \<and> pred_option legacy_fits (hc_emitter c) \<and> list_all entry_fits (hc_emitters c)"

lemma unsigned_field: "dflt < 2 ^ bits \<and> dflt < 2 ^ 63 \<Longrightarrow>
    field (de_unsigned bits) dflt t k < 2 ^ bits \<and> field (de_unsigned bits) dflt t k < 2 ^ 63"
  by (rule field_holds) (auto dest: de_unsigned_Ok)

lemma i32_field: "- (2 ^ 31) \<le> dflt \<and> dflt < 2 ^ 31 \<Longrightarrow>
    - (2 ^ 31) \<le> field de_i32 dflt t k \<and> field de_i32 dflt t k < 2 ^ 31"
  by (rule field_holds) (auto dest: de_i32_Ok)

lemma option_field:
  assumes "\<And>v a. d v = Ok a \<Longrightarrow> P a"
  shows "pred_option P (field (de_option d) None t k)"
  by (rule field_holds) (auto simp: de_option_def dest: assms elim!: and_then_OkE)

lemma unsigned_option: "pred_option fits_u64 (field (de_option (de_unsigned bits)) None t k)"
  by (rule option_field) (auto dest: de_unsigned_Ok)

lemma read_kafka_fits: "de_kafka v = Ok k \<Longrightarrow> kafka_fits k"
  unfolding de_kafka_def de_struct_Ok kafka_fits_def using unsigned_field[of default_kafka_timeout 64]
  by (auto simp: default_kafka_timeout_def)

lemma read_redis_fits: "de_redis v = Ok r \<Longrightarrow> redis_fits r"
  unfolding de_redis_def de_struct_Ok redis_fits_def
  using unsigned_field[of default_redis_timeout_ms 64] unsigned_option
  by (auto simp: default_redis_timeout_ms_def)

lemma retry_policy_fits: "policy_fits (field de_retry_policy retry_policy_config_default t k)"
proof (rule field_holds)
  fix v a assume "de_retry_policy v = Ok a"
  then show "policy_fits a"
    unfolding de_retry_policy_def de_struct_Ok policy_fits_def
    using i32_field[of 5] unsigned_field[of 30 64] unsigned_field[of 3600 64]
    by (auto simp: Let_def retry_policy_config_default_def)
qed (simp add: policy_fits_def retry_policy_config_default_def)

lemmas backends_fit = option_field[where P = kafka_fits, OF read_kafka_fits] option_field[where P = redis_fits, OF read_redis_fits]

lemma read_entry_fits: "de_emitter_entry v = Ok e \<Longrightarrow> entry_fits e"
  unfolding de_emitter_entry_def de_struct_Ok entry_fits_def
  using unsigned_field[of default_concurrency 64] unsigned_field[of default_poll_interval 64] retry_policy_fits
    unsigned_option backends_fit
  by (auto simp: default_concurrency_def default_poll_interval_def)

lemma read_legacy_fits: "de_emitter_config v = Ok e \<Longrightarrow> legacy_fits e"
  unfolding de_emitter_config_def de_struct_Ok legacy_fits_def using backends_fit by auto

lemma read_provider_fits: "de_provider v = Ok p \<Longrightarrow> pred_option fits_u64 (pc_tolerance_seconds p)"
  unfolding de_provider_def de_struct_Ok using unsigned_option by auto

lemma read_server_fits:
  "sc_port (field de_server server_config_default t k) < 2 ^ 16 \<and> sc_body_limit (field de_server server_config_default t k) < 2 ^ 63"
proof (rule field_holds)
  fix v a assume "de_server v = Ok a"
  then show "sc_port a < 2 ^ 16 \<and> sc_body_limit a < 2 ^ 63"
    unfolding de_server_def de_struct_Ok using unsigned_field[of default_port 16] unsigned_field[of default_body_limit 64]
    by (auto simp: default_port_def default_body_limit_def)
qed (simp add: server_config_default_def default_port_def default_body_limit_def)

lemma read_retry_fits:
  "rc_interval_seconds (field de_retry retry_config_default t k) < 2 ^ 63
   \<and> - (2 ^ 31) \<le> rc_max_attempts (field de_retry retry_config_default t k)
   \<and> rc_max_attempts (field de_retry retry_config_default t k) < 2 ^ 31"
proof (rule field_holds)
  fix v a assume "de_retry v = Ok a"
  then show "rc_interval_seconds a < 2 ^ 63 \<and> - (2 ^ 31) \<le> rc_max_attempts a \<and> rc_max_attempts a < 2 ^ 31"
    unfolding de_retry_def de_struct_Ok using unsigned_field[of default_retry_interval 64] i32_field[of default_max_attempts]
    by (auto simp: default_retry_interval_def default_max_attempts_def)
qed (simp add: retry_config_default_def default_retry_interval_def default_max_attempts_def)

lemma read_config_fits:
  assumes "de_config doc = Ok c" shows "config_fits c"
proof -
  obtain t where c: "c = \<lparr>hc_server = field de_server server_config_default t ''server'',
      hc_database = field de_database \<lparr>dc_url = [], dc_max_connections = default_max_connections\<rparr> t ''database'',
      hc_providers = field (de_map de_provider) [] t ''providers'',
      hc_dedupe = field de_dedupe dedupe_config_default t ''dedupe'',
      hc_admin = field de_admin \<lparr>ac_bearer_token = None\<rparr> t ''admin'',
      hc_retry = field de_retry retry_config_default t ''retry'',
      hc_emitter = field (de_option de_emitter_config) None t ''emitter'',
      hc_emitters = field (de_vec de_emitter_entry) [] t ''emitters''\<rparr>"
    using assms unfolding de_config_def de_struct_Ok by blast
  have "dc_max_connections a < 2 ^ 32" if "de_database v = Ok a" for v a
    using that unsigned_field[of default_max_connections 32] unfolding de_database_def de_struct_Ok
    by (auto simp: default_max_connections_def)
  then have db: "dc_max_connections (hc_database c) < 2 ^ 32"
    unfolding c hookbox_config.simps by (rule field_holds[rotated]) (auto simp: default_max_connections_def)
  have "ddc_lru_capacity a < 2 ^ 63" if "de_dedupe v = Ok a" for v a
    using that unsigned_field[of default_lru_capacity 64] unfolding de_dedupe_def de_struct_Ok
    by (auto simp: default_lru_capacity_def)
  then have lru: "ddc_lru_capacity (hc_dedupe c) < 2 ^ 63"
    unfolding c hookbox_config.simps
    by (rule field_holds[rotated]) (auto simp: dedupe_config_default_def default_lru_capacity_def)
  have "list_all entry_fits es" if read: "de_vec de_emitter_entry v = Ok es" for v es
  proof -
    obtain vs where "list_all2 (\<lambda>v e. de_emitter_entry v = Ok e) vs es"
      using read by (auto simp: de_vec_def collect_results_Ok_iff split: toml.splits)
    from list_all2_source[OF this] show ?thesis unfolding list_all_iff using read_entry_fits by blast
  qed
  then have "list_all entry_fits (hc_emitters c)"
    unfolding c hookbox_config.simps by (rule field_holds[rotated]) auto
  moreover have "list_all (\<lambda>(_, p). pred_option fits_u64 (pc_tolerance_seconds p)) ps" if read: "de_map de_provider v = Ok ps" for v ps
  proof -
    obtain kvs where "list_all2 (\<lambda>kv p. (case kv of (k, v) \<Rightarrow> and_then (de_provider v) (\<lambda>a. Ok (k, a))) = Ok p) kvs ps"
      using read by (auto simp: de_map_def collect_results_Ok_iff split: toml.splits)
    from list_all2_source[OF this] show ?thesis
      unfolding list_all_iff by (fastforce elim!: and_then_OkE dest: read_provider_fits)
  qed
  then have "list_all (\<lambda>(_, p). pred_option fits_u64 (pc_tolerance_seconds p)) (hc_providers c)"
    unfolding c hookbox_config.simps by (rule field_holds[rotated]) auto
  moreover have "pred_option legacy_fits (hc_emitter c)"
    unfolding c hookbox_config.simps by (rule option_field) (rule read_legacy_fits)
  ultimately show ?thesis
    using db lru read_server_fits read_retry_fits by (simp add: config_fits_def c)
qed

lemma chosen_fit:
  assumes "config_fits c" shows "list_all entry_fits (chosen_emitters c)"
  using assms
  by (auto simp: config_fits_def chosen_emitters_def entry_fits_def legacy_fits_def policy_fits_def from_legacy_def
      emitter_entry_default_def retry_policy_config_default_def default_concurrency_def split: option.splits)

definition entry_keys :: "string list" where
  "entry_keys = [''name'', ''type'', ''poll_interval_seconds'', ''concurrency'', ''lease_duration_seconds'', ''retry'',
     ''kafka'', ''nats'', ''sqs'', ''redis'']"

lemma known_entry_keys:
  assumes "de_config (TTab t) = Ok c" and "map_of t ''emitters'' = Some (TArr es)" and "TTab E \<in> set es"
  shows "fst ` set E \<subseteq> set entry_keys"
proof -
  have mem: "(''emitters'', TArr es) \<in> set t" using assms(2) by (rule map_of_SomeD)
  have chk: "check_entries False [(''server'', checked de_server), (''database'', checked de_database),
      (''providers'', checked (de_map de_provider)), (''dedupe'', checked de_dedupe), (''admin'', checked de_admin),
      (''retry'', checked de_retry), (''emitter'', checked de_emitter_config),
      (''emitters'', checked (de_vec de_emitter_entry))] t = Ok ()"
    using assms(1) unfolding de_config_def de_struct_Ok by blast
  have "checked (de_vec de_emitter_entry) (TArr es) = Ok ()"
    using bspec[OF chk[unfolded check_entries_Ok list_all_iff] mem] by simp
  then obtain entries where "collect_results de_emitter_entry es = Ok entries"
    by (auto simp: checked_def de_vec_def elim!: and_then_OkE)
  then have "list_all2 (\<lambda>v e. de_emitter_entry v = Ok e) es entries" by (simp only: collect_results_Ok_iff)
  from list_all2_image[OF this assms(3)] obtain e where e: "de_emitter_entry (TTab E) = Ok e" by blast
  have "k \<in> set entry_keys" if "k \<in> fst ` set E" for k
    using strict_tables[OF e[unfolded de_emitter_entry_def] that] by (auto simp: backend_checks_def entry_keys_def)
  then show ?thesis by blast
qed

text \<open>C30. What a configuration file can make the server run. If a document reads and normalizes and its workers
  are spawned, then every integer of the configuration it runs is within the width of its field; the workers have distinct
  names, and each has a positive concurrency below \<open>2 ^ 63\<close> (so its cast to a row limit is exact),
  a positive poll interval and lease, at least one attempt, and a jitter within its range (or not a
  number); and no \<^verbatim>\<open>[[emitters]]\<close> entry has a key that is not one of its fields.\<close>

theorem configuration_file_is_safe:
  assumes "de_config (TTab t) = Ok c" and "normalize c = Ok (c', warnings)"
    and "spawn_emitter_workers bk c' = (Ok b, awaited)"
  shows "config_fits c'
    \<and> list_all (\<lambda>wk. worker_ok wk \<and> ew_concurrency wk < 2 ^ 63) (workers_in (bo_handles b))
    \<and> distinct (map ew_name (workers_in (bo_handles b)))
    \<and> (\<forall>es E. map_of t ''emitters'' = Some (TArr es) \<longrightarrow> TTab E \<in> set es \<longrightarrow> fst ` set E \<subseteq> set entry_keys)"
proof -
  have ok: "config_ok c" using assms(2) normalize_err[of c] by auto
  then have c': "c' = c\<lparr>hc_emitters := chosen_emitters c, hc_emitter := None\<rparr>"
    using assms(2) by (simp add: normalize_ok)
  have fits: "config_fits c" by (rule read_config_fits[OF assms(1)])
  have entries: "entries_ok (hc_emitters c')" using ok by (simp add: c' config_ok_def)
  have w: "workers_in (bo_handles b) = map worker_of_entry (hc_emitters c')"
    using spawn_loop_Ok[OF assms(3)[unfolded spawn_emitter_workers_def]] by (simp add: workers_in_all)
  have "list_all (\<lambda>wk. worker_ok wk \<and> ew_concurrency wk < 2 ^ 63) (workers_in (bo_handles b))"
    using entries chosen_fit[OF fits] worker_of_entry_ok
    by (auto simp: w entries_ok_def list_all_iff entry_fits_def c' worker_of_entry_def)
  moreover have "distinct (map ew_name (workers_in (bo_handles b)))"
    using entries by (simp add: w entries_ok_def comp_def worker_of_entry_def)
  moreover have "config_fits c'" using fits chosen_fit[OF fits] by (simp add: c' config_fits_def)
  ultimately show ?thesis using known_entry_keys[OF assms(1)] by blast
qed

definition channel_file :: "(string \<times> toml) list" where
  "channel_file =
     [(''database'', TTab [(''url'', TStr ''postgres://localhost/hookbox'')]),
      (''emitters'', TArr [TTab [(''name'', TStr ''audit''), (''type'', TStr ''channel''), (''concurrency'', TInt 4)]])]"

lemmas de_simps = de_struct_def check_required_def checked_def field_def de_string_def de_bool_def de_unsigned_def
  de_i32_def de_option_def de_vec_def de_map_def backend_checks_def

lemma channel_file_reads:
  "de_config (TTab channel_file) = Ok
     \<lparr>hc_server = server_config_default,
      hc_database = \<lparr>dc_url = ''postgres://localhost/hookbox'', dc_max_connections = default_max_connections\<rparr>,
      hc_providers = [], hc_dedupe = dedupe_config_default, hc_admin = \<lparr>ac_bearer_token = None\<rparr>,
      hc_retry = retry_config_default, hc_emitter = None,
      hc_emitters = [emitter_entry_default\<lparr>en_name := ''audit'', en_emitter_type := ''channel'', en_concurrency := 4\<rparr>]\<rparr>"
  by (simp add: de_config_def de_database_def de_emitter_entry_def channel_file_def emitter_entry_default_def de_simps)

theorem configuration_file_is_safe_witness:
  "\<exists>c c' b. de_config (TTab channel_file) = Ok c \<and> normalize c = Ok (c', [])
     \<and> spawn_emitter_workers no_brokers c' = (Ok b, []) \<and> map ew_name (workers_in (bo_handles b)) = [''audit'']
     \<and> list_all worker_ok (workers_in (bo_handles b)) \<and> config_fits c'"
proof -
  let ?e = "emitter_entry_default\<lparr>en_name := ''audit'', en_emitter_type := ''channel'', en_concurrency := 4\<rparr>"
  obtain c where c: "de_config (TTab channel_file) = Ok c" "hc_emitter c = None" "hc_emitters c = [?e]"
    using channel_file_reads by simp
  have "jitter_ok (f64_round (1 / 5))" by code_simp
  then have "config_ok c"
    by (simp add: config_ok_def chosen_emitters_def c entries_ok_def entry_ok_def emitter_entry_default_def
        retry_policy_config_default_def default_poll_interval_def section_ok_def name_ok_def
        is_ascii_alphanumeric_def is_digit_def byte_def)
  then have n: "normalize c = Ok (c\<lparr>hc_emitters := [?e], hc_emitter := None\<rparr>, [])"
    using c by (simp add: normalize_ok chosen_emitters_def)
  obtain b where b: "spawn_emitter_workers no_brokers (c\<lparr>hc_emitters := [?e], hc_emitter := None\<rparr>) = (Ok b, [])"
      "map ew_name (workers_in (bo_handles b)) = [''audit'']"
    by (simp add: spawn_emitter_workers_def build_emitter_for_entry_def build_emitter_def to_emitter_config_def
        emitter_entry_default_def channel_new_def spawn_one_def workers_in_def List.map_filter_simps worker_of_entry_def)
  from configuration_file_is_safe[OF c(1) n b(1)] show ?thesis
    using c(1) n b by (auto simp: list_all_iff)
qed

section \<open>A misspelt token\<close>

text \<open>\<^verbatim>\<open>[admin]\<close> is a lenient table: a misspelt \<^verbatim>\<open>bearer_token\<close> is ignored and leaves the admin API without one,
  which grants every request.\<close>

lemma misspelt_token_opens_admin:
  assumes "de_config (TTab t) = Ok c" and "map_of t ''admin'' = Some (TTab a)" and "map_of a ''bearer_token'' = None"
    and "as_admin_token st = ac_bearer_token (hc_admin c)"
  shows "authorized x st hs"
proof -
  have "check_entries False [(''bearer_token'', checked de_string)] a = Ok ()"
    using assms(3) by (auto simp: check_entries_Ok list_all_iff map_of_eq_None_iff rev_image_eqI)
  then have "de_admin (TTab a) = Ok \<lparr>ac_bearer_token = None\<rparr>"
    using assms(3) by (simp add: de_admin_def de_simps)
  moreover have "hc_admin c = field de_admin \<lparr>ac_bearer_token = None\<rparr> t ''admin''"
    using assms(1) unfolding de_config_def de_struct_Ok by auto
  ultimately have "as_admin_token st = None" using assms(2,4) by (simp add: field_def)
  then show ?thesis by (simp add: authorized_def)
qed

end
