(* ===== verification/Config_Tests.thy ===== *)
theory Config_Tests
  imports Config_File
begin

text \<open>
  The unit tests of \<^verbatim>\<open>config.rs\<close> and \<^verbatim>\<open>bootstrap.rs\<close> of \<^verbatim>\<open>crates/hookbox-server\<close>, each as a predicate; the TOML
  documents of the former are given as trees, the tests of the latter depend on the hex, Base64 and PEM
  decoders. Shown: all of them hold, those of \<^verbatim>\<open>bootstrap.rs\<close> for all decoders that treat their literals as
  documented.
\<close>

section \<open>bootstrap.rs\<close>

definition provider_with_secret :: "string \<Rightarrow> string \<Rightarrow> provider_config" where
  "provider_with_secret kind secret =
     \<lparr>pc_verifier_type = kind, pc_secret = Some secret, pc_public_key = None, pc_header = None,
      pc_tolerance_seconds = None\<rparr>"

text \<open>The sections without a secret.\<close>

definition bare_provider :: "string \<Rightarrow> provider_config" where
  "bare_provider kind =
     \<lparr>pc_verifier_type = kind, pc_secret = None, pc_public_key = None, pc_header = None, pc_tolerance_seconds = None\<rparr>"

definition expect_build_error :: "externals \<Rightarrow> (string \<times> provider_config) list \<Rightarrow> string list option" where
  "expect_build_error x providers =
     (case build_provider_verifiers x providers of Ok _ \<Rightarrow> None | Err chain \<Rightarrow> Some chain)"

definition chain_mentions :: "externals \<Rightarrow> (string \<times> provider_config) list \<Rightarrow> string \<Rightarrow> bool" where
  "chain_mentions x providers word =
     (case expect_build_error x providers of None \<Rightarrow> False | Some chain \<Rightarrow> list_ex (contains word) chain)"

text \<open>The names of the verifiers built, in order.\<close>

definition built_names :: "externals \<Rightarrow> (string \<times> provider_config) list \<Rightarrow> string list option" where
  "built_names x providers =
     (case build_provider_verifiers x providers of
        Ok vs \<Rightarrow> Some (map (\<lambda>v. v_provider_name (verifier_object x v)) vs) | Err _ \<Rightarrow> None)"

definition validate_retry_config_accepts_positive_values :: bool where
  "validate_retry_config_accepts_positive_values =
     (validate_retry_config \<lparr>rc_interval_seconds = 5, rc_max_attempts = 3\<rparr> = Ok ())"

definition validate_retry_config_rejects_zero_interval :: bool where
  "validate_retry_config_rejects_zero_interval =
     (case validate_retry_config \<lparr>rc_interval_seconds = 0, rc_max_attempts = 3\<rparr> of
        Ok _ \<Rightarrow> False | Err chain \<Rightarrow> contains ''interval_seconds'' (hd chain))"

definition validate_retry_config_rejects_zero_max_attempts :: bool where
  "validate_retry_config_rejects_zero_max_attempts =
     (case validate_retry_config \<lparr>rc_interval_seconds = 5, rc_max_attempts = 0\<rparr> of
        Ok _ \<Rightarrow> False | Err chain \<Rightarrow> contains ''max_attempts'' (hd chain))"

definition stripe_verifier_registers_with_tolerance :: "externals \<Rightarrow> bool" where
  "stripe_verifier_registers_with_tolerance x =
     (built_names x [(''stripe-test'', (provider_with_secret ''stripe'' ''whsec_test'')\<lparr>pc_tolerance_seconds := Some 600\<rparr>)]
      = Some [''stripe-test''])"

definition adyen_verifier_registers_with_hex_key :: "externals \<Rightarrow> bool" where
  "adyen_verifier_registers_with_hex_key x =
     (built_names x [(''adyen-test'',
        provider_with_secret ''adyen'' ''000102030405060708090a0b0c0d0e0f101112131415161718191a1b1c1d1e1f'')]
      = Some [''adyen-test''])"

definition bvnk_verifier_registers :: "externals \<Rightarrow> bool" where
  "bvnk_verifier_registers x =
     (built_names x [(''bvnk-test'', provider_with_secret ''bvnk'' ''shared-secret'')] = Some [''bvnk-test''])"

definition triplea_crypto_verifier_registers_with_tolerance :: "externals \<Rightarrow> bool" where
  "triplea_crypto_verifier_registers_with_tolerance x =
     (built_names x [(''ta-crypto'', (provider_with_secret ''triplea-crypto'' ''notify-secret'')\<lparr>pc_tolerance_seconds := Some 300\<rparr>)]
      = Some [''ta-crypto''])"

definition checkout_verifier_uses_default_header :: "externals \<Rightarrow> bool" where
  "checkout_verifier_uses_default_header x =
     (built_names x [(''checkout-test'', provider_with_secret ''checkout'' ''cko-secret'')] = Some [''checkout-test''])"

definition checkout_verifier_honors_override_header :: "externals \<Rightarrow> bool" where
  "checkout_verifier_honors_override_header x =
     (built_names x [(''checkout-test'', (provider_with_secret ''checkout'' ''cko-secret'')\<lparr>pc_header := Some ''X-Custom-Sig''\<rparr>)]
      = Some [''checkout-test''])"

definition hmac_sha256_registers_with_default_header :: "externals \<Rightarrow> bool" where
  "hmac_sha256_registers_with_default_header x =
     (built_names x [(''github'', provider_with_secret ''hmac-sha256'' ''gh-secret'')] = Some [''github''])"

definition unknown_verifier_type_falls_back_to_generic_hmac :: "externals \<Rightarrow> bool" where
  "unknown_verifier_type_falls_back_to_generic_hmac x =
     (built_names x [(''weird'', provider_with_secret ''made-up-kind'' ''some-secret'')] = Some [''weird''])"

definition stripe_missing_secret_errors :: "externals \<Rightarrow> bool" where
  "stripe_missing_secret_errors x =
     (case expect_build_error x [(''stripe-bad'', bare_provider ''stripe'')] of
        None \<Rightarrow> False
      | Some chain \<Rightarrow> contains ''stripe-bad'' (hd chain) \<or> list_ex (contains ''non-empty secret'') chain)"

definition stripe_empty_secret_errors :: "externals \<Rightarrow> bool" where
  "stripe_empty_secret_errors x =
     (chain_mentions x [(''stripe-empty'', provider_with_secret ''stripe'' '''')] ''non-empty'')"

definition adyen_invalid_hex_key_errors :: "externals \<Rightarrow> bool" where
  "adyen_invalid_hex_key_errors x =
     (chain_mentions x [(''adyen-bad'', provider_with_secret ''adyen'' ''not-hex-at-all'')] ''invalid hex key'')"

definition adyen_missing_secret_errors :: "externals \<Rightarrow> bool" where
  "adyen_missing_secret_errors x =
     (chain_mentions x [(''adyen-missing'', bare_provider ''adyen'')] ''hex-encoded'')"

definition bvnk_missing_secret_errors :: "externals \<Rightarrow> bool" where
  "bvnk_missing_secret_errors x =
     (chain_mentions x [(''bvnk-bad'', bare_provider ''bvnk'')] ''bvnk'')"

definition triplea_fiat_missing_public_key_errors :: "externals \<Rightarrow> bool" where
  "triplea_fiat_missing_public_key_errors x =
     (chain_mentions x [(''ta-fiat'', bare_provider ''triplea-fiat'')] ''public_key'')"

definition triplea_fiat_invalid_pem_errors :: "externals \<Rightarrow> bool" where
  "triplea_fiat_invalid_pem_errors x =
     (chain_mentions x [(''ta-fiat'', (bare_provider ''triplea-fiat'')\<lparr>pc_public_key := Some ''this is not a PEM''\<rparr>)] ''invalid PEM'')"

definition triplea_crypto_missing_secret_errors :: "externals \<Rightarrow> bool" where
  "triplea_crypto_missing_secret_errors x =
     (chain_mentions x [(''ta-crypto-bad'', bare_provider ''triplea-crypto'')] ''notify_secret'')"

definition walapay_missing_secret_errors :: "externals \<Rightarrow> bool" where
  "walapay_missing_secret_errors x =
     (chain_mentions x [(''walapay-bad'', bare_provider ''walapay'')] ''whsec_'')"

definition walapay_invalid_secret_format_errors :: "externals \<Rightarrow> bool" where
  "walapay_invalid_secret_format_errors x =
     (chain_mentions x [(''walapay-bad'', provider_with_secret ''walapay'' ''not-a-whsec'')] ''invalid Svix'')"

definition walapay_valid_secret_with_tolerance_registers :: "externals \<Rightarrow> bool" where
  "walapay_valid_secret_with_tolerance_registers x =
     (let whsec = ''whsec_'' @ x_b64_encode x (replicate 32 (CHR 0x00)) in
      built_names x [(''walapay-ok'', (provider_with_secret ''walapay'' whsec)\<lparr>pc_tolerance_seconds := Some 120\<rparr>)]
      = Some [''walapay-ok''])"

definition checkout_missing_secret_errors :: "externals \<Rightarrow> bool" where
  "checkout_missing_secret_errors x =
     (chain_mentions x [(''co'', bare_provider ''checkout'')] ''checkout'')"

definition hmac_missing_secret_errors :: "externals \<Rightarrow> bool" where
  "hmac_missing_secret_errors x =
     (chain_mentions x [(''github'', bare_provider ''hmac-sha256'')] ''non-empty'')"

definition multiple_providers_all_register :: "externals \<Rightarrow> bool" where
  "multiple_providers_all_register x =
     (map_option length (built_names x [(''s'', provider_with_secret ''stripe'' ''whsec_abc''), (''g'', provider_with_secret ''hmac-sha256'' ''gh'')]) = Some 2)"

definition empty_providers_map_returns_empty_vec :: "externals \<Rightarrow> bool" where
  "empty_providers_map_returns_empty_vec x =
     (built_names x [] = Some [])"

section \<open>config.rs\<close>

definition parse_minimal_config :: bool where
  "parse_minimal_config =
     (case de_config (TTab [(''database'', TTab [(''url'', TStr ''postgres://localhost/hookbox'')])]) of Err _ \<Rightarrow> False
      | Ok config \<Rightarrow>
          sc_host (hc_server config) = ''0.0.0.0'' \<and> sc_port (hc_server config) = 8080
          \<and> sc_body_limit (hc_server config) = 1048576
          \<and> dc_url (hc_database config) = ''postgres://localhost/hookbox'' \<and> dc_max_connections (hc_database config) = 10
          \<and> hc_providers config = [] \<and> ddc_lru_capacity (hc_dedupe config) = 10000
          \<and> ac_bearer_token (hc_admin config) = None \<and> rc_interval_seconds (hc_retry config) = 30
          \<and> rc_max_attempts (hc_retry config) = 5 \<and> hc_emitter config = None \<and> hc_emitters config = [])"

definition parse_emitter_default :: bool where
  "parse_emitter_default =
     (case de_config (TTab [(''database'', TTab [(''url'', TStr ''postgres://localhost/hookbox'')])]) of Err _ \<Rightarrow> False
      | Ok config \<Rightarrow>
          hc_emitter config = None)"

definition parse_emitter_kafka :: bool where
  "parse_emitter_kafka =
     (case de_config (TTab [(''database'', TTab [(''url'', TStr ''postgres://localhost/hookbox'')]), (''emitter'', TTab [(''type'', TStr ''kafka''), (''kafka'', TTab [(''brokers'', TStr ''localhost:9092''), (''topic'', TStr ''hookbox-events'')])])]) of Err _ \<Rightarrow> False
      | Ok config \<Rightarrow>
          (case hc_emitter config of None \<Rightarrow> False | Some emitter \<Rightarrow> ec_emitter_type emitter = ''kafka'' \<and>
          (case ec_kafka emitter of None \<Rightarrow> False | Some kafka \<Rightarrow>
             kc_brokers kafka = ''localhost:9092'' \<and> kc_topic kafka = ''hookbox-events'' \<and> kc_client_id kafka = ''hookbox''
             \<and> kc_acks kafka = ''all'' \<and> kc_timeout_ms kafka = 5000)))"

definition parse_emitter_kafka_full :: bool where
  "parse_emitter_kafka_full =
     (case de_config (TTab [(''database'', TTab [(''url'', TStr ''postgres://localhost/hookbox'')]), (''emitter'', TTab [(''type'', TStr ''kafka''), (''kafka'', TTab [(''brokers'', TStr ''broker1:9092,broker2:9092''), (''topic'', TStr ''my-topic''), (''client_id'', TStr ''my-client''), (''acks'', TStr ''1''), (''timeout_ms'', TInt 3000)])])]) of Err _ \<Rightarrow> False
      | Ok config \<Rightarrow>
          (case hc_emitter config of None \<Rightarrow> False | Some emitter \<Rightarrow> 
          (case ec_kafka emitter of None \<Rightarrow> False | Some kafka \<Rightarrow>
             kc_brokers kafka = ''broker1:9092,broker2:9092'' \<and> kc_topic kafka = ''my-topic'' \<and> kc_client_id kafka = ''my-client''
             \<and> kc_acks kafka = ''1'' \<and> kc_timeout_ms kafka = 3000)))"

definition parse_emitter_nats :: bool where
  "parse_emitter_nats =
     (case de_config (TTab [(''database'', TTab [(''url'', TStr ''postgres://localhost/hookbox'')]), (''emitter'', TTab [(''type'', TStr ''nats''), (''nats'', TTab [(''url'', TStr ''nats://localhost:4222''), (''subject'', TStr ''hookbox.events'')])])]) of Err _ \<Rightarrow> False
      | Ok config \<Rightarrow>
          (case hc_emitter config of None \<Rightarrow> False | Some emitter \<Rightarrow> ec_emitter_type emitter = ''nats'' \<and>
          (case ec_nats emitter of None \<Rightarrow> False | Some nats \<Rightarrow>
             nc_url nats = ''nats://localhost:4222'' \<and> nc_subject nats = ''hookbox.events'')))"

definition parse_emitter_sqs :: bool where
  "parse_emitter_sqs =
     (case de_config (TTab [(''database'', TTab [(''url'', TStr ''postgres://localhost/hookbox'')]), (''emitter'', TTab [(''type'', TStr ''sqs''), (''sqs'', TTab [(''queue_url'', TStr ''https://sqs.us-east-1.amazonaws.com/123456789012/hookbox-events'')])])]) of Err _ \<Rightarrow> False
      | Ok config \<Rightarrow>
          (case hc_emitter config of None \<Rightarrow> False | Some emitter \<Rightarrow> ec_emitter_type emitter = ''sqs'' \<and>
          (case ec_sqs emitter of None \<Rightarrow> False | Some sqs \<Rightarrow>
             qc_queue_url sqs = ''https://sqs.us-east-1.amazonaws.com/123456789012/hookbox-events''
             \<and> qc_region sqs = None \<and> \<not> qc_fifo sqs)))"

definition parse_emitter_sqs_full :: bool where
  "parse_emitter_sqs_full =
     (case de_config (TTab [(''database'', TTab [(''url'', TStr ''postgres://localhost/hookbox'')]), (''emitter'', TTab [(''type'', TStr ''sqs''), (''sqs'', TTab [(''queue_url'', TStr ''https://sqs.us-east-1.amazonaws.com/123456789012/hookbox-events.fifo''), (''region'', TStr ''us-east-1''), (''fifo'', TBool True)])])]) of Err _ \<Rightarrow> False
      | Ok config \<Rightarrow>
          (case hc_emitter config of None \<Rightarrow> False | Some emitter \<Rightarrow> 
          (case ec_sqs emitter of None \<Rightarrow> False | Some sqs \<Rightarrow>
             qc_region sqs = Some ''us-east-1'' \<and> qc_fifo sqs)))"

definition parse_emitter_redis :: bool where
  "parse_emitter_redis =
     (case de_config (TTab [(''database'', TTab [(''url'', TStr ''postgres://localhost/hookbox'')]), (''emitter'', TTab [(''type'', TStr ''redis''), (''redis'', TTab [(''url'', TStr ''redis://127.0.0.1:6379''), (''stream'', TStr ''hookbox.events'')])])]) of Err _ \<Rightarrow> False
      | Ok config \<Rightarrow>
          (case hc_emitter config of None \<Rightarrow> False | Some emitter \<Rightarrow> ec_emitter_type emitter = ''redis'' \<and>
          (case ec_redis emitter of None \<Rightarrow> False | Some redis \<Rightarrow>
             rdc_url redis = ''redis://127.0.0.1:6379'' \<and> rdc_stream redis = ''hookbox.events'' \<and> rdc_maxlen redis = None
             \<and> rdc_timeout_ms redis = 5000)))"

definition parse_emitter_redis_full :: bool where
  "parse_emitter_redis_full =
     (case de_config (TTab [(''database'', TTab [(''url'', TStr ''postgres://localhost/hookbox'')]), (''emitter'', TTab [(''type'', TStr ''redis''), (''redis'', TTab [(''url'', TStr ''redis://10.0.0.5:6379''), (''stream'', TStr ''hookbox.events''), (''maxlen'', TInt 100000), (''timeout_ms'', TInt 10000)])])]) of Err _ \<Rightarrow> False
      | Ok config \<Rightarrow>
          (case hc_emitter config of None \<Rightarrow> False | Some emitter \<Rightarrow> 
          (case ec_redis emitter of None \<Rightarrow> False | Some redis \<Rightarrow>
             rdc_url redis = ''redis://10.0.0.5:6379'' \<and> rdc_stream redis = ''hookbox.events''
             \<and> rdc_maxlen redis = Some 100000 \<and> rdc_timeout_ms redis = 10000)))"

definition full_document :: toml where
  "full_document =
     TTab [(''server'', TTab [(''host'', TStr ''127.0.0.1''), (''port'', TInt 9090), (''body_limit'', TInt 2097152)]),
       (''database'', TTab [(''url'', TStr ''postgres://user:pass@db:5432/hookbox''), (''max_connections'', TInt 20)]),
       (''providers'', TTab [(''stripe'', TTab [(''type'', TStr ''hmac-sha256''), (''secret'', TStr ''whsec_test123''), (''header'', TStr ''Stripe-Signature''), (''tolerance_seconds'', TInt 300)]),
         (''github'', TTab [(''secret'', TStr ''gh_secret'')])]),
       (''dedupe'', TTab [(''lru_capacity'', TInt 50000)]), (''admin'', TTab [(''bearer_token'', TStr ''supersecret'')]), (''retry'', TTab [(''interval_seconds'', TInt 15), (''max_attempts'', TInt 3)])]"

definition parse_full_config :: bool where
  "parse_full_config =
     (case de_config (full_document) of Err _ \<Rightarrow> False
      | Ok config \<Rightarrow>
          sc_host (hc_server config) = ''127.0.0.1'' \<and> sc_port (hc_server config) = 9090
          \<and> sc_body_limit (hc_server config) = 2097152
          \<and> dc_url (hc_database config) = ''postgres://user:pass@db:5432/hookbox'' \<and> dc_max_connections (hc_database config) = 20
          \<and> (case map_of (hc_providers config) ''stripe'' of None \<Rightarrow> False | Some stripe \<Rightarrow>
               pc_verifier_type stripe = ''hmac-sha256'' \<and> pc_secret stripe = Some ''whsec_test123''
               \<and> pc_header stripe = Some ''Stripe-Signature'' \<and> pc_tolerance_seconds stripe = Some 300)
          \<and> (case map_of (hc_providers config) ''github'' of None \<Rightarrow> False | Some github \<Rightarrow>
               pc_verifier_type github = ''hmac-sha256'' \<and> pc_secret github = Some ''gh_secret''
               \<and> pc_header github = None \<and> pc_tolerance_seconds github = None)
          \<and> ddc_lru_capacity (hc_dedupe config) = 50000 \<and> ac_bearer_token (hc_admin config) = Some ''supersecret''
          \<and> rc_interval_seconds (hc_retry config) = 15 \<and> rc_max_attempts (hc_retry config) = 3)"

definition all_providers_document :: toml where
  "all_providers_document =
     TTab [(''database'', TTab [(''url'', TStr ''postgres://localhost/hookbox'')]),
       (''providers'', TTab [
         (''my_stripe'', TTab [(''type'', TStr ''stripe''), (''secret'', TStr ''whsec_stripe'')]),
         (''my_adyen'', TTab [(''type'', TStr ''adyen''), (''secret'', TStr ''0123456789abcdef'')]),
         (''my_bvnk'', TTab [(''type'', TStr ''bvnk''), (''secret'', TStr ''bvnk_secret'')]),
         (''my_triplea_fiat'', TTab [(''type'', TStr ''triplea-fiat''),
            (''public_key'', TStr (''-----BEGIN PUBLIC KEY-----'' @ [CHR 0x0A] @ ''MFwwDQYJKoZIhvcNAQEBBQAD'' @ [CHR 0x0A]
               @ ''-----END PUBLIC KEY-----''))]),
         (''my_triplea_crypto'', TTab [(''type'', TStr ''triplea-crypto''), (''secret'', TStr ''notify_secret''),
            (''tolerance_seconds'', TInt 300)]),
         (''my_walapay'', TTab [(''type'', TStr ''walapay''), (''secret'', TStr ''whsec_walapay'')]),
         (''my_checkout'', TTab [(''type'', TStr ''checkout''), (''secret'', TStr ''checkout_secret'')])])]"

definition parse_all_new_provider_types :: bool where
  "parse_all_new_provider_types =
     (case de_config (all_providers_document) of Err _ \<Rightarrow> False
      | Ok config \<Rightarrow>
          (case map_of (hc_providers config) ''my_adyen'' of None \<Rightarrow> False | Some p \<Rightarrow> pc_verifier_type p = ''adyen'' \<and> pc_secret p = Some ''0123456789abcdef'')
          \<and> (case map_of (hc_providers config) ''my_bvnk'' of None \<Rightarrow> False | Some p \<Rightarrow> pc_verifier_type p = ''bvnk'' \<and> pc_secret p = Some ''bvnk_secret'')
          \<and> (case map_of (hc_providers config) ''my_triplea_fiat'' of None \<Rightarrow> False | Some p \<Rightarrow> pc_verifier_type p = ''triplea-fiat'' \<and> pc_public_key p \<noteq> None \<and> pc_secret p = None)
          \<and> (case map_of (hc_providers config) ''my_triplea_crypto'' of None \<Rightarrow> False | Some p \<Rightarrow> pc_verifier_type p = ''triplea-crypto'' \<and> pc_secret p = Some ''notify_secret''
               \<and> pc_tolerance_seconds p = Some 300)
          \<and> (case map_of (hc_providers config) ''my_walapay'' of None \<Rightarrow> False | Some p \<Rightarrow> pc_verifier_type p = ''walapay'' \<and> pc_secret p = Some ''whsec_walapay'')
          \<and> (case map_of (hc_providers config) ''my_checkout'' of None \<Rightarrow> False | Some p \<Rightarrow> pc_verifier_type p = ''checkout'' \<and> pc_secret p = Some ''checkout_secret''))"

text \<open>\<^verbatim>\<open>parse_and_normalize\<close> of a document, and what is in the message of its error.\<close>

definition normalized :: "toml \<Rightarrow> (hookbox_config \<times> string list, config_error) result" where
  "normalized doc = parse_and_normalize (\<lambda>_. map_err (\<lambda>_. ''invalid document'') (de_config doc)) []"

definition config_error_to_string :: "config_error \<Rightarrow> string" where
  "config_error_to_string e =
     (case e of CE_Validation msg \<Rightarrow> ''invalid configuration: '' @ msg | CE_Parse msg \<Rightarrow> ''failed to parse TOML: '' @ msg)"

definition err_mentions :: "('a, config_error) result \<Rightarrow> string \<Rightarrow> bool" where
  "err_mentions r word = (case r of Ok _ \<Rightarrow> False | Err e \<Rightarrow> contains word (config_error_to_string e))"

definition normalize_both_emitter_and_emitters_is_error :: bool where
  "normalize_both_emitter_and_emitters_is_error =
     (err_mentions (normalized (TTab [(''database'', TTab [(''url'', TStr ''postgres://localhost/test'')]), (''emitter'', TTab [(''type'', TStr ''channel'')]), (''emitters'', TArr [TTab [(''name'', TStr ''foo''), (''type'', TStr ''channel'')]])])) ''both'')"

definition normalize_neither_emitter_nor_emitters_is_error :: bool where
  "normalize_neither_emitter_nor_emitters_is_error =
     (err_mentions (normalized (TTab [(''database'', TTab [(''url'', TStr ''postgres://localhost/test'')])])) ''no emitters'')"

definition normalize_legacy_emitter_becomes_default_entry :: bool where
  "normalize_legacy_emitter_becomes_default_entry =
     (case normalized (TTab [(''database'', TTab [(''url'', TStr ''postgres://localhost/test'')]), (''emitter'', TTab [(''type'', TStr ''channel'')])]) of Err _ \<Rightarrow> False
      | Ok (config, warnings) \<Rightarrow>
          map en_name (hc_emitters config) = [''default''] \<and> list_ex (contains ''deprecated'') warnings)"

definition normalize_emitters_array_passes_through :: bool where
  "normalize_emitters_array_passes_through =
     (case normalized (TTab [(''database'', TTab [(''url'', TStr ''postgres://localhost/test'')]), (''emitters'', TArr [TTab [(''name'', TStr ''kafka-billing''), (''type'', TStr ''kafka''), (''kafka'', TTab [(''brokers'', TStr ''localhost:9092''), (''topic'', TStr ''events''), (''client_id'', TStr ''hookbox''), (''acks'', TStr ''all''), (''timeout_ms'', TInt 5000)])]])]) of Err _ \<Rightarrow> False
      | Ok (config, _) \<Rightarrow> map en_name (hc_emitters config) = [''kafka-billing''])"

definition validate_duplicate_emitter_names_is_error :: bool where
  "validate_duplicate_emitter_names_is_error =
     (err_mentions (validate_emitter_entries
        [emitter_entry_default\<lparr>en_name := ''a'', en_emitter_type := ''channel''\<rparr>,
         emitter_entry_default\<lparr>en_name := ''a'', en_emitter_type := ''channel''\<rparr>]) ''duplicate'')"

definition validate_name_must_match_regex :: bool where
  "validate_name_must_match_regex =
     (\<not> is_ok (validate_emitter_entries [emitter_entry_default\<lparr>en_name := ''has spaces!'', en_emitter_type := ''channel''\<rparr>]))"

definition validate_concurrency_zero_is_error :: bool where
  "validate_concurrency_zero_is_error =
     (err_mentions (validate_emitter_entries [emitter_entry_default\<lparr>en_name := ''a'', en_emitter_type := ''channel'', en_concurrency := 0\<rparr>]) ''concurrency'')"

definition validate_poll_interval_zero_is_error :: bool where
  "validate_poll_interval_zero_is_error =
     (err_mentions (validate_emitter_entries
        [emitter_entry_default\<lparr>en_name := ''a'', en_emitter_type := ''channel'', en_poll_interval_seconds := 0\<rparr>]) ''poll_interval_seconds'')"

definition emitter_entry_rejects_unknown_fields :: bool where
  "emitter_entry_rejects_unknown_fields =
     (de_config (TTab [(''emitters'', TArr [TTab [(''name'', TStr ''a''), (''type'', TStr ''channel''), (''concurency'', TInt 4)]])])
      = Err (DE_UnknownField ''concurency''))"

definition retry_policy_rejects_unknown_fields :: bool where
  "retry_policy_rejects_unknown_fields =
     (de_config (TTab [(''emitters'', TArr [TTab [(''name'', TStr ''a''), (''type'', TStr ''channel''), (''retry'', TTab [(''jittr'', TFloat (f64_round (1 / 10)))])]])])
      = Err (DE_UnknownField ''jittr''))"

definition validate_jitter_outside_range_is_error :: bool where
  "validate_jitter_outside_range_is_error =
     (\<not> is_ok (validate_emitter_entries [emitter_entry_default\<lparr>en_name := ''a'', en_emitter_type := ''channel'',
        en_retry := retry_policy_config_default\<lparr>rpc_jitter := f64_round (3 / 2)\<rparr>\<rparr>]))"

definition validate_unknown_emitter_type_is_error :: bool where
  "validate_unknown_emitter_type_is_error =
     (case validate_emitter_entries [emitter_entry_default\<lparr>en_name := ''a'', en_emitter_type := ''mystery''\<rparr>] of
        Err (CE_Validation msg) \<Rightarrow> contains ''unknown type'' msg \<and> contains ''mystery'' msg
      | _ \<Rightarrow> False)"

definition validate_kafka_without_backend_section_is_error :: bool where
  "validate_kafka_without_backend_section_is_error =
     (case validate_emitter_entries [emitter_entry_default\<lparr>en_name := ''k'', en_emitter_type := ''kafka''\<rparr>] of
        Err (CE_Validation msg) \<Rightarrow> contains ''kafka'' msg \<and> (contains ''section'' msg \<or> contains ''requires'' msg)
      | _ \<Rightarrow> False)"

definition validate_nats_without_backend_section_is_error :: bool where
  "validate_nats_without_backend_section_is_error =
     (\<not> is_ok (validate_emitter_entries [emitter_entry_default\<lparr>en_name := ''n'', en_emitter_type := ''nats''\<rparr>]))"

definition validate_sqs_without_backend_section_is_error :: bool where
  "validate_sqs_without_backend_section_is_error =
     (\<not> is_ok (validate_emitter_entries [emitter_entry_default\<lparr>en_name := ''s'', en_emitter_type := ''sqs''\<rparr>]))"

definition validate_redis_without_backend_section_is_error :: bool where
  "validate_redis_without_backend_section_is_error =
     (\<not> is_ok (validate_emitter_entries [emitter_entry_default\<lparr>en_name := ''r'', en_emitter_type := ''redis''\<rparr>]))"

definition validate_channel_without_backend_section_is_ok :: bool where
  "validate_channel_without_backend_section_is_ok =
     (is_ok (validate_emitter_entries [emitter_entry_default\<lparr>en_name := ''c'', en_emitter_type := ''channel''\<rparr>]))"

definition normalize_legacy_emitter_preserves_global_retry :: bool where
  "normalize_legacy_emitter_preserves_global_retry =
     (case normalized (TTab [(''database'', TTab [(''url'', TStr ''postgres://localhost/test'')]), (''retry'', TTab [(''interval_seconds'', TInt 7), (''max_attempts'', TInt 42)]), (''emitter'', TTab [(''type'', TStr ''channel'')])]) of Err _ \<Rightarrow> False
      | Ok (config, _) \<Rightarrow>
          (case hc_emitters config of [entry] \<Rightarrow> rpc_max_attempts (en_retry entry) = 42 \<and> en_poll_interval_seconds entry = 7
           | _ \<Rightarrow> False))"

definition partial_retry_table_uses_defaults_for_missing_fields :: bool where
  "partial_retry_table_uses_defaults_for_missing_fields =
     (case normalized (TTab [(''database'', TTab [(''url'', TStr ''postgres://localhost/test'')]), (''emitters'', TArr [TTab [(''name'', TStr ''ch''), (''type'', TStr ''channel''), (''retry'', TTab [(''max_attempts'', TInt 9)])]])]) of Err _ \<Rightarrow> False
      | Ok (config, _) \<Rightarrow>
          (case hc_emitters config of [] \<Rightarrow> False
           | entry # _ \<Rightarrow> rpc_max_attempts (en_retry entry) = 9 \<and> rpc_initial_backoff_seconds (en_retry entry) = 30
               \<and> rpc_backoff_multiplier (en_retry entry) = Fin 2))"


section \<open>They pass\<close>

lemma contains_Nil: "contains pat [] = (pat = [])"
  by (auto simp: contains_def)

lemma contains_Cons: "contains pat (c # s) = (take (length pat) (c # s) = pat \<or> contains pat s)"
proof -
  have "{0..<Suc (length (c # s))} = insert 0 (Suc ` {0..<Suc (length s)})"
    by (auto simp: image_iff less_Suc_eq_0_disj)
  then show ?thesis by (simp add: contains_def list_ex_iff image_Suc_atLeastLessThan[symmetric] del: upt_Suc image_Suc_atLeastLessThan)
qed

lemmas reads = de_config_def de_server_def de_database_def de_provider_def de_dedupe_def de_admin_def de_retry_def
  de_emitter_config_def de_kafka_def de_nats_def de_sqs_def de_redis_def de_emitter_entry_def de_retry_policy_def
  de_simps Let_def

lemmas config_defaults = server_config_default_def dedupe_config_default_def retry_config_default_def default_host_def default_port_def
  default_body_limit_def default_max_connections_def default_lru_capacity_def default_retry_interval_def
  default_max_attempts_def default_provider_type_def default_emitter_type_def default_kafka_client_id_def
  default_kafka_acks_def default_kafka_timeout_def default_redis_timeout_ms_def emitter_entry_default_def
  retry_policy_config_default_def default_poll_interval_def default_concurrency_def

lemmas validates = normalized_def parse_and_normalize_def normalize_def validate_emitter_entries_def validate_entry_def
  entry_msg_def require_section_def is_valid_emitter_name_def from_legacy_def

lemmas mentions = err_mentions_def config_error_to_string_def contains_Nil contains_Cons is_ascii_alphanumeric_def
  is_digit_def byte_def chars_count_def cont_byte_def debug_str_def debug_char_def

lemma default_jitter_ok: "\<not> f64_lt (f64_round (1 / 5)) (Fin 0)" "\<not> f64_lt (Fin 1) (f64_round (1 / 5))"
proof -
  have "jitter_ok (f64_round (1 / 5))" by code_simp
  then show "\<not> f64_lt (f64_round (1 / 5)) (Fin 0)" "\<not> f64_lt (Fin 1) (f64_round (1 / 5))"
    by (simp_all add: jitter_check_iff[symmetric])
qed

lemma wide_jitter: "f64_lt (Fin 1) (f64_round (3 / 2))"
  by code_simp

lemma two_is_exact: "f64_round 2 = Fin 2"
  using f64_round_nat[of 2] by simp

lemma parse_minimal_config_passes: "parse_minimal_config"
  by (simp add: parse_minimal_config_def reads config_defaults )

lemma parse_emitter_default_passes: "parse_emitter_default"
  by (simp add: parse_emitter_default_def reads config_defaults )

lemma parse_emitter_kafka_passes: "parse_emitter_kafka"
  by (simp add: parse_emitter_kafka_def reads config_defaults )

lemma parse_emitter_kafka_full_passes: "parse_emitter_kafka_full"
  by (simp add: parse_emitter_kafka_full_def reads config_defaults )

lemma parse_emitter_nats_passes: "parse_emitter_nats"
  by (simp add: parse_emitter_nats_def reads config_defaults )

lemma parse_emitter_sqs_passes: "parse_emitter_sqs"
  by (simp add: parse_emitter_sqs_def reads config_defaults )

lemma parse_emitter_sqs_full_passes: "parse_emitter_sqs_full"
  by (simp add: parse_emitter_sqs_full_def reads config_defaults )

lemma parse_emitter_redis_passes: "parse_emitter_redis"
  by (simp add: parse_emitter_redis_def reads config_defaults )

lemma parse_emitter_redis_full_passes: "parse_emitter_redis_full"
  by (simp add: parse_emitter_redis_full_def reads config_defaults )

lemma parse_full_config_passes: "parse_full_config"
  by (simp add: parse_full_config_def reads config_defaults full_document_def)

lemma parse_all_new_provider_types_passes: "parse_all_new_provider_types"
  by (simp add: parse_all_new_provider_types_def reads config_defaults all_providers_document_def)

lemma normalize_both_emitter_and_emitters_is_error_passes: "normalize_both_emitter_and_emitters_is_error"
  by (simp add: normalize_both_emitter_and_emitters_is_error_def reads config_defaults validates mentions default_jitter_ok wide_jitter two_is_exact)

lemma normalize_neither_emitter_nor_emitters_is_error_passes: "normalize_neither_emitter_nor_emitters_is_error"
  by (simp add: normalize_neither_emitter_nor_emitters_is_error_def reads config_defaults validates mentions default_jitter_ok wide_jitter two_is_exact)

lemma normalize_legacy_emitter_becomes_default_entry_passes: "normalize_legacy_emitter_becomes_default_entry"
  by (simp add: normalize_legacy_emitter_becomes_default_entry_def reads config_defaults validates mentions default_jitter_ok wide_jitter two_is_exact)

lemma normalize_emitters_array_passes_through_passes: "normalize_emitters_array_passes_through"
  by (simp add: normalize_emitters_array_passes_through_def reads config_defaults validates mentions default_jitter_ok wide_jitter two_is_exact)

lemma validate_duplicate_emitter_names_is_error_passes: "validate_duplicate_emitter_names_is_error"
  by (simp add: validate_duplicate_emitter_names_is_error_def reads config_defaults validates mentions default_jitter_ok wide_jitter two_is_exact)

lemma validate_name_must_match_regex_passes: "validate_name_must_match_regex"
  by (simp add: validate_name_must_match_regex_def reads config_defaults validates mentions default_jitter_ok wide_jitter two_is_exact)

lemma validate_concurrency_zero_is_error_passes: "validate_concurrency_zero_is_error"
  by (simp add: validate_concurrency_zero_is_error_def reads config_defaults validates mentions default_jitter_ok wide_jitter two_is_exact)

lemma validate_poll_interval_zero_is_error_passes: "validate_poll_interval_zero_is_error"
  by (simp add: validate_poll_interval_zero_is_error_def reads config_defaults validates mentions default_jitter_ok wide_jitter two_is_exact)

lemma emitter_entry_rejects_unknown_fields_passes: "emitter_entry_rejects_unknown_fields"
  by (simp add: emitter_entry_rejects_unknown_fields_def reads config_defaults )

lemma retry_policy_rejects_unknown_fields_passes: "retry_policy_rejects_unknown_fields"
  by (simp add: retry_policy_rejects_unknown_fields_def reads config_defaults )

lemma validate_jitter_outside_range_is_error_passes: "validate_jitter_outside_range_is_error"
  by (simp add: validate_jitter_outside_range_is_error_def reads config_defaults validates mentions default_jitter_ok wide_jitter two_is_exact)

lemma validate_unknown_emitter_type_is_error_passes: "validate_unknown_emitter_type_is_error"
  by (simp add: validate_unknown_emitter_type_is_error_def reads config_defaults validates mentions default_jitter_ok wide_jitter two_is_exact)

lemma validate_kafka_without_backend_section_is_error_passes: "validate_kafka_without_backend_section_is_error"
  by (simp add: validate_kafka_without_backend_section_is_error_def reads config_defaults validates mentions default_jitter_ok wide_jitter two_is_exact)

lemma validate_nats_without_backend_section_is_error_passes: "validate_nats_without_backend_section_is_error"
  by (simp add: validate_nats_without_backend_section_is_error_def reads config_defaults validates mentions default_jitter_ok wide_jitter two_is_exact)

lemma validate_sqs_without_backend_section_is_error_passes: "validate_sqs_without_backend_section_is_error"
  by (simp add: validate_sqs_without_backend_section_is_error_def reads config_defaults validates mentions default_jitter_ok wide_jitter two_is_exact)

lemma validate_redis_without_backend_section_is_error_passes: "validate_redis_without_backend_section_is_error"
  by (simp add: validate_redis_without_backend_section_is_error_def reads config_defaults validates mentions default_jitter_ok wide_jitter two_is_exact)

lemma validate_channel_without_backend_section_is_ok_passes: "validate_channel_without_backend_section_is_ok"
  by (simp add: validate_channel_without_backend_section_is_ok_def reads config_defaults validates mentions default_jitter_ok wide_jitter two_is_exact)

lemma normalize_legacy_emitter_preserves_global_retry_passes: "normalize_legacy_emitter_preserves_global_retry"
  by (simp add: normalize_legacy_emitter_preserves_global_retry_def reads config_defaults validates mentions default_jitter_ok wide_jitter two_is_exact)

lemma partial_retry_table_uses_defaults_for_missing_fields_passes: "partial_retry_table_uses_defaults_for_missing_fields"
  by (simp add: partial_retry_table_uses_defaults_for_missing_fields_def reads config_defaults validates mentions default_jitter_ok wide_jitter two_is_exact)

text \<open>The documented behaviour of the decoders at the literals of \<^verbatim>\<open>bootstrap.rs\<close>.\<close>

definition adyen_test_key :: string where
  "adyen_test_key = ''000102030405060708090a0b0c0d0e0f101112131415161718191a1b1c1d1e1f''"

definition literals_decode :: "externals \<Rightarrow> bool" where
  "literals_decode x \<longleftrightarrow>
     x_hex_decode x adyen_test_key \<noteq> None \<and> x_hex_decode x ''not-hex-at-all'' = None
     \<and> x_rsa_from_pem x ''this is not a PEM'' = None
     \<and> x_b64_decode x (x_b64_encode x (replicate 32 (CHR 0x00))) = Some (replicate 32 (CHR 0x00))"

lemmas builds = chain_mentions_def expect_build_error_def built_names_def build_provider_verifiers_def
  provider_with_secret_def bare_provider_def build_one_verifier_def non_empty_secret_def non_empty_def with_context_def
  adyen_new_def walapay_new_def strip_prefix_def triplea_fiat_new_def triplea_fiat_verify_def quoted_def generic_verifier_def
  stripe_new_def stripe_with_tolerance_def triplea_crypto_new_def triplea_crypto_with_tolerance_def
  walapay_with_tolerance_def generic_hmac_object_def bvnk_object_def adyen_object_def stripe_object_def
  triplea_crypto_object_def walapay_object_def

lemma stripe_verifier_registers_with_tolerance_passes: "stripe_verifier_registers_with_tolerance x"
  by (auto simp: stripe_verifier_registers_with_tolerance_def builds contains_Nil contains_Cons Let_def)

lemma adyen_verifier_registers_with_hex_key_passes: "literals_decode x \<Longrightarrow> adyen_verifier_registers_with_hex_key x"
  by (auto simp: adyen_verifier_registers_with_hex_key_def builds contains_Nil contains_Cons Let_def literals_decode_def adyen_test_key_def)

lemma bvnk_verifier_registers_passes: "bvnk_verifier_registers x"
  by (auto simp: bvnk_verifier_registers_def builds contains_Nil contains_Cons Let_def)

lemma triplea_crypto_verifier_registers_with_tolerance_passes: "triplea_crypto_verifier_registers_with_tolerance x"
  by (auto simp: triplea_crypto_verifier_registers_with_tolerance_def builds contains_Nil contains_Cons Let_def)

lemma checkout_verifier_uses_default_header_passes: "checkout_verifier_uses_default_header x"
  by (auto simp: checkout_verifier_uses_default_header_def builds contains_Nil contains_Cons Let_def)

lemma checkout_verifier_honors_override_header_passes: "checkout_verifier_honors_override_header x"
  by (auto simp: checkout_verifier_honors_override_header_def builds contains_Nil contains_Cons Let_def)

lemma hmac_sha256_registers_with_default_header_passes: "hmac_sha256_registers_with_default_header x"
  by (auto simp: hmac_sha256_registers_with_default_header_def builds contains_Nil contains_Cons Let_def)

lemma unknown_verifier_type_falls_back_to_generic_hmac_passes: "unknown_verifier_type_falls_back_to_generic_hmac x"
  by (auto simp: unknown_verifier_type_falls_back_to_generic_hmac_def builds contains_Nil contains_Cons Let_def)

lemma stripe_missing_secret_errors_passes: "stripe_missing_secret_errors x"
  by (auto simp: stripe_missing_secret_errors_def builds contains_Nil contains_Cons Let_def)

lemma stripe_empty_secret_errors_passes: "stripe_empty_secret_errors x"
  by (auto simp: stripe_empty_secret_errors_def builds contains_Nil contains_Cons Let_def)

lemma adyen_invalid_hex_key_errors_passes: "literals_decode x \<Longrightarrow> adyen_invalid_hex_key_errors x"
  by (auto simp: adyen_invalid_hex_key_errors_def builds contains_Nil contains_Cons Let_def literals_decode_def adyen_test_key_def)

lemma adyen_missing_secret_errors_passes: "adyen_missing_secret_errors x"
  by (auto simp: adyen_missing_secret_errors_def builds contains_Nil contains_Cons Let_def)

lemma bvnk_missing_secret_errors_passes: "bvnk_missing_secret_errors x"
  by (auto simp: bvnk_missing_secret_errors_def builds contains_Nil contains_Cons Let_def)

lemma triplea_fiat_missing_public_key_errors_passes: "triplea_fiat_missing_public_key_errors x"
  by (auto simp: triplea_fiat_missing_public_key_errors_def builds contains_Nil contains_Cons Let_def)

lemma triplea_fiat_invalid_pem_errors_passes: "literals_decode x \<Longrightarrow> triplea_fiat_invalid_pem_errors x"
  by (auto simp: triplea_fiat_invalid_pem_errors_def builds contains_Nil contains_Cons Let_def literals_decode_def adyen_test_key_def)

lemma triplea_crypto_missing_secret_errors_passes: "triplea_crypto_missing_secret_errors x"
  by (auto simp: triplea_crypto_missing_secret_errors_def builds contains_Nil contains_Cons Let_def)

lemma walapay_missing_secret_errors_passes: "walapay_missing_secret_errors x"
  by (auto simp: walapay_missing_secret_errors_def builds contains_Nil contains_Cons Let_def)

lemma walapay_invalid_secret_format_errors_passes: "walapay_invalid_secret_format_errors x"
  by (auto simp: walapay_invalid_secret_format_errors_def builds contains_Nil contains_Cons Let_def)

lemma walapay_valid_secret_with_tolerance_registers_passes: "literals_decode x \<Longrightarrow> walapay_valid_secret_with_tolerance_registers x"
  by (auto simp: walapay_valid_secret_with_tolerance_registers_def builds contains_Nil contains_Cons Let_def literals_decode_def adyen_test_key_def)

lemma checkout_missing_secret_errors_passes: "checkout_missing_secret_errors x"
  by (auto simp: checkout_missing_secret_errors_def builds contains_Nil contains_Cons Let_def)

lemma hmac_missing_secret_errors_passes: "hmac_missing_secret_errors x"
  by (auto simp: hmac_missing_secret_errors_def builds contains_Nil contains_Cons Let_def)

lemma multiple_providers_all_register_passes: "multiple_providers_all_register x"
  by (auto simp: multiple_providers_all_register_def builds contains_Nil contains_Cons Let_def)

lemma empty_providers_map_returns_empty_vec_passes: "empty_providers_map_returns_empty_vec x"
  by (auto simp: empty_providers_map_returns_empty_vec_def builds contains_Nil contains_Cons Let_def)

lemma validate_retry_config_accepts_positive_values_passes: "validate_retry_config_accepts_positive_values"
  by (simp add: validate_retry_config_accepts_positive_values_def validate_retry_config_def contains_Nil contains_Cons)

lemma validate_retry_config_rejects_zero_interval_passes: "validate_retry_config_rejects_zero_interval"
  by (simp add: validate_retry_config_rejects_zero_interval_def validate_retry_config_def contains_Nil contains_Cons)

lemma validate_retry_config_rejects_zero_max_attempts_passes: "validate_retry_config_rejects_zero_max_attempts"
  by (simp add: validate_retry_config_rejects_zero_max_attempts_def validate_retry_config_def contains_Nil contains_Cons)

text \<open>All of them.\<close>

definition config_unit_tests :: "bool list" where
  "config_unit_tests =
     [parse_minimal_config, parse_emitter_default, parse_emitter_kafka, parse_emitter_kafka_full,
      parse_emitter_nats, parse_emitter_sqs, parse_emitter_sqs_full, parse_emitter_redis,
      parse_emitter_redis_full, parse_full_config, parse_all_new_provider_types,
      normalize_both_emitter_and_emitters_is_error, normalize_neither_emitter_nor_emitters_is_error,
      normalize_legacy_emitter_becomes_default_entry, normalize_emitters_array_passes_through,
      validate_duplicate_emitter_names_is_error, validate_name_must_match_regex,
      validate_concurrency_zero_is_error, validate_poll_interval_zero_is_error,
      emitter_entry_rejects_unknown_fields, retry_policy_rejects_unknown_fields,
      validate_jitter_outside_range_is_error, validate_unknown_emitter_type_is_error,
      validate_kafka_without_backend_section_is_error, validate_nats_without_backend_section_is_error,
      validate_sqs_without_backend_section_is_error, validate_redis_without_backend_section_is_error,
      validate_channel_without_backend_section_is_ok, normalize_legacy_emitter_preserves_global_retry,
      partial_retry_table_uses_defaults_for_missing_fields]"

definition bootstrap_unit_tests :: "externals \<Rightarrow> bool list" where
  "bootstrap_unit_tests x =
     [validate_retry_config_accepts_positive_values, validate_retry_config_rejects_zero_interval,
      validate_retry_config_rejects_zero_max_attempts, stripe_verifier_registers_with_tolerance x,
      adyen_verifier_registers_with_hex_key x, bvnk_verifier_registers x,
      triplea_crypto_verifier_registers_with_tolerance x, checkout_verifier_uses_default_header x,
      checkout_verifier_honors_override_header x, hmac_sha256_registers_with_default_header x,
      unknown_verifier_type_falls_back_to_generic_hmac x, stripe_missing_secret_errors x,
      stripe_empty_secret_errors x, adyen_invalid_hex_key_errors x, adyen_missing_secret_errors x,
      bvnk_missing_secret_errors x, triplea_fiat_missing_public_key_errors x, triplea_fiat_invalid_pem_errors x,
      triplea_crypto_missing_secret_errors x, walapay_missing_secret_errors x,
      walapay_invalid_secret_format_errors x, walapay_valid_secret_with_tolerance_registers x,
      checkout_missing_secret_errors x, hmac_missing_secret_errors x, multiple_providers_all_register x,
      empty_providers_map_returns_empty_vec x]"

lemma config_unit_tests_pass: "list_all id config_unit_tests"
  by (simp add: config_unit_tests_def
     parse_minimal_config_passes parse_emitter_default_passes parse_emitter_kafka_passes
      parse_emitter_kafka_full_passes parse_emitter_nats_passes parse_emitter_sqs_passes
      parse_emitter_sqs_full_passes parse_emitter_redis_passes parse_emitter_redis_full_passes
      parse_full_config_passes parse_all_new_provider_types_passes
      normalize_both_emitter_and_emitters_is_error_passes
      normalize_neither_emitter_nor_emitters_is_error_passes
      normalize_legacy_emitter_becomes_default_entry_passes normalize_emitters_array_passes_through_passes
      validate_duplicate_emitter_names_is_error_passes validate_name_must_match_regex_passes
      validate_concurrency_zero_is_error_passes validate_poll_interval_zero_is_error_passes
      emitter_entry_rejects_unknown_fields_passes retry_policy_rejects_unknown_fields_passes
      validate_jitter_outside_range_is_error_passes validate_unknown_emitter_type_is_error_passes
      validate_kafka_without_backend_section_is_error_passes
      validate_nats_without_backend_section_is_error_passes
      validate_sqs_without_backend_section_is_error_passes
      validate_redis_without_backend_section_is_error_passes
      validate_channel_without_backend_section_is_ok_passes
      normalize_legacy_emitter_preserves_global_retry_passes
      partial_retry_table_uses_defaults_for_missing_fields_passes)

lemma bootstrap_unit_tests_pass: "literals_decode x \<Longrightarrow> list_all id (bootstrap_unit_tests x)"
  by (simp add: bootstrap_unit_tests_def
     validate_retry_config_accepts_positive_values_passes validate_retry_config_rejects_zero_interval_passes
      validate_retry_config_rejects_zero_max_attempts_passes stripe_verifier_registers_with_tolerance_passes
      adyen_verifier_registers_with_hex_key_passes bvnk_verifier_registers_passes
      triplea_crypto_verifier_registers_with_tolerance_passes checkout_verifier_uses_default_header_passes
      checkout_verifier_honors_override_header_passes hmac_sha256_registers_with_default_header_passes
      unknown_verifier_type_falls_back_to_generic_hmac_passes stripe_missing_secret_errors_passes
      stripe_empty_secret_errors_passes adyen_invalid_hex_key_errors_passes
      adyen_missing_secret_errors_passes bvnk_missing_secret_errors_passes
      triplea_fiat_missing_public_key_errors_passes triplea_fiat_invalid_pem_errors_passes
      triplea_crypto_missing_secret_errors_passes walapay_missing_secret_errors_passes
      walapay_invalid_secret_format_errors_passes walapay_valid_secret_with_tolerance_registers_passes
      checkout_missing_secret_errors_passes hmac_missing_secret_errors_passes
      multiple_providers_all_register_passes empty_providers_map_returns_empty_vec_passes)

text \<open>Decoders that know just these literals.\<close>

definition ext_literals :: externals where
  "ext_literals = ext0\<lparr>x_hex_decode := (\<lambda>s. if s = adyen_test_key then Some (replicate 32 (CHR 0x01)) else None),
     x_rsa_from_pem := (\<lambda>_. None), x_b64_encode := id, x_b64_decode := Some\<rparr>"

lemma bootstrap_unit_tests_pass_example: "list_all id (bootstrap_unit_tests ext_literals)"
  by (rule bootstrap_unit_tests_pass) (simp add: literals_decode_def ext_literals_def adyen_test_key_def)

end
