(* ===== verification/Server_Tests.thy ===== *)
theory Server_Tests
  imports Config_Tests
begin

text \<open>
  More unit tests as predicates: the aggregate health of \<^verbatim>\<open>routes/health.rs\<close>, the emitter factory of
  \<^verbatim>\<open>emitter_factory.rs\<close> (both \<^verbatim>\<open>crates/hookbox-server\<close>), the in-process emitters and the delivery states of
  \<^verbatim>\<open>crates/hookbox/src\<close> (\<^verbatim>\<open>emitter.rs\<close>, \<^verbatim>\<open>state.rs\<close>). The tests of the factory depend on the clients of the brokers;
  they pass for those that answer as the comments of the tests say. Shown: all of them pass.
\<close>

section \<open>routes/health.rs\<close>

definition healthy_snapshot :: emitter_health_snapshot where
  "healthy_snapshot = \<lparr>es_status = Healthy, es_last_success_at = None, es_last_failure_at = None,
     es_consecutive_failures = 0, es_dlq_depth = 0, es_pending_count = 0\<rparr>"

definition degraded_snapshot :: emitter_health_snapshot where
  "degraded_snapshot = \<lparr>es_status = Degraded, es_last_success_at = None, es_last_failure_at = None,
     es_consecutive_failures = 1, es_dlq_depth = 0, es_pending_count = 0\<rparr>"

definition unhealthy_snapshot :: emitter_health_snapshot where
  "unhealthy_snapshot = \<lparr>es_status = Unhealthy, es_last_success_at = None, es_last_failure_at = None,
     es_consecutive_failures = 10, es_dlq_depth = 0, es_pending_count = 0\<rparr>"

definition all_healthy_yields_healthy :: bool where
  "all_healthy_yields_healthy =
     (compute_overall_status Healthy [(''a'', healthy_snapshot), (''b'', healthy_snapshot)] = Healthy)"

definition one_degraded_yields_degraded :: bool where
  "one_degraded_yields_degraded =
     (compute_overall_status Healthy [(''a'', healthy_snapshot), (''b'', degraded_snapshot)] = Degraded)"

definition one_unhealthy_yields_unhealthy :: bool where
  "one_unhealthy_yields_unhealthy =
     (compute_overall_status Healthy [(''a'', healthy_snapshot), (''b'', unhealthy_snapshot)] = Unhealthy)"

definition db_unhealthy_yields_unhealthy_regardless_of_emitters :: bool where
  "db_unhealthy_yields_unhealthy_regardless_of_emitters =
     (compute_overall_status Unhealthy [(''a'', healthy_snapshot)] = Unhealthy)"

definition synthesize_inserts_unhealthy_for_missing_emitter :: bool where
  "synthesize_inserts_unhealthy_for_missing_emitter =
     (let emitters = synthesize_missing_emitters [''kafka'', ''sqs'', ''nats''] [(''kafka'', healthy_snapshot)] in
      length emitters = 3
      \<and> map_option es_status (map_of emitters ''kafka'') = Some Healthy
      \<and> map_option es_status (map_of emitters ''sqs'') = Some Unhealthy
      \<and> map_option es_status (map_of emitters ''nats'') = Some Unhealthy
      \<and> compute_overall_status Healthy emitters = Unhealthy)"

definition synthesize_is_idempotent_when_all_present :: bool where
  "synthesize_is_idempotent_when_all_present =
     (let emitters = synthesize_missing_emitters [''a'', ''b''] [(''a'', healthy_snapshot), (''b'', degraded_snapshot)] in
      length emitters = 2
      \<and> map_option es_status (map_of emitters ''a'') = Some Healthy
      \<and> map_option es_status (map_of emitters ''b'') = Some Degraded)"

definition degraded_and_unhealthy_yields_unhealthy :: bool where
  "degraded_and_unhealthy_yields_unhealthy =
     (compute_overall_status Healthy [(''a'', degraded_snapshot), (''b'', unhealthy_snapshot)] = Unhealthy)"

lemma health_unit_tests_pass:
  "all_healthy_yields_healthy" "one_degraded_yields_degraded" "one_unhealthy_yields_unhealthy"
  "db_unhealthy_yields_unhealthy_regardless_of_emitters" "synthesize_inserts_unhealthy_for_missing_emitter"
  "synthesize_is_idempotent_when_all_present" "degraded_and_unhealthy_yields_unhealthy"
  by code_simp+

section \<open>emitter_factory.rs\<close>

definition cfg_with_type :: "string \<Rightarrow> emitter_config" where
  "cfg_with_type t = emitter_config_default\<lparr>ec_emitter_type := t\<rparr>"

text \<open>\<^verbatim>\<open>to_string\<close> of an \<^verbatim>\<open>anyhow\<close> error is its outermost message.\<close>

definition factory_error :: "brokers \<Rightarrow> emitter_config \<Rightarrow> string option" where
  "factory_error bk cfg = (case build_emitter bk cfg of Ok _ \<Rightarrow> None | Err [] \<Rightarrow> Some [] | Err (msg # _) \<Rightarrow> Some msg)"

definition factory_mentions :: "brokers \<Rightarrow> emitter_config \<Rightarrow> string \<Rightarrow> bool" where
  "factory_mentions bk cfg word = (case factory_error bk cfg of None \<Rightarrow> False | Some msg \<Rightarrow> contains word msg)"

definition builds_ready :: "brokers \<Rightarrow> emitter_config \<Rightarrow> bool" where
  "builds_ready bk cfg = (case build_emitter bk cfg of Ok (BE_Ready _) \<Rightarrow> True | _ \<Rightarrow> False)"

definition unknown_type_returns_error :: "brokers \<Rightarrow> bool" where
  "unknown_type_returns_error bk =
     (factory_mentions bk (cfg_with_type ''bogus'') ''unknown emitter type''
      \<and> factory_mentions bk (cfg_with_type ''bogus'') ''bogus'')"

definition kafka_missing_section_returns_error :: "brokers \<Rightarrow> bool" where
  "kafka_missing_section_returns_error bk = factory_mentions bk (cfg_with_type ''kafka'') ''[emitter.kafka]''"

definition nats_missing_section_returns_error :: "brokers \<Rightarrow> bool" where
  "nats_missing_section_returns_error bk = factory_mentions bk (cfg_with_type ''nats'') ''[emitter.nats]''"

definition sqs_missing_section_returns_error :: "brokers \<Rightarrow> bool" where
  "sqs_missing_section_returns_error bk = factory_mentions bk (cfg_with_type ''sqs'') ''[emitter.sqs]''"

definition redis_missing_section_returns_error :: "brokers \<Rightarrow> bool" where
  "redis_missing_section_returns_error bk = factory_mentions bk (cfg_with_type ''redis'') ''[emitter.redis]''"

definition kafka_test_section :: kafka_emitter_config where
  "kafka_test_section = \<lparr>kc_brokers = ''localhost:9092'', kc_topic = ''coverage-test'', kc_client_id = ''hookbox-test'',
     kc_acks = ''all'', kc_timeout_ms = 1000\<rparr>"

definition kafka_with_section_builds_ready_variant :: "brokers \<Rightarrow> bool" where
  "kafka_with_section_builds_ready_variant bk =
     builds_ready bk ((cfg_with_type ''kafka'')\<lparr>ec_kafka := Some kafka_test_section\<rparr>)"

definition nats_with_section_fails_on_unreachable_broker :: "brokers \<Rightarrow> bool" where
  "nats_with_section_fails_on_unreachable_broker bk =
     factory_mentions bk ((cfg_with_type ''nats'')
       \<lparr>ec_nats := Some \<lparr>nc_url = ''nats://127.0.0.1:1'', nc_subject = ''coverage-test''\<rparr>\<rparr>) ''failed to create NATS emitter''"

definition sqs_with_section_builds_ready_variant :: "brokers \<Rightarrow> bool" where
  "sqs_with_section_builds_ready_variant bk =
     builds_ready bk ((cfg_with_type ''sqs'')
       \<lparr>ec_sqs := Some \<lparr>qc_queue_url = ''http://localhost:4566/000000000000/coverage-test'', qc_region = Some ''us-east-1'',
                        qc_fifo = False, qc_endpoint_url = Some ''http://localhost:4566''\<rparr>\<rparr>)"

definition redis_with_section_fails_on_unreachable_server :: "brokers \<Rightarrow> bool" where
  "redis_with_section_fails_on_unreachable_server bk =
     factory_mentions bk ((cfg_with_type ''redis'')
       \<lparr>ec_redis := Some \<lparr>rdc_url = ''redis://127.0.0.1:1'', rdc_stream = ''coverage-test'', rdc_maxlen = None,
                          rdc_timeout_ms = 200\<rparr>\<rparr>) ''failed to create Redis emitter''"

definition channel_test_event :: "uuid \<Rightarrow> timestamp \<Rightarrow> normalized_event" where
  "channel_test_event u now =
     \<lparr>ne_receipt_id = ReceiptId u, ne_provider_name = ''test'', ne_event_type = None, ne_external_reference = None,
      ne_parsed_payload = None, ne_payload_hash = ''h'', ne_received_at = now, ne_metadata = JObject []\<rparr>"

definition channel_returns_channel_variant :: "brokers \<Rightarrow> uuid \<Rightarrow> timestamp \<Rightarrow> bool" where
  "channel_returns_channel_variant bk u now =
     (case build_emitter bk (cfg_with_type ''channel'') of
        Ok (BE_Channel ch) \<Rightarrow>
          (case channel_emit (channel_test_event u now) ch of
             Some (Ok _, ch1) \<Rightarrow> (case drain_turn ch1 of None \<Rightarrow> False | Some (received, _) \<Rightarrow> ne_provider_name received = ''test'')
           | _ \<Rightarrow> False)
      | _ \<Rightarrow> False)"

text \<open>What the tests say of the clients: a Kafka producer with well-formed properties is made without a broker,
  a closed port refuses a NATS connection, and does not answer a Redis connection in time.\<close>

definition test_clients :: "brokers \<Rightarrow> bool" where
  "test_clients bk \<longleftrightarrow>
     is_ok (bk_kafka_create bk [(''bootstrap.servers'', ''localhost:9092''), (''client.id'', ''hookbox-test''), (''acks'', ''all''),
       (''delivery.timeout.ms'', dec 1000)])
     \<and> \<not> is_ok (bk_nats_connect bk ''nats://127.0.0.1:1'')
     \<and> (\<forall>c t. \<not> (\<exists>conn. bk_redis_connect bk c t = Finished (Ok conn)))"

lemmas factory = factory_mentions_def factory_error_def builds_ready_def build_emitter_def cfg_with_type_def
  section_required_def emitter_config_default_def anyhow_emit_def with_context_def debug_str_def debug_char_def byte_def

lemma missing_sections_are_reported:
  "unknown_type_returns_error bk" "kafka_missing_section_returns_error bk" "nats_missing_section_returns_error bk"
  "sqs_missing_section_returns_error bk" "redis_missing_section_returns_error bk"
  by (simp_all add: unknown_type_returns_error_def kafka_missing_section_returns_error_def
      nats_missing_section_returns_error_def sqs_missing_section_returns_error_def redis_missing_section_returns_error_def
      factory contains_Nil contains_Cons)

lemma factory_unit_tests_pass:
  assumes "test_clients bk"
  shows "kafka_with_section_builds_ready_variant bk" and "nats_with_section_fails_on_unreachable_broker bk"
    and "sqs_with_section_builds_ready_variant bk" and "redis_with_section_fails_on_unreachable_server bk"
    and "channel_returns_channel_variant bk u now"
proof -
  show "kafka_with_section_builds_ready_variant bk"
    using assms by (auto simp: kafka_with_section_builds_ready_variant_def kafka_test_section_def factory kafka_new_def
        test_clients_def is_ok_iff)
  show "nats_with_section_fails_on_unreachable_broker bk"
    using assms by (cases "bk_nats_connect bk ''nats://127.0.0.1:1''")
      (simp_all add: nats_with_section_fails_on_unreachable_broker_def factory nats_new_def test_clients_def
        contains_Nil contains_Cons)
  show "sqs_with_section_builds_ready_variant bk"
    by (simp add: sqs_with_section_builds_ready_variant_def factory sqs_new_def)
  have "\<not> is_ok (redis_new bk url stream maxlen ms)" for url stream maxlen ms
    using assms by (cases "bk_redis_open bk url")
      (auto simp: redis_new_def test_clients_def Let_def split: timed.splits result.splits)
  then obtain e where "redis_new bk ''redis://127.0.0.1:1'' ''coverage-test'' None 200 = Err e"
    by (metis is_ok_iff result.exhaust)
  then show "redis_with_section_fails_on_unreachable_server bk"
    by (simp add: redis_with_section_fails_on_unreachable_server_def factory contains_Nil contains_Cons)
  show "channel_returns_channel_variant bk u now"
    by (simp add: channel_returns_channel_variant_def factory channel_new_def channel_emit_def drain_turn_def
        channel_test_event_def)
qed

text \<open>Such clients.\<close>

lemma test_clients_example: "test_clients (no_brokers\<lparr>bk_kafka_create := \<lambda>_. Ok 1, bk_nats_connect := \<lambda>_. Err ''refused''\<rparr>)"
  by (simp add: test_clients_def no_brokers_def)

section \<open>emitter.rs\<close>

type_synonym 'c emitting = "normalized_event \<Rightarrow> 'c \<Rightarrow> ((unit, emit_error) result \<times> 'c) option"

text \<open>\<^verbatim>\<open>Box<T>\<close> and \<^verbatim>\<open>Arc<T>\<close> forward to what they hold.\<close>

definition box_emit :: "'c emitting \<Rightarrow> 'c emitting" where
  "box_emit inner event c = inner event c"

definition arc_emit :: "'c emitting \<Rightarrow> 'c emitting" where
  "arc_emit inner event c = inner event c"

definition emitter_test_event :: "uuid \<Rightarrow> timestamp \<Rightarrow> normalized_event" where
  "emitter_test_event u now =
     \<lparr>ne_receipt_id = ReceiptId u, ne_provider_name = ''test'', ne_event_type = Some ''payment.completed'',
      ne_external_reference = None, ne_parsed_payload = Some (JObject [(''status'', JString ''ok'')]),
      ne_payload_hash = ''abc123'', ne_received_at = now, ne_metadata = JObject []\<rparr>"

text \<open>Emit into a new channel, then \<^verbatim>\<open>try_recv\<close>.\<close>

definition through_channel :: "nat \<Rightarrow> (channel emitting \<Rightarrow> channel emitting) \<Rightarrow> normalized_event \<Rightarrow> normalized_event option" where
  "through_channel buffer wrap event =
     (case channel_new buffer of None \<Rightarrow> None
      | Some ch \<Rightarrow>
          (case wrap channel_emit event ch of
             Some (Ok _, ch1) \<Rightarrow> map_option fst (drain_turn ch1)
           | _ \<Rightarrow> None))"

definition arc_emitter_delegates_to_inner :: "uuid \<Rightarrow> timestamp \<Rightarrow> bool" where
  "arc_emitter_delegates_to_inner u now = (through_channel 16 arc_emit (emitter_test_event u now) \<noteq> None)"

definition box_emitter_delegates_to_inner :: "uuid \<Rightarrow> timestamp \<Rightarrow> bool" where
  "box_emitter_delegates_to_inner u now =
     (let event = emitter_test_event u now in
      case through_channel 16 box_emit event of None \<Rightarrow> False
      | Some recv_event \<Rightarrow>
          ne_receipt_id recv_event = ne_receipt_id event \<and> ne_payload_hash recv_event = ne_payload_hash event)"

definition channel_emitter_sends_event :: "uuid \<Rightarrow> timestamp \<Rightarrow> bool" where
  "channel_emitter_sends_event u now =
     (let event = emitter_test_event u now in
      case through_channel 8 (\<lambda>inner. inner) event of None \<Rightarrow> False
      | Some received_event \<Rightarrow>
          ne_provider_name received_event = ne_provider_name event \<and> ne_event_type received_event = ne_event_type event
          \<and> ne_payload_hash received_event = ne_payload_hash event)"

text \<open>More than the tests: a channel that is new hands over the very event it was sent.\<close>

lemma through_channel_same:
  assumes "0 < buffer" and "wrap channel_emit = channel_emit"
  shows "through_channel buffer wrap event = Some event"
  using assms by (simp add: through_channel_def channel_new_def channel_emit_def drain_turn_def)

lemma emitter_unit_tests_pass:
  "arc_emitter_delegates_to_inner u now" "box_emitter_delegates_to_inner u now" "channel_emitter_sends_event u now"
proof -
  have "arc_emit channel_emit = channel_emit" "box_emit channel_emit = channel_emit"
    by (simp_all add: arc_emit_def box_emit_def fun_eq_iff)
  then show "arc_emitter_delegates_to_inner u now" "box_emitter_delegates_to_inner u now" "channel_emitter_sends_event u now"
    by (simp_all add: arc_emitter_delegates_to_inner_def box_emitter_delegates_to_inner_def
        channel_emitter_sends_event_def through_channel_same)
qed

section \<open>state.rs\<close>

definition state_cases :: "(delivery_state \<times> string) list" where
  "state_cases = [(DS_Pending, ''pending''), (DS_InFlight, ''in_flight''), (DS_Emitted, ''emitted''), (DS_Failed, ''failed''),
     (DS_DeadLettered, ''dead_lettered'')]"

definition delivery_state_display_non_empty_for_all_variants :: bool where
  "delivery_state_display_non_empty_for_all_variants =
     list_all (\<lambda>(state, expected). delivery_state_name state = expected \<and> delivery_state_name state \<noteq> []) state_cases"

text \<open>The JSON of a state is its name as a string.\<close>

definition delivery_state_serde_round_trip :: bool where
  "delivery_state_serde_round_trip =
     list_all (\<lambda>(state, expected).
       serialize_enum delivery_state_name state = Ok expected \<and> parse_delivery_state_name expected = Ok state) state_cases"

lemma state_unit_tests_pass: "delivery_state_display_non_empty_for_all_variants" "delivery_state_serde_round_trip"
  by (simp_all add: delivery_state_display_non_empty_for_all_variants_def delivery_state_serde_round_trip_def
      state_cases_def serialize_enum_def)

section \<open>replay.rs\<close>

text \<open>The tests of \<^verbatim>\<open>parse_duration\<close> (\<^verbatim>\<open>crates/hookbox-cli/src/commands/replay.rs\<close>); \<open>None\<close> would be a panic.\<close>

definition duration_is :: "cli_env \<Rightarrow> string \<Rightarrow> int \<Rightarrow> bool" where
  "duration_is ce s secs = (case parse_duration ce s of Some (Ok d) \<Rightarrow> d = secs | _ \<Rightarrow> False)"

definition duration_is_err :: "cli_env \<Rightarrow> string \<Rightarrow> bool" where
  "duration_is_err ce s = (case parse_duration ce s of Some (Err _) \<Rightarrow> True | _ \<Rightarrow> False)"

definition parse_seconds :: "cli_env \<Rightarrow> bool" where "parse_seconds ce = duration_is ce ''30s'' (30)"
definition parse_minutes :: "cli_env \<Rightarrow> bool" where "parse_minutes ce = duration_is ce ''5m'' (5 * 60)"
definition parse_hours :: "cli_env \<Rightarrow> bool" where "parse_hours ce = duration_is ce ''2h'' (2 * 3600)"
definition parse_days :: "cli_env \<Rightarrow> bool" where "parse_days ce = duration_is ce ''7d'' (7 * 86400)"
definition parse_zero :: "cli_env \<Rightarrow> bool" where "parse_zero ce = duration_is ce ''0s'' (0)"
definition parse_large_number :: "cli_env \<Rightarrow> bool" where "parse_large_number ce = duration_is ce ''365d'' (365 * 86400)"
definition parse_with_whitespace :: "cli_env \<Rightarrow> bool" where "parse_with_whitespace ce = duration_is ce ''  1h  '' (3600)"
definition invalid_unit :: "cli_env \<Rightarrow> bool" where "invalid_unit ce = duration_is_err ce ''10x''"
definition empty_string :: "cli_env \<Rightarrow> bool" where "empty_string ce = duration_is_err ce ''''"
definition just_unit_no_number :: "cli_env \<Rightarrow> bool" where "just_unit_no_number ce = duration_is_err ce ''h''"
definition no_unit_just_number :: "cli_env \<Rightarrow> bool" where "no_unit_just_number ce = duration_is_err ce ''123''"

text \<open>The test accepts either answer, but not a panic.\<close>

definition negative_number :: "cli_env \<Rightarrow> bool" where "negative_number ce = (parse_duration ce ''-1h'' \<noteq> None)"

lemma trims:
  "trim ''30s'' = ''30s''"
  "trim ''5m'' = ''5m''"
  "trim ''2h'' = ''2h''"
  "trim ''7d'' = ''7d''"
  "trim ''0s'' = ''0s''"
  "trim ''365d'' = ''365d''"
  "trim ''  1h  '' = ''1h''"
  "trim ''10x'' = ''10x''"
  "trim ''h'' = ''h''"
  "trim ''123'' = ''123''"
  "trim ''-1h'' = ''-1h''"
  using trim_padded[of "''30s''" 0 0]
    trim_padded[of "''5m''" 0 0]
    trim_padded[of "''2h''" 0 0]
    trim_padded[of "''7d''" 0 0]
    trim_padded[of "''0s''" 0 0]
    trim_padded[of "''365d''" 0 0]
    trim_padded[of "''1h''" 2 2]
    trim_padded[of "''10x''" 0 0]
    trim_padded[of "''h''" 0 0]
    trim_padded[of "''123''" 0 0]
    trim_padded[of "''-1h''" 0 0]
  by (simp_all add: solid_def byte_def numeral_2_eq_2)

lemma strip_any_empty: "strip_any ws_encodings [] = None" "strip_any (map rev ws_encodings) [] = None"
  by (simp_all add: ws_encodings_def upt_rec)

lemma trim_empty: "trim [] = []"
  by (simp add: trim_def trim_with.simps[of _ "[]"] strip_any_empty)

lemmas durations = duration_is_def duration_is_err_def parse_duration_def cont_byte_def byte_def parse_i64_def parse_digits_def
  is_digit_def unit_secs.simps chrono_seconds_def chrono_max_secs_def Let_def trims trim_empty debug_str_def

lemma duration_unit_tests_pass:
  "parse_seconds ce" "parse_minutes ce" "parse_hours ce" "parse_days ce" "parse_zero ce" "parse_large_number ce" "parse_with_whitespace ce" "invalid_unit ce" "empty_string ce" "just_unit_no_number ce" "no_unit_just_number ce" "negative_number ce"
  by (simp_all add: parse_seconds_def parse_minutes_def parse_hours_def parse_days_def parse_zero_def parse_large_number_def parse_with_whitespace_def invalid_unit_def empty_string_def just_unit_no_number_def no_unit_just_number_def negative_number_def durations)

end
