(* ===== verification/Wire.thy ===== *)
theory Wire
  imports Worker
begin

text \<open>
  Between PostgreSQL and the row structs of \<^verbatim>\<open>crates/hookbox-postgres/src/storage.rs\<close>: the columns of the two
  tables as the migrations declare them, the column lists of the queries, and the readers that fetch each field
  of a row by the name of its column. Also the forwarding of \<^verbatim>\<open>DeliveryStorage\<close> through \<^verbatim>\<open>Arc\<close>. The texts of
  \<^verbatim>\<open>sqlx\<close>'s errors are a parameter. Shown: every query selects the columns its reader asks for, at the types
  it asks for, so a row is read back as it is in the table, and nothing else is; a missing column, or \<^verbatim>\<open>NULL\<close> where the struct has no
  \<^verbatim>\<open>Option\<close>, is an internal error.
\<close>

section \<open>Column values\<close>

datatype sql_value =
    SV_Null
  | SV_Uuid uuid
  | SV_Text string
  | SV_Int4 int
  | SV_Bool bool
  | SV_Bytea bytes
  | SV_Jsonb json
  | SV_Timestamptz timestamp

type_synonym pg_row = "(string \<times> sql_value) list"

definition get_uuid :: "sql_value \<Rightarrow> uuid option" where
  "get_uuid v = (case v of SV_Uuid u \<Rightarrow> Some u | _ \<Rightarrow> None)"

definition get_text :: "sql_value \<Rightarrow> string option" where
  "get_text v = (case v of SV_Text s \<Rightarrow> Some s | _ \<Rightarrow> None)"

definition get_int4 :: "sql_value \<Rightarrow> int option" where
  "get_int4 v = (case v of SV_Int4 i \<Rightarrow> Some i | _ \<Rightarrow> None)"

definition get_bool :: "sql_value \<Rightarrow> bool option" where
  "get_bool v = (case v of SV_Bool b \<Rightarrow> Some b | _ \<Rightarrow> None)"

definition get_bytea :: "sql_value \<Rightarrow> bytes option" where
  "get_bytea v = (case v of SV_Bytea b \<Rightarrow> Some b | _ \<Rightarrow> None)"

definition get_jsonb :: "sql_value \<Rightarrow> json option" where
  "get_jsonb v = (case v of SV_Jsonb j \<Rightarrow> Some j | _ \<Rightarrow> None)"

definition get_timestamptz :: "sql_value \<Rightarrow> timestamp option" where
  "get_timestamptz v = (case v of SV_Timestamptz t \<Rightarrow> Some t | _ \<Rightarrow> None)"

text \<open>A field of type \<^verbatim>\<open>Option\<close> reads \<^verbatim>\<open>NULL\<close> as \<open>None\<close>.\<close>

definition nullable :: "(sql_value \<Rightarrow> 'a option) \<Rightarrow> sql_value \<Rightarrow> 'a option option" where
  "nullable get v = (if v = SV_Null then Some None else map_option Some (get v))"

text \<open>\<^verbatim>\<open>try_get\<close>, its error mapped to \<^verbatim>\<open>StorageError::Internal\<close>.\<close>

definition try_get :: "(string \<Rightarrow> string) \<Rightarrow> (sql_value \<Rightarrow> 'a option) \<Rightarrow> pg_row \<Rightarrow> string \<Rightarrow> 'a answer" where
  "try_get err get r column =
     (case map_of r column of
        None \<Rightarrow> Err (SE_Internal (err column))
      | Some v \<Rightarrow> (case get v of None \<Rightarrow> Err (SE_Internal (err column)) | Some a \<Rightarrow> Ok a))"

section \<open>Readers\<close>

definition pg_row_to_receipt_row :: "(string \<Rightarrow> string) \<Rightarrow> pg_row \<Rightarrow> receipt_row answer" where
  "pg_row_to_receipt_row err r =
     and_then (try_get err get_uuid r ''receipt_id'') (\<lambda>receipt_id'.
     and_then (try_get err get_text r ''provider_name'') (\<lambda>provider_name'.
     and_then (try_get err (nullable get_text) r ''provider_event_id'') (\<lambda>provider_event_id'.
     and_then (try_get err (nullable get_text) r ''external_reference'') (\<lambda>external_reference'.
     and_then (try_get err get_text r ''dedupe_key'') (\<lambda>dedupe_key'.
     and_then (try_get err get_text r ''payload_hash'') (\<lambda>payload_hash'.
     and_then (try_get err get_bytea r ''raw_body'') (\<lambda>raw_body'.
     and_then (try_get err (nullable get_jsonb) r ''parsed_payload'') (\<lambda>parsed_payload'.
     and_then (try_get err get_jsonb r ''raw_headers'') (\<lambda>raw_headers'.
     and_then (try_get err (nullable get_text) r ''normalized_event_type'') (\<lambda>normalized_event_type'.
     and_then (try_get err get_text r ''verification_status'') (\<lambda>verification_status'.
     and_then (try_get err (nullable get_text) r ''verification_reason'') (\<lambda>verification_reason'.
     and_then (try_get err get_text r ''processing_state'') (\<lambda>processing_state'.
     and_then (try_get err get_int4 r ''emit_count'') (\<lambda>emit_count'.
     and_then (try_get err (nullable get_text) r ''last_error'') (\<lambda>last_error'.
     and_then (try_get err get_timestamptz r ''received_at'') (\<lambda>received_at'.
     and_then (try_get err (nullable get_timestamptz) r ''processed_at'') (\<lambda>processed_at'.
     and_then (try_get err get_jsonb r ''metadata'') (\<lambda>metadata'.
     Ok \<lparr>rr_receipt_id = receipt_id', rr_provider_name = provider_name',
         rr_provider_event_id = provider_event_id', rr_external_reference = external_reference',
         rr_dedupe_key = dedupe_key', rr_payload_hash = payload_hash', rr_raw_body = raw_body',
         rr_parsed_payload = parsed_payload', rr_raw_headers = raw_headers',
         rr_normalized_event_type = normalized_event_type',
         rr_verification_status = verification_status', rr_verification_reason = verification_reason',
         rr_processing_state = processing_state', rr_emit_count = emit_count',
         rr_last_error = last_error', rr_received_at = received_at', rr_processed_at = processed_at',
         rr_metadata = metadata'\<rparr>))))))))))))))))))"

definition pg_row_to_delivery_row :: "(string \<Rightarrow> string) \<Rightarrow> pg_row \<Rightarrow> delivery_row answer" where
  "pg_row_to_delivery_row err r =
     and_then (try_get err get_uuid r ''delivery_id'') (\<lambda>delivery_id'.
     and_then (try_get err get_uuid r ''receipt_id'') (\<lambda>receipt_id'.
     and_then (try_get err get_text r ''emitter_name'') (\<lambda>emitter_name'.
     and_then (try_get err get_text r ''state'') (\<lambda>state'.
     and_then (try_get err get_int4 r ''attempt_count'') (\<lambda>attempt_count'.
     and_then (try_get err (nullable get_text) r ''last_error'') (\<lambda>last_error'.
     and_then (try_get err (nullable get_timestamptz) r ''last_attempt_at'') (\<lambda>last_attempt_at'.
     and_then (try_get err get_timestamptz r ''next_attempt_at'') (\<lambda>next_attempt_at'.
     and_then (try_get err (nullable get_timestamptz) r ''emitted_at'') (\<lambda>emitted_at'.
     and_then (try_get err get_bool r ''immutable'') (\<lambda>immutable'.
     and_then (try_get err get_timestamptz r ''created_at'') (\<lambda>created_at'.
     Ok \<lparr>dr_delivery_id = delivery_id', dr_receipt_id = receipt_id', dr_emitter_name = emitter_name',
         dr_state = state', dr_attempt_count = attempt_count', dr_last_error = last_error',
         dr_last_attempt_at = last_attempt_at', dr_next_attempt_at = next_attempt_at',
         dr_emitted_at = emitted_at', dr_immutable = immutable', dr_created_at = created_at'\<rparr>)))))))))))"

section \<open>Tables and queries\<close>

definition or_null :: "('a \<Rightarrow> sql_value) \<Rightarrow> 'a option \<Rightarrow> sql_value" where
  "or_null f v = (case v of None \<Rightarrow> SV_Null | Some a \<Rightarrow> f a)"

text \<open>The columns of the tables, as the migrations declare them.\<close>

fun receipt_column :: "receipt_row \<Rightarrow> string \<Rightarrow> sql_value option" where
  "receipt_column row column =
     (if column = ''receipt_id'' then Some (SV_Uuid (rr_receipt_id row))
      else if column = ''provider_name'' then Some (SV_Text (rr_provider_name row))
      else if column = ''provider_event_id'' then Some (or_null SV_Text (rr_provider_event_id row))
      else if column = ''external_reference'' then Some (or_null SV_Text (rr_external_reference row))
      else if column = ''dedupe_key'' then Some (SV_Text (rr_dedupe_key row))
      else if column = ''payload_hash'' then Some (SV_Text (rr_payload_hash row))
      else if column = ''raw_body'' then Some (SV_Bytea (rr_raw_body row))
      else if column = ''parsed_payload'' then Some (or_null SV_Jsonb (rr_parsed_payload row))
      else if column = ''raw_headers'' then Some (SV_Jsonb (rr_raw_headers row))
      else if column = ''normalized_event_type'' then Some (or_null SV_Text (rr_normalized_event_type row))
      else if column = ''verification_status'' then Some (SV_Text (rr_verification_status row))
      else if column = ''verification_reason'' then Some (or_null SV_Text (rr_verification_reason row))
      else if column = ''processing_state'' then Some (SV_Text (rr_processing_state row))
      else if column = ''emit_count'' then Some (SV_Int4 (rr_emit_count row))
      else if column = ''last_error'' then Some (or_null SV_Text (rr_last_error row))
      else if column = ''received_at'' then Some (SV_Timestamptz (rr_received_at row))
      else if column = ''processed_at'' then Some (or_null SV_Timestamptz (rr_processed_at row))
      else if column = ''metadata'' then Some (SV_Jsonb (rr_metadata row))
      else None)"

fun delivery_column :: "delivery_row \<Rightarrow> string \<Rightarrow> sql_value option" where
  "delivery_column row column =
     (if column = ''delivery_id'' then Some (SV_Uuid (dr_delivery_id row))
      else if column = ''receipt_id'' then Some (SV_Uuid (dr_receipt_id row))
      else if column = ''emitter_name'' then Some (SV_Text (dr_emitter_name row))
      else if column = ''state'' then Some (SV_Text (dr_state row))
      else if column = ''attempt_count'' then Some (SV_Int4 (dr_attempt_count row))
      else if column = ''last_error'' then Some (or_null SV_Text (dr_last_error row))
      else if column = ''last_attempt_at'' then Some (or_null SV_Timestamptz (dr_last_attempt_at row))
      else if column = ''next_attempt_at'' then Some (SV_Timestamptz (dr_next_attempt_at row))
      else if column = ''emitted_at'' then Some (or_null SV_Timestamptz (dr_emitted_at row))
      else if column = ''immutable'' then Some (SV_Bool (dr_immutable row))
      else if column = ''created_at'' then Some (SV_Timestamptz (dr_created_at row))
      else None)"

definition SELECT_COLUMNS :: "string list" where
  "SELECT_COLUMNS =
     [''receipt_id'', ''provider_name'', ''provider_event_id'', ''external_reference'', ''dedupe_key'',
      ''payload_hash'', ''raw_body'', ''parsed_payload'', ''raw_headers'', ''normalized_event_type'',
      ''verification_status'', ''verification_reason'', ''processing_state'', ''emit_count'',
      ''last_error'', ''received_at'', ''processed_at'', ''metadata'']"

definition SELECT_DELIVERY_COLUMNS :: "string list" where
  "SELECT_DELIVERY_COLUMNS =
     [''delivery_id'', ''receipt_id'', ''emitter_name'', ''state'', ''attempt_count'', ''last_error'',
      ''last_attempt_at'', ''next_attempt_at'', ''emitted_at'', ''immutable'', ''created_at'']"

text \<open>The \<^verbatim>\<open>RETURNING\<close> clause of \<^verbatim>\<open>claim_pending\<close>.\<close>

definition claim_returning :: "string list" where
  "claim_returning =
     [''delivery_id'', ''receipt_id'', ''emitter_name'', ''state'', ''attempt_count'', ''last_error'',
      ''last_attempt_at'', ''next_attempt_at'', ''emitted_at'', ''immutable'', ''created_at'']"

text \<open>What a query gives of a row: nothing when it names a column that is not there.\<close>

definition select_row :: "('row \<Rightarrow> string \<Rightarrow> sql_value option) \<Rightarrow> string list \<Rightarrow> 'row \<Rightarrow> pg_row option" where
  "select_row table columns row = those (map (\<lambda>c. map_option (Pair c) (table row c)) columns)"

section \<open>Rows are read as they are\<close>

lemma map_of_select_row:
  assumes "select_row table columns row = Some r"
  shows "map_of r c = (if c \<in> set columns then table row c else None)"
  using assms unfolding select_row_def
proof (induction columns arbitrary: r)
  case (Cons k columns)
  then obtain v rs where "table row k = Some v" "those (map (\<lambda>c. map_option (Pair c) (table row c)) columns) = Some rs"
    "r = (k, v) # rs"
    by (auto split: option.splits)
  then show ?case using Cons.IH[of rs] by auto
qed simp

lemma nullable_or_null [simp]:
  assumes "\<And>a. get (f a) = Some a" and "\<And>a. f a \<noteq> SV_Null"
  shows "nullable get (or_null f v) = Some v"
  using assms by (simp add: nullable_def or_null_def split: option.splits)

lemmas getters = get_uuid_def get_text_def get_int4_def get_bool_def get_bytea_def get_jsonb_def get_timestamptz_def

lemma receipt_row_reads_back:
  assumes "select_row receipt_column columns row = Some r" and "set SELECT_COLUMNS \<subseteq> set columns"
  shows "pg_row_to_receipt_row err r = Ok row"
  using assms(2) by (simp add: pg_row_to_receipt_row_def try_get_def map_of_select_row[OF assms(1)] SELECT_COLUMNS_def getters)

lemma delivery_row_reads_back:
  assumes "select_row delivery_column columns row = Some r" and "set SELECT_DELIVERY_COLUMNS \<subseteq> set columns"
  shows "pg_row_to_delivery_row err r = Ok row"
  using assms(2)
  by (simp add: pg_row_to_delivery_row_def try_get_def map_of_select_row[OF assms(1)] SELECT_DELIVERY_COLUMNS_def getters)

text \<open>The queries of the code name columns that exist.\<close>

lemma queries_read_back:
  "\<exists>r. select_row receipt_column SELECT_COLUMNS row = Some r \<and> pg_row_to_receipt_row err r = Ok row"
  "\<exists>r. select_row delivery_column SELECT_DELIVERY_COLUMNS row' = Some r \<and> pg_row_to_delivery_row err r = Ok row'"
  "\<exists>r. select_row delivery_column claim_returning row' = Some r \<and> pg_row_to_delivery_row err r = Ok row'"
proof -
  have "select_row receipt_column SELECT_COLUMNS row \<noteq> None"
    by (simp add: select_row_def SELECT_COLUMNS_def)
  moreover have "select_row delivery_column SELECT_DELIVERY_COLUMNS row' \<noteq> None"
    by (simp add: select_row_def SELECT_DELIVERY_COLUMNS_def)
  moreover have "claim_returning = SELECT_DELIVERY_COLUMNS"
    by (simp add: claim_returning_def SELECT_DELIVERY_COLUMNS_def)
  ultimately show
    "\<exists>r. select_row receipt_column SELECT_COLUMNS row = Some r \<and> pg_row_to_receipt_row err r = Ok row"
    "\<exists>r. select_row delivery_column SELECT_DELIVERY_COLUMNS row' = Some r \<and> pg_row_to_delivery_row err r = Ok row'"
    "\<exists>r. select_row delivery_column claim_returning row' = Some r \<and> pg_row_to_delivery_row err r = Ok row'"
    using receipt_row_reads_back[OF _ subset_refl] delivery_row_reads_back[OF _ subset_refl] by auto
qed

text \<open>And nothing else is read: a row that is read has every column of its reader, with the value that the
  struct holds; so a missing column, a value of another type, or \<^verbatim>\<open>NULL\<close> where the field has no \<^verbatim>\<open>Option\<close> is an
  error.\<close>

lemma try_get_Ok: "try_get err get r c = Ok a \<longleftrightarrow> (\<exists>v. map_of r c = Some v \<and> get v = Some a)"
  by (auto simp: try_get_def split: option.splits)

lemma getter_Some:
  "get_uuid v = Some u \<longleftrightarrow> v = SV_Uuid u" "get_text v = Some s \<longleftrightarrow> v = SV_Text s" "get_int4 v = Some i \<longleftrightarrow> v = SV_Int4 i"
  "get_bool v = Some b \<longleftrightarrow> v = SV_Bool b" "get_bytea v = Some y \<longleftrightarrow> v = SV_Bytea y" "get_jsonb v = Some j \<longleftrightarrow> v = SV_Jsonb j"
  "get_timestamptz v = Some t \<longleftrightarrow> v = SV_Timestamptz t"
  by (auto simp: getters split: sql_value.splits)

lemma nullable_Some:
  assumes "\<And>v a. get v = Some a \<longleftrightarrow> v = f a" and "\<And>a. f a \<noteq> SV_Null"
  shows "nullable get v = Some x \<longleftrightarrow> v = or_null f x"
  using assms(2) assms(2)[symmetric] by (auto simp: nullable_def or_null_def assms(1) split: option.splits)

lemmas nullables = nullable_Some[OF getter_Some(2), simplified] nullable_Some[OF getter_Some(6), simplified]
  nullable_Some[OF getter_Some(7), simplified]

lemma receipt_row_read:
  assumes "pg_row_to_receipt_row err r = Ok row"
  shows "\<forall>c\<in>set SELECT_COLUMNS. map_of r c = receipt_column row c"
  using assms
  by (auto simp: pg_row_to_receipt_row_def SELECT_COLUMNS_def try_get_Ok getter_Some nullables elim!: and_then_OkE)

lemma delivery_row_read:
  assumes "pg_row_to_delivery_row err r = Ok row"
  shows "\<forall>c\<in>set SELECT_DELIVERY_COLUMNS. map_of r c = delivery_column row c"
  using assms
  by (auto simp: pg_row_to_delivery_row_def SELECT_DELIVERY_COLUMNS_def try_get_Ok getter_Some nullables elim!: and_then_OkE)

section \<open>Through Arc\<close>

definition arc_ops :: "'s delivery_ops \<Rightarrow> 's delivery_ops" where
  "arc_ops inner =
     \<lparr>do_claim_pending = (\<lambda>env emitter_name batch_size. do_claim_pending inner env emitter_name batch_size),
      do_reclaim_expired = (\<lambda>env emitter_name lease_duration. do_reclaim_expired inner env emitter_name lease_duration),
      do_mark_emitted = (\<lambda>env delivery_id. do_mark_emitted inner env delivery_id),
      do_mark_failed = (\<lambda>env delivery_id attempt_count next_attempt_at error.
        do_mark_failed inner env delivery_id attempt_count next_attempt_at error),
      do_mark_dead_lettered = (\<lambda>env delivery_id error. do_mark_dead_lettered inner env delivery_id error),
      do_count_dlq = (\<lambda>env emitter_name. do_count_dlq inner env emitter_name),
      do_count_pending = (\<lambda>env emitter_name. do_count_pending inner env emitter_name),
      do_count_in_flight = (\<lambda>env emitter_name. do_count_in_flight inner env emitter_name)\<rparr>"

text \<open>A worker cannot tell the shared store from the store.\<close>

lemma arc_ops_same: "arc_ops ops = ops"
  by (simp add: arc_ops_def)

end
