(* ===== verification/Migration.thy ===== *)
theory Migration
  imports Wire
begin

text \<open>
  Migration 0002 (\<^verbatim>\<open>crates/hookbox-postgres/migrations/0002_create_webhook_deliveries.sql\<close>), run by
  \<^verbatim>\<open>PostgresStorage::migrate\<close> on a database that has receipts and no table of deliveries yet: the table, and
  one immutable row of history per receipt. The ids that \<^verbatim>\<open>gen_random_uuid\<close> draws are a parameter, assumed
  distinct. Shown: the migrated database is well-formed, no worker ever claims, reclaims or changes a row of
  history, and every receipt keeps the state that the API derives for it.
\<close>

definition backfill_state :: "string \<Rightarrow> string" where
  "backfill_state ps =
     (if ps = ''emitted'' then ''emitted''
      else if ps = ''processed'' then ''emitted''
      else if ps = ''replayed'' then ''emitted''
      else if ps = ''emit_failed'' then ''failed''
      else if ps = ''dead_lettered'' then ''dead_lettered''
      else if ps = ''stored'' then ''failed''
      else ''emitted'')"

definition backfill_row :: "uuid \<Rightarrow> receipt_row \<Rightarrow> delivery_row" where
  "backfill_row u r =
     \<lparr>dr_delivery_id = u, dr_receipt_id = rr_receipt_id r, dr_emitter_name = ''legacy'',
      dr_state = backfill_state (rr_processing_state r), dr_attempt_count = rr_emit_count r,
      dr_last_error = rr_last_error r, dr_last_attempt_at = rr_processed_at r, dr_next_attempt_at = rr_received_at r,
      dr_emitted_at =
        (if rr_processing_state r \<in> {''emitted'', ''processed'', ''replayed''} then rr_processed_at r else None),
      dr_immutable = True, dr_created_at = rr_received_at r\<rparr>"

definition migration_0002 :: "(nat \<Rightarrow> uuid) \<Rightarrow> receipt_row list \<Rightarrow> db" where
  "migration_0002 gen_random_uuid rs =
     \<lparr>receipts = rs, deliveries = map (\<lambda>k. backfill_row (gen_random_uuid k) (rs ! k)) [0..<length rs]\<rparr>"

lemma backfilled:
  assumes "x \<in> set (deliveries (migration_0002 g rs))"
  obtains k where "k < length rs" "x = backfill_row (g k) (rs ! k)"
  using assms by (auto simp: migration_0002_def)

lemma backfill_state_known: "is_ok (parse_delivery_state_name (backfill_state ps)) \<and> backfill_state ps \<noteq> ''in_flight''"
  by (simp add: backfill_state_def deserialize_enum_def all_delivery_states_def)

text \<open>The inbox invariant holds from the start.\<close>

lemma migrated_is_well_formed:
  assumes "distinct (map rr_receipt_id rs)" and "distinct (map rr_dedupe_key rs)"
    and "list_all (\<lambda>r. is_ok (receipt_from_row r)) rs" and "inj_on g {..<length rs}"
  shows "db_inv (migration_0002 g rs)"
proof -
  let ?d = "migration_0002 g rs"
  have "map dr_delivery_id (deliveries ?d) = map g [0..<length rs]"
    by (simp add: migration_0002_def backfill_row_def)
  then have ids: "distinct (map dr_delivery_id (deliveries ?d))"
    using assms(4) by (auto simp: distinct_map lessThan_atLeast0 inj_on_def)
  have row: "has_receipt (dr_receipt_id x) ?d \<and> is_ok (parse_delivery_state_name (dr_state x)) \<and> dr_state x \<noteq> ''in_flight''"
    if mem: "x \<in> set (deliveries ?d)" for x
  proof -
    obtain k where k: "k < length rs" "x = backfill_row (g k) (rs ! k)" by (rule backfilled[OF mem])
    then have "has_receipt (dr_receipt_id x) ?d"
      by (auto simp: has_receipt_def migration_0002_def list_ex_iff backfill_row_def)
    then show ?thesis using backfill_state_known by (simp add: k(2) backfill_row_def)
  qed
  have "receipts ?d = rs" by (simp add: migration_0002_def)
  then show ?thesis
    using assms(1-3) ids row by (simp add: db_inv_def wf_db_def history_at_rest_def list_all_iff)
qed

text \<open>History stays as it is: whatever steps the database takes, every row of it is still there.\<close>

lemma history_is_never_claimed:
  "x \<in> set (deliveries (migration_0002 g rs)) \<Longrightarrow> \<not> claimable now e x"
  by (elim backfilled) (simp add: claimable_def backfill_row_def)

lemma history_never_changes:
  "x \<in> set (deliveries (migration_0002 g rs)) \<Longrightarrow> row_step x x' \<Longrightarrow> x' = x"
  by (elim backfilled) (auto simp: backfill_row_def intro: row_step_terminal)

text \<open>The state that the API shows for an old receipt is the one it was left in.\<close>

lemma immutable_rows_have_no_say:
  assumes "\<And>x. x \<in> set ds \<Longrightarrow> wd_immutable x"
  shows "receipt_aggregate_state ds fallback = fallback"
proof -
  have "fold latest_step ds [] = []"
    using assms by (induction ds) (auto simp: latest_step_def)
  then show ?thesis
    by (simp add: receipt_aggregate_state_def latest_mutable_per_emitter_def aggregate_from_states_def)
qed

lemma migrated_states_are_kept:
  assumes "collect_results delivery_from_row (filter (\<lambda>x. dr_receipt_id x = u) (deliveries (migration_0002 g rs))) = Ok ds"
  shows "receipt_aggregate_state ds fallback = fallback"
proof (rule immutable_rows_have_no_say)
  fix w assume "w \<in> set ds"
  moreover have "list_all2 (\<lambda>x w. delivery_from_row x = Ok w)
      (filter (\<lambda>x. dr_receipt_id x = u) (deliveries (migration_0002 g rs))) ds"
    using assms by (simp add: collect_results_Ok_iff)
  ultimately obtain x where "x \<in> set (deliveries (migration_0002 g rs))" and x: "delivery_from_row x = Ok w"
    by (auto simp: list_all2_conv_all_nth in_set_conv_nth[of w]) (metis filter_is_subset nth_mem subsetD)
  then obtain k where "x = backfill_row (g k) (rs ! k)" by (elim backfilled)
  then show "wd_immutable w"
    using x by (auto simp: delivery_from_row_def backfill_row_def elim!: and_then_OkE)
qed

text \<open>A migrated inbox, with a receipt that was emitted and one that was not.\<close>

lemma migrated_example:
  "db_inv (migration_0002 word_of_nat [row_of (sample_receipt 1 ''k''), row_of (sample_receipt 2 ''l'')])"
proof (rule migrated_is_well_formed)
  show "inj_on word_of_nat {..<length [row_of (sample_receipt 1 ''k''), row_of (sample_receipt 2 ''l'')]}"
    by (simp add: numeral_2_eq_2 lessThan_Suc)
  show "list_all (\<lambda>r. is_ok (receipt_from_row r)) [row_of (sample_receipt 1 ''k''), row_of (sample_receipt 2 ''l'')]"
    by simp
qed (simp_all add: receipt_to_row_def)

end
