(* ===== verification/Memory.thy ===== *)
theory Memory
  imports Worker
begin

text \<open>
  The in-memory storage of \<^verbatim>\<open>scenario-tests/src/world.rs\<close> (\<^verbatim>\<open>MemoryStorage\<close> and its shared handle),
  the two constant verifiers, and the pipeline the scenarios run on. An \<^verbatim>\<open>Arc<MemoryStorage>\<close> is an
  address into a list of stores, so that the pipeline and the test world see the same rows. A panic
  ends a scenario, so no method ever meets a poisoned mutex. Shown: PostgreSQL refines this storage
  (each operation commutes with decoding the tables, when the database answers), hence the pipeline
  of the server refines the pipeline of the scenarios; and the scenario pipeline meets the storage
  contract of the ingest pipeline by itself.
\<close>

section \<open>MemoryStorage\<close>

record memory_storage =
  ms_receipts :: "webhook_receipt list"
  ms_deliveries :: "webhook_delivery list"

definition memory_new :: memory_storage where
  "memory_new = \<lparr>ms_receipts = [], ms_deliveries = []\<rparr>"

definition all_deliveries :: "memory_storage \<Rightarrow> webhook_delivery list answer" where
  "all_deliveries s = Ok (ms_deliveries s)"

definition deliveries_for_receipt :: "receiptid \<Rightarrow> memory_storage \<Rightarrow> webhook_delivery list answer" where
  "deliveries_for_receipt i s = Ok (filter (\<lambda>d. wd_receipt_id d = i) (ms_deliveries s))"

text \<open>\<^verbatim>\<open>iter_mut().find(p)\<close> and a change of what it found.\<close>

fun update_first :: "('a \<Rightarrow> bool) \<Rightarrow> ('a \<Rightarrow> 'a) \<Rightarrow> 'a list \<Rightarrow> 'a list" where
  "update_first p f [] = []"
| "update_first p f (x # xs) = (if p x then f x # xs else x # update_first p f xs)"

text \<open>The closure may panic (\<open>None\<close>); it only runs when the row is there.\<close>

definition update_delivery ::
  "deliveryid \<Rightarrow> (webhook_delivery \<Rightarrow> webhook_delivery option) \<Rightarrow> memory_storage
     \<Rightarrow> (unit answer \<times> memory_storage) option" where
  "update_delivery i mutator s =
     (case find (\<lambda>d. wd_delivery_id d = i) (ms_deliveries s) of
        None \<Rightarrow> Some (Ok (), s)
      | Some row \<Rightarrow>
          (case mutator row of
             None \<Rightarrow> None
           | Some row' \<Rightarrow> Some (Ok (), s\<lparr>ms_deliveries :=
               update_first (\<lambda>d. wd_delivery_id d = i) (\<lambda>_. row') (ms_deliveries s)\<rparr>)))"

definition pending_deliveries :: "timestamp \<Rightarrow> memory_storage \<Rightarrow> webhook_delivery list answer" where
  "pending_deliveries now s =
     Ok (filter (\<lambda>d. \<not> wd_immutable d \<and> (wd_state d = DS_Pending \<or> wd_state d = DS_Failed)
                      \<and> wd_next_attempt_at d \<le> now) (ms_deliveries s))"

section \<open>impl Storage for MemoryStorage\<close>

definition mem_store :: "webhook_receipt \<Rightarrow> memory_storage \<Rightarrow> store_result answer \<times> memory_storage" where
  "mem_store r s =
     (case find (\<lambda>e. dedupe_key e = dedupe_key r) (ms_receipts s) of
        Some existing \<Rightarrow> (Ok (SR_Duplicate (receipt_id existing)), s)
      | None \<Rightarrow> (Ok SR_Stored, s\<lparr>ms_receipts := ms_receipts s @ [r]\<rparr>))"

definition mem_get :: "uuid \<Rightarrow> memory_storage \<Rightarrow> webhook_receipt option answer" where
  "mem_get u s = Ok (find (\<lambda>r. rid_uuid (receipt_id r) = u) (ms_receipts s))"

definition mem_update_state ::
  "uuid \<Rightarrow> processing_state \<Rightarrow> string option \<Rightarrow> memory_storage \<Rightarrow> unit answer \<times> memory_storage" where
  "mem_update_state u st error s =
     (Ok (), s\<lparr>ms_receipts := update_first (\<lambda>r. rid_uuid (receipt_id r) = u)
        (\<lambda>r. r\<lparr>processing_state := st, last_error := error\<rparr>) (ms_receipts s)\<rparr>)"

text \<open>The filter is not looked at.\<close>

definition mem_query :: "receipt_filter \<Rightarrow> memory_storage \<Rightarrow> webhook_receipt list answer" where
  "mem_query f s = Ok (ms_receipts s)"

text \<open>The row pushed for one emitter; \<^verbatim>\<open>DeliveryId::new()\<close> draws \<open>e_uuid env k\<close> for the k-th.\<close>

definition fresh_delivery :: "timestamp \<Rightarrow> uuid \<Rightarrow> receiptid \<Rightarrow> string \<Rightarrow> webhook_delivery" where
  "fresh_delivery now did rid name =
     \<lparr>wd_delivery_id = DeliveryId did, wd_receipt_id = rid, wd_emitter_name = name,
      wd_state = DS_Pending, wd_attempt_count = 0, wd_last_error = None, wd_last_attempt_at = None,
      wd_next_attempt_at = now, wd_emitted_at = None, wd_immutable = False, wd_created_at = now\<rparr>"

fun push_deliveries ::
  "dbenv \<Rightarrow> nat \<Rightarrow> receiptid \<Rightarrow> string list \<Rightarrow> webhook_delivery list \<Rightarrow> webhook_delivery list" where
  "push_deliveries env k rid [] ds = ds"
| "push_deliveries env k rid (name # names) ds =
     push_deliveries env (Suc k) rid names (ds @ [fresh_delivery (e_now env) (e_uuid env k) rid name])"

definition mem_store_with_deliveries ::
  "dbenv \<Rightarrow> webhook_receipt \<Rightarrow> string list \<Rightarrow> memory_storage \<Rightarrow> store_result answer \<times> memory_storage" where
  "mem_store_with_deliveries env r emitter_names s =
     (case mem_store r s of
        (Err e, s1) \<Rightarrow> (Err e, s1)
      | (Ok (SR_Duplicate i), s1) \<Rightarrow> (Ok (SR_Duplicate i), s1)
      | (Ok SR_Stored, s1) \<Rightarrow>
          (Ok SR_Stored,
           s1\<lparr>ms_deliveries := push_deliveries env 0 (receipt_id r) emitter_names (ms_deliveries s1)\<rparr>))"

section \<open>SharedMemoryStorage\<close>

type_synonym heap = "memory_storage list"
type_synonym shared_memory_storage = nat

definition shared_new :: "memory_storage \<Rightarrow> heap \<Rightarrow> shared_memory_storage \<times> heap" where
  "shared_new inner h = (length h, h @ [inner])"

definition on_shared :: "shared_memory_storage \<Rightarrow> (memory_storage \<Rightarrow> 'a \<times> memory_storage) \<Rightarrow> heap \<Rightarrow> 'a \<times> heap" where
  "on_shared a f h = (case f (h ! a) of (res, s) \<Rightarrow> (res, h[a := s]))"

definition shared_store :: "shared_memory_storage \<Rightarrow> webhook_receipt \<Rightarrow> heap \<Rightarrow> store_result answer \<times> heap" where
  "shared_store a r = on_shared a (mem_store r)"

definition shared_get :: "shared_memory_storage \<Rightarrow> uuid \<Rightarrow> heap \<Rightarrow> webhook_receipt option answer" where
  "shared_get a u h = mem_get u (h ! a)"

definition shared_update_state ::
  "shared_memory_storage \<Rightarrow> uuid \<Rightarrow> processing_state \<Rightarrow> string option \<Rightarrow> heap \<Rightarrow> unit answer \<times> heap" where
  "shared_update_state a u st error = on_shared a (mem_update_state u st error)"

definition shared_query :: "shared_memory_storage \<Rightarrow> receipt_filter \<Rightarrow> heap \<Rightarrow> webhook_receipt list answer" where
  "shared_query a f h = mem_query f (h ! a)"

definition shared_store_with_deliveries ::
  "shared_memory_storage \<Rightarrow> dbenv \<Rightarrow> webhook_receipt \<Rightarrow> string list \<Rightarrow> heap \<Rightarrow> store_result answer \<times> heap" where
  "shared_store_with_deliveries a env r names = on_shared a (mem_store_with_deliveries env r names)"

section \<open>Verifiers\<close>

definition pass_verifier :: "string \<Rightarrow> verifier" where
  "pass_verifier provider =
     \<lparr>v_provider_name = provider,
      v_verify = (\<lambda>_ _ _. \<lparr>vr_status = VS_Verified, vr_reason = Some ''signature_valid''\<rparr>)\<rparr>"

definition fail_verifier :: "string \<Rightarrow> verifier" where
  "fail_verifier provider =
     \<lparr>v_provider_name = provider,
      v_verify = (\<lambda>_ _ _. \<lparr>vr_status = VS_Failed, vr_reason = Some ''invalid_signature''\<rparr>)\<rparr>"

section \<open>The pipeline of the scenarios\<close>

text \<open>\<^verbatim>\<open>HookboxPipeline<SharedMemoryStorage, InMemoryRecentDedupe>\<close> runs on its own cache and on the
  heap of stores.\<close>

type_synonym scenario_state = "recent_dedupe \<times> heap"

definition scenario_store ::
  "shared_memory_storage \<Rightarrow> dbenv \<Rightarrow> webhook_receipt \<Rightarrow> string list \<Rightarrow> scenario_state
     \<Rightarrow> store_result answer \<times> scenario_state" where
  "scenario_store a env r names w =
     (case shared_store_with_deliveries a env r names (snd w) of (res, h) \<Rightarrow> (res, (fst w, h)))"

definition scenario_check :: "scenario_state \<Rightarrow> string \<Rightarrow> string \<Rightarrow> dedupe_decision dedupe_answer" where
  "scenario_check w k h = recent_check (fst w) k h"

definition scenario_record ::
  "scenario_state \<Rightarrow> string \<Rightarrow> string \<Rightarrow> unit dedupe_answer \<times> scenario_state" where
  "scenario_record w k h = (case recent_record (fst w) k h of (res, c) \<Rightarrow> (res, (c, snd w)))"

text \<open>The builder calls every scenario makes: storage, dedupe, emitter names, verifiers in order.\<close>

definition scenario_builder ::
  "shared_memory_storage \<Rightarrow> string list \<Rightarrow> verifier list \<Rightarrow> scenario_state pipeline option" where
  "scenario_builder a names vs =
     builder_build (fold verifier_boxed vs
       (builder_emitter_names names
         (builder_dedupe scenario_check scenario_record
           (builder_storage (scenario_store a) pipeline_builder))))"

section \<open>PostgreSQL refines the in-memory storage\<close>

text \<open>The abstraction: every row decoded.\<close>

definition mem_abs :: "db \<Rightarrow> memory_storage" where
  "mem_abs d =
     \<lparr>ms_receipts = map decode_receipt (receipts d), ms_deliveries = map decode_delivery (deliveries d)\<rparr>"

lemma find_map: "find p (map f xs) = map_option f (find (\<lambda>x. p (f x)) xs)"
  by (induction xs) simp_all

lemma find_cong_set: "(\<And>x. x \<in> set xs \<Longrightarrow> p x = q x) \<Longrightarrow> find p xs = find q xs"
  by (induction xs) simp_all

lemma update_first_absent: "(\<And>x. x \<in> set xs \<Longrightarrow> \<not> p x) \<Longrightarrow> update_first p f xs = xs"
  by (induction xs) simp_all

lemma update_first_unique:
  "distinct (map key xs) \<Longrightarrow>
   update_first (\<lambda>x. key x = k) f xs = map (\<lambda>x. if key x = k then f x else x) xs"
proof (induction xs)
  case (Cons x xs)
  have "map (\<lambda>y. if key y = key x then f y else y) xs = xs"
    using Cons.prems by (intro map_idI) (metis distinct.simps(2) image_eqI list.set_map list.simps(9))
  then show ?case using Cons by auto
qed simp

lemma receipt_row_decodes:
  assumes "is_ok (receipt_from_row row)"
  obtains vs ps where "parse_verification_status_name (rr_verification_status row) = Ok vs"
    and "parse_processing_state_name (rr_processing_state row) = Ok ps"
  using conjunct1[OF assms[unfolded is_ok_receipt_from_row], unfolded is_ok_iff]
    conjunct2[OF assms[unfolded is_ok_receipt_from_row], unfolded is_ok_iff] by blast

lemma decode_receipt_sel:
  assumes "is_ok (receipt_from_row row)"
  shows "receipt_id (decode_receipt row) = ReceiptId (rr_receipt_id row)"
    and "dedupe_key (decode_receipt row) = rr_dedupe_key row"
    and "payload_hash (decode_receipt row) = rr_payload_hash row"
  by (rule receipt_row_decodes[OF assms]; simp add: receipt_from_row_def decode_receipt_def)+

lemma decode_receipt_update:
  assumes "is_ok (receipt_from_row row)"
  shows "decode_receipt (row\<lparr>rr_processing_state := processing_state_name st, rr_last_error := e\<rparr>) =
    (decode_receipt row)\<lparr>processing_state := st, last_error := e\<rparr>"
  by (rule receipt_row_decodes[OF assms]) (simp add: decode_receipt_def receipt_from_row_def)

lemma decode_pending_row:
  "decode_delivery (pending_row now did rid name) = fresh_delivery now did (ReceiptId rid) name"
  by (simp add: decode_delivery_def delivery_from_row_def pending_row_def fresh_delivery_def)

lemma push_deliveries_rows:
  "push_deliveries env k (ReceiptId rid) names ds = ds @ map decode_delivery (pending_rows env k rid names)"
  by (induction names arbitrary: k ds) (simp_all add: decode_pending_row)

lemma mem_abs_find_key:
  assumes "wf_db d"
  shows "find (\<lambda>e. dedupe_key e = k) (ms_receipts (mem_abs d)) =
    map_option decode_receipt (find (\<lambda>row. rr_dedupe_key row = k) (receipts d))"
proof -
  have "find (\<lambda>row. dedupe_key (decode_receipt row) = k) (receipts d)
      = find (\<lambda>row. rr_dedupe_key row = k) (receipts d)"
    using assms by (intro find_cong_set) (simp add: wf_db_def list_all_iff decode_receipt_sel)
  then show ?thesis by (simp add: mem_abs_def find_map)
qed

lemma mem_abs_get:
  assumes "wf_db d"
  shows "storage_get IO_Ok u d = mem_get u (mem_abs d)"
proof -
  have "find (\<lambda>row. rid_uuid (receipt_id (decode_receipt row)) = u) (receipts d)
      = find (\<lambda>row. rr_receipt_id row = u) (receipts d)"
    using assms by (intro find_cong_set) (simp add: wf_db_def list_all_iff decode_receipt_sel)
  moreover have "receipt_from_row row = Ok (decode_receipt row)"
    if "find (\<lambda>row. rr_receipt_id row = u) (receipts d) = Some row" for row
    using that assms decode_receipt_Ok by (auto simp: wf_db_def list_all_iff dest!: find_key_Some)
  ultimately show ?thesis
    by (cases "find (\<lambda>row. rr_receipt_id row = u) (receipts d)")
      (simp_all add: storage_get_def read_stmt_def mem_get_def mem_abs_def find_map)
qed

text \<open>The environment of a call that meets no fault and no clash of random identifiers.\<close>

definition calm_env :: "dbenv \<Rightarrow> uuid \<Rightarrow> nat \<Rightarrow> db \<Rightarrow> bool" where
  "calm_env env rid n d \<longleftrightarrow>
     (\<forall>k. e_io env k = IO_Ok) \<and> \<not> has_receipt rid d
     \<and> distinct (map (e_uuid env) [0 ..< n]) \<and> (\<forall>i \<in> {0 ..< n}. \<not> has_delivery (e_uuid env i) d)"

lemma mem_abs_store_with_deliveries:
  assumes "wf_db d" and "calm_env env (rid_uuid (receipt_id r)) (length names) d"
  shows "map_prod (\<lambda>res. res) mem_abs (store_with_deliveries env r names d) =
    mem_store_with_deliveries env r names (mem_abs d)"
proof (cases "find (\<lambda>row. rr_dedupe_key row = dedupe_key r) (receipts d)")
  case None
  then have "\<not> has_key (dedupe_key r) d" by (auto simp: find_None_iff has_key_iff)
  then have "store_with_deliveries env r names d = (Ok SR_Stored, fanout env r names d)"
    using store_with_deliveries_round_trip[OF assms(1), of env r names] assms(2) by (simp add: calm_env_def)
  moreover have "push_deliveries env 0 (receipt_id r) names ds
      = ds @ map decode_delivery (pending_rows env 0 (rid_uuid (receipt_id r)) names)" for ds
    using push_deliveries_rows[of env 0 "rid_uuid (receipt_id r)"] by simp
  ultimately show ?thesis
    using mem_abs_find_key[OF assms(1)] None
    by (simp add: mem_store_with_deliveries_def mem_store_def) (simp add: mem_abs_def fanout_def)
next
  case (Some row)
  then have row: "row \<in> set (receipts d)" "rr_dedupe_key row = dedupe_key r"
    by (auto dest: find_key_Some)
  then have "store_with_deliveries env r names d = (Ok (SR_Duplicate (ReceiptId (rr_receipt_id row))), d)"
    using store_duplicate_run[OF assms(1)] assms(2) by (simp add: calm_env_def)
  moreover have "receipt_id (decode_receipt row) = ReceiptId (rr_receipt_id row)"
    using row assms(1) by (simp add: wf_db_def list_all_iff decode_receipt_sel)
  ultimately show ?thesis
    using mem_abs_find_key[OF assms(1)] Some by (simp add: mem_store_with_deliveries_def mem_store_def)
qed

lemma mem_abs_update_state:
  assumes "wf_db d" and "e_io env 0 = IO_Ok"
  shows "map_prod (\<lambda>res. res) mem_abs (update_state env u st e d) = mem_update_state u st e (mem_abs d)"
proof -
  have ok: "is_ok (receipt_from_row row)" if "row \<in> set (receipts d)" for row
    using that assms(1) by (simp add: wf_db_def list_all_iff)
  have "map (\<lambda>r. rid_uuid (receipt_id r)) (ms_receipts (mem_abs d)) = map rr_receipt_id (receipts d)"
    by (simp add: mem_abs_def decode_receipt_sel[OF ok])
  then have "distinct (map (\<lambda>r. rid_uuid (receipt_id r)) (ms_receipts (mem_abs d)))"
    using assms(1) by (simp add: wf_db_def)
  note one = update_first_unique[OF this]
  show ?thesis
    using assms(2) unfolding mem_update_state_def one
    by (simp add: update_state_def exec_stmt_def update_receipts_def mem_abs_def decode_receipt_sel[OF ok]
        decode_receipt_update[OF ok])
qed

lemma mem_abs_deliveries_for_receipt:
  assumes "wf_db d" and "get_deliveries_for_receipt IO_Ok i d = Ok ds"
  shows "\<exists>es. deliveries_for_receipt i (mem_abs d) = Ok es \<and> mset ds = mset es"
proof -
  let ?rows = "filter (\<lambda>r. dr_receipt_id r = rid_uuid i) (deliveries d)"
  have dec: "delivery_from_row r = Ok (decode_delivery r)" if "r \<in> set (deliveries d)" for r
    using wf_delivery_from_row[OF assms(1) that] .
  have "wd_receipt_id (decode_delivery r) = ReceiptId (dr_receipt_id r)" if "r \<in> set (deliveries d)" for r
    using delivery_from_row_Ok that assms(1) by (auto simp: wf_db_def list_all_iff is_ok_iff)
  then have "filter (\<lambda>e. wd_receipt_id e = i) (map decode_delivery (deliveries d)) = map decode_delivery ?rows"
    by (cases i) (auto simp: filter_map comp_def intro!: arg_cong[where f = "map decode_delivery"] filter_cong)
  moreover have "ds = map decode_delivery (sort_key dr_created_at ?rows)"
    using assms(2) collect_results_all_Ok[of "sort_key dr_created_at ?rows" delivery_from_row decode_delivery] dec
    by (simp add: get_deliveries_for_receipt_def read_stmt_def)
  ultimately show ?thesis
    by (simp add: deliveries_for_receipt_def mem_abs_def)
qed

section \<open>The server's pipeline refines the scenarios'\<close>

definition scenario_pipeline ::
  "shared_memory_storage \<Rightarrow> string list \<Rightarrow> (string \<times> verifier) list \<Rightarrow> scenario_state pipeline" where
  "scenario_pipeline a names vs =
     \<lparr>p_store = scenario_store a, p_check = scenario_check, p_record = scenario_record,
      p_emitter_names = names, p_verifiers = vs\<rparr>"

lemma fold_verifier_boxed:
  "fold verifier_boxed vs b =
   b\<lparr>b_verifiers := fold (\<lambda>v. AList.update (v_provider_name v) v) vs (b_verifiers b)\<rparr>"
  by (induction vs arbitrary: b) (simp_all add: verifier_boxed_def)

lemma scenario_builder_pipeline:
  "scenario_builder a names vs =
   Some (scenario_pipeline a names (fold (\<lambda>v. AList.update (v_provider_name v) v) vs []))"
  by (simp add: scenario_builder_def fold_verifier_boxed builder_build_def builder_emitter_names_def
      builder_dedupe_def builder_storage_def pipeline_builder_def scenario_pipeline_def)

text \<open>A server world seen by a scenario: the same cache, the tables decoded into the store at \<open>a\<close>.\<close>

definition world_abs :: "shared_memory_storage \<Rightarrow> heap \<Rightarrow> world \<Rightarrow> scenario_state" where
  "world_abs a h w = (fst w, h[a := mem_abs (snd w)])"

lemma scenario_store_refined:
  assumes "wf_db (snd w)" and "calm_env env (rid_uuid (receipt_id r)) (length names) (snd w)"
    and "a < length h"
  shows "scenario_store a env r names (world_abs a h w) =
    map_prod (\<lambda>res. res) (world_abs a h) (pg_store env r names w)"
  using mem_abs_store_with_deliveries[OF assms(1,2)] assms(3)
  by (auto simp: scenario_store_def shared_store_with_deliveries_def on_shared_def world_abs_def pg_store_def
      split: prod.splits)

lemma scenario_record_refined:
  "snd (scenario_record (world_abs a h w) k v) =
   world_abs a h (snd (layered_record recent_record storage_dedupe_record w k v))"
  by (auto simp: scenario_record_def world_abs_def layered_record_def storage_dedupe_record_def
      recent_record_def Let_def)

lemma run_verification_verifiers:
  "p_verifiers p = p_verifiers q \<Longrightarrow>
   run_verification p clock provider hs body = run_verification q clock provider hs body"
  by (simp add: run_verification_def Let_def)

lemma recent_check_total: "recent_inv c \<Longrightarrow> \<exists>a. recent_check c k h = Ok a"
  by (auto simp: recent_check_def split: option.split)

text \<open>Two ingests that store alike and check alike are alike: only the advisory answers may differ.\<close>

lemma ingest_simulation:
  fixes p :: "'w pipeline" and q :: "'v pipeline"
  assumes names: "p_emitter_names p = p_emitter_names q" and vs: "p_verifiers p = p_verifiers q"
    and same: "ie_receipt_id env = ie_receipt_id env'" "ie_clock env = ie_clock env'"
      "ie_now env = ie_now env'" "ie_db env = ie_db env'"
    and gaps: "ie_gap1 env = (\<lambda>w. w)" "ie_gap2 env = (\<lambda>w. w)" "ie_gap1 env' = (\<lambda>w. w)" "ie_gap2 env' = (\<lambda>w. w)"
    and chk: "is_ok (p_check p w (provider @ '':'' @ compute_payload_hash x body) (compute_payload_hash x body))"
      "is_ok (p_check q (f w) (provider @ '':'' @ compute_payload_hash x body) (compute_payload_hash x body))"
    and store: "\<And>status reason. p_store q (ie_db env)
        (build_receipt x (ie_receipt_id env) (ie_now env) provider hs body status reason) (p_emitter_names p) (f w) =
      map_prod (\<lambda>res. res) f (p_store p (ie_db env)
        (build_receipt x (ie_receipt_id env) (ie_now env) provider hs body status reason) (p_emitter_names p) w)"
    and rec: "\<And>w k h. snd (p_record q (f w) k h) = f (snd (p_record p w k h))"
  shows "fst (ingest x q env' provider hs body (f w)) = fst (ingest x p env provider hs body w)
    \<and> snd (snd (ingest x q env' provider hs body (f w))) = f (snd (snd (ingest x p env provider hs body w)))"
proof -
  obtain vres ms where v: "run_verification p (ie_clock env) provider hs body = (vres, ms)" by fastforce
  have v': "run_verification q (ie_clock env') provider hs body = (vres, ms)"
    using run_verification_verifiers[OF vs] v same(2) by metis
  show ?thesis
  proof (cases vres)
    case (Err reason)
    then show ?thesis using v v' by (simp add: ingest_def Let_def)
  next
    case (Ok sr)
    obtain status reason where sr: "sr = (status, reason)" by (cases sr)
    obtain a b where "p_check p w (provider @ '':'' @ compute_payload_hash x body) (compute_payload_hash x body) = Ok a"
      "p_check q (f w) (provider @ '':'' @ compute_payload_hash x body) (compute_payload_hash x body) = Ok b"
      using chk by (auto simp: is_ok_iff)
    then show ?thesis
      using v v' Ok sr store[of status reason] names same gaps rec
      by (cases "p_store p (ie_db env) (build_receipt x (ie_receipt_id env) (ie_now env) provider hs body
            status reason) (p_emitter_names p) w")
        (auto simp: ingest_def Let_def split: result.split store_result.split)
  qed
qed

text \<open>C12. What the in-memory scenarios show of the pipeline carries over to the server: when the database
  answers, random identifiers are fresh and no other task interferes, ingesting a webhook into the
  PostgreSQL-backed pipeline gives the same answer as ingesting it into the in-memory one whose store
  holds the decoded tables, and leaves tables that decode to what the in-memory store holds, with the
  same cache; for every verifier list, emitter list and request, duplicates and rejections included.\<close>

theorem server_ingest_refines_scenario_ingest:
  fixes env :: "world ingest_env" and env' :: "scenario_state ingest_env"
  assumes "world_inv w" and "a < length h"
    and "calm_env (ie_db env) (ie_receipt_id env) (length names) (snd w)"
    and "ie_receipt_id env = ie_receipt_id env'" and "ie_clock env = ie_clock env'"
    and "ie_now env = ie_now env'" and "ie_db env = ie_db env'"
    and "ie_gap1 env = (\<lambda>w. w)" and "ie_gap2 env = (\<lambda>w. w)"
    and "ie_gap1 env' = (\<lambda>w. w)" and "ie_gap2 env' = (\<lambda>w. w)"
  shows "fst (ingest x (scenario_pipeline a names vs) env' provider hs body (world_abs a h w)) =
      fst (ingest x (server_pipeline IO_Ok names vs) env provider hs body w)
    \<and> snd (snd (ingest x (scenario_pipeline a names vs) env' provider hs body (world_abs a h w))) =
      world_abs a h (snd (snd (ingest x (server_pipeline IO_Ok names vs) env provider hs body w)))"
proof (rule ingest_simulation[OF _ _ assms(4-11)])
  have inv: "recent_inv (fst w)" "wf_db (snd w)" using assms(1) by (simp_all add: world_inv_def db_inv_def)
  let ?key = "provider @ '':'' @ compute_payload_hash x body"
  show "is_ok (p_check (server_pipeline IO_Ok names vs) w ?key (compute_payload_hash x body))"
    using layered_check_total[OF inv(1)] by (simp add: server_pipeline_def is_ok_iff)
  show "is_ok (p_check (scenario_pipeline a names vs) (world_abs a h w) ?key (compute_payload_hash x body))"
    using recent_check_total[OF inv(1)] by (simp add: scenario_pipeline_def scenario_check_def world_abs_def is_ok_iff)
  show "p_store (scenario_pipeline a names vs) (ie_db env)
      (build_receipt x (ie_receipt_id env) (ie_now env) provider hs body status reason)
      (p_emitter_names (server_pipeline IO_Ok names vs)) (world_abs a h w) =
    map_prod (\<lambda>res. res) (world_abs a h) (p_store (server_pipeline IO_Ok names vs) (ie_db env)
      (build_receipt x (ie_receipt_id env) (ie_now env) provider hs body status reason)
      (p_emitter_names (server_pipeline IO_Ok names vs)) w)" for status reason
    using scenario_store_refined[OF inv(2) _ assms(2)] assms(3)
    by (simp add: scenario_pipeline_def server_pipeline_def build_receipt_def)
  show "snd (p_record (scenario_pipeline a names vs) (world_abs a h w) k v) =
      world_abs a h (snd (p_record (server_pipeline IO_Ok names vs) w k v))" for w k v
    by (simp add: scenario_pipeline_def server_pipeline_def scenario_record_refined)
qed (simp_all add: scenario_pipeline_def server_pipeline_def)

section \<open>The scenario pipeline meets the storage contract\<close>

definition mem_holds_key :: "memory_storage \<Rightarrow> string \<Rightarrow> receiptid \<Rightarrow> bool" where
  "mem_holds_key s k i = list_ex (\<lambda>r. dedupe_key r = k \<and> receipt_id r = i) (ms_receipts s)"

definition mem_committed :: "memory_storage \<Rightarrow> webhook_receipt \<Rightarrow> string list \<Rightarrow> bool" where
  "mem_committed s r names \<longleftrightarrow>
     r \<in> set (ms_receipts s)
     \<and> mset names \<subseteq># mset (map wd_emitter_name (filter (\<lambda>d. wd_receipt_id d = receipt_id r) (ms_deliveries s)))"

definition scenario_inv :: "shared_memory_storage \<Rightarrow> scenario_state \<Rightarrow> bool" where
  "scenario_inv a w \<longleftrightarrow> recent_inv (fst w) \<and> a < length (snd w)"

fun fresh_deliveries :: "dbenv \<Rightarrow> nat \<Rightarrow> receiptid \<Rightarrow> string list \<Rightarrow> webhook_delivery list" where
  "fresh_deliveries env k rid [] = []"
| "fresh_deliveries env k rid (name # names) =
     fresh_delivery (e_now env) (e_uuid env k) rid name # fresh_deliveries env (Suc k) rid names"

lemma push_deliveries_append: "push_deliveries env k rid names ds = ds @ fresh_deliveries env k rid names"
  by (induction names arbitrary: k ds) simp_all

lemma fresh_deliveries_emitters [simp]: "map wd_emitter_name (fresh_deliveries env k rid names) = names"
  by (induction names arbitrary: k) (simp_all add: fresh_delivery_def)

lemma fresh_deliveries_fields:
  "d \<in> set (fresh_deliveries env k rid names) \<Longrightarrow>
   wd_receipt_id d = rid \<and> wd_state d = DS_Pending \<and> wd_attempt_count d = 0 \<and> \<not> wd_immutable d
   \<and> wd_next_attempt_at d = e_now env \<and> wd_created_at d = e_now env \<and> wd_emitter_name d \<in> set names"
  by (induction names arbitrary: k) (auto simp: fresh_delivery_def)

lemma fresh_deliveries_ids:
  "map wd_delivery_id (fresh_deliveries env k rid names) =
   map (\<lambda>i. DeliveryId (e_uuid env i)) [k ..< k + length names]"
proof (induction names arbitrary: k)
  case (Cons n names)
  have "[k ..< k + length (n # names)] = k # [Suc k ..< Suc k + length names]"
    by (simp add: upt_conv_Cons del: upt_Suc)
  then show ?case using Cons[of "Suc k"] by (simp add: fresh_delivery_def del: upt_Suc)
qed simp

text \<open>What \<^verbatim>\<open>store_with_deliveries\<close> does: all, or nothing when the key is known.\<close>

lemma mem_store_with_deliveries_cases:
  obtains (Stored) "\<forall>e \<in> set (ms_receipts s). dedupe_key e \<noteq> dedupe_key r"
      "mem_store_with_deliveries env r names s = (Ok SR_Stored,
         s\<lparr>ms_receipts := ms_receipts s @ [r],
           ms_deliveries := ms_deliveries s @ fresh_deliveries env 0 (receipt_id r) names\<rparr>)"
  | (Duplicate) e where "e \<in> set (ms_receipts s)" "dedupe_key e = dedupe_key r"
      "mem_store_with_deliveries env r names s = (Ok (SR_Duplicate (receipt_id e)), s)"
proof (cases "find (\<lambda>e. dedupe_key e = dedupe_key r) (ms_receipts s)")
  case None
  then have "\<forall>e \<in> set (ms_receipts s). dedupe_key e \<noteq> dedupe_key r" by (auto simp: find_None_iff)
  then show thesis
    by (rule Stored) (simp add: mem_store_with_deliveries_def mem_store_def push_deliveries_append None)
next
  case (Some e)
  then show thesis
    by (intro Duplicate[of e])
      (use find_key_Some[of dedupe_key, OF Some] in \<open>auto simp: mem_store_with_deliveries_def mem_store_def\<close>)
qed

lemma scenario_store_cases:
  assumes "scenario_inv a w"
  obtains (Stored) "\<forall>e \<in> set (ms_receipts (snd w ! a)). dedupe_key e \<noteq> dedupe_key r"
      "scenario_store a env r names w = (Ok SR_Stored, (fst w, (snd w)[a := (snd w ! a)
         \<lparr>ms_receipts := ms_receipts (snd w ! a) @ [r],
          ms_deliveries := ms_deliveries (snd w ! a) @ fresh_deliveries env 0 (receipt_id r) names\<rparr>]))"
  | (Duplicate) e where "e \<in> set (ms_receipts (snd w ! a))" "dedupe_key e = dedupe_key r"
      "scenario_store a env r names w = (Ok (SR_Duplicate (receipt_id e)), w)"
  by (cases rule: mem_store_with_deliveries_cases[of "snd w ! a" r env names])
    (auto intro: that simp: scenario_store_def shared_store_with_deliveries_def on_shared_def)

interpretation scenario: ingest_storage "scenario_pipeline a names vs" "scenario_inv a"
  "\<lambda>w. snd w ! a" mem_holds_key mem_committed for a names vs
proof (unfold_locales, goal_cases)
  case (1 w e r ns)
  then show ?case
    by (cases rule: scenario_store_cases[OF 1, of r e ns])
      (auto simp: scenario_pipeline_def scenario_inv_def)
next
  case (2 w e r ns w1)
  from 2(1) have a: "a < length (snd w)" by (simp add: scenario_inv_def)
  have "filter (\<lambda>d. wd_receipt_id d = receipt_id r) (fresh_deliveries e 0 (receipt_id r) ns)
      = fresh_deliveries e 0 (receipt_id r) ns"
    using fresh_deliveries_fields by (simp add: filter_id_conv)
  then have all: "image_mset wd_emitter_name
      {#d \<in># mset (fresh_deliveries e 0 (receipt_id r) ns). wd_receipt_id d = receipt_id r#} = mset ns"
    by (simp flip: mset_filter mset_map)
  show ?case
    by (cases rule: scenario_store_cases[OF 2(1), of r e ns])
      (use 2(2) a all in \<open>auto simp: scenario_pipeline_def mem_holds_key_def mem_committed_def list_ex_iff\<close>)
next
  case (3 w e r ns i w1)
  then show ?case
    by (cases rule: scenario_store_cases[OF 3(1), of r e ns])
      (auto simp: scenario_pipeline_def mem_holds_key_def list_ex_iff)
next
  case (4 w k h)
  then show ?case using recent.record_inv[of "fst w" k h]
    by (auto simp: scenario_inv_def scenario_pipeline_def scenario_record_def split: prod.splits)
next
  case (5 w k h)
  then show ?case by (auto simp: scenario_pipeline_def scenario_record_def split: prod.splits)
qed

definition calm_ienv :: "uuid \<Rightarrow> nat \<Rightarrow> 'w ingest_env" where
  "calm_ienv u base = \<lparr>ie_receipt_id = u, ie_clock = 5, ie_now = 5, ie_db = env_ok 5 base,
      ie_gap1 = (\<lambda>w. w), ie_gap2 = (\<lambda>w. w)\<rparr>"

theorem server_ingest_refines_witness:
  "fst (ingest ext0 (scenario_pipeline 0 [''kafka''] []) (calm_ienv 1 10) ''stripe'' [] ''{}''
      (world_abs 0 [memory_new] world0)) =
   fst (ingest ext0 (server_pipeline IO_Ok [''kafka''] []) (calm_ienv 1 10) ''stripe'' [] ''{}'' world0)"
proof -
  have "calm_env (env_ok 5 10) 1 1 (snd world0)"
    by (simp add: calm_env_def env_ok_def world0_def empty_db_def table_iffs)
  then show ?thesis
    using server_ingest_refines_scenario_ingest[OF world0_inv, of 0 "[memory_new]" "calm_ienv 1 10"
        "[''kafka'']" "calm_ienv 1 10"]
    by (simp add: calm_ienv_def)
qed

end
