(* ===== verification/Typing.thy ===== *)
theory Typing
  imports System Memory
begin

text \<open>
  Type safety of the tables. The enum columns are text; reading a row decodes them and fails with a
  serialization error on a name that is not a variant. Shown: in a running system no read of
  \<^verbatim>\<open>crates/hookbox-postgres/src/storage.rs\<close> ever fails that way, since every row any task writes carries
  the name of a variant.
\<close>

section \<open>Answers without type errors\<close>

definition well_typed :: "'a answer \<Rightarrow> bool" where
  "well_typed r \<longleftrightarrow> (case r of Err (SE_Serialization _) \<Rightarrow> False | _ \<Rightarrow> True)"

lemma well_typed_Ok [simp]: "well_typed (Ok a)" and well_typed_Internal [simp]: "well_typed (Err (SE_Internal e))"
  by (simp_all add: well_typed_def)

lemma well_typed_read [simp]: "well_typed (read_stmt out q d)"
  by (cases "q d") (auto simp: read_stmt_def split: io.split)

lemma well_typed_and_then:
  "well_typed r \<Longrightarrow> (\<And>a. r = Ok a \<Longrightarrow> well_typed (k a)) \<Longrightarrow> well_typed (and_then r k)"
  by (cases r) (auto simp: well_typed_def)

lemma well_typed_is_ok: "is_ok r \<Longrightarrow> well_typed r"
  by (auto simp: is_ok_iff)

lemma well_typed_collect: "(\<And>x. x \<in> set xs \<Longrightarrow> is_ok (f x)) \<Longrightarrow> well_typed (collect_results f xs)"
proof -
  assume ok: "\<And>x. x \<in> set xs \<Longrightarrow> is_ok (f x)"
  have "f x = Ok (case f x of Ok y \<Rightarrow> y)" if "x \<in> set xs" for x
    using ok[OF that] by (auto simp: is_ok_iff)
  then have "collect_results f xs = Ok (map (\<lambda>x. case f x of Ok y \<Rightarrow> y) xs)" by (rule collect_results_all_Ok)
  then show ?thesis by simp
qed

lemma read_rows: "read_stmt out q d = Ok a \<Longrightarrow> q d = Ok a"
  by (simp add: read_stmt_Ok)

lemma sql_window_sub: "sql_window l k xs = Ok ys \<Longrightarrow> set ys \<subseteq> set xs"
  by (auto simp: sql_window_def split: if_splits dest: in_set_takeD in_set_dropD)

section \<open>The reads\<close>

lemma receipts_typed:
  assumes "wf_db d" and "set rows \<subseteq> set (receipts d)"
  shows "well_typed (collect_results receipt_from_row rows)"
  using assms by (intro well_typed_collect) (auto simp: wf_db_def list_all_iff)

lemma get_typed: "wf_db d \<Longrightarrow> well_typed (storage_get out u d)"
proof -
  assume wf: "wf_db d"
  have "well_typed (storage_get IO_Ok u d)" using mem_abs_get[OF wf] by (simp add: mem_get_def)
  then show ?thesis by (cases out) (simp_all add: storage_get_def read_stmt_def)
qed

lemma receipt_reads_typed:
  assumes "wf_db d"
  shows "well_typed (storage_query out f d)" and "well_typed (query_for_retry out n d)"
    and "well_typed (query_by_external_reference out eref lmt d)"
    and "well_typed (query_failed_since out provider since lmt d)"
proof -
  note step = well_typed_and_then[OF well_typed_read receipts_typed[OF assms]]
  show "well_typed (storage_query out f d)"
    unfolding storage_query_def Let_def
    by (rule step) (auto simp: newest_first_def dest!: read_rows sql_window_sub)
  show "well_typed (query_for_retry out n d)"
    unfolding query_for_retry_def
    by (rule step) (auto simp: oldest_first_def dest!: read_rows in_set_takeD)
  show "well_typed (query_by_external_reference out eref lmt d)"
    unfolding query_by_external_reference_def
    by (rule step) (auto simp: newest_first_def dest!: read_rows sql_window_sub)
  show "well_typed (query_failed_since out provider since lmt d)"
    unfolding query_failed_since_def
    by (rule step) (auto simp: oldest_first_def dest!: read_rows sql_window_sub)
qed

lemma with_receipts_typed:
  assumes "wf_db d" and "\<And>r. r \<in> set rows \<Longrightarrow> is_ok (parse_delivery_state_name (dr_state r))"
  shows "well_typed (with_receipts env k rows d)"
  using assms(2)
proof (induction rows arbitrary: k)
  case (Cons row rows)
  have "is_ok (delivery_from_row row)"
    using Cons.prems[of row] delivery_from_row_Ok[of row] by (auto simp: is_ok_iff)
  then obtain x where "delivery_from_row row = Ok x" by (auto simp: is_ok_iff)
  moreover have "well_typed (and_then (storage_get (e_io env k) (dr_receipt_id row) d) (\<lambda>found.
      case found of None \<Rightarrow> Err (SE_Internal ''delivery references missing receipt'')
      | Some receipt \<Rightarrow> and_then (with_receipts env (Suc k) rows d) (\<lambda>rest. Ok ((y, receipt) # rest))))" for y
    using Cons get_typed[OF assms(1)] by (intro well_typed_and_then) (auto split: option.split intro!: well_typed_and_then)
  ultimately show ?case by simp
qed simp

lemma delivery_reads_typed:
  assumes "wf_db d"
  shows "well_typed (get_delivery env i d)" and "well_typed (get_deliveries_for_receipt out j d)"
    and "well_typed (list_dlq env emitter lmt off d)"
proof -
  have dec: "is_ok (parse_delivery_state_name (dr_state r))" if "r \<in> set (deliveries d)" for r
    using assms that by (simp add: wf_db_def list_all_iff)
  have row: "is_ok (delivery_from_row r)" if "r \<in> set (deliveries d)" for r
    using wf_delivery_from_row[OF assms that] by simp
  show "well_typed (get_delivery env i d)"
    unfolding get_delivery_def
    by (rule well_typed_and_then[OF well_typed_read])
      (auto split: option.split intro!: well_typed_and_then get_typed[OF assms] well_typed_is_ok[OF row]
        dest!: read_rows find_key_Some)
  show "well_typed (get_deliveries_for_receipt out j d)"
    unfolding get_deliveries_for_receipt_def
    by (rule well_typed_and_then[OF well_typed_read well_typed_collect]) (auto dest!: read_rows intro!: row)
  show "well_typed (list_dlq env emitter lmt off d)"
    unfolding list_dlq_def
    by (rule well_typed_and_then[OF well_typed_read with_receipts_typed[OF assms]])
      (auto dest!: read_rows sql_window_sub intro!: dec)
qed

lemma claim_typed:
  assumes "db_inv d" shows "well_typed (fst (claim_pending env e b d))"
proof -
  have wf: "wf_db d" "wf_db (after_claim (e_now env) (e_locked env) e (nat b) d)"
    using assms after_claim_step[OF assms] by (simp_all add: db_inv_def)
  have "well_typed (with_receipts env 1 (map (lease (e_now env)) rows) (after_claim (e_now env) (e_locked env) e (nat b) d))"
    for rows
    by (rule with_receipts_typed[OF wf(2)]) (auto simp: lease_def)
  then show ?thesis
    by (auto simp: claim_pending_def exec_stmt_def claim_stmt_eq[OF wf(1)] split: io.split)
qed

end
