(* ===== verification/Scenario.thy ===== *)
theory Scenario
  imports Memory Cli
begin

text \<open>
  The fake emitter and the test world of the scenario suite (\<^verbatim>\<open>scenario-tests/src/fake_emitter.rs\<close>,
  \<^verbatim>\<open>world.rs\<close>). \<open>None\<close> is a panic, which fails the scenario. Clock readings, random samples and the
  power function are inputs; \<open>re_debug\<close> says whether overflow checks and debug assertions are on.
  Shown: driving deliveries until exhaustion never panics, ends within \<^verbatim>\<open>max_attempts\<close> rounds with
  every row terminal, and each row's fate is what its emitter's behaviour says; driving them to
  completion leaves a failing delivery waiting for its retry.
\<close>

section \<open>Checked arithmetic\<close>

definition i32_plus :: "bool \<Rightarrow> int \<Rightarrow> int \<Rightarrow> int option" where
  "i32_plus debug a b = (if is_i32 (a + b) then Some (a + b) else if debug then None else Some (i32_add a b))"

definition u32_plus :: "bool \<Rightarrow> nat \<Rightarrow> nat \<Rightarrow> nat option" where
  "u32_plus debug a b =
     (if a + b < 2 ^ 32 then Some (a + b) else if debug then None else Some ((a + b) mod 2 ^ 32))"

text \<open>\<^verbatim>\<open>DateTime + std::time::Duration\<close>.\<close>

definition utc_add_std :: "timestamp \<Rightarrow> duration \<Rightarrow> timestamp option" where
  "utc_add_std now dur = (case chrono_from_std dur of None \<Rightarrow> None | Some delta \<Rightarrow> utc_add now delta)"

section \<open>Debug for Duration\<close>

text \<open>The integer part, then the fraction (\<open>width\<close> digits) without its trailing zeros.\<close>

definition fmt_decimal :: "nat \<Rightarrow> nat \<Rightarrow> nat \<Rightarrow> string" where
  "fmt_decimal whole part width =
     dec whole @
     (if part = 0 then []
      else let digits = replicate (width - length (dec part)) (CHR ''0'') @ dec part in
        CHR ''.'' # rev (dropWhile (\<lambda>c. c = CHR ''0'') (rev digits)))"

definition micro_sign :: string where
  "micro_sign = map char_of [194, 181 :: nat]"

definition duration_debug :: "duration \<Rightarrow> string" where
  "duration_debug dur =
     (let secs = dur div nanos_per_sec; nanos = dur mod nanos_per_sec in
      if secs > 0 then fmt_decimal secs nanos 9 @ ''s''
      else if nanos \<ge> 1000000 then fmt_decimal (nanos div 1000000) (nanos mod 1000000) 6 @ ''ms''
      else if nanos \<ge> 1000 then fmt_decimal (nanos div 1000) (nanos mod 1000) 3 @ micro_sign @ ''s''
      else fmt_decimal nanos 0 0 @ ''ns'')"

section \<open>FakeEmitter\<close>

datatype emitter_behavior =
    EB_Healthy
  | EB_FailFor duration
  | EB_FailUntilAttempt nat
  | EB_Slow duration
  | EB_AlwaysFail

record fake_emitter =
  fe_name :: string
  fe_behavior :: emitter_behavior
  fe_received :: "normalized_event list"
  fe_attempt_count :: nat
  fe_fail_start :: "nat option" \<comment> \<open>an instant, in nanoseconds\<close>

definition fake_new :: "string \<Rightarrow> emitter_behavior \<Rightarrow> fake_emitter" where
  "fake_new name behavior =
     \<lparr>fe_name = name, fe_behavior = behavior, fe_received = [], fe_attempt_count = 0, fe_fail_start = None\<rparr>"

definition received_count :: "fake_emitter \<Rightarrow> nat" where
  "received_count e = length (fe_received e)"

definition attempt_count :: "fake_emitter \<Rightarrow> nat" where
  "attempt_count e = fe_attempt_count e"

definition received_events :: "fake_emitter \<Rightarrow> normalized_event list" where
  "received_events e = fe_received e"

definition set_behavior :: "emitter_behavior \<Rightarrow> fake_emitter \<Rightarrow> (unit, string) result \<times> fake_emitter" where
  "set_behavior behavior e = (Ok (), e\<lparr>fe_behavior := behavior, fe_fail_start := None\<rparr>)"

definition receive :: "normalized_event \<Rightarrow> fake_emitter \<Rightarrow> (unit, emit_error) result \<times> fake_emitter" where
  "receive event e = (Ok (), e\<lparr>fe_received := fe_received e @ [event]\<rparr>)"

text \<open>\<open>now1\<close> and \<open>now2\<close> are the instants read when the failure window opens and when it is measured;
  \<^verbatim>\<open>elapsed\<close> saturates at zero.\<close>

definition fake_emit ::
  "bool \<Rightarrow> nat \<Rightarrow> nat \<Rightarrow> normalized_event \<Rightarrow> fake_emitter
     \<Rightarrow> ((unit, emit_error) result \<times> fake_emitter) option" where
  "fake_emit debug now1 now2 event e =
     (case u32_plus debug (fe_attempt_count e) 1 of
        None \<Rightarrow> None
      | Some attempt \<Rightarrow>
          (let e1 = e\<lparr>fe_attempt_count := attempt\<rparr> in
           Some (case fe_behavior e of
              EB_Healthy \<Rightarrow> receive event e1
            | EB_AlwaysFail \<Rightarrow> (Err (EE_Downstream (fe_name e @ '': always-fail emitter'')), e1)
            | EB_FailUntilAttempt threshold \<Rightarrow>
                if attempt < threshold
                then (Err (EE_Downstream (fe_name e @ '': failing on attempt '' @ dec attempt
                             @ '', threshold '' @ dec threshold)), e1)
                else receive event e1
            | EB_Slow delay \<Rightarrow> receive event e1
            | EB_FailFor dur \<Rightarrow>
                (let start = (case fe_fail_start e of Some t \<Rightarrow> t | None \<Rightarrow> now1);
                     e2 = e1\<lparr>fe_fail_start := Some start\<rparr> in
                 if now2 - start < dur
                 then (Err (EE_Downstream (fe_name e @ '': failing for '' @ duration_debug dur
                              @ '' since start'')), e2)
                 else receive event e2))))"

section \<open>Attempting a delivery\<close>

text \<open>What one attempt reads from its surroundings: the \<^verbatim>\<open>Utc::now()\<close> of \<^verbatim>\<open>last_attempt_at\<close> and of
  \<^verbatim>\<open>emitted_at\<close> or \<^verbatim>\<open>next_attempt_at\<close>, two instants, and the random sample of the backoff.\<close>

record attempt_env =
  at_last :: timestamp
  at_next :: timestamp
  at_instant1 :: nat
  at_instant2 :: nat
  at_sample :: f64

text \<open>Round \<open>r\<close> of a run: the clock of \<^verbatim>\<open>pending_deliveries\<close>, the clock when the i-th row is made due,
  and the i-th attempt.\<close>

record run_env =
  re_debug :: bool
  re_powi :: "f64 \<Rightarrow> int \<Rightarrow> f64"
  re_now :: "nat \<Rightarrow> timestamp"
  re_due :: "nat \<Rightarrow> nat \<Rightarrow> timestamp"
  re_attempt :: "nat \<Rightarrow> nat \<Rightarrow> attempt_env"

record run_state =
  rs_store :: memory_storage
  rs_emitters :: "(string \<times> fake_emitter) list"

definition mark_success :: "bool \<Rightarrow> bool \<Rightarrow> attempt_env \<Rightarrow> webhook_delivery \<Rightarrow> webhook_delivery option" where
  "mark_success counted debug env row =
     (case (if counted then i32_plus debug (wd_attempt_count row) 1 else Some (wd_attempt_count row)) of
        None \<Rightarrow> None
      | Some n \<Rightarrow> Some (row\<lparr>wd_state := DS_Emitted, wd_attempt_count := n,
                            wd_last_attempt_at := Some (at_last env), wd_emitted_at := Some (at_next env)\<rparr>))"

definition mark_exhausted :: "attempt_env \<Rightarrow> int \<Rightarrow> string \<Rightarrow> webhook_delivery \<Rightarrow> webhook_delivery option" where
  "mark_exhausted env n err row =
     Some (row\<lparr>wd_state := DS_DeadLettered, wd_attempt_count := n,
               wd_last_attempt_at := Some (at_last env), wd_last_error := Some err\<rparr>)"

definition mark_retry :: "attempt_env \<Rightarrow> int \<Rightarrow> string \<Rightarrow> duration \<Rightarrow> webhook_delivery \<Rightarrow> webhook_delivery option" where
  "mark_retry env n err backoff row =
     (case utc_add_std (at_next env) backoff of
        None \<Rightarrow> None
      | Some t \<Rightarrow> Some (row\<lparr>wd_state := DS_Failed, wd_attempt_count := n,
                            wd_last_attempt_at := Some (at_last env), wd_last_error := Some err,
                            wd_next_attempt_at := t\<rparr>))"

text \<open>The \<^verbatim>\<open>Err(err)\<close> arm: dead-letter when the attempts are used up, otherwise back off.\<close>

definition after_failure ::
  "run_env \<Rightarrow> attempt_env \<Rightarrow> webhook_delivery \<Rightarrow> string \<Rightarrow> memory_storage
     \<Rightarrow> (unit answer \<times> memory_storage) option" where
  "after_failure env att delivery err s =
     (let policy = retry_policy_default in
      (case i32_plus (re_debug env) (wd_attempt_count delivery) 1 of
         None \<Rightarrow> None
       | Some new_attempt \<Rightarrow>
           if new_attempt \<ge> max_attempts policy
           then update_delivery (wd_delivery_id delivery) (mark_exhausted att new_attempt err) s
           else (case compute_backoff (re_debug env) (re_powi env) (at_sample att) new_attempt policy of
                   None \<Rightarrow> None
                 | Some backoff \<Rightarrow>
                     update_delivery (wd_delivery_id delivery) (mark_retry att new_attempt err backoff) s)))"

text \<open>The body of the inner loop. The two drivers differ in one line: whether a success counts as an
  attempt (\<open>counted\<close>). Every \<^verbatim>\<open>expect\<close> panics on \<^verbatim>\<open>Err\<close>.\<close>

definition attempt_delivery ::
  "bool \<Rightarrow> run_env \<Rightarrow> attempt_env \<Rightarrow> webhook_delivery \<Rightarrow> run_state \<Rightarrow> run_state option" where
  "attempt_delivery counted env att delivery st =
     (case mem_get (rid_uuid (wd_receipt_id delivery)) (rs_store st) of
        Err _ \<Rightarrow> None
      | Ok None \<Rightarrow> Some st
      | Ok (Some receipt) \<Rightarrow>
     (case map_of (rs_emitters st) (wd_emitter_name delivery) of
        None \<Rightarrow> None
      | Some emitter \<Rightarrow>
     (case fake_emit (re_debug env) (at_instant1 att) (at_instant2 att) (from_receipt receipt) emitter of
        None \<Rightarrow> None
      | Some (res, emitter') \<Rightarrow>
          (let emitters' = bt_insert (wd_emitter_name delivery) emitter' (rs_emitters st) in
           (case (case res of
                    Ok _ \<Rightarrow> update_delivery (wd_delivery_id delivery) (mark_success counted (re_debug env) att) (rs_store st)
                  | Err err \<Rightarrow> after_failure env att delivery (emit_error_to_string err) (rs_store st)) of
              None \<Rightarrow> None
            | Some (Err _, _) \<Rightarrow> None
            | Some (Ok _, s) \<Rightarrow> Some \<lparr>rs_store = s, rs_emitters = emitters'\<rparr>)))))"

fun attempt_all ::
  "bool \<Rightarrow> run_env \<Rightarrow> (nat \<Rightarrow> attempt_env) \<Rightarrow> webhook_delivery list \<Rightarrow> run_state \<Rightarrow> run_state option" where
  "attempt_all counted env ats [] st = Some st"
| "attempt_all counted env ats (d # ds) st =
     (case attempt_delivery counted env (ats 0) d st of
        None \<Rightarrow> None
      | Some st1 \<Rightarrow> attempt_all counted env (\<lambda>i. ats (Suc i)) ds st1)"

section \<open>Driving deliveries\<close>

text \<open>\<^verbatim>\<open>for _round in 0..n\<close> of \<^verbatim>\<open>run_deliveries_to_completion\<close>, from round \<open>r\<close> on.\<close>

fun completion_rounds :: "nat \<Rightarrow> nat \<Rightarrow> run_env \<Rightarrow> run_state \<Rightarrow> run_state option" where
  "completion_rounds 0 r env st = Some st"
| "completion_rounds (Suc n) r env st =
     (case pending_deliveries (re_now env r) (rs_store st) of
        Err _ \<Rightarrow> None
      | Ok [] \<Rightarrow> Some st
      | Ok pending \<Rightarrow>
          (case attempt_all False env (re_attempt env r) pending st of
             None \<Rightarrow> None
           | Some st1 \<Rightarrow> completion_rounds n (Suc r) env st1))"

definition is_open :: "webhook_delivery \<Rightarrow> bool" where
  "is_open d \<longleftrightarrow> \<not> wd_immutable d \<and> (wd_state d = DS_Pending \<or> wd_state d = DS_Failed)"

definition is_terminal :: "webhook_delivery \<Rightarrow> bool" where
  "is_terminal d \<longleftrightarrow> wd_state d = DS_Emitted \<or> wd_state d = DS_DeadLettered"

text \<open>The loop that makes every open row due; the i-th row would get the reading \<open>f i\<close>.\<close>

fun make_due :: "(nat \<Rightarrow> timestamp) \<Rightarrow> webhook_delivery list \<Rightarrow> webhook_delivery list" where
  "make_due f [] = []"
| "make_due f (d # ds) =
     (if is_open d then d\<lparr>wd_next_attempt_at := f 0\<rparr> else d) # make_due (\<lambda>i. f (Suc i)) ds"

text \<open>\<^verbatim>\<open>for _round in 0..n\<close> of \<^verbatim>\<open>run_until_exhausted\<close>, from round \<open>r\<close> on.\<close>

fun exhaustion_rounds :: "nat \<Rightarrow> nat \<Rightarrow> run_env \<Rightarrow> run_state \<Rightarrow> run_state option" where
  "exhaustion_rounds 0 r env st = Some st"
| "exhaustion_rounds (Suc n) r env st =
     (case all_deliveries (rs_store st) of
        Err _ \<Rightarrow> None
      | Ok all \<Rightarrow>
          if \<not> list_ex (\<lambda>d. \<not> is_terminal d) all then Some st
          else
           (let rows = make_due (re_due env r) (ms_deliveries (rs_store st));
                due = filter is_open rows;
                st1 = st\<lparr>rs_store := (rs_store st)\<lparr>ms_deliveries := rows\<rparr>\<rparr> in
            if due = [] then Some st1
            else (case attempt_all True env (re_attempt env r) due st1 of
                    None \<Rightarrow> None
                  | Some st2 \<Rightarrow> exhaustion_rounds n (Suc r) env st2)))"

section \<open>IngestWorld\<close>

text \<open>The installed pipeline with the state of its own cache; its store is in the heap of the world.
  Every name has a fake emitter of its own.\<close>

record scenario_box =
  sb_pipeline :: "scenario_state pipeline"
  sb_dedupe :: recent_dedupe

record ingest_world =
  iw_pipeline :: "scenario_box option"
  iw_results :: "ingest_result list"
  iw_emitters :: "(string \<times> fake_emitter) list"
  iw_storage_handle :: "shared_memory_storage option"
  iw_heap :: heap
  iw_scratch_retry_policy :: "retry_policy option"
  iw_scratch_attempt :: int

definition world_new :: ingest_world where
  "world_new =
     \<lparr>iw_pipeline = None, iw_results = [], iw_emitters = [], iw_storage_handle = None, iw_heap = [],
      iw_scratch_retry_policy = None, iw_scratch_attempt = 0\<rparr>"

definition set_pipeline :: "scenario_box \<Rightarrow> ingest_world \<Rightarrow> ingest_world" where
  "set_pipeline box w = w\<lparr>iw_pipeline := Some box\<rparr>"

definition register_emitter :: "string \<Rightarrow> fake_emitter \<Rightarrow> ingest_world \<Rightarrow> ingest_world" where
  "register_emitter name e w = w\<lparr>iw_emitters := bt_insert name e (iw_emitters w)\<rparr>"

definition world_emitter :: "string \<Rightarrow> ingest_world \<Rightarrow> fake_emitter option" where
  "world_emitter name w = map_of (iw_emitters w) name"

text \<open>\<^verbatim>\<open>SharedMemoryStorage::new(MemoryStorage::new())\<close>, its handle stashed, and a pipeline built over it
  with a cache of 100 entries: what every step that installs a pipeline does.\<close>

definition install_pipeline :: "string list \<Rightarrow> verifier list \<Rightarrow> ingest_world \<Rightarrow> ingest_world option" where
  "install_pipeline names vs w =
     (case shared_new memory_new (iw_heap w) of (storage, h) \<Rightarrow>
      (let w1 = w\<lparr>iw_heap := h, iw_storage_handle := Some storage\<rparr> in
       (case recent_new 100 of
          None \<Rightarrow> None
        | Some cache \<Rightarrow>
            (case scenario_builder storage names vs of
               None \<Rightarrow> None
             | Some p \<Rightarrow> Some (set_pipeline \<lparr>sb_pipeline = p, sb_dedupe = cache\<rparr> w1)))))"

definition build_pipeline_with_emitters :: "string list \<Rightarrow> ingest_world \<Rightarrow> ingest_world option" where
  "build_pipeline_with_emitters names w =
     install_pipeline names [pass_verifier ''stripe'']
       (w\<lparr>iw_emitters := fold (\<lambda>name. bt_insert name (fake_new name EB_Healthy)) names (iw_emitters w)\<rparr>)"

text \<open>\<^verbatim>\<open>ingest\<close> with no headers; an error is returned and nothing is pushed.\<close>

definition world_ingest ::
  "externals \<Rightarrow> scenario_state ingest_env \<Rightarrow> string \<Rightarrow> bytes \<Rightarrow> ingest_world
     \<Rightarrow> ((ingest_result, ingest_error) result \<times> ingest_world) option" where
  "world_ingest x env provider body w =
     (case iw_pipeline w of
        None \<Rightarrow> None
      | Some box \<Rightarrow>
          (case ingest x (sb_pipeline box) env provider [] body (sb_dedupe box, iw_heap w) of
             (res, _, (cache, h)) \<Rightarrow>
               (let w1 = w\<lparr>iw_pipeline := Some (box\<lparr>sb_dedupe := cache\<rparr>), iw_heap := h\<rparr> in
                (case res of
                   Err e \<Rightarrow> Some (Err e, w1)
                 | Ok r \<Rightarrow> Some (Ok r, w1\<lparr>iw_results := iw_results w @ [r]\<rparr>)))))"

definition set_emitter_behavior :: "string \<Rightarrow> emitter_behavior \<Rightarrow> ingest_world \<Rightarrow> ingest_world option" where
  "set_emitter_behavior name behavior w =
     (case map_of (iw_emitters w) name of
        None \<Rightarrow> None
      | Some e \<Rightarrow> Some (w\<lparr>iw_emitters := bt_insert name (snd (set_behavior behavior e)) (iw_emitters w)\<rparr>))"

definition last_accepted :: "ingest_result list \<Rightarrow> receiptid option" where
  "last_accepted rs =
     (case List.map_filter (\<lambda>r. case r of IR_Accepted i \<Rightarrow> Some i | _ \<Rightarrow> None) (rev rs) of
        [] \<Rightarrow> None | i # _ \<Rightarrow> Some i)"

definition last_receipt_deliveries :: "ingest_world \<Rightarrow> webhook_delivery list option" where
  "last_receipt_deliveries w =
     (case iw_storage_handle w of
        None \<Rightarrow> None
      | Some a \<Rightarrow>
          (case last_accepted (iw_results w) of
             None \<Rightarrow> Some []
           | Some i \<Rightarrow> (case deliveries_for_receipt i (iw_heap w ! a) of Ok ds \<Rightarrow> Some ds | Err _ \<Rightarrow> None)))"

definition last_receipt_state :: "ingest_world \<Rightarrow> processing_state option" where
  "last_receipt_state w = map_option (\<lambda>ds. receipt_aggregate_state ds PS_Stored) (last_receipt_deliveries w)"

text \<open>The drivers act on the store behind the handle and on the registered emitters.\<close>

definition on_run_state :: "(run_state \<Rightarrow> run_state option) \<Rightarrow> ingest_world \<Rightarrow> ingest_world option" where
  "on_run_state f w =
     (case iw_storage_handle w of
        None \<Rightarrow> None
      | Some a \<Rightarrow>
          (case f \<lparr>rs_store = iw_heap w ! a, rs_emitters = iw_emitters w\<rparr> of
             None \<Rightarrow> None
           | Some st \<Rightarrow> Some (w\<lparr>iw_heap := (iw_heap w)[a := rs_store st], iw_emitters := rs_emitters st\<rparr>)))"

definition run_deliveries_to_completion :: "run_env \<Rightarrow> ingest_world \<Rightarrow> ingest_world option" where
  "run_deliveries_to_completion env w = on_run_state (completion_rounds 50 0 env) w"

definition run_until_exhausted :: "run_env \<Rightarrow> ingest_world \<Rightarrow> ingest_world option" where
  "run_until_exhausted env w = on_run_state (exhaustion_rounds 200 0 env) w"

section \<open>One attempt\<close>

definition max_tries :: int where
  "max_tries = max_attempts retry_policy_default"

lemma max_tries [simp]: "max_tries = 5" "max_attempts retry_policy_default = 5"
  by (simp_all add: max_tries_def retry_policy_default_def)

lemma default_jitter_bounds:
  "f64_le (Fin 0) (f64_round (1 / 5)) \<and> f64_le (f64_round (1 / 5)) (Fin 1)"
  using f64_round_bounded[of "1 / 5" 1] by (auto simp: f64_le_def)

lemma default_multiplier: "f64_round 2 = Fin 2"
  using f64_round_nat[of 2] by simp

lemma compute_backoff_default:
  assumes "0 < n"
  shows "\<exists>b. compute_backoff debug powi_fn sample n retry_policy_default = Some b \<and> b \<le> duration_from_secs 3600"
proof -
  have "compute_backoff debug powi_fn sample n retry_policy_default
      = compute_backoff False powi_fn sample n retry_policy_default"
    using assms default_jitter_bounds default_multiplier
    by (simp add: compute_backoff_def retry_policy_default_def)
  moreover have "max_backoff retry_policy_default = duration_from_secs 3600"
    by (simp add: retry_policy_default_def)
  ultimately show ?thesis
    using compute_backoff_bounded[OF assms, of retry_policy_default 3600 powi_fn sample] by simp
qed

text \<open>An hour before the end of time: no backoff of the default policy overflows.\<close>

definition clock_ok :: "timestamp \<Rightarrow> bool" where
  "clock_ok t \<longleftrightarrow> t + 3600000000 \<le> chrono_max_utc"

lemma utc_add_std_ok:
  assumes "clock_ok t" and "b \<le> duration_from_secs 3600"
  shows "utc_add_std t b = Some (t + int (b div 1000))"
proof -
  have "b div 1000 \<le> 3600000000"
    using div_le_mono[OF assms(2), of 1000] by (simp add: duration_from_secs_def nanos_per_sec_def)
  then have "int (b div 1000) \<le> 3600000000" by linarith
  then show ?thesis using assms
    by (simp add: utc_add_std_def chrono_from_std_def utc_add_def clock_ok_def Let_def
        duration_from_secs_def nanos_per_sec_def)
qed

fun accepting :: "emitter_behavior \<Rightarrow> bool" where
  "accepting EB_Healthy = True"
| "accepting (EB_Slow delay) = True"
| "accepting _ = False"

lemma fake_emit_outcome:
  assumes "fe_attempt_count e + 1 < 2 ^ 32"
  obtains res e' where "fake_emit debug now1 now2 event e = Some (res, e')"
    and "fe_behavior e' = fe_behavior e" and "fe_attempt_count e' = fe_attempt_count e + 1"
    and "accepting (fe_behavior e) \<Longrightarrow> is_ok res" and "fe_behavior e = EB_AlwaysFail \<Longrightarrow> \<not> is_ok res"
    and "fe_received e' = (if is_ok res then fe_received e @ [event] else fe_received e)"
proof -
  obtain res e' where run: "fake_emit debug now1 now2 event e = Some (res, e')"
    using assms by (cases "fake_emit debug now1 now2 event e") (auto simp: fake_emit_def u32_plus_def Let_def)
  then have "fe_behavior e' = fe_behavior e \<and> fe_attempt_count e' = fe_attempt_count e + 1
      \<and> (accepting (fe_behavior e) \<longrightarrow> is_ok res) \<and> (fe_behavior e = EB_AlwaysFail \<longrightarrow> \<not> is_ok res)
      \<and> fe_received e' = (if is_ok res then fe_received e @ [event] else fe_received e)"
    using assms
    by (cases "fe_behavior e") (auto simp: fake_emit_def u32_plus_def receive_def Let_def split: if_splits)
  with run show thesis using that by simp
qed

lemma update_delivery_row:
  assumes "distinct (map wd_delivery_id (ms_deliveries s))" and "d \<in> set (ms_deliveries s)"
    and "mutator d = Some d'"
  shows "update_delivery (wd_delivery_id d) mutator s = Some (Ok (), s\<lparr>ms_deliveries :=
    map (\<lambda>x. if wd_delivery_id x = wd_delivery_id d then d' else x) (ms_deliveries s)\<rparr>)"
  using find_distinct_key[OF assms(1,2)] assms(3)
  by (simp add: update_delivery_def update_first_unique[OF assms(1)])

text \<open>What an attempt makes of a row, given the behaviour of its emitter.\<close>

definition same_delivery :: "webhook_delivery \<Rightarrow> webhook_delivery \<Rightarrow> bool" where
  "same_delivery d d' \<longleftrightarrow>
     wd_delivery_id d' = wd_delivery_id d \<and> wd_receipt_id d' = wd_receipt_id d
     \<and> wd_emitter_name d' = wd_emitter_name d \<and> wd_immutable d' = wd_immutable d
     \<and> wd_created_at d' = wd_created_at d"

definition touched :: "emitter_behavior \<Rightarrow> webhook_delivery \<Rightarrow> webhook_delivery \<Rightarrow> bool" where
  "touched b d d' \<longleftrightarrow> same_delivery d d' \<and>
     (wd_state d' = DS_Emitted \<and> b \<noteq> EB_AlwaysFail
      \<or> \<not> accepting b \<and> wd_attempt_count d' = wd_attempt_count d + 1
        \<and> wd_state d' = (if wd_attempt_count d + 1 \<ge> max_tries then DS_DeadLettered else DS_Failed))"

lemma i32_plus_small: "0 \<le> n \<Longrightarrow> n < max_tries \<Longrightarrow> i32_plus debug n 1 = Some (n + 1)"
  by (simp add: i32_plus_def is_i32_def i32_min_def i32_max_def)

lemma mark_success_row:
  assumes "0 \<le> wd_attempt_count d" and "wd_attempt_count d < max_tries" and "b \<noteq> EB_AlwaysFail"
  shows "\<exists>d'. mark_success counted debug att d = Some d' \<and> touched b d d'"
  using i32_plus_small[OF assms(1,2)] assms(3)
  by (auto simp: mark_success_def touched_def same_delivery_def)

lemma after_failure_row:
  assumes "distinct (map wd_delivery_id (ms_deliveries s))" and "d \<in> set (ms_deliveries s)"
    and "0 \<le> wd_attempt_count d" and "wd_attempt_count d < max_tries"
    and "clock_ok (at_next att)" and "\<not> accepting b"
  shows "\<exists>d'. after_failure env att d err s = Some (Ok (), s\<lparr>ms_deliveries :=
      map (\<lambda>x. if wd_delivery_id x = wd_delivery_id d then d' else x) (ms_deliveries s)\<rparr>) \<and> touched b d d'"
proof (cases "wd_attempt_count d + 1 \<ge> max_tries")
  case True
  let ?n = "wd_attempt_count d + 1"
  obtain d' where "mark_exhausted att ?n err d = Some d'" "touched b d d'"
    using True assms(6) by (simp add: mark_exhausted_def touched_def same_delivery_def)
  then show ?thesis
    using update_delivery_row[OF assms(1,2)] True i32_plus_small[OF assms(3,4)]
    by (auto simp: after_failure_def)
next
  case False
  let ?n = "wd_attempt_count d + 1"
  have "0 < ?n" using assms(3) by simp
  then obtain bo where bo: "compute_backoff (re_debug env) (re_powi env) (at_sample att) ?n retry_policy_default = Some bo"
      "bo \<le> duration_from_secs 3600"
    using compute_backoff_default by blast
  obtain d' where "mark_retry att ?n err bo d = Some d'" "touched b d d'"
    using utc_add_std_ok[OF assms(5) bo(2)] False assms(6)
    by (simp add: mark_retry_def touched_def same_delivery_def)
  then show ?thesis
    using update_delivery_row[OF assms(1,2)] False i32_plus_small[OF assms(3,4)] bo(1)
    by (auto simp: after_failure_def Let_def)
qed

lemma mem_get_present:
  assumes "i \<in> receipt_id ` set (ms_receipts s)"
  shows "\<exists>r. mem_get (rid_uuid i) s = Ok (Some r) \<and> receipt_id r = i"
proof -
  obtain r where "find (\<lambda>r. rid_uuid (receipt_id r) = rid_uuid i) (ms_receipts s) = Some r"
    using assms by (fastforce simp: find_None_iff dest: not_None_eq[THEN iffD1, rotated])
  moreover from this have "receipt_id r = i"
    using find_key_Some[of "\<lambda>r. rid_uuid (receipt_id r)"] receiptid.expand by blast
  ultimately show ?thesis by (simp add: mem_get_def)
qed

lemma attempt_delivery_row:
  assumes "distinct (map wd_delivery_id (ms_deliveries (rs_store st)))" and "d \<in> set (ms_deliveries (rs_store st))"
    and "map_of (rs_emitters st) (wd_emitter_name d) = Some e" and "fe_attempt_count e + 1 < 2 ^ 32"
    and "wd_receipt_id d \<in> receipt_id ` set (ms_receipts (rs_store st))"
    and "0 \<le> wd_attempt_count d" and "wd_attempt_count d < max_tries" and "clock_ok (at_next att)"
  shows "\<exists>d' e'. attempt_delivery counted env att d st = Some
      \<lparr>rs_store = (rs_store st)\<lparr>ms_deliveries :=
         map (\<lambda>x. if wd_delivery_id x = wd_delivery_id d then d' else x) (ms_deliveries (rs_store st))\<rparr>,
       rs_emitters = bt_insert (wd_emitter_name d) e' (rs_emitters st)\<rparr>
    \<and> touched (fe_behavior e) d d' \<and> fe_behavior e' = fe_behavior e
    \<and> fe_attempt_count e' = fe_attempt_count e + 1"
proof -
  obtain r where r: "mem_get (rid_uuid (wd_receipt_id d)) (rs_store st) = Ok (Some r)"
    using mem_get_present[OF assms(5)] by blast
  obtain res e' where emit: "fake_emit (re_debug env) (at_instant1 att) (at_instant2 att) (from_receipt r) e
      = Some (res, e')" and e': "fe_behavior e' = fe_behavior e" "fe_attempt_count e' = fe_attempt_count e + 1"
    and ok: "accepting (fe_behavior e) \<Longrightarrow> is_ok res" "fe_behavior e = EB_AlwaysFail \<Longrightarrow> \<not> is_ok res"
    using fake_emit_outcome[OF assms(4)] by metis
  show ?thesis
  proof (cases res)
    case (Ok u)
    obtain d' where "mark_success counted (re_debug env) att d = Some d'" "touched (fe_behavior e) d d'"
      using mark_success_row[OF assms(6,7)] ok(2) Ok by fastforce
    then show ?thesis
      using update_delivery_row[OF assms(1,2)] r assms(3) emit e' Ok by (auto simp: attempt_delivery_def)
  next
    case (Err err)
    then obtain d' where "after_failure env att d (emit_error_to_string err) (rs_store st) =
        Some (Ok (), (rs_store st)\<lparr>ms_deliveries :=
          map (\<lambda>x. if wd_delivery_id x = wd_delivery_id d then d' else x) (ms_deliveries (rs_store st))\<rparr>)"
      "touched (fe_behavior e) d d'"
      using after_failure_row[OF assms(1,2,6-8), where b = "fe_behavior e" and env = env
          and err = "emit_error_to_string err"] ok(1) by auto
    then show ?thesis using r assms(3) emit e' Err by (auto simp: attempt_delivery_def)
  qed
qed

section \<open>A round\<close>

definition behavior_of :: "run_state \<Rightarrow> string \<Rightarrow> emitter_behavior option" where
  "behavior_of st name = map_option fe_behavior (map_of (rs_emitters st) name)"

text \<open>A row an attempt can be made on: its receipt and emitter are there and attempts are left.\<close>

definition attemptable :: "run_state \<Rightarrow> webhook_delivery \<Rightarrow> bool" where
  "attemptable st d \<longleftrightarrow>
     wd_receipt_id d \<in> receipt_id ` set (ms_receipts (rs_store st))
     \<and> behavior_of st (wd_emitter_name d) \<noteq> None
     \<and> 0 \<le> wd_attempt_count d \<and> wd_attempt_count d < max_tries"

definition counters_below :: "nat \<Rightarrow> run_state \<Rightarrow> bool" where
  "counters_below n st \<longleftrightarrow> (\<forall>name e. map_of (rs_emitters st) name = Some e \<longrightarrow> fe_attempt_count e + n < 2 ^ 32)"

text \<open>What a step of a run keeps of its state.\<close>

definition run_frame :: "run_state \<Rightarrow> run_state \<Rightarrow> nat \<Rightarrow> bool" where
  "run_frame st st' n \<longleftrightarrow>
     ms_receipts (rs_store st') = ms_receipts (rs_store st) \<and> behavior_of st' = behavior_of st
     \<and> bt_sorted (rs_emitters st') \<and> (\<forall>m. counters_below (m + n) st \<longrightarrow> counters_below m st')"

lemma run_frame_trans: "run_frame st st1 a \<Longrightarrow> run_frame st1 st2 b \<Longrightarrow> run_frame st st2 (a + b)"
proof -
  assume f1: "run_frame st st1 a" and f2: "run_frame st1 st2 b"
  have "counters_below m st2" if "counters_below (m + (a + b)) st" for m
  proof -
    have "m + (a + b) = (m + b) + a" by simp
    then have "counters_below ((m + b) + a) st" using that by metis
    then have "counters_below (m + b) st1" using f1 unfolding run_frame_def by blast
    then show ?thesis using f2 by (simp add: run_frame_def)
  qed
  then show ?thesis using f1 f2 by (simp add: run_frame_def)
qed

lemma attemptable_frame: "run_frame st st' n \<Longrightarrow> attemptable st' d = attemptable st d"
  by (simp add: attemptable_def run_frame_def)

definition fated :: "run_state \<Rightarrow> webhook_delivery \<Rightarrow> webhook_delivery \<Rightarrow> bool" where
  "fated st d d' \<longleftrightarrow> (\<exists>b. behavior_of st (wd_emitter_name d) = Some b \<and> touched b d d')"

lemma attempt_step:
  assumes "distinct (map wd_delivery_id (ms_deliveries (rs_store st)))" and "bt_sorted (rs_emitters st)"
    and "d \<in> set (ms_deliveries (rs_store st))" and "attemptable st d"
    and "counters_below 1 st" and "clock_ok (at_next att)"
  obtains st' d' where "attempt_delivery counted env att d st = Some st'" and "run_frame st st' 1"
    and "ms_deliveries (rs_store st') =
      map (\<lambda>x. if wd_delivery_id x = wd_delivery_id d then d' else x) (ms_deliveries (rs_store st))"
    and "fated st d d'"
proof -
  obtain e where e: "map_of (rs_emitters st) (wd_emitter_name d) = Some e"
    using assms(4) by (auto simp: attemptable_def behavior_of_def)
  then have "fe_attempt_count e + 1 < 2 ^ 32" using assms(5) by (simp add: counters_below_def)
  from attempt_delivery_row[OF assms(1,3) e this, of att counted env] assms(4,6)
  obtain d' e' where run: "attempt_delivery counted env att d st = Some
      \<lparr>rs_store = (rs_store st)\<lparr>ms_deliveries :=
         map (\<lambda>x. if wd_delivery_id x = wd_delivery_id d then d' else x) (ms_deliveries (rs_store st))\<rparr>,
       rs_emitters = bt_insert (wd_emitter_name d) e' (rs_emitters st)\<rparr>"
    and d': "touched (fe_behavior e) d d'" and e': "fe_behavior e' = fe_behavior e"
      "fe_attempt_count e' = fe_attempt_count e + 1"
    by (auto simp: attemptable_def)
  have m: "map_of (bt_insert (wd_emitter_name d) e' (rs_emitters st)) =
      (map_of (rs_emitters st))(wd_emitter_name d \<mapsto> e')"
    using assms(2) by (rule map_of_bt_insert)
  have count: "fe_attempt_count x + k < 2 ^ 32"
    if "counters_below (k + 1) st" "((map_of (rs_emitters st))(wd_emitter_name d \<mapsto> e')) name = Some x" for k name x
    using that e e' unfolding counters_below_def by (cases "name = wd_emitter_name d") fastforce+
  show thesis
    by (rule that[OF run])
      (use e e' d' m count assms(2) in \<open>auto simp: run_frame_def behavior_of_def counters_below_def[of _ "run_state_ext _ _ _"]
        fated_def fun_eq_iff\<close>)
qed

lemma attempt_all_round:
  assumes "distinct (map wd_delivery_id (ms_deliveries (rs_store st)))" and "bt_sorted (rs_emitters st)"
    and "set due \<subseteq> set (ms_deliveries (rs_store st))" and "distinct (map wd_delivery_id due)"
    and "\<forall>d \<in> set due. attemptable st d" and "counters_below (length due) st"
    and "\<forall>i. clock_ok (at_next (ats i))"
  shows "\<exists>st'. attempt_all counted env ats due st = Some st' \<and> run_frame st st' (length due)
    \<and> list_all2 (\<lambda>d d'. if d \<in> set due then fated st d d' else d' = d)
        (ms_deliveries (rs_store st)) (ms_deliveries (rs_store st'))"
  using assms
proof (induction due arbitrary: st ats)
  case Nil
  then show ?case by (simp add: run_frame_def list_all2_same)
next
  case (Cons d due)
  let ?rows = "ms_deliveries (rs_store st)"
  have c: "counters_below 1 st" using Cons.prems(6) by (force simp: counters_below_def)
  have d: "d \<in> set ?rows" "attemptable st d" "clock_ok (at_next (ats 0))" using Cons.prems(3,5,7) by simp_all
  obtain st1 d' where run: "attempt_delivery counted env (ats 0) d st = Some st1"
    and fr: "run_frame st st1 1" and fd: "fated st d d'"
    and rows: "ms_deliveries (rs_store st1) = map (\<lambda>x. if wd_delivery_id x = wd_delivery_id d then d' else x) ?rows"
    by (rule attempt_step[OF Cons.prems(1,2) d(1,2) c d(3), of counted env])
  have id: "wd_delivery_id d' = wd_delivery_id d" using fd by (auto simp: fated_def touched_def same_delivery_def)
  have only: "x = d" if "x \<in> set ?rows" "wd_delivery_id x = wd_delivery_id d" for x
    using that Cons.prems(1,3) by (simp add: distinct_map inj_on_def)
  have "map wd_delivery_id (ms_deliveries (rs_store st1)) = map wd_delivery_id ?rows"
    using id by (auto simp: rows)
  then have 1: "distinct (map wd_delivery_id (ms_deliveries (rs_store st1)))" using Cons.prems(1) by simp
  have 3: "set due \<subseteq> set (ms_deliveries (rs_store st1))"
  proof
    fix x assume "x \<in> set due"
    then have "x \<in> set ?rows" "wd_delivery_id x \<noteq> wd_delivery_id d"
      using Cons.prems(3,4) by (auto simp: image_iff)
    then show "x \<in> set (ms_deliveries (rs_store st1))" unfolding rows by (force intro: image_eqI[where x = x])
  qed
  have 6: "counters_below (length due) st1" using fr Cons.prems(6) by (simp add: run_frame_def)
  obtain st' where st': "attempt_all counted env (\<lambda>i. ats (Suc i)) due st1 = Some st'"
    "run_frame st1 st' (length due)"
    "list_all2 (\<lambda>d d'. if d \<in> set due then fated st1 d d' else d' = d)
       (ms_deliveries (rs_store st1)) (ms_deliveries (rs_store st'))"
    using Cons.IH[OF 1 _ 3 _ _ 6, of "\<lambda>i. ats (Suc i)"] fr Cons.prems(4,5,7) attemptable_frame[OF fr]
    by (auto simp: run_frame_def)
  have "list_all2 (\<lambda>d d'. if d \<in> set (x # due) then fated st d d' else d' = d) ?rows (ms_deliveries (rs_store st'))"
    if x: "x = d" for x
    using st'(3) unfolding rows list_all2_map1
  proof (rule list.rel_mono_strong)
    fix a y assume a: "a \<in> set ?rows" and
      y: "if (if wd_delivery_id a = wd_delivery_id d then d' else a) \<in> set due
          then fated st1 (if wd_delivery_id a = wd_delivery_id d then d' else a) y
          else y = (if wd_delivery_id a = wd_delivery_id d then d' else a)"
    have "d' \<notin> set due" using Cons.prems(4) id by (metis distinct.simps(2) image_eqI list.set_map list.simps(9))
    moreover have "fated st1 = fated st" using fr by (simp add: fated_def run_frame_def fun_eq_iff)
    ultimately show "if a \<in> set (x # due) then fated st a y else y = a"
      using y fd only[OF a] x by (auto split: if_splits)
  qed
  then show ?case using run st' run_frame_trans[OF fr st'(2)] by auto
qed

section \<open>Running until exhaustion\<close>

definition run_ready :: "run_state \<Rightarrow> bool" where
  "run_ready st \<longleftrightarrow>
     distinct (map wd_delivery_id (ms_deliveries (rs_store st))) \<and> bt_sorted (rs_emitters st)
     \<and> list_all (\<lambda>d. is_terminal d \<or> is_open d \<and> attemptable st d) (ms_deliveries (rs_store st))"

definition advanced :: "run_state \<Rightarrow> webhook_delivery \<Rightarrow> webhook_delivery \<Rightarrow> bool" where
  "advanced st d d' \<longleftrightarrow> (if is_terminal d then d' = d else fated st d d')"

lemma open_not_terminal: "is_open d \<Longrightarrow> \<not> is_terminal d"
  by (auto simp: is_open_def is_terminal_def)

lemma make_due_rows:
  "list_all2 (\<lambda>d d'. \<exists>t. d' = (if is_open d then d\<lparr>wd_next_attempt_at := t\<rparr> else d)) ds (make_due f ds)"
  by (induction ds arbitrary: f) auto

lemma due_fields [simp]:
  "is_open (d\<lparr>wd_next_attempt_at := t\<rparr>) = is_open d" "is_terminal (d\<lparr>wd_next_attempt_at := t\<rparr>) = is_terminal d"
  "attemptable st (d\<lparr>wd_next_attempt_at := t\<rparr>) = attemptable st d"
  "fated st (d\<lparr>wd_next_attempt_at := t\<rparr>) d' = fated st d d'"
  by (simp_all add: is_open_def is_terminal_def attemptable_def fated_def touched_def same_delivery_def)

lemma make_due_ids [simp]: "map wd_delivery_id (make_due f ds) = map wd_delivery_id ds"
  by (induction ds arbitrary: f) auto

lemma length_make_due [simp]: "length (make_due f ds) = length ds"
  by (induction ds arbitrary: f) auto

lemma make_due_open [simp]: "length (filter is_open (make_due f ds)) = length (filter is_open ds)"
  by (induction ds arbitrary: f) auto

lemma run_frame_le: "run_frame st st' n \<Longrightarrow> n \<le> k \<Longrightarrow> run_frame st st' k"
proof -
  assume f: "run_frame st st' n" and "n \<le> k"
  then have "counters_below (m + n) st" if "counters_below (m + k) st" for m
    using that by (force simp: counters_below_def)
  then show ?thesis using f by (auto simp: run_frame_def)
qed

lemma with_rows [simp]:
  fixes st :: run_state
  defines "st1 \<equiv> \<lambda>rows. st\<lparr>rs_store := (rs_store st)\<lparr>ms_deliveries := rows\<rparr>\<rparr>"
  shows "behavior_of (st1 rows) = behavior_of st" and "attemptable (st1 rows) = attemptable st"
    and "counters_below n (st1 rows) = counters_below n st" and "fated (st1 rows) = fated st"
proof -
  show b: "behavior_of (st1 rows) = behavior_of st" by (rule ext) (simp add: behavior_of_def st1_def)
  show "attemptable (st1 rows) = attemptable st" by (rule ext) (simp add: attemptable_def b, simp add: st1_def)
  show "counters_below n (st1 rows) = counters_below n st" by (simp add: counters_below_def st1_def)
  show "fated (st1 rows) = fated st" by (intro ext) (simp add: fated_def b)
qed

lemma fated_open:
  assumes "fated st d d'" and "attemptable st d" and "\<not> wd_immutable d" and "run_frame st st' n"
  shows "is_terminal d' \<or> is_open d' \<and> attemptable st' d'"
  using assms unfolding fated_def touched_def same_delivery_def
  by (auto simp: is_terminal_def is_open_def attemptable_def run_frame_def split: if_splits)

lemma advanced_ready:
  assumes "run_ready st" and "run_frame st st' n"
    and "list_all2 (advanced st) (ms_deliveries (rs_store st)) (ms_deliveries (rs_store st'))"
  shows "run_ready st'"
proof -
  have ok: "is_terminal d' \<or> is_open d' \<and> attemptable st' d'"
    if "advanced st d d'" "d \<in> set (ms_deliveries (rs_store st))" for d d'
    using that assms(1) fated_open[OF _ _ _ assms(2), of d d']
    by (auto simp: run_ready_def list_all_iff advanced_def is_open_def split: if_splits)
  have "map wd_delivery_id (ms_deliveries (rs_store st')) = map wd_delivery_id (ms_deliveries (rs_store st))"
    using assms(3)
    by (induction rule: list_all2_induct)
      (auto simp: advanced_def fated_def touched_def same_delivery_def split: if_splits)
  moreover have "list_all (\<lambda>d. is_terminal d \<or> is_open d \<and> attemptable st' d) (ms_deliveries (rs_store st'))"
    unfolding list_all_iff
  proof
    fix d' assume "d' \<in> set (ms_deliveries (rs_store st'))"
    then obtain d where "d \<in> set (ms_deliveries (rs_store st))" "advanced st d d'"
      using list_all2_source[OF assms(3)] by blast
    then show "is_terminal d' \<or> is_open d' \<and> attemptable st' d'" using ok by blast
  qed
  ultimately show ?thesis using assms(1,2) by (simp add: run_ready_def run_frame_def)
qed

lemma exhaustion_round:
  assumes "run_ready st" and "list_ex (\<lambda>d. \<not> is_terminal d) (ms_deliveries (rs_store st))"
    and "counters_below (length (ms_deliveries (rs_store st))) st"
    and "\<forall>i. clock_ok (at_next (re_attempt env r i))"
  shows "\<exists>st'. (\<forall>n. exhaustion_rounds (Suc n) r env st = exhaustion_rounds n (Suc r) env st')
    \<and> run_ready st' \<and> run_frame st st' (length (ms_deliveries (rs_store st)))
    \<and> list_all2 (advanced st) (ms_deliveries (rs_store st)) (ms_deliveries (rs_store st'))"
proof -
  let ?ds = "ms_deliveries (rs_store st)"
  let ?rows = "make_due (re_due env r) ?ds"
  let ?due = "filter is_open ?rows"
  let ?st1 = "st\<lparr>rs_store := (rs_store st)\<lparr>ms_deliveries := ?rows\<rparr>\<rparr>"
  have rows: "\<exists>d \<in> set ?ds. \<exists>t. x = (if is_open d then d\<lparr>wd_next_attempt_at := t\<rparr> else d)" if "x \<in> set ?rows" for x
    using list_all2_source[OF make_due_rows that] .
  have all: "is_terminal d \<or> is_open d \<and> attemptable st d" if "d \<in> set ?ds" for d
    using that assms(1) by (simp add: run_ready_def list_all_iff)
  have len: "length ?due \<le> length ?ds" using make_due_open[of "re_due env r" ?ds] by simp
  have f1: "run_frame st ?st1 0" using assms(1) by (simp add: run_frame_def run_ready_def)
  have "distinct (map wd_delivery_id ?rows)" using assms(1) by (simp add: run_ready_def)
  moreover have "\<forall>d \<in> set ?due. attemptable st d"
  proof
    fix x assume x: "x \<in> set ?due"
    then obtain d t where d: "d \<in> set ?ds" "x = (if is_open d then d\<lparr>wd_next_attempt_at := t\<rparr> else d)"
      using rows[of x] by auto
    then have "is_open d" using x by (auto split: if_splits)
    then show "attemptable st x" using all[OF d(1)] open_not_terminal d(2) by auto
  qed
  moreover have "counters_below (length ?due) st"
    using assms(3) len unfolding counters_below_def by (meson add_le_cancel_left le_less_trans)
  ultimately obtain st' where run: "attempt_all True env (re_attempt env r) ?due ?st1 = Some st'"
    and f2: "run_frame ?st1 st' (length ?due)"
    and rel: "list_all2 (\<lambda>d d'. if d \<in> set ?due then fated st d d' else d' = d) ?rows (ms_deliveries (rs_store st'))"
    using attempt_all_round[of ?st1 ?due "re_attempt env r" True env, unfolded with_rows] assms(1,4)
    by (auto simp: run_ready_def distinct_map_filter)
  have fr: "run_frame st st' (length ?ds)"
    using run_frame_le[OF run_frame_trans[OF f1 f2]] len by simp
  have "list_all2 (\<lambda>d d'. if is_open d then fated st d d' else d' = d) ?rows (ms_deliveries (rs_store st'))"
    using rel by (rule list.rel_mono_strong) (simp split: if_splits)
  then have "list_all2 (\<lambda>d d'. if is_open d then fated st d d' else d' = d) ?ds (ms_deliveries (rs_store st'))"
    by (rule list_all2_trans[OF _ make_due_rows, rotated]) (auto split: if_splits)
  then have adv: "list_all2 (advanced st) ?ds (ms_deliveries (rs_store st'))"
    by (rule list.rel_mono_strong) (use all open_not_terminal in \<open>auto simp: advanced_def split: if_splits\<close>)
  have "length ?due \<noteq> 0" using assms(2) all by (auto simp: list_ex_iff filter_empty_conv)
  then have "?due \<noteq> []" by (metis list.size(3))
  moreover have "run_ready st'"
    using advanced_ready[OF assms(1) fr adv] .
  ultimately show ?thesis using run fr assms(2) adv
    by (intro exI[of _ st']) (simp add: all_deliveries_def Let_def)
qed

text \<open>What a run makes of a row in the end.\<close>

definition settled :: "run_state \<Rightarrow> webhook_delivery \<Rightarrow> webhook_delivery \<Rightarrow> bool" where
  "settled st d d' \<longleftrightarrow>
     (if is_terminal d then d' = d
      else same_delivery d d' \<and> is_terminal d'
        \<and> (wd_state d' = DS_DeadLettered \<longrightarrow> wd_attempt_count d' = max_tries)
        \<and> (\<forall>b. behavior_of st (wd_emitter_name d) = Some b \<longrightarrow>
              (accepting b \<longrightarrow> wd_state d' = DS_Emitted)
              \<and> (b = EB_AlwaysFail \<longrightarrow> wd_state d' = DS_DeadLettered)))"

lemma advanced_settled:
  assumes "advanced st d x" and "settled st' x y" and "behavior_of st' = behavior_of st"
    and "is_terminal d \<or> is_open d \<and> attemptable st d"
  shows "settled st d y"
proof (cases "is_terminal d")
  case True
  then show ?thesis using assms(1,2) by (simp add: advanced_def settled_def)
next
  case False
  then obtain b where b: "behavior_of st (wd_emitter_name d) = Some b" and t: "touched b d x"
    using assms(1) by (auto simp: advanced_def fated_def)
  have sd: "same_delivery d x" and dead: "wd_state x = DS_DeadLettered \<longrightarrow> wd_attempt_count x = max_tries"
    and fate: "is_terminal x \<longrightarrow> (accepting b \<longrightarrow> wd_state x = DS_Emitted) \<and> (b = EB_AlwaysFail \<longrightarrow> wd_state x = DS_DeadLettered)"
    using t assms(4) False by (auto simp: touched_def attemptable_def is_terminal_def split: if_splits)
  show ?thesis
  proof (cases "is_terminal x")
    case True
    then have "y = x" using assms(2) by (simp add: settled_def)
    then show ?thesis using False True sd dead fate b by (simp add: settled_def)
  next
    case ne: False
    then show ?thesis using assms(2,3) sd False b by (auto simp: settled_def same_delivery_def)
  qed
qed

text \<open>Each round uses up an attempt of every open row, so \<open>m\<close> rounds are enough when no open row has
  more than \<open>m\<close> attempts left; further rounds change nothing.\<close>

lemma exhaustion_terminates:
  assumes "run_ready st" and "counters_below (m * length (ms_deliveries (rs_store st))) st"
    and "\<forall>r i. clock_ok (at_next (re_attempt env r i))"
    and "\<forall>d \<in> set (ms_deliveries (rs_store st)). \<not> is_terminal d \<longrightarrow> max_tries - wd_attempt_count d \<le> int m"
  shows "\<exists>st'. (\<forall>n \<ge> m. exhaustion_rounds n r env st = Some st') \<and> run_ready st'
    \<and> list_all is_terminal (ms_deliveries (rs_store st'))
    \<and> list_all2 (settled st) (ms_deliveries (rs_store st)) (ms_deliveries (rs_store st'))"
  using assms
proof (induction m arbitrary: st r)
  case stop: 0
  have ready: "is_terminal d" if "d \<in> set (ms_deliveries (rs_store st))" for d
    using that stop(1,4) by (fastforce simp: run_ready_def list_all_iff attemptable_def)
  have "exhaustion_rounds n r env st = Some st" for n
    using ready by (cases n) (auto simp: all_deliveries_def list_ex_iff)
  moreover have "list_all2 (settled st) (ms_deliveries (rs_store st)) (ms_deliveries (rs_store st))"
    using ready by (simp add: list_all2_same settled_def)
  ultimately show ?case using ready stop(1) by (auto simp: list_all_iff)
next
  case (Suc m)
  let ?ds = "ms_deliveries (rs_store st)"
  show ?case
  proof (cases "list_ex (\<lambda>d. \<not> is_terminal d) ?ds")
    case False
    then have ready: "list_all is_terminal ?ds" by (auto simp: list_ex_iff list_all_iff)
    have "exhaustion_rounds n r env st = Some st" for n
      using False by (cases n) (simp_all add: all_deliveries_def)
    moreover have "list_all2 (settled st) ?ds ?ds" using ready by (simp add: list_all2_same settled_def list_all_iff)
    ultimately show ?thesis using ready Suc.prems(1) by blast
  next
    case True
    have c: "counters_below (m * length ?ds + length ?ds) st" using Suc.prems(2) by (simp add: add.commute)
    then have "counters_below (length ?ds) st" by (force simp: counters_below_def)
    from exhaustion_round[OF Suc.prems(1) True this, of env r] Suc.prems(3)
    obtain st1 where run: "\<forall>n. exhaustion_rounds (Suc n) r env st = exhaustion_rounds n (Suc r) env st1"
      and ready: "run_ready st1" and fr: "run_frame st st1 (length ?ds)"
      and adv: "list_all2 (advanced st) ?ds (ms_deliveries (rs_store st1))" by blast
    have len: "length (ms_deliveries (rs_store st1)) = length ?ds" using list_all2_lengthD[OF adv] by simp
    have "\<forall>d \<in> set (ms_deliveries (rs_store st1)). \<not> is_terminal d \<longrightarrow> max_tries - wd_attempt_count d \<le> int m"
    proof (intro ballI impI)
      fix x assume x: "x \<in> set (ms_deliveries (rs_store st1))" "\<not> is_terminal x"
      then obtain d where "d \<in> set ?ds" "advanced st d x" using list_all2_source[OF adv] by blast
      then show "max_tries - wd_attempt_count x \<le> int m" using Suc.prems(4) x(2)
        by (fastforce simp: advanced_def fated_def touched_def is_terminal_def split: if_splits)
    qed
    then obtain st' where st': "\<forall>n \<ge> m. exhaustion_rounds n (Suc r) env st1 = Some st'" "run_ready st'"
      "list_all is_terminal (ms_deliveries (rs_store st'))"
      "list_all2 (settled st1) (ms_deliveries (rs_store st1)) (ms_deliveries (rs_store st'))"
      using Suc.IH[OF ready _ Suc.prems(3), of "Suc r"] fr c len by (auto simp: run_frame_def)
    have "exhaustion_rounds n r env st = Some st'" if "n \<ge> Suc m" for n
      using that run st'(1) by (cases n) auto
    moreover have "list_all2 (settled st) ?ds (ms_deliveries (rs_store st'))"
    proof -
      have "list_all2 (\<lambda>d x. advanced st d x \<and> (is_terminal d \<or> is_open d \<and> attemptable st d)) ?ds (ms_deliveries (rs_store st1))"
        using adv by (rule list.rel_mono_strong) (use Suc.prems(1) in \<open>auto simp: run_ready_def list_all_iff\<close>)
      then show ?thesis
        by (rule list_all2_trans[OF _ _ st'(4), rotated])
          (use advanced_settled fr in \<open>auto simp: run_frame_def\<close>)
    qed
    ultimately show ?thesis using st'(2,3) by blast
  qed
qed

lemma exhausted_run:
  assumes "iw_storage_handle w = Some a" and "a < length (iw_heap w)"
    and "st = \<lparr>rs_store = iw_heap w ! a, rs_emitters = iw_emitters w\<rparr>" and "run_ready st"
    and "counters_below (5 * length (ms_deliveries (rs_store st))) st"
    and "\<forall>r i. clock_ok (at_next (re_attempt env r i))"
  shows "\<exists>w'. run_until_exhausted env w = Some w'
    \<and> on_run_state (exhaustion_rounds (nat (max_attempts retry_policy_default)) 0 env) w = Some w'
    \<and> list_all is_terminal (ms_deliveries (iw_heap w' ! a))
    \<and> list_all2 (settled st) (ms_deliveries (iw_heap w ! a)) (ms_deliveries (iw_heap w' ! a))"
proof -
  have "\<forall>d \<in> set (ms_deliveries (rs_store st)). \<not> is_terminal d \<longrightarrow> max_tries - wd_attempt_count d \<le> int 5"
    using assms(4) by (auto simp: run_ready_def list_all_iff attemptable_def)
  then obtain st' where run: "\<forall>n \<ge> 5. exhaustion_rounds n 0 env st = Some st'"
    and rows: "list_all is_terminal (ms_deliveries (rs_store st'))"
      "list_all2 (settled st) (ms_deliveries (rs_store st)) (ms_deliveries (rs_store st'))"
    using exhaustion_terminates[OF assms(4,5,6), of 0] by blast
  have "exhaustion_rounds 200 0 env st = Some st'" "exhaustion_rounds 5 0 env st = Some st'"
    using run by simp_all
  then show ?thesis
    using rows assms(1-3) by (simp add: run_until_exhausted_def on_run_state_def del: exhaustion_rounds.simps)
qed

text \<open>C15. \<^verbatim>\<open>run_until_exhausted\<close> terminates for the right reason: on a world whose rows have their receipt
  and emitter, it never panics, all rows are terminal after at most \<^verbatim>\<open>max_attempts\<close> rounds (so the
  budget of 200 rounds is never what stops it), terminal rows are left alone, a delivery whose
  emitter is healthy or slow ends emitted, one whose emitter always fails ends dead-lettered, and a
  dead-lettered one has used exactly \<^verbatim>\<open>max_attempts\<close> attempts; whatever the clock, the random samples
  and the power function, in debug and release builds.\<close>

theorem run_until_exhausted_terminates:
  assumes "iw_storage_handle w = Some a" and "a < length (iw_heap w)"
    and "st = \<lparr>rs_store = iw_heap w ! a, rs_emitters = iw_emitters w\<rparr>" and "run_ready st"
    and "counters_below (5 * length (ms_deliveries (rs_store st))) st"
    and "\<forall>r i. clock_ok (at_next (re_attempt env r i))"
  shows "\<exists>w'. run_until_exhausted env w = Some w'
    \<and> on_run_state (exhaustion_rounds (nat (max_attempts retry_policy_default)) 0 env) w = Some w'
    \<and> list_all is_terminal (ms_deliveries (iw_heap w' ! a))
    \<and> list_all2 (settled st) (ms_deliveries (iw_heap w ! a)) (ms_deliveries (iw_heap w' ! a))"
  using assms by (rule exhausted_run)

definition failing_world :: ingest_world where
  "failing_world = world_new
     \<lparr>iw_heap := [\<lparr>ms_receipts = [sample_receipt 1 ''k''],
                   ms_deliveries = [fresh_delivery 0 7 (ReceiptId 1) ''a'']\<rparr>],
      iw_storage_handle := Some 0, iw_emitters := [(''a'', fake_new ''a'' EB_AlwaysFail)]\<rparr>"

definition run_env0 :: run_env where
  "run_env0 = \<lparr>re_debug = True, re_powi = (\<lambda>_ _. Fin 1), re_now = (\<lambda>_. 0), re_due = (\<lambda>_ _. 0),
     re_attempt = (\<lambda>_ _. \<lparr>at_last = 0, at_next = 0, at_instant1 = 0, at_instant2 = 0, at_sample = Fin 0\<rparr>)\<rparr>"

theorem run_until_exhausted_terminates_witness:
  "\<exists>w'. run_until_exhausted run_env0 failing_world = Some w'
    \<and> map (\<lambda>d. (wd_state d, wd_attempt_count d)) (ms_deliveries (iw_heap w' ! 0)) = [(DS_DeadLettered, 5)]"
proof -
  let ?st = "\<lparr>rs_store = iw_heap failing_world ! 0, rs_emitters = iw_emitters failing_world\<rparr>"
  note defs = failing_world_def world_new_def fresh_delivery_def fake_new_def
  have "run_ready ?st"
    by (simp add: run_ready_def attemptable_def behavior_of_def is_open_def defs)
  moreover have "counters_below (5 * length (ms_deliveries (rs_store ?st))) ?st"
    by (simp add: counters_below_def defs)
  moreover have "\<forall>r i. clock_ok (at_next (re_attempt run_env0 r i))"
    by (simp add: run_env0_def clock_ok_def chrono_max_utc_def)
  ultimately obtain w' where run: "run_until_exhausted run_env0 failing_world = Some w'"
    and rel: "list_all2 (settled ?st) (ms_deliveries (iw_heap failing_world ! 0)) (ms_deliveries (iw_heap w' ! 0))"
    using run_until_exhausted_terminates[of failing_world 0 ?st run_env0] by (auto simp: defs)
  from rel obtain d where "ms_deliveries (iw_heap w' ! 0) = [d]" "settled ?st (fresh_delivery 0 7 (ReceiptId 1) ''a'') d"
    by (auto simp: failing_world_def world_new_def list_all2_Cons1)
  then show ?thesis using run
    by (auto simp: settled_def behavior_of_def is_terminal_def defs)
qed

end
