(* ===== verification/Features.thy ===== *)
theory Features
  imports Scenario
begin

text \<open>
  The step definitions of \<^verbatim>\<open>scenario-tests/src/steps.rs\<close> and the feature files of
  \<^verbatim>\<open>scenario-tests/features/core\<close>. A step is a function from world to world, \<open>None\<close> when it panics or an
  assertion fails; a scenario is the list of its steps. Shown: every scenario of the core features
  passes, for every random identifier and clock; and, beyond the examples, that the state derived
  from the delivery rows of any webhook fanned out to any emitters is what their behaviours say.
\<close>

section \<open>Given\<close>

definition given_pipeline_with_passing_verifier :: "string \<Rightarrow> ingest_world \<Rightarrow> ingest_world option" where
  "given_pipeline_with_passing_verifier provider w = install_pipeline [] [pass_verifier provider] w"

definition given_pipeline_with_failing_verifier :: "string \<Rightarrow> ingest_world \<Rightarrow> ingest_world option" where
  "given_pipeline_with_failing_verifier provider w = install_pipeline [] [fail_verifier provider] w"

definition given_pipeline_with_no_verifiers :: "ingest_world \<Rightarrow> ingest_world option" where
  "given_pipeline_with_no_verifiers w = install_pipeline [] [] w"

definition given_pipeline_with_emitters :: "string \<Rightarrow> ingest_world \<Rightarrow> ingest_world option" where
  "given_pipeline_with_emitters emitters_csv w =
     build_pipeline_with_emitters
       (filter (\<lambda>s. s \<noteq> []) (map trim (split_char (CHR '','') emitters_csv))) w"

definition given_emitter_permanently_fails :: "string \<Rightarrow> ingest_world \<Rightarrow> ingest_world option" where
  "given_emitter_permanently_fails name w = set_emitter_behavior name EB_AlwaysFail w"

definition given_emitter_is_paused :: "string \<Rightarrow> ingest_world \<Rightarrow> ingest_world option" where
  "given_emitter_is_paused name w = set_emitter_behavior name (EB_Slow (duration_from_secs 3600)) w"

definition given_retry_policy_with_jitter :: "nat \<Rightarrow> f64 \<Rightarrow> f64 \<Rightarrow> ingest_world \<Rightarrow> ingest_world option" where
  "given_retry_policy_with_jitter initial multiplier jit w =
     Some (w\<lparr>iw_scratch_retry_policy := Some
       \<lparr>max_attempts = 10, initial_backoff = duration_from_secs initial,
        max_backoff = duration_from_secs ((2 ^ 64 - 1) div 2), backoff_multiplier = multiplier, jitter = jit\<rparr>\<rparr>)"

definition given_retry_policy_with_max_backoff :: "nat \<Rightarrow> f64 \<Rightarrow> nat \<Rightarrow> ingest_world \<Rightarrow> ingest_world option" where
  "given_retry_policy_with_max_backoff initial multiplier maximum w =
     Some (w\<lparr>iw_scratch_retry_policy := Some
       \<lparr>max_attempts = 10, initial_backoff = duration_from_secs initial,
        max_backoff = duration_from_secs maximum, backoff_multiplier = multiplier, jitter = Fin 0\<rparr>\<rparr>)"

section \<open>When\<close>

definition when_ingest_webhook ::
  "externals \<Rightarrow> scenario_state ingest_env \<Rightarrow> string \<Rightarrow> string \<Rightarrow> ingest_world \<Rightarrow> ingest_world option" where
  "when_ingest_webhook x env provider body w =
     (case world_ingest x env provider body w of
        Some (Ok _, w') \<Rightarrow> Some w'
      | Some (Err _, _) \<Rightarrow> None
      | None \<Rightarrow> None)"

definition test_event :: string where
  "test_event = ''{\"event\":\"test\"}''"

definition when_valid_webhook_ingested ::
  "externals \<Rightarrow> scenario_state ingest_env \<Rightarrow> ingest_world \<Rightarrow> ingest_world option" where
  "when_valid_webhook_ingested x env w = when_ingest_webhook x env ''stripe'' test_event w"

definition when_same_webhook_ingested_again ::
  "externals \<Rightarrow> scenario_state ingest_env \<Rightarrow> ingest_world \<Rightarrow> ingest_world option" where
  "when_same_webhook_ingested_again x env w = when_ingest_webhook x env ''stripe'' test_event w"

definition when_all_deliveries_complete :: "run_env \<Rightarrow> ingest_world \<Rightarrow> ingest_world option" where
  "when_all_deliveries_complete env w = run_deliveries_to_completion env w"

definition when_workers_run_until_exhausted :: "run_env \<Rightarrow> ingest_world \<Rightarrow> ingest_world option" where
  "when_workers_run_until_exhausted env w = run_until_exhausted env w"

definition when_emitter_fails_first_time :: "ingest_world \<Rightarrow> ingest_world option" where
  "when_emitter_fails_first_time w = Some (w\<lparr>iw_scratch_attempt := 1\<rparr>)"

definition when_emitter_has_failed_n_times :: "int \<Rightarrow> ingest_world \<Rightarrow> ingest_world option" where
  "when_emitter_has_failed_n_times n w = Some (w\<lparr>iw_scratch_attempt := n\<rparr>)"

section \<open>Then\<close>

definition check_that :: "bool \<Rightarrow> 'a \<Rightarrow> 'a option" where
  "check_that ok w = (if ok then Some w else None)"

definition assert_result_matches :: "ingest_result \<Rightarrow> string \<Rightarrow> bool" where
  "assert_result_matches r expected =
     (if expected = ''accepted'' then (case r of IR_Accepted _ \<Rightarrow> True | _ \<Rightarrow> False)
      else if expected = ''duplicate'' then (case r of IR_Duplicate _ \<Rightarrow> True | _ \<Rightarrow> False)
      else if expected = ''verification_failed'' then (case r of IR_VerificationFailed _ \<Rightarrow> True | _ \<Rightarrow> False)
      else False)"

definition then_result_should_be :: "string \<Rightarrow> ingest_world \<Rightarrow> ingest_world option" where
  "then_result_should_be expected w =
     check_that (length (iw_results w) = 1 \<and> assert_result_matches (iw_results w ! 0) expected) w"

definition then_first_result_should_be :: "string \<Rightarrow> ingest_world \<Rightarrow> ingest_world option" where
  "then_first_result_should_be expected w =
     check_that (iw_results w \<noteq> [] \<and> assert_result_matches (iw_results w ! 0) expected) w"

definition then_second_result_should_be :: "string \<Rightarrow> ingest_world \<Rightarrow> ingest_world option" where
  "then_second_result_should_be expected w =
     check_that (length (iw_results w) \<ge> 2 \<and> assert_result_matches (iw_results w ! 1) expected) w"

definition then_emitter_receives_n_events :: "string \<Rightarrow> nat \<Rightarrow> ingest_world \<Rightarrow> ingest_world option" where
  "then_emitter_receives_n_events name expected w =
     (case world_emitter name w of
        None \<Rightarrow> None
      | Some e \<Rightarrow> check_that (received_count e = expected) w)"

definition then_receipt_has_n_delivery_rows :: "nat \<Rightarrow> ingest_world \<Rightarrow> ingest_world option" where
  "then_receipt_has_n_delivery_rows expected w =
     (case last_receipt_deliveries w of
        None \<Rightarrow> None
      | Some rows \<Rightarrow> check_that (length rows = expected) w)"

fun state_label :: "processing_state \<Rightarrow> string" where
  "state_label PS_Received = ''received''"
| "state_label PS_Verified = ''verified''"
| "state_label PS_VerificationFailed = ''verification_failed''"
| "state_label PS_Duplicate = ''duplicate''"
| "state_label PS_Stored = ''stored''"
| "state_label PS_Emitted = ''emitted''"
| "state_label PS_Processed = ''processed''"
| "state_label PS_EmitFailed = ''emit_failed''"
| "state_label PS_DeadLettered = ''dead_lettered''"
| "state_label PS_Replayed = ''replayed''"

definition then_receipt_processing_state_is :: "string \<Rightarrow> ingest_world \<Rightarrow> ingest_world option" where
  "then_receipt_processing_state_is expected w =
     (case last_receipt_state w of
        None \<Rightarrow> None
      | Some st \<Rightarrow> check_that (state_label st = expected) w)"

definition then_next_attempt_at_approximately :: "run_env \<Rightarrow> f64 \<Rightarrow> nat \<Rightarrow> ingest_world \<Rightarrow> ingest_world option" where
  "then_next_attempt_at_approximately env sample expected_secs w =
     (case iw_scratch_retry_policy w of
        None \<Rightarrow> None
      | Some policy \<Rightarrow>
          (case compute_backoff (re_debug env) (re_powi env) sample (iw_scratch_attempt w) policy of
             None \<Rightarrow> None
           | Some backoff \<Rightarrow>
               (let expected = duration_from_secs expected_secs;
                    tolerance = duration_from_secs 1;
                    lower = expected - tolerance;
                    upper = expected + tolerance in
                check_that (backoff \<ge> lower \<and> backoff \<le> upper) w)))"

section \<open>Scenarios\<close>

datatype scenario_step =
    Given_passing_verifier string
  | Given_failing_verifier string
  | Given_no_verifiers
  | Given_emitters string
  | Given_permanently_fails string
  | Given_paused string
  | Given_policy_jitter nat f64 f64
  | Given_policy_max nat f64 nat
  | When_ingest string string
  | When_valid_ingested
  | When_same_again
  | When_all_complete
  | When_exhausted
  | When_fails_first
  | When_failed_times int
  | Then_result string
  | Then_first string
  | Then_second string
  | Then_receives string nat
  | Then_rows nat
  | Then_state string
  | Then_backoff nat

record step_env =
  se_ingest :: "scenario_state ingest_env"
  se_run :: run_env
  se_sample :: f64

fun run_step :: "externals \<Rightarrow> step_env \<Rightarrow> scenario_step \<Rightarrow> ingest_world \<Rightarrow> ingest_world option" where
  "run_step x env (Given_passing_verifier p) w = given_pipeline_with_passing_verifier p w"
| "run_step x env (Given_failing_verifier p) w = given_pipeline_with_failing_verifier p w"
| "run_step x env Given_no_verifiers w = given_pipeline_with_no_verifiers w"
| "run_step x env (Given_emitters csv) w = given_pipeline_with_emitters csv w"
| "run_step x env (Given_permanently_fails n) w = given_emitter_permanently_fails n w"
| "run_step x env (Given_paused n) w = given_emitter_is_paused n w"
| "run_step x env (Given_policy_jitter i m j) w = given_retry_policy_with_jitter i m j w"
| "run_step x env (Given_policy_max i m c) w = given_retry_policy_with_max_backoff i m c w"
| "run_step x env (When_ingest p b) w = when_ingest_webhook x (se_ingest env) p b w"
| "run_step x env When_valid_ingested w = when_valid_webhook_ingested x (se_ingest env) w"
| "run_step x env When_same_again w = when_same_webhook_ingested_again x (se_ingest env) w"
| "run_step x env When_all_complete w = when_all_deliveries_complete (se_run env) w"
| "run_step x env When_exhausted w = when_workers_run_until_exhausted (se_run env) w"
| "run_step x env When_fails_first w = when_emitter_fails_first_time w"
| "run_step x env (When_failed_times n) w = when_emitter_has_failed_n_times n w"
| "run_step x env (Then_result e) w = then_result_should_be e w"
| "run_step x env (Then_first e) w = then_first_result_should_be e w"
| "run_step x env (Then_second e) w = then_second_result_should_be e w"
| "run_step x env (Then_receives n k) w = then_emitter_receives_n_events n k w"
| "run_step x env (Then_rows k) w = then_receipt_has_n_delivery_rows k w"
| "run_step x env (Then_state e) w = then_receipt_processing_state_is e w"
| "run_step x env (Then_backoff s) w = then_next_attempt_at_approximately (se_run env) (se_sample env) s w"

text \<open>The steps of a scenario in order; the k-th step meets \<open>envs k\<close>.\<close>

fun run_scenario ::
  "externals \<Rightarrow> (nat \<Rightarrow> step_env) \<Rightarrow> scenario_step list \<Rightarrow> ingest_world \<Rightarrow> ingest_world option" where
  "run_scenario x envs [] w = Some w"
| "run_scenario x envs (s # ss) w =
     (case run_step x (envs 0) s w of
        None \<Rightarrow> None
      | Some w1 \<Rightarrow> run_scenario x (\<lambda>k. envs (Suc k)) ss w1)"

section \<open>Aggregation of rows in step\<close>

lemma first_newest_mem: "first_newest rows = Some d \<Longrightarrow> d \<in> set rows"
  by (auto simp: first_newest_iff newest_at_def)

lemma latest_state_of_row:
  assumes "s \<in> set (map snd (latest_mutable_per_emitter ds))" shows "\<exists>d \<in> set ds. wd_state d = s"
proof -
  obtain e d where "first_newest (emitter_rows e ds) = Some d" "wd_state d = s"
    using assms unfolding latest_states by (auto simp: map_of_latest)
  then show ?thesis using first_newest_mem[of "emitter_rows e ds" d] by (auto simp: emitter_rows_def)
qed

lemma row_has_latest_state:
  assumes "d \<in> set ds" and "\<not> wd_immutable d"
  shows "\<exists>d' \<in> set ds. wd_emitter_name d' = wd_emitter_name d
    \<and> wd_state d' \<in> set (map snd (latest_mutable_per_emitter ds))"
proof -
  have "emitter_rows (wd_emitter_name d) ds \<noteq> []" using assms by (auto simp: emitter_rows_def filter_empty_conv)
  then obtain d' where f: "first_newest (emitter_rows (wd_emitter_name d) ds) = Some d'"
    using first_newest_None by fastforce
  then have "wd_state d' \<in> set (map snd (latest_mutable_per_emitter ds))"
    unfolding latest_states by (auto simp: map_of_latest intro!: exI[of _ "wd_emitter_name d"])
  then show ?thesis using first_newest_mem[OF f] by (auto simp: emitter_rows_def)
qed

lemma aggregate_all_emitted:
  assumes "ds \<noteq> []" and "\<forall>d \<in> set ds. \<not> wd_immutable d \<and> wd_state d = DS_Emitted"
  shows "receipt_aggregate_state ds fallback = PS_Emitted"
proof -
  obtain d where d: "d \<in> set ds" using assms(1) by (cases ds) auto
  then have "map snd (latest_mutable_per_emitter ds) \<noteq> []"
    using row_has_latest_state[OF d] assms(2) by (metis empty_iff empty_set)
  moreover have "s = DS_Emitted" if "s \<in> set (map snd (latest_mutable_per_emitter ds))" for s
    using latest_state_of_row[OF that] assms(2) by auto
  ultimately show ?thesis
    by (auto simp: receipt_aggregate_state_def aggregate_from_states_def list_all_iff simp del: set_map)
qed

lemma aggregate_dead_lettered:
  assumes "d \<in> set ds" and "\<not> wd_immutable d"
    and "\<forall>x \<in> set ds. wd_emitter_name x = wd_emitter_name d \<longrightarrow> wd_state x = DS_DeadLettered"
  shows "receipt_aggregate_state ds fallback = PS_DeadLettered"
proof -
  have "DS_DeadLettered \<in> set (map snd (latest_mutable_per_emitter ds))"
    using row_has_latest_state[OF assms(1,2)] assms(3) by metis
  then show ?thesis
    by (auto simp: receipt_aggregate_state_def aggregate_from_states_def simp del: set_map)
qed

lemma aggregate_no_rows [simp]: "receipt_aggregate_state [] fallback = fallback"
  by (simp add: receipt_aggregate_state_def aggregate_from_states_def latest_mutable_per_emitter_def)

section \<open>Installing a pipeline and ingesting\<close>

definition boxed :: "shared_memory_storage \<Rightarrow> string list \<Rightarrow> verifier list \<Rightarrow> recent_dedupe \<Rightarrow> scenario_box" where
  "boxed a names vs cache =
     \<lparr>sb_pipeline = scenario_pipeline a names (fold (\<lambda>v. AList.update (v_provider_name v) v) vs []),
      sb_dedupe = cache\<rparr>"

lemma install_pipeline_run:
  "install_pipeline names vs w =
   Some (w\<lparr>iw_heap := iw_heap w @ [memory_new], iw_storage_handle := Some (length (iw_heap w)),
           iw_pipeline := Some (boxed (length (iw_heap w)) names vs \<lparr>rd_capacity = 100, rd_map = [], rd_order = []\<rparr>)\<rparr>)"
  by (simp add: install_pipeline_def shared_new_def recent_new_def scenario_builder_pipeline set_pipeline_def boxed_def)

text \<open>A webhook that passes verification and whose key is new to the store is accepted and fanned out.\<close>

lemma world_ingest_accepts:
  assumes "iw_pipeline w = Some (boxed a names vs cache)" and "recent_inv cache" and "a < length (iw_heap w)"
    and "ie_gap1 env = (\<lambda>w. w)" and "ie_gap2 env = (\<lambda>w. w)"
    and "fst (run_verification (sb_pipeline (boxed a names vs cache)) (ie_clock env) provider [] body) = Ok (status, reason)"
    and "\<forall>e \<in> set (ms_receipts (iw_heap w ! a)). dedupe_key e \<noteq> provider @ '':'' @ compute_payload_hash x body"
  shows "world_ingest x env provider body w =
    Some (Ok (IR_Accepted (ReceiptId (ie_receipt_id env))),
      w\<lparr>iw_pipeline := Some (boxed a names vs (snd (recent_record cache
            (provider @ '':'' @ compute_payload_hash x body) (compute_payload_hash x body)))),
        iw_heap := (iw_heap w)[a := (iw_heap w ! a)
          \<lparr>ms_receipts := ms_receipts (iw_heap w ! a)
             @ [build_receipt x (ie_receipt_id env) (ie_now env) provider [] body status reason],
           ms_deliveries := ms_deliveries (iw_heap w ! a)
             @ fresh_deliveries (ie_db env) 0 (ReceiptId (ie_receipt_id env)) names\<rparr>],
        iw_results := iw_results w @ [IR_Accepted (ReceiptId (ie_receipt_id env))]\<rparr>)"
proof -
  let ?p = "scenario_pipeline a names (fold (\<lambda>v. AList.update (v_provider_name v) v) vs [])"
  let ?r = "build_receipt x (ie_receipt_id env) (ie_now env) provider [] body status reason"
  let ?key = "provider @ '':'' @ compute_payload_hash x body"
  obtain ms where v: "run_verification ?p (ie_clock env) provider [] body = (Ok (status, reason), ms)"
    using assms(6) by (cases "run_verification ?p (ie_clock env) provider [] body") (simp add: boxed_def)
  obtain d where chk: "recent_check cache ?key (compute_payload_hash x body) = Ok d"
    using recent_check_total[OF assms(2)] by blast
  have key: "dedupe_key ?r = ?key" and rid: "receipt_id ?r = ReceiptId (ie_receipt_id env)"
    by (simp_all add: build_receipt_def)
  have inv: "scenario_inv a (cache, iw_heap w)" using assms(2,3) by (simp add: scenario_inv_def)
  show ?thesis
    by (cases rule: scenario_store_cases[OF inv, of ?r "ie_db env" names])
      (use assms(1,4,5,7) v chk key rid in \<open>auto simp: world_ingest_def boxed_def ingest_def scenario_pipeline_def
        scenario_check_def scenario_record_def Let_def split: prod.split\<close>)
qed

section \<open>Fan-out, end to end\<close>

fun set_behaviors :: "(string \<times> emitter_behavior) list \<Rightarrow> ingest_world \<Rightarrow> ingest_world option" where
  "set_behaviors [] w = Some w"
| "set_behaviors ((name, b) # bs) w =
     (case set_emitter_behavior name b w of None \<Rightarrow> None | Some w1 \<Rightarrow> set_behaviors bs w1)"

text \<open>Emitters under their names, none of them called yet.\<close>

definition registry_ok :: "string list \<Rightarrow> (string \<times> fake_emitter) list \<Rightarrow> bool" where
  "registry_ok names es \<longleftrightarrow>
     bt_sorted es \<and> (\<forall>n \<in> set names. map_of es n \<noteq> None) \<and> (\<forall>n e. map_of es n = Some e \<longrightarrow> fe_attempt_count e = 0)"

lemma registry_insert:
  "registry_ok names es \<Longrightarrow> fe_attempt_count e = 0 \<Longrightarrow> registry_ok (n # names) (bt_insert n e es)"
  by (auto simp: registry_ok_def map_of_bt_insert bt_sorted_insert split: if_splits)

lemma registry_weaken: "registry_ok (n # names) es \<Longrightarrow> registry_ok names es"
  by (simp add: registry_ok_def)

lemma registry_fold:
  "registry_ok names es \<Longrightarrow>
   registry_ok (rev added @ names) (fold (\<lambda>n. bt_insert n (fake_new n EB_Healthy)) added es)"
proof (induction added arbitrary: names es)
  case (Cons n added)
  have "registry_ok (n # names) (bt_insert n (fake_new n EB_Healthy) es)"
    using Cons.prems by (intro registry_insert) (simp_all add: fake_new_def)
  from Cons.IH[OF this] show ?case by simp
qed simp

lemma registry_names: "set names = set names' \<Longrightarrow> registry_ok names es = registry_ok names' es"
  by (simp add: registry_ok_def)

lemma set_behaviors_frame:
  "set_behaviors bs w = Some w' \<Longrightarrow> registry_ok names (iw_emitters w) \<Longrightarrow>
   registry_ok names (iw_emitters w') \<and> w' = w\<lparr>iw_emitters := iw_emitters w'\<rparr>"
proof (induction bs arbitrary: w)
  case (Cons p bs)
  obtain n b where p: "p = (n, b)" by (cases p)
  obtain e where e: "map_of (iw_emitters w) n = Some e" and
    rest: "set_behaviors bs (w\<lparr>iw_emitters := bt_insert n (snd (set_behavior b e)) (iw_emitters w)\<rparr>) = Some w'"
    using Cons.prems(1) p by (auto simp: set_emitter_behavior_def split: option.splits)
  have "fe_attempt_count (snd (set_behavior b e)) = 0"
    using e Cons.prems(2) by (simp add: set_behavior_def registry_ok_def)
  then have "registry_ok names (bt_insert n (snd (set_behavior b e)) (iw_emitters w))"
    using registry_weaken[OF registry_insert[OF Cons.prems(2)]] by blast
  with Cons.IH[OF rest] show ?case by simp
qed simp

lemma stripe_verification:
  "\<exists>status reason. fst (run_verification (sb_pipeline (boxed a names [pass_verifier ''stripe''] cache))
     clock provider hs body) = Ok (status, reason)"
  by (auto simp: run_verification_def boxed_def scenario_pipeline_def pass_verifier_def Let_def)

lemma fresh_run_ready:
  assumes "registry_ok names es" and "distinct (map (e_uuid env) [0 ..< length names])"
    and "receipt_id r = i"
  shows "run_ready \<lparr>rs_store = \<lparr>ms_receipts = [r], ms_deliveries = fresh_deliveries env 0 i names\<rparr>, rs_emitters = es\<rparr>"
proof -
  have "distinct (map DeliveryId (map (e_uuid env) [0 ..< length names]))"
    using assms(2) unfolding distinct_map[of DeliveryId] by (simp add: inj_on_def)
  then have "distinct (map wd_delivery_id (fresh_deliveries env 0 i names))"
    unfolding fresh_deliveries_ids by (simp add: comp_def)
  moreover have "is_open d \<and> attemptable \<lparr>rs_store = \<lparr>ms_receipts = [r],
      ms_deliveries = fresh_deliveries env 0 i names\<rparr>, rs_emitters = es\<rparr> d"
    if "d \<in> set (fresh_deliveries env 0 i names)" for d
    using fresh_deliveries_fields[OF that] assms(1,3)
    by (auto simp: is_open_def attemptable_def behavior_of_def registry_ok_def)
  ultimately show ?thesis using assms(1) by (simp add: run_ready_def list_all_iff registry_ok_def)
qed

text \<open>The state derived from settled rows, by the behaviours of their emitters.\<close>

lemma settled_aggregate:
  assumes "list_all2 (settled st) ds ds'" and "\<forall>d \<in> set ds. is_open d"
    and "b = (\<lambda>d. behavior_of st (wd_emitter_name d))"
  shows "\<exists>d \<in> set ds. b d = Some EB_AlwaysFail \<Longrightarrow> receipt_aggregate_state ds' fallback = PS_DeadLettered"
    and "ds \<noteq> [] \<Longrightarrow> \<forall>d \<in> set ds. \<exists>k. b d = Some k \<and> accepting k \<Longrightarrow>
      receipt_aggregate_state ds' fallback = PS_Emitted"
proof -
  have img: "\<exists>d \<in> set ds. settled st d d'" if "d' \<in> set ds'" for d' using list_all2_source[OF assms(1) that] .
  have fate: "wd_emitter_name d' = wd_emitter_name d \<and> \<not> wd_immutable d'
      \<and> (\<forall>k. b d = Some k \<longrightarrow> (accepting k \<longrightarrow> wd_state d' = DS_Emitted) \<and> (k = EB_AlwaysFail \<longrightarrow> wd_state d' = DS_DeadLettered))"
    if "settled st d d'" "d \<in> set ds" for d d'
    using that assms(2,3) open_not_terminal[of d] by (auto simp: settled_def same_delivery_def is_open_def)
  show "receipt_aggregate_state ds' fallback = PS_DeadLettered" if ex: "\<exists>d \<in> set ds. b d = Some EB_AlwaysFail"
  proof -
    obtain d where d: "d \<in> set ds" "b d = Some EB_AlwaysFail" using ex by blast
    obtain d' where d': "d' \<in> set ds'" "settled st d d'" using list_all2_image[OF assms(1) d(1)] by blast
    have "wd_state x = DS_DeadLettered" if x: "x \<in> set ds'" "wd_emitter_name x = wd_emitter_name d'" for x
    proof -
      obtain y where "y \<in> set ds" "settled st y x" using img[OF x(1)] by blast
      moreover from this have "b y = b d" using fate[OF d'(2) d(1)] fate[of y x] x(2) assms(3) by metis
      ultimately show ?thesis using fate[of y x] d(2) by auto
    qed
    then show ?thesis using aggregate_dead_lettered[OF d'(1)] fate[OF d'(2) d(1)] by blast
  qed
  show "receipt_aggregate_state ds' fallback = PS_Emitted"
    if "ds \<noteq> []" "\<forall>d \<in> set ds. \<exists>k. b d = Some k \<and> accepting k"
  proof (rule aggregate_all_emitted)
    show "ds' \<noteq> []" using that(1) assms(1) by auto
    show "\<forall>d \<in> set ds'. \<not> wd_immutable d \<and> wd_state d = DS_Emitted"
    proof
      fix x assume "x \<in> set ds'"
      then obtain y where "y \<in> set ds" "settled st y x" using img by blast
      then show "\<not> wd_immutable x \<and> wd_state x = DS_Emitted" using fate[of y x] that(2) by blast
    qed
  qed
qed

text \<open>The behaviour registered for a name.\<close>

definition behavior_in :: "ingest_world \<Rightarrow> string \<Rightarrow> emitter_behavior option" where
  "behavior_in w name = map_option fe_behavior (world_emitter name w)"

lemma fan_out_ingest:
  assumes "build_pipeline_with_emitters names world_new = Some w0" and "set_behaviors bs w0 = Some w1"
    and "ie_gap1 ienv = (\<lambda>w. w)" and "ie_gap2 ienv = (\<lambda>w. w)"
  shows "\<exists>w2 r. when_ingest_webhook x ienv provider body w1 = Some w2
    \<and> iw_storage_handle w2 = Some 0
    \<and> iw_heap w2 = [\<lparr>ms_receipts = [r],
        ms_deliveries = fresh_deliveries (ie_db ienv) 0 (ReceiptId (ie_receipt_id ienv)) names\<rparr>]
    \<and> receipt_id r = ReceiptId (ie_receipt_id ienv) \<and> iw_emitters w2 = iw_emitters w1
    \<and> registry_ok names (iw_emitters w1) \<and> last_accepted (iw_results w2) = Some (ReceiptId (ie_receipt_id ienv))"
proof -
  have w0: "iw_emitters w0 = fold (\<lambda>n. bt_insert n (fake_new n EB_Healthy)) names []"
    "iw_heap w0 = [memory_new]" "iw_storage_handle w0 = Some 0" "iw_results w0 = []"
    "iw_pipeline w0 = Some (boxed 0 names [pass_verifier ''stripe''] \<lparr>rd_capacity = 100, rd_map = [], rd_order = []\<rparr>)"
    using assms(1) by (auto simp: build_pipeline_with_emitters_def install_pipeline_run world_new_def)
  have "registry_ok (rev names @ []) (fold (\<lambda>n. bt_insert n (fake_new n EB_Healthy)) names [])"
    by (rule registry_fold) (simp add: registry_ok_def)
  then have "registry_ok names (iw_emitters w0)" using registry_names[of "rev names" names] w0(1) by simp
  from set_behaviors_frame[OF assms(2) this]
  have reg: "registry_ok names (iw_emitters w1)" and w1: "w1 = w0\<lparr>iw_emitters := iw_emitters w1\<rparr>" by simp_all
  have fields: "iw_heap w1 = iw_heap w0" "iw_storage_handle w1 = iw_storage_handle w0"
    "iw_results w1 = iw_results w0" "iw_pipeline w1 = iw_pipeline w0"
    by (subst w1, simp)+
  let ?cache = "\<lparr>rd_capacity = 100, rd_map = [], rd_order = []\<rparr> :: recent_dedupe"
  obtain status reason where v: "fst (run_verification (sb_pipeline (boxed 0 names [pass_verifier ''stripe''] ?cache))
      (ie_clock ienv) provider [] body) = Ok (status, reason)"
    using stripe_verification by blast
  let ?r = "build_receipt x (ie_receipt_id ienv) (ie_now ienv) provider [] body status reason"
  have "recent_inv ?cache" by (simp add: recent_inv_def)
  from world_ingest_accepts[OF _ this _ assms(3,4) v, of w1 x]
  show ?thesis
    using w0 fields reg
    by (intro exI[of _ ?r] exI)
      (auto simp: when_ingest_webhook_def memory_new_def last_accepted_def map_filter_def build_receipt_def)
qed

lemma settled_receipt:
  "list_all2 (settled st) ds ds' \<Longrightarrow> \<forall>d \<in> set ds. wd_receipt_id d = i \<Longrightarrow>
   filter (\<lambda>d. wd_receipt_id d = i) ds' = ds' \<and> map wd_emitter_name ds' = map wd_emitter_name ds"
  by (induction rule: list_all2_induct) (auto simp: settled_def same_delivery_def split: if_splits)

lemma fan_out_exhausted:
  assumes "build_pipeline_with_emitters names world_new = Some w0" and "set_behaviors bs w0 = Some w1"
    and "ie_gap1 ienv = (\<lambda>w. w)" and "ie_gap2 ienv = (\<lambda>w. w)"
    and "distinct (map (e_uuid (ie_db ienv)) [0 ..< length names])"
    and "5 * length names < 2 ^ 32" and "\<forall>r i. clock_ok (at_next (re_attempt renv r i))"
  shows "\<exists>w2 w3 rows st. when_ingest_webhook x ienv provider body w1 = Some w2
    \<and> when_workers_run_until_exhausted renv w2 = Some w3
    \<and> last_receipt_deliveries w3 = Some rows \<and> map wd_emitter_name rows = names \<and> list_all is_terminal rows
    \<and> last_receipt_state w3 = Some st
    \<and> ((\<exists>n \<in> set names. behavior_in w1 n = Some EB_AlwaysFail) \<longrightarrow> st = PS_DeadLettered)
    \<and> (names \<noteq> [] \<longrightarrow> (\<forall>n \<in> set names. \<exists>b. behavior_in w1 n = Some b \<and> accepting b) \<longrightarrow> st = PS_Emitted)
    \<and> (names = [] \<longrightarrow> st = PS_Stored)"
proof -
  let ?i = "ReceiptId (ie_receipt_id ienv)"
  let ?ds = "fresh_deliveries (ie_db ienv) 0 ?i names"
  obtain w2 r where w2: "when_ingest_webhook x ienv provider body w1 = Some w2" "iw_storage_handle w2 = Some 0"
    "iw_heap w2 = [\<lparr>ms_receipts = [r], ms_deliveries = ?ds\<rparr>]" "receipt_id r = ?i" "iw_emitters w2 = iw_emitters w1"
    "registry_ok names (iw_emitters w1)" "last_accepted (iw_results w2) = Some ?i"
    using fan_out_ingest[OF assms(1-4), of x provider body] by (elim exE conjE)
  let ?st = "\<lparr>rs_store = \<lparr>ms_receipts = [r], ms_deliveries = ?ds\<rparr>, rs_emitters = iw_emitters w1\<rparr>"
  have len: "length ?ds = length names" by (metis fresh_deliveries_emitters length_map)
  have ready: "run_ready ?st" using fresh_run_ready[OF w2(6) assms(5) w2(4)] .
  have cnt: "counters_below (5 * length (ms_deliveries (rs_store ?st))) ?st"
    using w2(6) assms(6) len by (simp add: counters_below_def registry_ok_def)
  obtain w3 where run: "run_until_exhausted renv w2 = Some w3"
    and ends: "list_all is_terminal (ms_deliveries (iw_heap w3 ! 0))"
    and rel: "list_all2 (settled ?st) ?ds (ms_deliveries (iw_heap w3 ! 0))"
    using exhausted_run[OF w2(2) _ _ ready cnt assms(7)] w2(3,5) by auto
  let ?ds' = "ms_deliveries (iw_heap w3 ! 0)"
  have w3: "iw_storage_handle w3 = Some 0" "iw_results w3 = iw_results w2"
    using run w2(2) by (auto simp: run_until_exhausted_def on_run_state_def split: option.splits)
  have op: "\<forall>d \<in> set ?ds. is_open d \<and> wd_receipt_id d = ?i \<and> wd_emitter_name d \<in> set names"
    using fresh_deliveries_fields by (fastforce simp: is_open_def)
  have rows: "last_receipt_deliveries w3 = Some ?ds'" "map wd_emitter_name ?ds' = names"
    using settled_receipt[OF rel, of ?i] op w3 w2(7)
    by (simp_all add: last_receipt_deliveries_def deliveries_for_receipt_def)
  have names: "wd_emitter_name ` set ?ds = set names" by (metis fresh_deliveries_emitters list.set_map)
  have beh: "behavior_of ?st = behavior_in w1"
    by (rule ext) (simp add: behavior_of_def behavior_in_def world_emitter_def)
  have "receipt_aggregate_state ?ds' PS_Stored = PS_DeadLettered"
    if ex: "\<exists>n \<in> set names. behavior_in w1 n = Some EB_AlwaysFail"
  proof -
    have "\<exists>d \<in> set ?ds. behavior_in w1 (wd_emitter_name d) = Some EB_AlwaysFail"
      using ex unfolding names[symmetric] by blast
    then show ?thesis using settled_aggregate(1)[OF rel _ refl] op unfolding beh by blast
  qed
  moreover have "receipt_aggregate_state ?ds' PS_Stored = PS_Emitted"
    if "names \<noteq> []" "\<forall>n \<in> set names. \<exists>b. behavior_in w1 n = Some b \<and> accepting b"
  proof (rule settled_aggregate(2)[OF rel _ refl])
    show "\<forall>d \<in> set ?ds. is_open d" using op by blast
    show "?ds \<noteq> []" using that(1) len by (metis length_0_conv)
    show "\<forall>d \<in> set ?ds. \<exists>k. behavior_of ?st (wd_emitter_name d) = Some k \<and> accepting k"
      using that(2) op unfolding beh by blast
  qed
  moreover have "receipt_aggregate_state ?ds' PS_Stored = PS_Stored" if "names = []"
    using that rel by simp
  ultimately show ?thesis
    using w2(1) run ends rows
    by (intro exI[of _ w2] exI[of _ w3] exI[of _ ?ds'] exI[of _ "receipt_aggregate_state ?ds' PS_Stored"])
      (simp add: when_workers_run_until_exhausted_def last_receipt_state_def)
qed

text \<open>C14. Fan-out, end to end: whatever emitters a scenario configures and however it sets their behaviour,
  a webhook is accepted with one delivery row per emitter, in order; driving the deliveries until
  exhaustion never panics and leaves every row terminal; and the processing state derived from the
  rows is \<^verbatim>\<open>dead_lettered\<close> as soon as one emitter always fails, \<^verbatim>\<open>emitted\<close> when every emitter accepts,
  and \<^verbatim>\<open>stored\<close> when there is none.\<close>

theorem derived_state_follows_emitters:
  assumes "build_pipeline_with_emitters names world_new = Some w0" and "set_behaviors bs w0 = Some w1"
    and "ie_gap1 ienv = (\<lambda>w. w)" and "ie_gap2 ienv = (\<lambda>w. w)"
    and "distinct (map (e_uuid (ie_db ienv)) [0 ..< length names])"
    and "5 * length names < 2 ^ 32" and "\<forall>r i. clock_ok (at_next (re_attempt renv r i))"
  shows "\<exists>w2 w3 rows st. when_ingest_webhook x ienv provider body w1 = Some w2
    \<and> when_workers_run_until_exhausted renv w2 = Some w3
    \<and> last_receipt_deliveries w3 = Some rows \<and> map wd_emitter_name rows = names \<and> list_all is_terminal rows
    \<and> last_receipt_state w3 = Some st
    \<and> ((\<exists>n \<in> set names. behavior_in w1 n = Some EB_AlwaysFail) \<longrightarrow> st = PS_DeadLettered)
    \<and> (names \<noteq> [] \<longrightarrow> (\<forall>n \<in> set names. \<exists>b. behavior_in w1 n = Some b \<and> accepting b) \<longrightarrow> st = PS_Emitted)
    \<and> (names = [] \<longrightarrow> st = PS_Stored)"
  using assms by (rule fan_out_exhausted)

theorem derived_state_follows_emitters_witness:
  "\<exists>w0 w1 w2 w3. build_pipeline_with_emitters [''a'', ''b''] world_new = Some w0
    \<and> set_behaviors [(''b'', EB_AlwaysFail)] w0 = Some w1
    \<and> when_ingest_webhook ext0 (calm_ienv 1 10) ''stripe'' test_event w1 = Some w2
    \<and> when_workers_run_until_exhausted run_env0 w2 = Some w3 \<and> last_receipt_state w3 = Some PS_DeadLettered"
proof -
  obtain w0 where w0: "build_pipeline_with_emitters [''a'', ''b''] world_new = Some w0"
    by (simp add: build_pipeline_with_emitters_def install_pipeline_run)
  then have e: "iw_emitters w0 = [(''a'', fake_new ''a'' EB_Healthy), (''b'', fake_new ''b'' EB_Healthy)]"
    by (auto simp: build_pipeline_with_emitters_def install_pipeline_run world_new_def bt_insert_def)
  obtain w1 where w1: "set_behaviors [(''b'', EB_AlwaysFail)] w0 = Some w1"
    by (simp add: set_emitter_behavior_def e)
  then have "behavior_in w1 ''b'' = Some EB_AlwaysFail"
    by (auto simp: set_emitter_behavior_def e bt_insert_def behavior_in_def world_emitter_def set_behavior_def)
  moreover have "distinct (map (e_uuid (ie_db (calm_ienv 1 10))) [0 ..< length [''a'', ''b'']])"
    by (simp add: calm_ienv_def env_ok_def upt_rec)
  moreover have "\<forall>r i. clock_ok (at_next (re_attempt run_env0 r i))"
    by (simp add: run_env0_def clock_ok_def chrono_max_utc_def)
  ultimately obtain w2 w3 where "when_ingest_webhook ext0 (calm_ienv 1 10) ''stripe'' test_event w1 = Some w2"
    "when_workers_run_until_exhausted run_env0 w2 = Some w3" "last_receipt_state w3 = Some PS_DeadLettered"
    using derived_state_follows_emitters[OF w0 w1, of "calm_ienv 1 10" run_env0 ext0 "''stripe''" test_event]
    by (auto simp: calm_ienv_def)
  with w0 w1 show ?thesis by blast
qed

section \<open>The core features\<close>

definition json_event :: "string \<Rightarrow> string" where
  "json_event name = ''{\"event\":\"'' @ name @ ''\"}''"

definition feature_ingest :: "scenario_step list list" where
  "feature_ingest =
     [[Given_passing_verifier ''test'', When_ingest ''test'' (json_event ''payment.completed''),
       Then_result ''accepted''],
      [Given_failing_verifier ''badprovider'', When_ingest ''badprovider'' (json_event ''test''),
       Then_result ''verification_failed''],
      [Given_passing_verifier ''test'', When_ingest ''test'' (json_event ''payment.completed''),
       When_ingest ''test'' (json_event ''payment.completed''), Then_first ''accepted'', Then_second ''duplicate''],
      [Given_no_verifiers, When_ingest ''unknown'' (json_event ''test''), Then_result ''accepted''],
      [Given_emitters ''kafka,sqs'', When_ingest ''stripe'' (json_event ''test''), Then_result ''accepted'',
       Then_rows 2]]"

definition feature_verification :: "scenario_step list list" where
  "feature_verification =
     [[Given_passing_verifier ''test'', When_ingest ''test'' (json_event ''provider_test''), Then_result ''accepted''],
      [Given_passing_verifier ''stripe'', When_ingest ''unknown_provider'' (json_event ''test''), Then_result ''accepted''],
      [Given_no_verifiers, When_ingest ''adyen'' (json_event ''test''), Then_result ''accepted'']]"

definition feature_emitter :: "scenario_step list list" where
  "feature_emitter =
     map (\<lambda>body. [Given_passing_verifier ''test'', When_ingest ''test'' body, Then_result ''accepted''])
       [json_event ''emitter_test'', json_event ''trace_test'', json_event ''fail_emit'',
        ''{\"event\":\"equality_test\",\"amount\":42}'']"

definition feature_retry :: "scenario_step list list" where
  "feature_retry =
     map (\<lambda>body. [Given_passing_verifier ''test'', When_ingest ''test'' body, Then_result ''accepted''])
       [json_event ''retry_test'', json_event ''emit_fail_test'']"

definition feature_fan_out :: "scenario_step list list" where
  "feature_fan_out =
     [[Given_emitters ''chan-a, chan-b'', When_valid_ingested, When_all_complete,
       Then_receives ''chan-a'' 1, Then_receives ''chan-b'' 1, Then_rows 2],
      [Given_emitters ''chan-a'', When_valid_ingested, When_same_again, When_all_complete,
       Then_receives ''chan-a'' 1, Then_rows 1]]"

definition feature_derived_state :: "scenario_step list list" where
  "feature_derived_state =
     [[Given_emitters ''a, b'', When_valid_ingested, When_all_complete, Then_state ''emitted''],
      [Given_emitters ''ok, broken'', Given_permanently_fails ''broken'', When_valid_ingested, When_exhausted,
       Then_state ''dead_lettered''],
      [Given_emitters ''slow'', Given_paused ''slow'', When_valid_ingested, Then_state ''stored'']]"

definition feature_backoff :: "scenario_step list list" where
  "feature_backoff =
     [[Given_policy_jitter 30 (Fin 2) (Fin 0), When_fails_first, Then_backoff 30],
      [Given_policy_jitter 30 (Fin 2) (Fin 0), When_failed_times 2, Then_backoff 60],
      [Given_policy_max 60 (Fin 4) 120, When_failed_times 3, Then_backoff 120]]"

definition core_features :: "scenario_step list list" where
  "core_features =
     feature_ingest @ feature_verification @ feature_emitter @ feature_retry @ feature_fan_out
     @ feature_derived_state @ feature_backoff"

text \<open>The surroundings of a scenario: no other task touches its store, two random identifiers of one ingest
  differ, the clock does not run backwards nor is near the end of its range, and small powers are
  exact. Nothing is assumed of the hash function, the receipt identifiers or the random samples.\<close>

definition powi_small :: "(f64 \<Rightarrow> int \<Rightarrow> f64) \<Rightarrow> bool" where
  "powi_small powi_fn \<longleftrightarrow> powi_fn (Fin 2) 0 = Fin 1 \<and> powi_fn (Fin 2) 1 = Fin 2 \<and> powi_fn (Fin 4) 2 = Fin 16"

definition calm_steps :: "(nat \<Rightarrow> step_env) \<Rightarrow> bool" where
  "calm_steps envs \<longleftrightarrow>
     (\<forall>k. ie_gap1 (se_ingest (envs k)) = (\<lambda>w. w) \<and> ie_gap2 (se_ingest (envs k)) = (\<lambda>w. w)
        \<and> e_uuid (ie_db (se_ingest (envs k))) 0 \<noteq> e_uuid (ie_db (se_ingest (envs k))) 1
        \<and> powi_small (re_powi (se_run (envs k))))
     \<and> (\<forall>j k. e_now (ie_db (se_ingest (envs j))) \<le> re_now (se_run (envs k)) 0)
     \<and> (\<forall>k r i. clock_ok (at_next (re_attempt (se_run (envs k)) r i)))"

definition passes :: "externals \<Rightarrow> (nat \<Rightarrow> step_env) \<Rightarrow> scenario_step list \<Rightarrow> bool" where
  "passes x envs sc \<longleftrightarrow> run_scenario x envs sc world_new \<noteq> None"

lemmas world_simps = install_pipeline_run world_new_def boxed_def memory_new_def build_pipeline_with_emitters_def
  given_pipeline_with_passing_verifier_def given_pipeline_with_failing_verifier_def
  given_pipeline_with_no_verifiers_def given_pipeline_with_emitters_def

lemmas ingest_simps = when_ingest_webhook_def when_valid_webhook_ingested_def when_same_webhook_ingested_again_def
  world_ingest_def ingest_def run_verification_def scenario_pipeline_def scenario_check_def scenario_record_def
  scenario_store_def shared_store_with_deliveries_def on_shared_def mem_store_with_deliveries_def mem_store_def
  recent_check_def recent_record_def recent_evict_def pass_verifier_def fail_verifier_def build_receipt_def

lemmas then_simps = then_result_should_be_def then_first_result_should_be_def then_second_result_should_be_def
  then_receipt_has_n_delivery_rows_def then_emitter_receives_n_events_def then_receipt_processing_state_is_def
  check_that_def assert_result_matches_def last_receipt_deliveries_def last_accepted_def map_filter_def
  deliveries_for_receipt_def fresh_delivery_def

lemma trim_word:
  assumes "s \<noteq> []" and "solid (hd s)" and "solid (last s)"
  shows "trim s = s" and "trim (CHR '' '' # s) = s"
  using trim_padded[OF assms(2,3,1), of 0 0] trim_padded[OF assms(2,3,1), of 1 0] by simp_all

lemmas csv_simps = trim_word solid_def byte_def

lemma feature_ingest_passes:
  "calm_steps envs \<Longrightarrow> list_all (passes x envs) feature_ingest"
  unfolding feature_ingest_def calm_steps_def passes_def
  by (simp add: world_simps ingest_simps then_simps csv_simps Let_def)

lemma accepted_features_pass:
  assumes "calm_steps envs"
  shows "list_all (passes x envs) feature_verification" and "list_all (passes x envs) feature_emitter"
    and "list_all (passes x envs) feature_retry"
  using assms unfolding feature_verification_def feature_emitter_def feature_retry_def calm_steps_def passes_def
  by (simp_all add: world_simps ingest_simps then_simps Let_def)

lemmas run_simps = when_all_deliveries_complete_def run_deliveries_to_completion_def on_run_state_def
  pending_deliveries_def attempt_delivery_def mem_get_def fake_emit_def u32_plus_def receive_def
  update_delivery_def mark_success_def fake_new_def bt_insert_def world_emitter_def received_count_def

lemma completion_rounds_50: "completion_rounds (numeral k) r env st =
     (case pending_deliveries (re_now env r) (rs_store st) of
        Err _ \<Rightarrow> None
      | Ok [] \<Rightarrow> Some st
      | Ok pending \<Rightarrow>
          (case attempt_all False env (re_attempt env r) pending st of
             None \<Rightarrow> None
           | Some st1 \<Rightarrow> completion_rounds (pred_numeral k) (Suc r) env st1))"
  by (simp only: numeral_eq_Suc completion_rounds.simps)

lemma feature_fan_out_passes:
  "calm_steps envs \<Longrightarrow> list_all (passes x envs) feature_fan_out"
  unfolding feature_fan_out_def calm_steps_def passes_def
  by (simp add: world_simps ingest_simps then_simps csv_simps Let_def run_simps completion_rounds_50)

lemmas state_simps = last_receipt_state_def receipt_aggregate_state_def latest_mutable_per_emitter_def latest_step_def
  aggregate_from_states_def given_emitter_is_paused_def given_emitter_permanently_fails_def set_emitter_behavior_def
  set_behavior_def

lemma dead_letter_scenario:
  assumes "calm_steps envs"
  shows "passes x envs [Given_emitters ''ok, broken'', Given_permanently_fails ''broken'', When_valid_ingested, When_exhausted,
       Then_state ''dead_lettered'']"
proof -
  obtain w0 where w0: "build_pipeline_with_emitters [''ok'', ''broken''] world_new = Some w0"
    by (simp add: build_pipeline_with_emitters_def install_pipeline_run)
  then have e: "iw_emitters w0 = [(''broken'', fake_new ''broken'' EB_Healthy), (''ok'', fake_new ''ok'' EB_Healthy)]"
    by (auto simp: build_pipeline_with_emitters_def install_pipeline_run world_new_def bt_insert_def)
  obtain w1 where w1: "set_emitter_behavior ''broken'' EB_AlwaysFail w0 = Some w1"
    by (simp add: set_emitter_behavior_def e)
  then have b: "behavior_in w1 ''broken'' = Some EB_AlwaysFail"
    by (auto simp: set_emitter_behavior_def e bt_insert_def behavior_in_def world_emitter_def set_behavior_def)
  have sb: "set_behaviors [(''broken'', EB_AlwaysFail)] w0 = Some w1" using w1 by simp
  obtain w2 w3 where "when_valid_webhook_ingested x (se_ingest (envs 2)) w1 = Some w2"
    "when_workers_run_until_exhausted (se_run (envs 3)) w2 = Some w3" "last_receipt_state w3 = Some PS_DeadLettered"
    using fan_out_exhausted[OF w0 sb, of "se_ingest (envs 2)" "se_run (envs 3)" x "''stripe''" test_event] assms b
    by (auto simp: when_valid_webhook_ingested_def calm_steps_def)
  moreover have "given_pipeline_with_emitters ''ok, broken'' world_new = Some w0"
    using w0 by (simp add: given_pipeline_with_emitters_def csv_simps)
  moreover have "given_emitter_permanently_fails ''broken'' w0 = Some w1"
    using w1 by (simp add: given_emitter_permanently_fails_def)
  ultimately show ?thesis
    by (simp add: passes_def then_receipt_processing_state_is_def check_that_def numeral_2_eq_2 numeral_3_eq_3)
qed
lemma feature_derived_state_passes:
  assumes "calm_steps envs"
  shows "list_all (passes x envs) feature_derived_state"
proof -
  have "passes x envs [Given_emitters ''a, b'', When_valid_ingested, When_all_complete, Then_state ''emitted'']"
    "passes x envs [Given_emitters ''slow'', Given_paused ''slow'', When_valid_ingested, Then_state ''stored'']"
    using assms unfolding calm_steps_def passes_def
    by (simp_all add: world_simps ingest_simps then_simps csv_simps Let_def run_simps state_simps completion_rounds_50)
  then show ?thesis using dead_letter_scenario[OF assms] by (simp add: feature_derived_state_def)
qed

text \<open>Without jitter a whole number of seconds comes out exactly, cut to the cap.\<close>

lemma compute_backoff_exact:
  assumes "0 < n" and "backoff_multiplier p = Fin m" and "0 < m" and "jitter p = Fin 0"
    and "powi_fn (Fin m) (n - 1) = Fin (of_nat q)" and "initial_backoff p = duration_from_secs i"
    and "i \<le> 2 ^ 53" and "i * q \<le> 2 ^ 53" and "t \<le> i * q"
    and "f64_min (Fin (of_nat (i * q))) (as_secs_f64 (max_backoff p)) = Fin (of_nat t)"
    and "f64_le (Fin (of_nat t)) (as_secs_f64 (max_backoff p))"
  shows "compute_backoff debug powi_fn sample n p = Some (duration_from_secs t)"
proof -
  let ?M = "as_secs_f64 (max_backoff p)"
  have i: "as_secs_f64 (initial_backoff p) = Fin (of_nat i)" using assms(6,7) by (simp add: as_secs_f64_whole)
  have iq: "f64_mul (Fin (of_nat i)) (Fin (of_nat q)) = Fin (of_nat (i * q))"
    using f64_round_nat[OF assms(8)] by simp
  have t1: "f64_mul (Fin (of_nat t)) (Fin 1) = Fin (of_nat t)"
    using f64_round_nat[of t] assms(8,9) by simp
  have t64: "t < 2 ^ 64" using assms(8,9) by simp
  have mins: "f64_min (Fin (of_nat t)) ?M = Fin (of_nat t)" "f64_clamp (Fin (of_nat t)) (Fin 0) ?M = Fin (of_nat t)"
    using assms(11) by (cases ?M; auto simp: f64_le_def f64_min_def f64_clamp_def)+
  have guards: "f64_le (Fin 0) (jitter p)" "f64_le (jitter p) (Fin 1)" "\<not> f64_lt (Fin 0) (jitter p)"
    "f64_is_finite (backoff_multiplier p)" "f64_lt (Fin 0) (backoff_multiplier p)"
    "\<not> f64_le (backoff_multiplier p) (Fin 0)" "f64_max (Fin 1) (Fin 0) = Fin 1"
    using assms(2-4) by (simp_all add: f64_le_def f64_max_def)
  show ?thesis
    unfolding compute_backoff_def Let_def i
    using guards assms(1,2,5,10) iq t1 mins from_secs_f64_whole[OF t64]
    by (simp del: from_secs_f64.simps f64_mul.simps)
qed

lemma as_secs_f64_above:
  assumes "t \<le> 2 ^ 53" and "t \<le> s"
  shows "f64_le (Fin (of_nat t)) (as_secs_f64 (duration_from_secs s))"
proof -
  have above: "f64_le (Fin (of_nat t)) (f64_round r)" if "of_nat t \<le> r" for r
    using f64_round_mono[of "of_nat t" r] f64_round_nat[OF assms(1)] that by simp
  have eq: "as_secs_f64 (duration_from_secs s) = f64_add (f64_round (of_nat s)) (Fin 0)"
    by (simp add: as_secs_f64_def duration_from_secs_def nanos_per_sec_def)
  have s: "f64_le (Fin (of_nat t)) (f64_round (of_nat s))" using above assms(2) by simp
  then show ?thesis
  proof (cases "f64_round (of_nat s)")
    case (Fin r)
    then have "of_nat t \<le> r" using s by (auto simp: f64_le_def)
    then show ?thesis using above eq Fin by simp
  qed (use eq s in \<open>auto simp: f64_le_def\<close>)
qed

lemma min_of_le: "f64_le (Fin a) M \<Longrightarrow> f64_min (Fin a) M = Fin a"
  by (cases M) (auto simp: f64_le_def f64_min_def)

lemma feature_backoff_passes:
  assumes "calm_steps envs"
  shows "list_all (passes x envs) feature_backoff"
proof -
  note defs = then_next_attempt_at_approximately_def given_retry_policy_with_jitter_def
    given_retry_policy_with_max_backoff_def when_emitter_fails_first_time_def when_emitter_has_failed_n_times_def
    check_that_def
  let ?p = "\<lambda>i m c. \<lparr>max_attempts = 10, initial_backoff = duration_from_secs i,
        max_backoff = duration_from_secs c, backoff_multiplier = Fin m, jitter = Fin 0\<rparr> :: retry_policy"
  let ?big = "(2 ^ 64 - 1) div 2 :: nat"
  have b1: "compute_backoff d f s 1 (?p 30 2 ?big) = Some (duration_from_secs 30)" if "powi_small f" for d f s
    by (rule compute_backoff_exact[where m = 2 and q = 1 and i = 30])
      (use that min_of_le[OF as_secs_f64_above[of 30 ?big]] as_secs_f64_above[of 30 ?big] in \<open>simp_all add: powi_small_def\<close>)
  have b2: "compute_backoff d f s 2 (?p 30 2 ?big) = Some (duration_from_secs 60)" if "powi_small f" for d f s
    by (rule compute_backoff_exact[where m = 2 and q = 2 and i = 30])
      (use that min_of_le[OF as_secs_f64_above[of 60 ?big]] as_secs_f64_above[of 60 ?big] in \<open>simp_all add: powi_small_def\<close>)
  have b3: "compute_backoff d f s 3 (?p 60 4 120) = Some (duration_from_secs 120)" if "powi_small f" for d f s
    by (rule compute_backoff_exact[where m = 4 and q = 16 and i = 60])
      (use that as_secs_f64_whole[of 120] in \<open>simp_all add: powi_small_def f64_min_def f64_le_def\<close>)
  show ?thesis
    unfolding feature_backoff_def using assms b1 b2 b3
    by (simp add: calm_steps_def passes_def defs Let_def)
qed

text \<open>C16. All scenarios of the core feature files pass, whatever SHA-256 computes, whatever identifiers are
  drawn and times are read, in debug and release builds: the step definitions run to the end without
  a panic and every assertion holds.\<close>

theorem core_features_pass:
  assumes "calm_steps envs"
  shows "list_all (passes x envs) core_features"
  using feature_ingest_passes[OF assms] accepted_features_pass[OF assms] feature_fan_out_passes[OF assms]
    feature_derived_state_passes[OF assms] feature_backoff_passes[OF assms]
  by (simp add: core_features_def)

definition steps0 :: "nat \<Rightarrow> step_env" where
  "steps0 k = \<lparr>se_ingest = calm_ienv 1 10,
     se_run = run_env0\<lparr>re_now := (\<lambda>_. 5),
       re_powi := (\<lambda>b e. case b of Fin a \<Rightarrow> Fin (a ^ nat e) | other \<Rightarrow> other)\<rparr>,
     se_sample = Fin 0\<rparr>"

theorem core_features_pass_witness: "list_all (passes ext0 steps0) core_features"
proof (rule core_features_pass)
  show "calm_steps steps0"
    by (simp add: calm_steps_def steps0_def calm_ienv_def env_ok_def powi_small_def run_env0_def clock_ok_def
        chrono_max_utc_def)
qed

end
