(* ===== verification/Property_Tests.thy ===== *)
theory Property_Tests
  imports Cli
begin

text \<open>
  The harnesses of \<^verbatim>\<open>crates/hookbox-verify\<close>: the Kani proofs and the Bolero property tests. Each test
  function is a predicate on the inputs its generator draws; it is true when the body returns and
  false when an assertion or an \<^verbatim>\<open>expect\<close> fails. Shown: every one of them holds for all inputs, where the
  tests sample some; the backoff tests for every power function that grows with the exponent, the
  ones on encodings for the documented formats. Left out are the test that no two payloads hash
  alike, which holds of no 256-bit hash, the round trip of the Base64 library, and the two round
  trips of serde's derived code.
\<close>

section \<open>backoff\_props.rs\<close>

text \<open>Inputs are bytes; the quotient by ten is one rounded division.\<close>

definition bounded_policy :: "nat \<Rightarrow> nat \<Rightarrow> nat \<Rightarrow> nat \<Rightarrow> retry_policy" where
  "bounded_policy initial_secs max_secs_delta multiplier_x10 max_att =
     (let initial = duration_from_secs (max initial_secs 1);
          maximum = initial + duration_from_secs max_secs_delta in
      \<lparr>max_attempts = int (max max_att 1), initial_backoff = initial, max_backoff = maximum,
       backoff_multiplier = f64_min (f64_round (of_nat (max multiplier_x10 10) / 10)) (Fin 4),
       jitter = Fin 0\<rparr>)"

text \<open>\<open>backoff_call\<close> runs \<^verbatim>\<open>compute_backoff\<close> in a debug or release build; the k-th call draws \<open>samples k\<close>.\<close>

record backoff_env =
  bo_debug :: bool
  bo_powi :: "f64 \<Rightarrow> int \<Rightarrow> f64"
  bo_samples :: "nat \<Rightarrow> f64"

definition backoff_call :: "backoff_env \<Rightarrow> nat \<Rightarrow> int \<Rightarrow> retry_policy \<Rightarrow> duration option" where
  "backoff_call env k n p = compute_backoff (bo_debug env) (bo_powi env) (bo_samples env k) n p"

definition prop_backoff_monotonic_under_no_jitter :: "backoff_env \<Rightarrow> nat \<times> nat \<times> nat \<times> nat \<Rightarrow> bool" where
  "prop_backoff_monotonic_under_no_jitter env = (\<lambda>(i, d, m, a).
     let p = bounded_policy i d m a in
     list_all (\<lambda>attempt.
       case backoff_call env (2 * attempt) (int attempt) p of
         None \<Rightarrow> False
       | Some lo \<Rightarrow> (case backoff_call env (2 * attempt + 1) (int attempt + 1) p of
             None \<Rightarrow> False | Some hi \<Rightarrow> lo \<le> hi)) [1 ..< 15])"

definition prop_backoff_first_failure_is_initial_under_no_jitter ::
  "backoff_env \<Rightarrow> nat \<times> nat \<times> nat \<times> nat \<Rightarrow> bool" where
  "prop_backoff_first_failure_is_initial_under_no_jitter env = (\<lambda>(i, d, m, a).
     let p = bounded_policy i d m a in backoff_call env 0 1 p = Some (initial_backoff p))"

definition prop_backoff_within_max_backoff :: "backoff_env \<Rightarrow> nat \<times> nat \<times> nat \<times> nat \<times> nat \<Rightarrow> bool" where
  "prop_backoff_within_max_backoff env = (\<lambda>(i, d, m, a, attempt_raw).
     let p = bounded_policy i d m a; attempt = int (max attempt_raw 1) in
     (case backoff_call env 0 attempt p of None \<Rightarrow> False | Some got \<Rightarrow> got \<le> max_backoff p))"

section \<open>dedupe\_props.rs\<close>

definition after_record_check_returns_duplicate :: "string \<times> string \<Rightarrow> bool" where
  "after_record_check_returns_duplicate = (\<lambda>(key, hash).
     case recent_new 64 of
       None \<Rightarrow> False
     | Some cache \<Rightarrow>
         (case recent_record cache key hash of
            (Err _, _) \<Rightarrow> False
          | (Ok _, cache1) \<Rightarrow> recent_check cache1 key hash = Ok DD_Duplicate))"

definition after_record_check_different_hash_returns_conflict :: "string \<times> string \<times> string \<Rightarrow> bool" where
  "after_record_check_different_hash_returns_conflict = (\<lambda>(key, hash1, hash2).
     if hash1 = hash2 then True
     else (case recent_new 64 of
             None \<Rightarrow> False
           | Some cache \<Rightarrow>
               (case recent_record cache key hash1 of
                  (Err _, _) \<Rightarrow> False
                | (Ok _, cache1) \<Rightarrow> recent_check cache1 key hash2 = Ok DD_Conflict)))"

definition check_on_never_recorded_key_returns_new :: "string \<times> string \<Rightarrow> bool" where
  "check_on_never_recorded_key_returns_new = (\<lambda>(key, hash).
     case recent_new 64 of None \<Rightarrow> False | Some cache \<Rightarrow> recent_check cache key hash = Ok DD_New)"

fun record_all :: "string list \<Rightarrow> string \<Rightarrow> recent_dedupe \<Rightarrow> recent_dedupe option" where
  "record_all [] hash cache = Some cache"
| "record_all (key # keys) hash cache =
     (case recent_record cache key hash of
        (Err _, _) \<Rightarrow> None
      | (Ok _, cache1) \<Rightarrow> record_all keys hash cache1)"

text \<open>The generator draws five keys; a draw with a repeated key is skipped.\<close>

definition capacity_respected_first_key_evicted :: "string list \<Rightarrow> bool" where
  "capacity_respected_first_key_evicted keys =
     (if length (remdups keys) < 5 then True
      else (case recent_new 4 of
              None \<Rightarrow> False
            | Some cache \<Rightarrow>
                (case record_all keys ''hash'' cache of
                   None \<Rightarrow> False
                 | Some cache1 \<Rightarrow> recent_check cache1 (keys ! 0) ''hash'' = Ok DD_New)))"

section \<open>emitter\_props.rs\<close>

definition make_event :: "uuid \<Rightarrow> timestamp \<Rightarrow> string \<Rightarrow> string \<Rightarrow> normalized_event" where
  "make_event rid now provider hash =
     \<lparr>ne_receipt_id = ReceiptId rid, ne_provider_name = provider, ne_event_type = Some ''test.event'',
      ne_external_reference = None, ne_parsed_payload = Some (jobj [(''key'', JString ''value'')]),
      ne_payload_hash = hash, ne_received_at = now, ne_metadata = JObject []\<rparr>"

text \<open>\<^verbatim>\<open>try_recv\<close> takes the oldest event off the channel; an \<^verbatim>\<open>Arc\<close> delegates to what it holds.\<close>

definition arc_emitter_roundtrip :: "uuid \<Rightarrow> timestamp \<Rightarrow> string \<Rightarrow> bool" where
  "arc_emitter_roundtrip rid now provider =
     (case channel_new 16 of
        None \<Rightarrow> False
      | Some ch \<Rightarrow>
          (let event = make_event rid now provider ''abc123'' in
           (case channel_emit event ch of
              Some (Ok _, ch1) \<Rightarrow>
                (case drain_turn ch1 of
                   None \<Rightarrow> False
                 | Some (received, _) \<Rightarrow> ne_provider_name received = ne_provider_name event)
            | _ \<Rightarrow> False)))"

definition receipt_id_is_valid_message_key :: "externals \<Rightarrow> uuid \<Rightarrow> bool" where
  "receipt_id_is_valid_message_key x rid =
     (let s = x_uuid_to_string x rid in
      s \<noteq> [] \<and> CHR 0x0A \<notin> set s \<and> CHR 0x00 \<notin> set s)"

section \<open>hash\_props.rs and provider\_props.rs\<close>

definition is_ascii_hexdigit :: "char \<Rightarrow> bool" where
  "is_ascii_hexdigit c \<longleftrightarrow>
     is_digit c \<or> 65 \<le> byte c \<and> byte c \<le> 70 \<or> 97 \<le> byte c \<and> byte c \<le> 102"

definition hash_is_deterministic :: "externals \<Rightarrow> bytes \<Rightarrow> bool" where
  "hash_is_deterministic x input = (compute_payload_hash x input = compute_payload_hash x input)"

definition hash_output_is_64_hex_characters :: "externals \<Rightarrow> bytes \<Rightarrow> bool" where
  "hash_output_is_64_hex_characters x input =
     (let hash = compute_payload_hash x input in length hash = 64 \<and> list_all is_ascii_hexdigit hash)"

definition hmac_sha256_verify_roundtrip :: "externals \<Rightarrow> bytes \<Rightarrow> bool" where
  "hmac_sha256_verify_roundtrip x body =
     (case x_hmac_sha256 x ''test-bolero-secret'' body of
        None \<Rightarrow> False
      | Some sig \<Rightarrow> length sig = 32 \<and> length (x_hex_encode x sig) = 64)"

text \<open>\<open>lossy\<close> is \<^verbatim>\<open>String::from_utf8_lossy\<close>.\<close>

definition svix_signed_content_format :: "(bytes \<Rightarrow> string) \<Rightarrow> string \<times> nat \<times> bytes \<Rightarrow> bool" where
  "svix_signed_content_format lossy = (\<lambda>(msg_id, ts, body).
     let signed = msg_id @ ''.'' @ dec ts @ ''.'' @ lossy body in
     CHR ''.'' \<in> set signed \<and> length (filter (\<lambda>c. c = CHR ''.'') signed) \<ge> 2)"

section \<open>metrics\_props.rs\<close>

definition verification_label_is_never_empty :: "nat \<Rightarrow> bool" where
  "verification_label_is_never_empty n =
     (let status = (if n mod 3 = 0 then VS_Verified else if n mod 3 = 1 then VS_Failed else VS_Skipped);
          label = verification_status_label status in
      label \<noteq> [] \<and> label \<in> {''verified'', ''failed'', ''skipped''})"

definition dedupe_label_is_never_empty :: "nat \<Rightarrow> bool" where
  "dedupe_label_is_never_empty n =
     (let decision = (if n mod 3 = 0 then DD_New else if n mod 3 = 1 then DD_Duplicate else DD_Conflict);
          label = dedupe_decision_label decision in
      label \<noteq> [] \<and> label \<in> {''new'', ''duplicate'', ''conflict''})"

definition ingest_result_labels_are_all_non_empty :: bool where
  "ingest_result_labels_are_all_non_empty = list_all (\<lambda>label. label \<noteq> []) INGEST_RESULT_LABELS"

section \<open>retry\_props.rs\<close>

definition retry_always_reaches_dead_lettered_at_max :: "nat \<times> nat \<Rightarrow> bool" where
  "retry_always_reaches_dead_lettered_at_max = (\<lambda>(emit_cnt, max_raw).
     let max_att = max (int max_raw) 1; (new_count, new_state) = retry_next_state (int emit_cnt) max_att in
     new_count = int emit_cnt + 1
     \<and> (if new_count \<ge> max_att then new_state = PS_DeadLettered else new_state = PS_EmitFailed))"

definition reset_is_always_findable_by_worker :: "nat \<Rightarrow> bool" where
  "reset_is_always_findable_by_worker max_raw =
     (let max_att = max (int max_raw) 1; (new_count, new_state) = reset_state in
      is_findable_by_worker new_count new_state max_att)"

definition dead_lettered_is_never_findable_by_worker :: "nat \<times> nat \<Rightarrow> bool" where
  "dead_lettered_is_never_findable_by_worker = (\<lambda>(cnt, max_raw).
     \<not> is_findable_by_worker (int cnt) PS_DeadLettered (max (int max_raw) 1))"

section \<open>state\_props.rs\<close>

text \<open>A unit variant is written as its quoted name, and read by finding the variant of that name.\<close>

definition enum_to_json :: "('a \<Rightarrow> string) \<Rightarrow> 'a \<Rightarrow> string" where
  "enum_to_json name v = CHR 0x22 # name v @ [CHR 0x22]"

definition enum_from_json :: "('a \<Rightarrow> string) \<Rightarrow> 'a list \<Rightarrow> string \<Rightarrow> 'a option" where
  "enum_from_json name variants s =
     (if length s \<ge> 2 \<and> hd s = CHR 0x22 \<and> last s = CHR 0x22
      then find (\<lambda>v. name v = butlast (tl s)) variants else None)"

definition processing_state_round_trips_through_serde :: bool where
  "processing_state_round_trips_through_serde =
     list_all (\<lambda>v. enum_from_json processing_state_name all_processing_states (enum_to_json processing_state_name v) = Some v)
       all_processing_states"

definition verification_status_round_trips_through_serde :: bool where
  "verification_status_round_trips_through_serde =
     list_all (\<lambda>v. enum_from_json verification_status_name all_verification_statuses
                     (enum_to_json verification_status_name v) = Some v) all_verification_statuses"

definition dedupe_decision_exhaustive_variants :: "nat \<Rightarrow> bool" where
  "dedupe_decision_exhaustive_variants n =
     (let decision = (if n mod 3 = 0 then DD_New else if n mod 3 = 1 then DD_Duplicate else DD_Conflict) in
      decision \<in> {DD_New, DD_Duplicate, DD_Conflict})"

section \<open>kani\_proofs.rs\<close>

text \<open>\<open>None\<close>: the assumption on the drawn byte excludes this execution.\<close>

definition any_state :: "nat \<Rightarrow> processing_state option" where
  "any_state n =
     (if n < 10 then
        Some (if n = 0 then PS_Received else if n = 1 then PS_Verified
              else if n = 2 then PS_VerificationFailed else if n = 3 then PS_Duplicate
              else if n = 4 then PS_Stored else if n = 5 then PS_Emitted
              else if n = 6 then PS_Processed else if n = 7 then PS_EmitFailed
              else if n = 8 then PS_DeadLettered else PS_Replayed)
      else None)"

definition assuming :: "'a option \<Rightarrow> ('a \<Rightarrow> bool) \<Rightarrow> bool" where
  "assuming v body = (case v of None \<Rightarrow> True | Some a \<Rightarrow> body a)"

fun serialized_name :: "processing_state \<Rightarrow> string" where
  "serialized_name PS_Received = ''received''"
| "serialized_name PS_Verified = ''verified''"
| "serialized_name PS_VerificationFailed = ''verification_failed''"
| "serialized_name PS_Duplicate = ''duplicate''"
| "serialized_name PS_Stored = ''stored''"
| "serialized_name PS_Emitted = ''emitted''"
| "serialized_name PS_Processed = ''processed''"
| "serialized_name PS_EmitFailed = ''emit_failed''"
| "serialized_name PS_DeadLettered = ''dead_lettered''"
| "serialized_name PS_Replayed = ''replayed''"

definition processing_state_variants_are_distinct :: "nat \<Rightarrow> bool" where
  "processing_state_variants_are_distinct n = assuming (any_state n) (\<lambda>state. serialized_name state \<noteq> [])"

definition happy_path :: "processing_state list" where
  "happy_path = [PS_Received, PS_Verified, PS_Stored, PS_Emitted, PS_Processed]"

definition happy_path_transition_sequence_is_valid :: bool where
  "happy_path_transition_sequence_is_valid =
     list_all (\<lambda>i. happy_path ! i \<noteq> happy_path ! (i + 1)) [0 ..< length happy_path - 1]"

definition is_post_store :: "processing_state \<Rightarrow> bool" where
  "is_post_store st \<longleftrightarrow> st \<in> {PS_Emitted, PS_Processed, PS_EmitFailed, PS_DeadLettered, PS_Replayed}"

definition is_pre_store :: "processing_state \<Rightarrow> bool" where
  "is_pre_store st \<longleftrightarrow> st \<in> {PS_Received, PS_Verified, PS_VerificationFailed, PS_Duplicate, PS_Stored}"

definition stored_is_acceptance_boundary :: "nat \<Rightarrow> bool" where
  "stored_is_acceptance_boundary n =
     assuming (any_state n) (\<lambda>st. (is_pre_store st \<or> is_post_store st) \<and> \<not> (is_pre_store st \<and> is_post_store st))"

definition terminal_states_are_not_delivery_states :: "nat \<Rightarrow> bool" where
  "terminal_states_are_not_delivery_states n =
     assuming (any_state n) (\<lambda>st.
       let is_terminal = st \<in> {PS_VerificationFailed, PS_Duplicate, PS_Processed};
           is_delivery = st \<in> {PS_Emitted, PS_EmitFailed, PS_DeadLettered, PS_Replayed} in
       \<not> (is_terminal \<and> is_delivery))"

text \<open>\<open>emit_cnt\<close> and \<open>max_att\<close> range over the \<^verbatim>\<open>i32\<close> values.\<close>

definition retry_next_state_always_valid :: "int \<Rightarrow> int \<Rightarrow> bool" where
  "retry_next_state_always_valid emit_cnt max_att =
     assuming (if 0 \<le> emit_cnt \<and> emit_cnt < i32_max \<and> max_att \<ge> 1 then Some () else None)
       (\<lambda>_. let (_, new_state) = retry_next_state emit_cnt max_att in
             new_state = PS_DeadLettered \<or> new_state = PS_EmitFailed)"

definition reset_always_findable :: "int \<Rightarrow> bool" where
  "reset_always_findable max_att =
     assuming (if max_att \<ge> 1 then Some () else None)
       (\<lambda>_. let (new_count, new_state) = reset_state in is_findable_by_worker new_count new_state max_att)"

definition any_delivery_state :: "nat \<Rightarrow> delivery_state option" where
  "any_delivery_state n =
     (if n < 5 then
        Some (if n = 0 then DS_Pending else if n = 1 then DS_InFlight else if n = 2 then DS_Emitted
              else if n = 3 then DS_Failed else DS_DeadLettered)
      else None)"

definition proof_aggregate_from_states_total :: "nat \<Rightarrow> nat \<Rightarrow> bool" where
  "proof_aggregate_from_states_total n1 n2 =
     assuming (any_delivery_state n1) (\<lambda>s1. assuming (any_delivery_state n2) (\<lambda>s2.
       let res = aggregate_from_states [s1, s2] PS_Stored;
           has_dead = s1 = DS_DeadLettered \<or> s2 = DS_DeadLettered;
           has_failed = s1 = DS_Failed \<or> s2 = DS_Failed;
           all_emitted = s1 = DS_Emitted \<and> s2 = DS_Emitted in
       if has_dead then res = PS_DeadLettered
       else if has_failed then res = PS_EmitFailed
       else if all_emitted then res = PS_Emitted
       else res = PS_Stored))"

section \<open>Backoff without jitter grows\<close>

text \<open>What the tests need of \<^verbatim>\<open>f64::powi\<close>, whose precision the standard library leaves open: the zeroth
  power of a number from one upwards is one, and powers do not decrease.\<close>

definition powi_grows :: "(f64 \<Rightarrow> int \<Rightarrow> f64) \<Rightarrow> bool" where
  "powi_grows powi_fn \<longleftrightarrow>
     (\<forall>m. 1 \<le> m \<longrightarrow> powi_fn (Fin m) 0 = Fin 1
        \<and> (\<forall>n \<ge> 0. f64_le (powi_fn (Fin m) n) (powi_fn (Fin m) (n + 1))))"

lemma f64_le_trans: "f64_le a b \<Longrightarrow> f64_le b c \<Longrightarrow> f64_le a c"
  by (cases a; cases b; cases c) (auto simp: f64_le_def)

lemma powi_grows_from_one:
  assumes "powi_grows f" and "1 \<le> m"
  shows "f64_le (Fin 1) (f (Fin m) (int k))"
proof (induction k)
  case 0
  then show ?case using assms by (simp add: powi_grows_def f64_le_def)
next
  case (Suc k)
  have "f64_le (f (Fin m) (int k)) (f (Fin m) (int k + 1))" using assms by (simp add: powi_grows_def)
  then show ?case using Suc f64_le_trans by (metis of_nat_Suc add.commute)
qed

text \<open>The seconds before the final rounding: the product, cut to the cap.\<close>

definition capped_secs :: "nat \<Rightarrow> nat \<Rightarrow> f64 \<Rightarrow> rat" where
  "capped_secs i s b = (case f64_min (f64_mul (Fin (of_nat i)) b) (Fin (of_nat s)) of Fin y \<Rightarrow> y | _ \<Rightarrow> 0)"

lemma capped_secs_range:
  assumes "f64_le (Fin 1) b" and "0 < i"
  shows "f64_min (f64_mul (Fin (of_nat i)) b) (Fin (of_nat s)) = Fin (capped_secs i s b)"
    and "0 \<le> capped_secs i s b" and "capped_secs i s b \<le> of_nat s"
proof -
  have "\<exists>y. f64_min (f64_mul (Fin (of_nat i)) b) (Fin (of_nat s)) = Fin y \<and> 0 \<le> y \<and> y \<le> of_nat s"
  proof (cases b)
    case (Fin q)
    then have "0 \<le> of_nat i * q" using assms by (auto simp: f64_le_def)
    then have "f64_le (Fin 0) (f64_round (of_nat i * q))" using f64_round_mono[of 0] by simp
    then show ?thesis using Fin by (cases "f64_round (of_nat i * q)") (auto simp: f64_le_def f64_min_def)
  qed (use assms in \<open>auto simp: f64_le_def f64_min_def f64_inf_of_sign_def\<close>)
  then show "f64_min (f64_mul (Fin (of_nat i)) b) (Fin (of_nat s)) = Fin (capped_secs i s b)"
    and "0 \<le> capped_secs i s b" and "capped_secs i s b \<le> of_nat s"
    by (auto simp: capped_secs_def)
qed

lemma f64_min_mono: "f64_le a b \<Longrightarrow> f64_le (f64_min a (Fin c)) (f64_min b (Fin c))"
  by (cases a; cases b) (auto simp: f64_le_def f64_min_def)

lemma capped_secs_mono:
  assumes "f64_le (Fin 1) b" and "f64_le b c" and "0 < i"
  shows "capped_secs i s b \<le> capped_secs i s c"
proof -
  have c: "f64_le (Fin 1) c" using f64_le_trans[OF assms(1,2)] .
  have "f64_le (f64_mul (Fin (of_nat i)) b) (f64_mul (Fin (of_nat i)) c)"
  proof (cases b)
    case (Fin p)
    show ?thesis
    proof (cases c)
      case (Fin q)
      have "of_nat i * p \<le> of_nat i * q" "0 \<le> of_nat i * p"
        using assms \<open>b = Fin p\<close> Fin by (auto simp: f64_le_def)
      then show ?thesis using f64_round_mono \<open>b = Fin p\<close> Fin by simp
    next
      case PInf
      have "0 \<le> of_nat i * p" using assms(1) \<open>b = Fin p\<close> by (auto simp: f64_le_def)
      then have "f64_le (Fin 0) (f64_round (of_nat i * p))" using f64_round_mono[of 0] by simp
      then show ?thesis using PInf \<open>b = Fin p\<close> assms(3)
        by (cases "f64_round (of_nat i * p)") (auto simp: f64_le_def f64_inf_of_sign_def)
    qed (use c in \<open>auto simp: f64_le_def\<close>)
  qed (use assms in \<open>cases c; auto simp: f64_le_def f64_inf_of_sign_def\<close>)+
  from f64_min_mono[OF this, of "of_nat s"] show ?thesis
    using capped_secs_range(1)[OF assms(1,3), of s] capped_secs_range(1)[OF c assms(3), of s]
    by (auto simp: f64_le_def)
qed

text \<open>Without jitter, what is left of the computation is that value rounded and converted.\<close>

definition backoff_secs :: "nat \<Rightarrow> nat \<Rightarrow> f64 \<Rightarrow> f64" where
  "backoff_secs i s b = f64_round (capped_secs i s b)"

lemma compute_backoff_no_jitter:
  assumes "0 < n" and "backoff_multiplier p = Fin m" and "0 < m" and "jitter p = Fin 0"
    and "initial_backoff p = duration_from_secs i" and "0 < i" and "i \<le> 2 ^ 53"
    and "max_backoff p = duration_from_secs s" and "s \<le> 2 ^ 53" and "f64_le (Fin 1) (f (Fin m) (n - 1))"
  shows "compute_backoff debug f sample n p = from_secs_f64 (backoff_secs i s (f (Fin m) (n - 1)))"
proof -
  let ?y = "capped_secs i s (f (Fin m) (n - 1))"
  note y = capped_secs_range[OF assms(10,6), of s]
  obtain z where z: "f64_round ?y = Fin z" "0 \<le> z" "z \<le> of_nat s"
    using f64_round_bounded[OF y(2,3) assms(9)] by blast
  have i: "as_secs_f64 (initial_backoff p) = Fin (of_nat i)" and s: "as_secs_f64 (max_backoff p) = Fin (of_nat s)"
    using assms by (simp_all add: as_secs_f64_whole)
  have guards: "f64_le (Fin 0) (jitter p)" "f64_le (jitter p) (Fin 1)" "\<not> f64_lt (Fin 0) (jitter p)"
    "f64_is_finite (backoff_multiplier p)" "f64_lt (Fin 0) (backoff_multiplier p)"
    "\<not> f64_le (backoff_multiplier p) (Fin 0)" "f64_max (Fin 1) (Fin 0) = Fin 1"
    using assms(2-4) by (simp_all add: f64_le_def f64_max_def)
  have z1: "f64_mul (Fin ?y) (Fin 1) = Fin z" using z(1) by simp
  have z2: "f64_min (Fin z) (Fin (of_nat s)) = Fin z" "f64_clamp (Fin z) (Fin 0) (Fin (of_nat s)) = Fin z"
    using z by (auto simp: f64_min_def f64_clamp_def)
  show ?thesis
    unfolding compute_backoff_def Let_def i s
    using guards assms(1,2) y(1) z(1) z1 z2
    by (simp add: backoff_secs_def del: from_secs_f64.simps f64_mul.simps)
qed

lemma backoff_secs_mono:
  assumes "f64_le (Fin 1) b" and "f64_le b c" and "0 < i" and "s \<le> 2 ^ 53"
  shows "\<exists>lo hi. from_secs_f64 (backoff_secs i s b) = Some lo \<and> from_secs_f64 (backoff_secs i s c) = Some hi \<and> lo \<le> hi"
proof -
  have c: "f64_le (Fin 1) c" using f64_le_trans[OF assms(1,2)] .
  have s64: "s < 2 ^ 64" using assms(4) by (rule le_less_trans) simp
  obtain x where x: "f64_round (capped_secs i s b) = Fin x" "0 \<le> x" "x \<le> of_nat s"
    using f64_round_bounded[OF capped_secs_range(2,3)[OF assms(1,3)] assms(4)] by blast
  obtain y where y: "f64_round (capped_secs i s c) = Fin y" "0 \<le> y" "y \<le> of_nat s"
    using f64_round_bounded[OF capped_secs_range(2,3)[OF c assms(3)] assms(4)] by blast
  have "x \<le> y"
    using f64_round_mono[OF capped_secs_range(2)[OF assms(1,3)] capped_secs_mono[OF assms(1-3)], of s] x(1) y(1)
    by (auto simp: f64_le_def)
  then have mono: "round_half_even (x * of_nat nanos_per_sec) \<le> round_half_even (y * of_nat nanos_per_sec)"
    by (intro round_half_even_mono mult_right_mono) auto
  obtain lo hi where "from_secs_f64 (Fin x) = Some lo" "from_secs_f64 (Fin y) = Some hi"
    using from_secs_f64_bounded[OF x(2,3) s64] from_secs_f64_bounded[OF y(2,3) s64] by blast
  moreover from this mono have "lo \<le> hi" by (auto simp: Let_def nat_mono split: if_splits)
  ultimately show ?thesis using x(1) y(1) by (auto simp: backoff_secs_def simp del: from_secs_f64.simps)
qed

lemma bounded_policy_fields:
  assumes "i < 256" and "d < 256" and "m < 256"
  obtains q s where "backoff_multiplier (bounded_policy i d m a) = Fin q" and "1 \<le> q"
    and "jitter (bounded_policy i d m a) = Fin 0"
    and "initial_backoff (bounded_policy i d m a) = duration_from_secs (max i 1)"
    and "max_backoff (bounded_policy i d m a) = duration_from_secs s" and "max i 1 \<le> s" and "s \<le> 2 ^ 53"
proof -
  let ?x = "of_nat (max m 10) / 10 :: rat"
  have x: "1 \<le> ?x" "?x \<le> of_nat 26" using assms(3) by (auto simp: max_def)
  obtain r where r: "f64_round ?x = Fin r" using f64_round_bounded[of ?x 26] x by auto
  have "f64_le (f64_round 1) (f64_round ?x)" using x by (intro f64_round_mono) auto
  then have "1 \<le> r" using f64_round_nat[of 1] r by (auto simp: f64_le_def)
  then have q: "backoff_multiplier (bounded_policy i d m a) = Fin (min r 4)" "1 \<le> min r 4"
    using r by (auto simp: bounded_policy_def f64_min_def Let_def min_def)
  show thesis
    by (rule that[OF q, of "max i 1 + d"])
      (use assms in \<open>auto simp: bounded_policy_def Let_def duration_from_secs_def algebra_simps max_def\<close>)
qed

lemma monotonic_holds:
  assumes "powi_grows (bo_powi env)" and "i < 256" and "d < 256" and "m < 256"
  shows "prop_backoff_monotonic_under_no_jitter env (i, d, m, a)"
proof -
  let ?p = "bounded_policy i d m a" and ?f = "bo_powi env"
  obtain q s where q: "backoff_multiplier ?p = Fin q" "1 \<le> q" "jitter ?p = Fin 0"
    "initial_backoff ?p = duration_from_secs (max i 1)" "max_backoff ?p = duration_from_secs s" "max i 1 \<le> s" "s \<le> 2 ^ 53"
    by (rule bounded_policy_fields[OF assms(2-4), of a])
  have call: "backoff_call env k (int n) ?p = from_secs_f64 (backoff_secs (max i 1) s (?f (Fin q) (int n - 1)))"
    if "0 < n" for k n
    unfolding backoff_call_def
    using powi_grows_from_one[OF assms(1) q(2), of "n - 1"] q that
    by (intro compute_backoff_no_jitter) (simp_all add: of_nat_diff)
  have step: "\<exists>lo hi. backoff_call env j (int n) ?p = Some lo \<and> backoff_call env k (int n + 1) ?p = Some hi \<and> lo \<le> hi"
    if "0 < n" for j k n
  proof -
    have n1: "0 \<le> int n - 1" using that by simp
    have "f64_le (?f (Fin q) (int n - 1)) (?f (Fin q) (int n - 1 + 1))"
      using assms(1) q(2) n1 unfolding powi_grows_def by blast
    moreover have "f64_le (Fin 1) (?f (Fin q) (int n - 1))"
      using powi_grows_from_one[OF assms(1) q(2), of "n - 1"] that by (simp add: of_nat_diff)
    ultimately have "\<exists>lo hi. from_secs_f64 (backoff_secs (max i 1) s (?f (Fin q) (int n - 1))) = Some lo
        \<and> from_secs_f64 (backoff_secs (max i 1) s (?f (Fin q) (int n))) = Some hi \<and> lo \<le> hi"
      using backoff_secs_mono[OF _ _ _ q(7), of "?f (Fin q) (int n - 1)" _ "max i 1"] by simp
    then show ?thesis using call[OF that] call[of "Suc n"] by (simp add: add.commute)
  qed
  have "case backoff_call env (2 * n) (int n) ?p of None \<Rightarrow> False
      | Some lo \<Rightarrow> (case backoff_call env (2 * n + 1) (int n + 1) ?p of None \<Rightarrow> False | Some hi \<Rightarrow> lo \<le> hi)"
    if "0 < n" for n
    using step[OF that, of "2 * n" "2 * n + 1"] by (elim exE conjE) simp
  then show ?thesis
    by (simp add: prop_backoff_monotonic_under_no_jitter_def list_all_iff Let_def)
qed

lemma first_failure_holds:
  assumes "powi_grows (bo_powi env)" and "i < 256" and "d < 256" and "m < 256"
  shows "prop_backoff_first_failure_is_initial_under_no_jitter env (i, d, m, a)"
proof -
  let ?p = "bounded_policy i d m a"
  obtain q s where q: "backoff_multiplier ?p = Fin q" "1 \<le> q" "jitter ?p = Fin 0"
    "initial_backoff ?p = duration_from_secs (max i 1)" "max_backoff ?p = duration_from_secs s" "max i 1 \<le> s" "s \<le> 2 ^ 53"
    by (rule bounded_policy_fields[OF assms(2-4), of a])
  have "backoff_call env 0 1 ?p = Some (min (initial_backoff ?p) (max_backoff ?p))"
    unfolding backoff_call_def
    by (rule compute_backoff_first[OF q(1) _ q(3) _ q(4) _ q(5,7)])
      (use assms q(2,6,7) in \<open>auto simp: powi_grows_def\<close>)
  moreover have "initial_backoff ?p \<le> max_backoff ?p"
    using q(4-6) by (simp add: duration_from_secs_def)
  ultimately show ?thesis by (simp add: prop_backoff_first_failure_is_initial_under_no_jitter_def Let_def)
qed

lemma within_max_holds:
  assumes "powi_grows (bo_powi env)" and "i < 256" and "d < 256" and "m < 256"
  shows "prop_backoff_within_max_backoff env (i, d, m, a, n)"
proof -
  let ?p = "bounded_policy i d m a" and ?n = "max n 1"
  obtain q s where q: "backoff_multiplier ?p = Fin q" "1 \<le> q" "jitter ?p = Fin 0"
    "initial_backoff ?p = duration_from_secs (max i 1)" "max_backoff ?p = duration_from_secs s" "max i 1 \<le> s" "s \<le> 2 ^ 53"
    by (rule bounded_policy_fields[OF assms(2-4), of a])
  have one: "f64_le (Fin 1) (bo_powi env (Fin q) (int ?n - 1))"
    using powi_grows_from_one[OF assms(1) q(2), of "?n - 1"] by (simp add: of_nat_diff)
  then have call: "backoff_call env 0 (int ?n) ?p = from_secs_f64 (backoff_secs (max i 1) s (bo_powi env (Fin q) (int ?n - 1)))"
    unfolding backoff_call_def using q by (intro compute_backoff_no_jitter) simp_all
  have s64: "s < 2 ^ 64" using q(7) by (rule le_less_trans) simp
  obtain z where z: "backoff_secs (max i 1) s (bo_powi env (Fin q) (int ?n - 1)) = Fin z" "0 \<le> z" "z \<le> of_nat s"
    using f64_round_bounded[OF capped_secs_range(2,3)[OF one, of "max i 1"] q(7)] unfolding backoff_secs_def
    by (metis max.strict_coboundedI2 zero_less_one)
  then show ?thesis
    using from_secs_f64_bounded[OF z(2,3) s64] call q(5)
    by (auto simp: prop_backoff_within_max_backoff_def Let_def simp del: from_secs_f64.simps)
qed

text \<open>The backoff tests hold for all inputs they can draw: with no jitter the wait never shrinks from
  one attempt to the next, the first failure waits exactly \<^verbatim>\<open>initial_backoff\<close>, and no wait exceeds
  \<^verbatim>\<open>max_backoff\<close>; in debug and release builds, for every random sample and every power function whose
  powers do not decrease (rounding to nearest included at every step).\<close>

lemma backoff_tests_hold:
  assumes "powi_grows (bo_powi env)" and "i < 256" and "d < 256" and "m < 256"
  shows "prop_backoff_monotonic_under_no_jitter env (i, d, m, a)
    \<and> prop_backoff_first_failure_is_initial_under_no_jitter env (i, d, m, a)
    \<and> prop_backoff_within_max_backoff env (i, d, m, a, n)"
  using monotonic_holds[OF assms] first_failure_holds[OF assms] within_max_holds[OF assms] by blast

definition backoff_env0 :: backoff_env where
  "backoff_env0 = \<lparr>bo_debug = True, bo_powi = (\<lambda>b e. case b of Fin a \<Rightarrow> Fin (a ^ nat e) | other \<Rightarrow> other),
     bo_samples = (\<lambda>_. Fin 0)\<rparr>"

lemma backoff_tests_hold_example:
  "prop_backoff_monotonic_under_no_jitter backoff_env0 (30, 200, 25, 5)"
proof -
  have "powi_grows (bo_powi backoff_env0)"
    by (auto simp: powi_grows_def backoff_env0_def f64_le_def nat_add_distrib mult_le_cancel_right1
        order_le_less intro: le_neq_trans)
  then show ?thesis using backoff_tests_hold[of backoff_env0 30 200 25 5 0] by simp
qed

section \<open>The other harnesses\<close>

text \<open>Documented formats: a SHA-256 digest has 32 bytes, HMAC accepts every key and yields 32 bytes, hex
  writes two digits per byte, and a UUID prints as 36 hex digits and hyphens.\<close>

definition formats_ok :: "externals \<Rightarrow> bool" where
  "formats_ok x \<longleftrightarrow>
     (\<forall>b. length (x_sha256 x b) = 32)
     \<and> (\<forall>k b. \<exists>mac. x_hmac_sha256 x k b = Some mac \<and> length mac = 32)
     \<and> (\<forall>b. length (x_hex_encode x b) = 2 * length b \<and> list_all is_ascii_hexdigit (x_hex_encode x b))
     \<and> (\<forall>u. length (x_uuid_to_string x u) = 36
           \<and> list_all (\<lambda>c. is_ascii_hexdigit c \<or> c = CHR ''-'') (x_uuid_to_string x u))"

lemma dedupe_tests_hold:
  "after_record_check_returns_duplicate (key, hash)"
  "after_record_check_different_hash_returns_conflict (key, hash, hash2)"
  "check_on_never_recorded_key_returns_new (key, hash)"
  by (simp_all add: after_record_check_returns_duplicate_def after_record_check_different_hash_returns_conflict_def
      check_on_never_recorded_key_returns_new_def recent_new_def recent_record_def recent_evict_def recent_check_def)

lemma eviction_test_holds: "length keys = 5 \<Longrightarrow> capacity_respected_first_key_evicted keys"
proof -
  assume five: "length keys = 5"
  show ?thesis
  proof (cases "distinct keys")
    case True
    obtain a b c d e where keys: "keys = [a, b, c, d, e]"
      using five by (auto simp: length_Suc_conv numeral_eq_Suc)
    show ?thesis using True
      by (auto simp: keys capacity_respected_first_key_evicted_def recent_new_def recent_record_def recent_evict_def
          recent_check_def)
  next
    case False
    then have "length (remdups keys) < 5" using five length_remdups_leq[of keys] length_remdups_eq[of keys]
      by (metis le_neq_implies_less remdups_id_iff_distinct)
    then show ?thesis by (simp add: capacity_respected_first_key_evicted_def)
  qed
qed

lemma encoding_tests_hold:
  assumes "formats_ok x"
  shows "hash_is_deterministic x body" and "hash_output_is_64_hex_characters x body"
    and "hmac_sha256_verify_roundtrip x body" and "receipt_id_is_valid_message_key x u"
proof -
  show "hash_is_deterministic x body" by (simp add: hash_is_deterministic_def)
  show "hash_output_is_64_hex_characters x body"
    using assms by (simp add: hash_output_is_64_hex_characters_def compute_payload_hash_def formats_ok_def)
  obtain mac where "x_hmac_sha256 x ''test-bolero-secret'' body = Some mac" "length mac = 32"
    using assms unfolding formats_ok_def by blast
  then show "hmac_sha256_verify_roundtrip x body"
    using assms by (simp add: hmac_sha256_verify_roundtrip_def formats_ok_def)
  have u: "length (x_uuid_to_string x u) = 36"
    "list_all (\<lambda>c. is_ascii_hexdigit c \<or> c = CHR ''-'') (x_uuid_to_string x u)"
    using assms by (simp_all add: formats_ok_def)
  have "\<not> (is_ascii_hexdigit (CHR 0x0A) \<or> CHR 0x0A = CHR ''-'')" "\<not> (is_ascii_hexdigit (CHR 0x00) \<or> CHR 0x00 = CHR ''-'')"
    by (simp_all add: is_ascii_hexdigit_def is_digit_def byte_def)
  with u show "receipt_id_is_valid_message_key x u"
    by (auto simp: receipt_id_is_valid_message_key_def Let_def list_all_iff)
qed

lemma label_and_retry_tests_hold:
  "verification_label_is_never_empty n" "dedupe_label_is_never_empty n" "ingest_result_labels_are_all_non_empty"
  "reset_is_always_findable_by_worker n" "dead_lettered_is_never_findable_by_worker (n, m)"
  "n < 256 \<Longrightarrow> retry_always_reaches_dead_lettered_at_max (n, m)"
  by (simp_all add: verification_label_is_never_empty_def dedupe_label_is_never_empty_def
      ingest_result_labels_are_all_non_empty_def INGEST_RESULT_LABELS_def LABEL_ACCEPTED_def LABEL_DUPLICATE_def
      LABEL_VERIFICATION_FAILED_def LABEL_STORE_FAILED_def LABEL_DEDUPE_FAILED_def
      reset_is_always_findable_by_worker_def dead_lettered_is_never_findable_by_worker_def
      retry_always_reaches_dead_lettered_at_max_def reset_state_def is_findable_by_worker_def retry_next_state_def
      i32_saturating_add_exact is_i32_def i32_min_def i32_max_def Let_def)

lemma state_tests_hold:
  "processing_state_round_trips_through_serde" "verification_status_round_trips_through_serde"
  "dedupe_decision_exhaustive_variants n"
  by (simp_all add: processing_state_round_trips_through_serde_def verification_status_round_trips_through_serde_def
      dedupe_decision_exhaustive_variants_def enum_from_json_def enum_to_json_def all_processing_states_def
      all_verification_statuses_def Let_def)

lemma kani_proofs_hold:
  "processing_state_variants_are_distinct n" "happy_path_transition_sequence_is_valid"
  "stored_is_acceptance_boundary n" "terminal_states_are_not_delivery_states n"
  "retry_next_state_always_valid c k" "reset_always_findable k"
  by (simp_all add: processing_state_variants_are_distinct_def happy_path_transition_sequence_is_valid_def
      happy_path_def stored_is_acceptance_boundary_def terminal_states_are_not_delivery_states_def
      retry_next_state_always_valid_def reset_always_findable_def any_state_def assuming_def is_pre_store_def
      is_post_store_def retry_next_state_def reset_state_def is_findable_by_worker_def upt_rec Let_def)

lemma aggregate_proof_holds: "proof_aggregate_from_states_total n1 n2"
  by (auto simp: proof_aggregate_from_states_total_def assuming_def any_delivery_state_def aggregate_from_states_def Let_def)

lemma channel_test_holds: "arc_emitter_roundtrip u now provider"
  by (simp add: arc_emitter_roundtrip_def channel_new_def channel_emit_def drain_turn_def Let_def)

text \<open>The remaining harnesses of the verification crate hold for every input their generators can draw,
  not only for the sampled ones: the dedupe cache remembers what was recorded, tells a conflict from a
  duplicate and evicts the oldest key at capacity; the retry rule counts by one and dead-letters exactly
  at the maximum; a reset receipt is found by the retry worker and a dead-lettered one never; the
  aggregate of two deliveries follows the precedence; the metric labels, enum names, digests, signed
  content and message keys have the asserted shape.\<close>

lemma harnesses_hold:
  assumes "formats_ok x" and "length keys = 5" and "n < 256"
  shows "after_record_check_returns_duplicate (key, hash)
    \<and> after_record_check_different_hash_returns_conflict (key, hash, hash2)
    \<and> check_on_never_recorded_key_returns_new (key, hash) \<and> capacity_respected_first_key_evicted keys
    \<and> retry_always_reaches_dead_lettered_at_max (n, m) \<and> reset_is_always_findable_by_worker m
    \<and> dead_lettered_is_never_findable_by_worker (n, m)
    \<and> retry_next_state_always_valid c k \<and> reset_always_findable k \<and> proof_aggregate_from_states_total n m
    \<and> processing_state_variants_are_distinct n \<and> happy_path_transition_sequence_is_valid
    \<and> stored_is_acceptance_boundary n \<and> terminal_states_are_not_delivery_states n
    \<and> processing_state_round_trips_through_serde \<and> verification_status_round_trips_through_serde
    \<and> dedupe_decision_exhaustive_variants n
    \<and> verification_label_is_never_empty n \<and> dedupe_label_is_never_empty n \<and> ingest_result_labels_are_all_non_empty
    \<and> arc_emitter_roundtrip u now provider \<and> receipt_id_is_valid_message_key x u
    \<and> hash_is_deterministic x body \<and> hash_output_is_64_hex_characters x body
    \<and> hmac_sha256_verify_roundtrip x body \<and> svix_signed_content_format lossy (msg_id, ts, body)"
proof -
  have "svix_signed_content_format lossy (msg_id, ts, body)" by (simp add: svix_signed_content_format_def Let_def)
  then show ?thesis
    using dedupe_tests_hold eviction_test_holds[OF assms(2)] label_and_retry_tests_hold assms(3) kani_proofs_hold
      aggregate_proof_holds state_tests_hold channel_test_holds encoding_tests_hold[OF assms(1)]
    by (intro conjI) assumption+
qed

definition ext_formats :: externals where
  "ext_formats = ext0\<lparr>x_sha256 := (\<lambda>_. replicate 32 (CHR ''x'')),
     x_hmac_sha256 := (\<lambda>_ _. Some (replicate 32 (CHR ''x''))),
     x_hex_encode := (\<lambda>b. concat (map (\<lambda>c. ''0a'') b)), x_uuid_to_string := (\<lambda>_. replicate 36 (CHR ''0''))\<rparr>"

lemma harnesses_hold_example:
  "capacity_respected_first_key_evicted [''a'', ''b'', ''c'', ''d'', ''e'']
    \<and> hash_output_is_64_hex_characters ext_formats ''body''"
proof -
  have "length (concat (map (\<lambda>c. ''0a'') b)) = 2 * length b \<and> list_all is_ascii_hexdigit (concat (map (\<lambda>c. ''0a'') b))"
    for b :: string
    by (induction b) (simp_all add: is_ascii_hexdigit_def is_digit_def byte_def)
  then have "formats_ok ext_formats"
    by (simp add: formats_ok_def ext_formats_def list_all_iff is_ascii_hexdigit_def is_digit_def byte_def)
  then show ?thesis
    using harnesses_hold[of ext_formats "[''a'', ''b'', ''c'', ''d'', ''e'']" 0] by simp
qed

end
