(* ===== verification/Jitter.thy ===== *)
theory Jitter
  imports Transitions
begin

text \<open>
  The jitter of \<^verbatim>\<open>compute_backoff\<close> (\<^verbatim>\<open>crates/hookbox/src/transitions.rs\<close>) in floating point. Shown: the random
  factor stays within the doubles nearest to one minus and one plus the configured jitter, hence so
  does the wait, although every step of the computation is rounded.
\<close>

lemma f64_round_1 [simp]: "f64_round 1 = Fin 1"
  using f64_round_nat[of 1] by simp

lemma f64_le_Fin [simp]: "f64_le (Fin a) (Fin b) \<longleftrightarrow> a \<le> b"
  by (auto simp: f64_le_def)

section \<open>The jitter window\<close>

text \<open>The seconds before jitter is applied, and the factor jitter applies.\<close>

definition backoff_base :: "(f64 \<Rightarrow> int \<Rightarrow> f64) \<Rightarrow> int \<Rightarrow> retry_policy \<Rightarrow> f64" where
  "backoff_base powi_fn n p =
     f64_min (f64_mul (as_secs_f64 (initial_backoff p)) (powi_fn (backoff_multiplier p) (n - 1)))
       (as_secs_f64 (max_backoff p))"

definition jitter_factor :: "f64 \<Rightarrow> f64 \<Rightarrow> f64" where
  "jitter_factor sample j =
     f64_max (if f64_lt (Fin 0) j then f64_add (Fin 1) (f64_mul_add sample (f64_mul (Fin 2) j) (f64_neg j)) else Fin 1)
       (Fin 0)"

text \<open>However the sample and the intermediate results are rounded, the factor stays between the doubles
  nearest to \<open>1 - j\<close> and \<open>1 + j\<close>.\<close>

lemma jitter_factor_window:
  assumes "0 \<le> j" and "j \<le> 1" and "f64_round j = Fin j" and "0 \<le> t" and "t < 1"
  obtains f lo hi where "jitter_factor (Fin t) (Fin j) = Fin f" "f64_round (1 - j) = Fin lo" "f64_round (1 + j) = Fin hi"
    "0 \<le> lo" "lo \<le> 1" "lo \<le> f" "f \<le> hi" "hi \<le> 2"
proof -
  obtain lo where lo: "f64_round (1 - j) = Fin lo" "0 \<le> lo" "lo \<le> 1"
    using f64_round_bounded[of "1 - j" 1] assms by auto
  obtain hi where hi: "f64_round (1 + j) = Fin hi" "hi \<le> 2"
    using f64_round_bounded[of "1 + j" 2] assms by auto
  have one: "lo \<le> 1" "1 \<le> hi"
    using lo(3) f64_round_mono[of 1 "1 + j"] assms(1) hi by auto
  have "\<exists>f. jitter_factor (Fin t) (Fin j) = Fin f \<and> lo \<le> f \<and> f \<le> hi"
  proof (cases "j = 0")
    case True
    then show ?thesis using one by (simp add: jitter_factor_def f64_max_def)
  next
    case False
    then have j: "0 < j" using assms(1) by simp
    have "2 * j < (2 ^ 1024 :: rat)"
    proof -
      have "2 * j \<le> 2 ^ 1" using assms(2) by simp
      also have "(2 ^ 1 :: rat) < 2 ^ 1024" by (rule power_strict_increasing) simp_all
      finally show ?thesis .
    qed
    then have two: "f64_round (2 * j) = Fin (2 * j)" by (rule f64_round_double[OF j assms(3)])
    have "t * (2 * j) \<le> 1 * (2 * j)" using assms j by (intro mult_right_mono) auto
    then have m: "- j \<le> t * (2 * j) + - j" "t * (2 * j) + - j \<le> j" using assms j by auto
    have "f64_le (Fin (- j)) (f64_round (t * (2 * j) + - j))" "f64_le (f64_round (t * (2 * j) + - j)) (Fin j)"
      using f64_round_mono_all[OF m(1)] f64_round_mono_all[OF m(2)] assms(3) by (simp_all add: f64_round_uminus)
    then obtain q where q: "f64_round (t * (2 * j) + - j) = Fin q" "- j \<le> q" "q \<le> j"
      by (cases "f64_round (t * (2 * j) + - j)") (auto simp: f64_le_def)
    have "f64_le (Fin lo) (f64_round (1 + q))" "f64_le (f64_round (1 + q)) (Fin hi)"
      using f64_round_mono_all[of "1 - j" "1 + q"] f64_round_mono_all[of "1 + q" "1 + j"] q lo hi by simp_all
    then obtain f where f: "f64_round (1 + q) = Fin f" "lo \<le> f" "f \<le> hi"
      by (cases "f64_round (1 + q)") (auto simp: f64_le_def)
    then have "jitter_factor (Fin t) (Fin j) = Fin f"
      using lo(2) j two q(1) by (simp add: jitter_factor_def f64_max_def)
    then show ?thesis using f by blast
  qed
  then show thesis using that lo hi by blast
qed

lemma backoff_base_range:
  assumes "f64_le (Fin 0) (powi_fn (backoff_multiplier p) (n - 1))"
    and "initial_backoff p = duration_from_secs i" and "i \<le> 2 ^ 53"
    and "max_backoff p = duration_from_secs s" and "s \<le> 2 ^ 53"
  obtains b where "backoff_base powi_fn n p = Fin b" "0 \<le> b" "b \<le> of_nat s"
proof -
  have "\<exists>b. f64_min (f64_mul (Fin (of_nat i)) r) (Fin (of_nat s)) = Fin b \<and> 0 \<le> b \<and> b \<le> of_nat s"
    if "f64_le (Fin 0) r" for r
  proof (cases r)
    case (Fin q)
    then have "f64_le (Fin 0) (f64_round (of_nat i * q))"
      using that f64_round_mono[of 0 "of_nat i * q"] by simp
    then show ?thesis using Fin by (cases "f64_round (of_nat i * q)") (auto simp: f64_le_def f64_min_def)
  qed (use that in \<open>auto simp: f64_le_def f64_min_def f64_inf_of_sign_def\<close>)
  then show thesis using that assms by (auto simp: backoff_base_def as_secs_f64_whole)
qed

lemma compute_backoff_jitter:
  assumes "0 < n" and "backoff_multiplier p = Fin m" and "0 < m" and "jitter p = Fin j" and "0 \<le> j" and "j \<le> 1"
    and "backoff_base powi_fn n p = Fin b"
    and "as_secs_f64 (max_backoff p) = Fin c"
    and "f64_min (f64_mul (Fin b) (jitter_factor sample (Fin j))) (Fin c) = Fin y" and "0 \<le> y" and "y \<le> c"
  shows "compute_backoff debug powi_fn sample n p = from_secs_f64 (Fin y)"
proof -
  have guards: "f64_le (Fin 0) (jitter p)" "f64_le (jitter p) (Fin 1)" "f64_is_finite (backoff_multiplier p)"
    "f64_lt (Fin 0) (backoff_multiplier p)" "\<not> f64_le (backoff_multiplier p) (Fin 0)"
    using assms(2-6) by simp_all
  have y: "f64_min (f64_mul (backoff_base powi_fn n p) (jitter_factor sample (jitter p))) (as_secs_f64 (max_backoff p)) = Fin y"
    using assms by simp
  have "compute_backoff debug powi_fn sample n p =
      from_secs_f64 (if f64_is_finite (Fin y) then f64_clamp (Fin y) (Fin 0) (as_secs_f64 (max_backoff p))
                     else as_secs_f64 (max_backoff p))"
    using guards assms(1) unfolding y[symmetric] compute_backoff_def Let_def backoff_base_def jitter_factor_def
    by (simp del: from_secs_f64.simps)
  then show ?thesis using assms(8,10,11) by (simp add: f64_clamp_def del: from_secs_f64.simps)
qed

lemma jitter_window:
  assumes "0 < n" and "backoff_multiplier p = Fin m" and "0 < m"
    and "jitter p = Fin j" and "0 \<le> j" and "j \<le> 1" and "f64_round j = Fin j" and "0 \<le> t" and "t < 1"
    and "initial_backoff p = duration_from_secs i" and "i \<le> 2 ^ 53"
    and "max_backoff p = duration_from_secs s" and "s \<le> 2 ^ 52"
    and "f64_le (Fin 0) (powi_fn (Fin m) (n - 1))"
  shows "\<exists>d lo hi. compute_backoff debug powi_fn (Fin t) n p = Some d
    \<and> from_secs_f64 (f64_mul (backoff_base powi_fn n p) (f64_add (Fin 1) (f64_neg (jitter p)))) = Some lo
    \<and> from_secs_f64 (f64_min (f64_mul (backoff_base powi_fn n p) (f64_add (Fin 1) (jitter p))) (as_secs_f64 (max_backoff p))) = Some hi
    \<and> lo \<le> d \<and> d \<le> hi"
proof -
  have s: "s \<le> 2 ^ 53" "s < 2 ^ 64" using assms(13) by (auto intro: order.trans le_less_trans)
  obtain b where b: "backoff_base powi_fn n p = Fin b" "0 \<le> b" "b \<le> of_nat s"
    using backoff_base_range[of powi_fn p n i s] assms s(1) by metis
  obtain f l h where f: "jitter_factor (Fin t) (Fin j) = Fin f" "f64_round (1 - j) = Fin l" "f64_round (1 + j) = Fin h"
    "0 \<le> l" "l \<le> 1" "l \<le> f" "f \<le> h" "h \<le> 2"
    using jitter_factor_window[OF assms(5-9)] by metis
  have c: "as_secs_f64 (max_backoff p) = Fin (of_nat s)" using assms(12) s(1) by (simp add: as_secs_f64_whole)
  have two: "2 * s \<le> 2 ^ 53" using assms(13) by simp
  have bh: "b * h \<le> of_nat (2 * s)"
    using mult_mono[of b "of_nat s" h 2] b f by (simp add: mult.commute)
  have "b * l \<le> b * f" "b * f \<le> b * h" "0 \<le> b * l" "b * l \<le> of_nat s"
    using b f mult_mono[of b "of_nat s" l 1] by (auto intro: mult_left_mono)
  note bounds = this
  obtain zl where zl: "f64_round (b * l) = Fin zl" "0 \<le> zl" "zl \<le> of_nat s"
    using f64_round_bounded[OF bounds(3,4) s(1)] by blast
  obtain zf where zf: "f64_round (b * f) = Fin zf"
    using f64_round_bounded[of "b * f" "2 * s"] bounds bh two by (meson order.trans)
  obtain zh where zh: "f64_round (b * h) = Fin zh"
    using f64_round_bounded[of "b * h" "2 * s"] bounds bh two by (meson order.trans)
  have z: "zl \<le> zf" "zf \<le> zh"
    using f64_round_mono[OF bounds(3,1)] f64_round_mono[of "b * f" "b * h"] bounds zl zf zh by auto
  have d: "compute_backoff debug powi_fn (Fin t) n p = from_secs_f64 (Fin (min zf (of_nat s)))"
    by (rule compute_backoff_jitter[OF assms(1-6) b(1) c])
      (use f zf z zl in \<open>auto simp: f64_min_def min_def\<close>)
  have "f64_min (f64_mul (Fin b) (f64_add (Fin 1) (Fin j))) (Fin (of_nat s)) = Fin (min zh (of_nat s))"
    using f zh by (auto simp: f64_min_def min_def)
  moreover have order: "zl \<le> min zf (of_nat s)" "min zf (of_nat s) \<le> min zh (of_nat s)" "0 \<le> min zf (of_nat s)"
    using zl z by auto
  moreover obtain u v where uv: "from_secs_f64 (Fin zl) = Some u" "from_secs_f64 (Fin (min zf (of_nat s))) = Some v" "u \<le> v"
    using from_secs_f64_mono[OF zl(2) order(1) min.cobounded2 s(2)] by blast
  moreover obtain w where "from_secs_f64 (Fin (min zh (of_nat s))) = Some w" "v \<le> w"
    using from_secs_f64_mono[OF order(3,2) min.cobounded2 s(2)] uv(2) by auto
  ultimately show ?thesis
    using d b(1) c f(2,3) zl(1) assms(4) by (simp del: from_secs_f64.simps)
qed

text \<open>C39. Jitter never leaves its window: when the factor drawn is at most \<^verbatim>\<open>jitter\<close> away from one, the wait
  lies between the base wait scaled by the doubles nearest to \<open>1 - jitter\<close> and \<open>1 + jitter\<close>, the latter cut
  to \<^verbatim>\<open>max_backoff\<close>, through all the roundings of the computation; for every sample in \<open>[0, 1)\<close>, every
  \<^verbatim>\<open>jitter\<close> in \<open>[0, 1]\<close> and every non-negative power, in debug and release builds, and without a panic.\<close>

theorem jitter_stays_in_window:
  assumes "0 < n" and "backoff_multiplier p = Fin m" and "0 < m"
    and "jitter p = Fin j" and "0 \<le> j" and "j \<le> 1" and "f64_round j = Fin j" and "0 \<le> t" and "t < 1"
    and "initial_backoff p = duration_from_secs i" and "i \<le> 2 ^ 53"
    and "max_backoff p = duration_from_secs s" and "s \<le> 2 ^ 52"
    and "f64_le (Fin 0) (powi_fn (Fin m) (n - 1))"
  shows "\<exists>d lo hi. compute_backoff debug powi_fn (Fin t) n p = Some d
    \<and> from_secs_f64 (f64_mul (backoff_base powi_fn n p) (f64_add (Fin 1) (f64_neg (jitter p)))) = Some lo
    \<and> from_secs_f64 (f64_min (f64_mul (backoff_base powi_fn n p) (f64_add (Fin 1) (jitter p))) (as_secs_f64 (max_backoff p))) = Some hi
    \<and> lo \<le> d \<and> d \<le> hi"
  using assms by (rule jitter_window)

lemma f64_round_half: "f64_round (1 / 2) = Fin (1 / 2)"
proof -
  have "(2::rat) powi (- 1) \<le> 1 / 2" "1 / 2 < (2::rat) powi (- 1 + 1)" by (simp_all add: power_int_minus)
  note f64_round_eval[OF this]
  then show ?thesis by (simp add: round_half_even_def Let_def)
qed

definition policy_half :: retry_policy where
  "policy_half = \<lparr>max_attempts = 10, initial_backoff = duration_from_secs 100, max_backoff = duration_from_secs 10000,
     backoff_multiplier = Fin 1, jitter = Fin (1 / 2)\<rparr>"

lemma policy_half_base: "backoff_base (\<lambda>_ _. Fin 1) 1 policy_half = Fin 100"
  using as_secs_f64_whole[of 100] as_secs_f64_whole[of 10000] f64_round_nat[of 100]
  by (simp add: backoff_base_def policy_half_def f64_min_def)

lemma f64_round_three_halves: "f64_round (3 / 2) = Fin (3 / 2)"
proof -
  have "(2::rat) powi 0 \<le> 3 / 2" "3 / 2 < (2::rat) powi (0 + 1)" by simp_all
  note f64_round_eval[OF this]
  then show ?thesis by (simp add: round_half_even_def Let_def)
qed

theorem jitter_stays_in_window_witness:
  "\<exists>d. compute_backoff True (\<lambda>_ _. Fin 1) (Fin (1 / 4)) 1 policy_half = Some d
     \<and> duration_from_secs 50 \<le> d \<and> d \<le> duration_from_secs 150"
proof -
  obtain d lo hi where d: "compute_backoff True (\<lambda>_ _. Fin 1) (Fin (1 / 4)) 1 policy_half = Some d"
      "from_secs_f64 (f64_mul (Fin 100) (f64_add (Fin 1) (f64_neg (jitter policy_half)))) = Some lo"
      "from_secs_f64 (f64_min (f64_mul (Fin 100) (f64_add (Fin 1) (jitter policy_half)))
         (as_secs_f64 (max_backoff policy_half))) = Some hi"
      "lo \<le> d" "d \<le> hi"
    using jitter_stays_in_window[of 1 policy_half 1 "1 / 2" "1 / 4" 100 10000 "\<lambda>_ _. Fin 1" True]
      f64_round_half policy_half_base
    by (auto simp: policy_half_def simp del: from_secs_f64.simps)
  have "from_secs_f64 (Fin 50) = Some lo" "from_secs_f64 (Fin 150) = Some hi"
    using d(2,3) f64_round_half f64_round_three_halves f64_round_nat[of 50] f64_round_nat[of 150] as_secs_f64_whole[of 10000]
    by (simp_all add: policy_half_def f64_min_def del: from_secs_f64.simps)
  then have "lo = duration_from_secs 50" "hi = duration_from_secs 150"
    using from_secs_f64_whole[of 50] from_secs_f64_whole[of 150] by (simp_all del: from_secs_f64.simps)
  then show ?thesis using d by blast
qed

section \<open>The literals 0.2, 0.8 and 1.2\<close>

lemma f64_literals:
  "f64_round (1 / 5) = Fin (3602879701896397 / 2 ^ 54)" "f64_round (4 / 5) = Fin (3602879701896397 / 2 ^ 52)"
  "f64_round (6 / 5) = Fin (5404319552844595 / 2 ^ 52)"
proof -
  have "(2::rat) powi (- 3) \<le> 1 / 5" "1 / 5 < (2::rat) powi (- 3 + 1)" by (simp_all add: power_int_minus)
  note f64_round_eval[OF this]
  then show "f64_round (1 / 5) = Fin (3602879701896397 / 2 ^ 54)"
    using round_half_even_near[of "36028797018963968 / 5" 7205759403792794] by simp
  have "(2::rat) powi (- 1) \<le> 4 / 5" "4 / 5 < (2::rat) powi (- 1 + 1)" by (simp_all add: power_int_minus)
  note f64_round_eval[OF this]
  then show "f64_round (4 / 5) = Fin (3602879701896397 / 2 ^ 52)"
    using round_half_even_near[of "36028797018963968 / 5" 7205759403792794] by simp
  have "(2::rat) powi 0 \<le> 6 / 5" "6 / 5 < (2::rat) powi (0 + 1)" by simp_all
  note f64_round_eval[OF this]
  then show "f64_round (6 / 5) = Fin (5404319552844595 / 2 ^ 52)"
    using round_half_even_near[of "27021597764222976 / 5" 5404319552844595] by simp
qed

lemma f64_one_minus_fifth: "f64_round (1 - 3602879701896397 / 2 ^ 54) = Fin (3602879701896397 / 2 ^ 52)"
proof -
  let ?x = "1 - 3602879701896397 / 2 ^ 54 :: rat"
  have "2 powi (- 1) \<le> ?x" "?x < 2 powi (- 1 + 1)" by (simp_all add: power_int_minus)
  note f64_round_eval[OF this]
  then show ?thesis using round_half_even_tie[of "14411518807585587 / 2" 7205759403792794] by simp
qed

lemma f64_one_plus_fifth: "f64_round (1 + 3602879701896397 / 2 ^ 54) = Fin (5404319552844595 / 2 ^ 52)"
proof -
  let ?x = "1 + 3602879701896397 / 2 ^ 54 :: rat"
  have "2 powi 0 \<le> ?x" "?x < 2 powi (0 + 1)" by simp_all
  note f64_round_eval[OF this]
  then show ?thesis using round_half_even_near[of "21617278211378381 / 4" 5404319552844595] by simp
qed

end
