(* ===== verification/Core_Tests.thy ===== *)
theory Core_Tests
  imports Property_Tests Jitter
begin

text \<open>
  The unit tests of \<^verbatim>\<open>crates/hookbox/src/dedupe.rs\<close> and \<^verbatim>\<open>transitions.rs\<close>, each as a predicate on what the test
  reads from its surroundings (clock, identifiers, random samples, power function); a panic or a failed
  assertion makes it false. Shown: the tests pass in every such surrounding, in debug and release
  builds, so the definitions the other theories reason about behave as the repository's own test
  vectors demand; the window asserted for the jitter holds for every sample, not only likely ones.
\<close>

section \<open>dedupe.rs\<close>

text \<open>A cache of the given capacity after recording the pairs in turn; \<open>None\<close>: a constructor panicked or a
  record failed.\<close>

fun recorded :: "(string \<times> string) list \<Rightarrow> recent_dedupe \<Rightarrow> recent_dedupe option" where
  "recorded [] cache = Some cache"
| "recorded ((k, h) # ps) cache =
     (case recent_record cache k h of (Err _, _) \<Rightarrow> None | (Ok _, cache1) \<Rightarrow> recorded ps cache1)"

definition cache_with :: "nat \<Rightarrow> (string \<times> string) list \<Rightarrow> recent_dedupe option" where
  "cache_with capacity ps = (case recent_new capacity of None \<Rightarrow> None | Some cache \<Rightarrow> recorded ps cache)"

definition decides :: "recent_dedupe option \<Rightarrow> string \<Rightarrow> string \<Rightarrow> dedupe_decision \<Rightarrow> bool" where
  "decides cache k h expected = (case cache of None \<Rightarrow> False | Some c \<Rightarrow> recent_check c k h = Ok expected)"

definition lru_new_key_returns_new :: bool where
  "lru_new_key_returns_new = decides (cache_with 10 []) ''key-1'' ''hash-abc'' DD_New"

definition lru_same_key_same_hash_returns_duplicate :: bool where
  "lru_same_key_same_hash_returns_duplicate =
     decides (cache_with 10 [(''key-1'', ''hash-abc'')]) ''key-1'' ''hash-abc'' DD_Duplicate"

definition lru_same_key_different_hash_returns_conflict :: bool where
  "lru_same_key_different_hash_returns_conflict =
     decides (cache_with 10 [(''key-1'', ''hash-abc'')]) ''key-1'' ''hash-xyz'' DD_Conflict"

definition lru_eviction_makes_key_new_again :: bool where
  "lru_eviction_makes_key_new_again =
     (let cache = cache_with 2 [(''key-1'', ''hash-1''), (''key-2'', ''hash-2''), (''key-3'', ''hash-3'')] in
      decides cache ''key-1'' ''hash-1'' DD_New \<and> decides cache ''key-2'' ''hash-2'' DD_Duplicate
      \<and> decides cache ''key-3'' ''hash-3'' DD_Duplicate)"

text \<open>\<^verbatim>\<open>LayeredDedupe::new(fast, authoritative)\<close>, and a check through both layers.\<close>

definition layered_of :: "recent_dedupe option \<Rightarrow> recent_dedupe option \<Rightarrow> (recent_dedupe \<times> recent_dedupe) option" where
  "layered_of fast auth = (case fast of None \<Rightarrow> None | Some f \<Rightarrow> map_option (Pair f) auth)"

definition layered_decides ::
  "(recent_dedupe \<times> recent_dedupe) option \<Rightarrow> string \<Rightarrow> string \<Rightarrow> dedupe_decision \<Rightarrow> bool" where
  "layered_decides layers k h expected =
     (case layers of None \<Rightarrow> False | Some l \<Rightarrow> layered_check recent_check recent_check l k h = Ok expected)"

definition layered_recorded ::
  "string \<Rightarrow> string \<Rightarrow> (recent_dedupe \<times> recent_dedupe) option \<Rightarrow> (recent_dedupe \<times> recent_dedupe) option" where
  "layered_recorded k h layers =
     (case layers of None \<Rightarrow> None
      | Some l \<Rightarrow> (case layered_record recent_record recent_record l k h of (Err _, _) \<Rightarrow> None | (Ok _, l1) \<Rightarrow> Some l1))"

definition layered_returns_fast_path_duplicate :: bool where
  "layered_returns_fast_path_duplicate =
     layered_decides (layered_of (cache_with 10 [(''key-1'', ''hash-abc'')]) (cache_with 10 []))
       ''key-1'' ''hash-abc'' DD_Duplicate"

definition layered_falls_through_to_authoritative :: bool where
  "layered_falls_through_to_authoritative =
     layered_decides (layered_of (cache_with 10 []) (cache_with 10 [(''key-1'', ''hash-abc'')]))
       ''key-1'' ''hash-abc'' DD_Duplicate"

definition layered_new_in_both_returns_new :: bool where
  "layered_new_in_both_returns_new =
     layered_decides (layered_of (cache_with 10 []) (cache_with 10 [])) ''key-1'' ''hash-abc'' DD_New"

definition layered_record_writes_to_both_layers :: bool where
  "layered_record_writes_to_both_layers =
     (let fresh = layered_of (cache_with 10 []) (cache_with 10 []);
          layered = layered_recorded ''key-x'' ''hash-y'' fresh;
          layered2 = layered_recorded ''key-fast'' ''hash-fast'' fresh;
          recorder = layered_recorded ''key-auth'' ''hash-auth'' fresh in
      layered_decides layered ''key-x'' ''hash-y'' DD_Duplicate
      \<and> layered_decides layered2 ''key-fast'' ''hash-fast'' DD_Duplicate
      \<and> layered_decides recorder ''key-auth'' ''hash-auth'' DD_Duplicate
      \<and> layered_decides recorder ''key-never-seen'' ''hash-x'' DD_New)"

lemma dedupe_unit_tests_pass:
  "lru_new_key_returns_new" "lru_same_key_same_hash_returns_duplicate"
  "lru_same_key_different_hash_returns_conflict" "lru_eviction_makes_key_new_again"
  "layered_returns_fast_path_duplicate" "layered_falls_through_to_authoritative"
  "layered_new_in_both_returns_new" "layered_record_writes_to_both_layers"
  by (simp_all add: lru_new_key_returns_new_def lru_same_key_same_hash_returns_duplicate_def
      lru_same_key_different_hash_returns_conflict_def lru_eviction_makes_key_new_again_def
      layered_returns_fast_path_duplicate_def layered_falls_through_to_authoritative_def
      layered_new_in_both_returns_new_def layered_record_writes_to_both_layers_def decides_def cache_with_def
      layered_of_def layered_decides_def layered_recorded_def layered_check_def layered_record_def
      recent_new_def recent_record_def recent_evict_def recent_check_def)

text \<open>The last test cannot look into the authoritative layer, as its comments admit; recording does write
  both layers.\<close>

lemma layered_recorded_both:
  assumes "layered_recorded k h (Some (f, a)) = Some (f1, a1)"
  shows "f1 = snd (recent_record f k h)" and "a1 = snd (recent_record a k h)"
  using assms by (auto simp: layered_recorded_def layered_record_def recent_record_def Let_def split: if_splits)

section \<open>transitions.rs: aggregation\<close>

text \<open>\<^verbatim>\<open>delivery(...)\<close> draws two identifiers and reads the clock twice; the k-th row of a test.\<close>

record row_env =
  rw_uuid :: "nat \<Rightarrow> uuid"
  rw_now :: "nat \<Rightarrow> timestamp"

definition test_row ::
  "row_env \<Rightarrow> nat \<Rightarrow> string \<times> delivery_state \<times> bool \<times> nat \<Rightarrow> webhook_delivery option" where
  "test_row env k = (\<lambda>(emitter, st, immut, created_offset_secs).
     map_option (\<lambda>created.
       \<lparr>wd_delivery_id = DeliveryId (rw_uuid env (2 * k)), wd_receipt_id = ReceiptId (rw_uuid env (2 * k + 1)),
        wd_emitter_name = emitter, wd_state = st, wd_attempt_count = 0, wd_last_error = None,
        wd_last_attempt_at = None, wd_next_attempt_at = rw_now env (2 * k), wd_emitted_at = None,
        wd_immutable = immut, wd_created_at = created\<rparr>)
     (utc_add (rw_now env (2 * k + 1)) (duration_from_secs created_offset_secs)))"

fun test_rows ::
  "row_env \<Rightarrow> nat \<Rightarrow> (string \<times> delivery_state \<times> bool \<times> nat) list \<Rightarrow> webhook_delivery list option" where
  "test_rows env k [] = Some []"
| "test_rows env k (spec # specs) =
     (case test_row env k spec of
        None \<Rightarrow> None
      | Some row \<Rightarrow> map_option ((#) row) (test_rows env (Suc k) specs))"

definition aggregates_to ::
  "row_env \<Rightarrow> (string \<times> delivery_state \<times> bool \<times> nat) list \<Rightarrow> processing_state \<Rightarrow> processing_state \<Rightarrow> bool" where
  "aggregates_to env specs fallback expected =
     (case test_rows env 0 specs of None \<Rightarrow> False | Some rows \<Rightarrow> receipt_aggregate_state rows fallback = expected)"

definition empty_slice_returns_stored :: bool where
  "empty_slice_returns_stored = (receipt_aggregate_state [] PS_Stored = PS_Stored)"

definition all_immutable_falls_back_to_stored_processing_state :: "row_env \<Rightarrow> bool" where
  "all_immutable_falls_back_to_stored_processing_state env =
     aggregates_to env [(''legacy'', DS_Failed, True, 0)] PS_EmitFailed PS_EmitFailed"

definition all_emitted_returns_emitted :: "row_env \<Rightarrow> bool" where
  "all_emitted_returns_emitted env =
     aggregates_to env [(''a'', DS_Emitted, False, 0), (''b'', DS_Emitted, False, 0)] PS_Stored PS_Emitted"

definition any_dead_lettered_returns_dead_lettered :: "row_env \<Rightarrow> bool" where
  "any_dead_lettered_returns_dead_lettered env =
     aggregates_to env [(''a'', DS_Emitted, False, 0), (''b'', DS_DeadLettered, False, 0)] PS_Stored PS_DeadLettered"

definition dead_lettered_wins_over_failed :: "row_env \<Rightarrow> bool" where
  "dead_lettered_wins_over_failed env =
     aggregates_to env [(''a'', DS_Failed, False, 0), (''b'', DS_DeadLettered, False, 0)] PS_Stored PS_DeadLettered"

definition any_failed_no_dead_lettered_returns_emit_failed :: "row_env \<Rightarrow> bool" where
  "any_failed_no_dead_lettered_returns_emit_failed env =
     aggregates_to env [(''a'', DS_Emitted, False, 0), (''b'', DS_Failed, False, 0)] PS_Stored PS_EmitFailed"

definition pending_and_in_flight_collapse_to_stored :: "row_env \<Rightarrow> bool" where
  "pending_and_in_flight_collapse_to_stored env =
     aggregates_to env [(''a'', DS_Pending, False, 0), (''b'', DS_InFlight, False, 0)] PS_Stored PS_Stored"

definition latest_mutable_row_wins_per_emitter :: "row_env \<Rightarrow> bool" where
  "latest_mutable_row_wins_per_emitter env =
     aggregates_to env [(''a'', DS_DeadLettered, False, 0), (''a'', DS_Emitted, False, 10)] PS_Stored PS_Emitted"

definition replay_history_does_not_poison_state :: "row_env \<Rightarrow> bool" where
  "replay_history_does_not_poison_state env =
     aggregates_to env [(''a'', DS_DeadLettered, False, 0), (''a'', DS_Emitted, False, 5), (''b'', DS_Emitted, False, 0)]
       PS_Stored PS_Emitted"

definition deliveries_summary_one_entry_per_emitter_latest_row :: "row_env \<Rightarrow> bool" where
  "deliveries_summary_one_entry_per_emitter_latest_row env =
     (case test_rows env 0 [(''a'', DS_DeadLettered, False, 0), (''a'', DS_Emitted, False, 5), (''b'', DS_Failed, False, 0)] of
        None \<Rightarrow> False
      | Some rows \<Rightarrow>
          (let summary = receipt_deliveries_summary rows in
           length summary = 2 \<and> map_of summary ''a'' = Some DS_Emitted \<and> map_of summary ''b'' = Some DS_Failed))"

definition deliveries_summary_ignores_immutable_rows :: "row_env \<Rightarrow> bool" where
  "deliveries_summary_ignores_immutable_rows env =
     (case test_rows env 0 [(''legacy'', DS_Emitted, True, 0)] of
        None \<Rightarrow> False | Some rows \<Rightarrow> receipt_deliveries_summary rows = [])"

text \<open>Both rows carry the one reading of the clock.\<close>

definition equal_timestamps_first_entry_wins :: "row_env \<Rightarrow> bool" where
  "equal_timestamps_first_entry_wins env =
     (let fixed_ts = rw_now env 0;
          make_delivery = (\<lambda>k emitter st.
            \<lparr>wd_delivery_id = DeliveryId (rw_uuid env (2 * k)), wd_receipt_id = ReceiptId (rw_uuid env (2 * k + 1)),
             wd_emitter_name = emitter, wd_state = st, wd_attempt_count = 0, wd_last_error = None,
             wd_last_attempt_at = None, wd_next_attempt_at = fixed_ts, wd_emitted_at = None,
             wd_immutable = False, wd_created_at = fixed_ts\<rparr>);
          summary = receipt_deliveries_summary [make_delivery 0 ''emitter-a'' DS_Pending, make_delivery 1 ''emitter-a'' DS_Failed] in
      length summary = 1 \<and> map_of summary ''emitter-a'' = Some DS_Pending)"

text \<open>The clock of a test does not run backwards and is not ten seconds from the end of its range.\<close>

definition test_clock :: "row_env \<Rightarrow> bool" where
  "test_clock env \<longleftrightarrow> (\<forall>i j. i \<le> j \<longrightarrow> rw_now env i \<le> rw_now env j) \<and> (\<forall>i. rw_now env i + 10000000 \<le> chrono_max_utc)"

text \<open>The fields of the k-th row are those of its specification.\<close>

definition row_like :: "row_env \<Rightarrow> nat \<Rightarrow> string \<times> delivery_state \<times> bool \<times> nat \<Rightarrow> webhook_delivery \<Rightarrow> bool" where
  "row_like env k = (\<lambda>(e, st, im, off) row.
     wd_emitter_name row = e \<and> wd_state row = st \<and> wd_immutable row = im
     \<and> wd_created_at row = rw_now env (2 * k + 1) + int off * 1000000)"

lemma test_row_run:
  assumes "test_clock env" and "snd (snd (snd spec)) \<le> 10"
  shows "\<exists>row. test_row env k spec = Some row \<and> row_like env k spec row"
proof -
  obtain e st im off where spec: "spec = (e, st, im, off)" by (cases spec)
  have "rw_now env (2 * k + 1) + 10000000 \<le> chrono_max_utc" using assms(1) by (simp add: test_clock_def)
  then have "rw_now env (2 * k + 1) + int off * 1000000 \<le> chrono_max_utc" using assms(2) by (simp add: spec)
  moreover have "int (duration_from_secs off div 1000) = int off * 1000000"
    by (simp add: duration_from_secs_def nanos_per_sec_def)
  ultimately have "utc_add (rw_now env (2 * k + 1)) (duration_from_secs off) = Some (rw_now env (2 * k + 1) + int off * 1000000)"
    by (simp add: utc_add_def Let_def)
  then show ?thesis by (simp add: test_row_def row_like_def spec)
qed

lemma test_rows_run:
  assumes "test_clock env" and "\<forall>spec \<in> set specs. snd (snd (snd spec)) \<le> 10"
  shows "\<exists>rows. test_rows env k specs = Some rows \<and> length rows = length specs
    \<and> (\<forall>i < length specs. row_like env (k + i) (specs ! i) (rows ! i))"
  using assms(2)
proof (induction specs arbitrary: k)
  case (Cons spec specs)
  obtain row where row: "test_row env k spec = Some row" "row_like env k spec row"
    using test_row_run[OF assms(1), of spec k] Cons.prems by auto
  obtain rows where rows: "test_rows env (Suc k) specs = Some rows" "length rows = length specs"
    "\<forall>i < length specs. row_like env (Suc k + i) (specs ! i) (rows ! i)"
    using Cons.IH[of "Suc k"] Cons.prems by auto
  have "row_like env (k + i) ((spec # specs) ! i) ((row # rows) ! i)" if "i < length (spec # specs)" for i
    using that row(2) rows(3) by (cases i) auto
  then show ?case using row(1) rows(1,2) by auto
qed simp

lemmas aggregate_defs = receipt_aggregate_state_def receipt_deliveries_summary_def latest_mutable_per_emitter_def
  latest_step_def aggregate_from_states_def

lemma one_row:
  assumes "test_clock env" and "off \<le> 10"
  obtains r where "test_rows env 0 [(e, st, im, off)] = Some [r]" "row_like env 0 (e, st, im, off) r"
  using test_rows_run[OF assms(1), of "[(e, st, im, off)]" 0] assms(2) by (auto simp: length_Suc_conv)

lemma two_rows:
  assumes "test_clock env" and "snd (snd (snd a)) \<le> 10" "snd (snd (snd b)) \<le> 10"
  obtains r1 r2 where "test_rows env 0 [a, b] = Some [r1, r2]" "row_like env 0 a r1" "row_like env 1 b r2"
proof -
  obtain rows where r: "test_rows env 0 [a, b] = Some rows" "length rows = 2"
    "\<forall>i < 2. row_like env i ([a, b] ! i) (rows ! i)"
    using test_rows_run[OF assms(1), of "[a, b]" 0] assms(2,3) by auto
  obtain r1 r2 where rows: "rows = [r1, r2]" using r(2) by (auto simp: length_Suc_conv numeral_2_eq_2)
  show thesis using that r(1) r(3)[rule_format, of 0] r(3)[rule_format, of 1] by (simp add: rows)
qed

lemma three_rows:
  assumes "test_clock env" and "snd (snd (snd a)) \<le> 10" "snd (snd (snd b)) \<le> 10" "snd (snd (snd c)) \<le> 10"
  obtains r1 r2 r3 where "test_rows env 0 [a, b, c] = Some [r1, r2, r3]"
    "row_like env 0 a r1" "row_like env 1 b r2" "row_like env 2 c r3"
proof -
  obtain rows where r: "test_rows env 0 [a, b, c] = Some rows" "length rows = 3"
    "\<forall>i < 3. row_like env i ([a, b, c] ! i) (rows ! i)"
    using test_rows_run[OF assms(1), of "[a, b, c]" 0] assms(2-) by auto
  obtain r1 r2 r3 where rows: "rows = [r1, r2, r3]" using r(2) by (auto simp: length_Suc_conv numeral_3_eq_3)
  show thesis
    using that r(1) r(3)[rule_format, of 0] r(3)[rule_format, of 1] r(3)[rule_format, of 2] by (simp add: rows)
qed

lemma aggregate_unit_tests_pass:
  assumes "test_clock env"
  shows "all_immutable_falls_back_to_stored_processing_state env" "all_emitted_returns_emitted env"
    "any_dead_lettered_returns_dead_lettered env" "dead_lettered_wins_over_failed env"
    "any_failed_no_dead_lettered_returns_emit_failed env" "pending_and_in_flight_collapse_to_stored env"
    "deliveries_summary_ignores_immutable_rows env"
proof -
  have two: "aggregates_to env [(''a'', s1, False, 0), (''b'', s2, False, 0)] PS_Stored (aggregate_from_states [s1, s2] PS_Stored)"
    for s1 s2
    by (rule two_rows[OF assms, of "(''a'', s1, False, 0)" "(''b'', s2, False, 0)"])
      (auto simp: aggregates_to_def row_like_def aggregate_defs)
  show "all_immutable_falls_back_to_stored_processing_state env" "deliveries_summary_ignores_immutable_rows env"
    by (rule one_row[OF assms, of 0 "''legacy''" DS_Failed True], simp,
        simp add: all_immutable_falls_back_to_stored_processing_state_def aggregates_to_def row_like_def aggregate_defs,
        rule one_row[OF assms, of 0 "''legacy''" DS_Emitted True], simp,
        simp add: deliveries_summary_ignores_immutable_rows_def row_like_def aggregate_defs)
  show "all_emitted_returns_emitted env" "any_dead_lettered_returns_dead_lettered env"
    "dead_lettered_wins_over_failed env" "any_failed_no_dead_lettered_returns_emit_failed env"
    "pending_and_in_flight_collapse_to_stored env"
    using two[of DS_Emitted DS_Emitted] two[of DS_Emitted DS_DeadLettered] two[of DS_Failed DS_DeadLettered]
      two[of DS_Emitted DS_Failed] two[of DS_Pending DS_InFlight]
    by (simp_all add: all_emitted_returns_emitted_def any_dead_lettered_returns_dead_lettered_def
        dead_lettered_wins_over_failed_def any_failed_no_dead_lettered_returns_emit_failed_def
        pending_and_in_flight_collapse_to_stored_def aggregate_from_states_def)
qed

lemma latest_row_unit_tests_pass:
  assumes "test_clock env"
  shows "latest_mutable_row_wins_per_emitter env" "replay_history_does_not_poison_state env"
    "deliveries_summary_one_entry_per_emitter_latest_row env" "equal_timestamps_first_entry_wins env"
    "empty_slice_returns_stored"
proof -
  let ?a = "(''a'', DS_DeadLettered, False, 0)"
  have clock: "rw_now env (Suc 0) < rw_now env 3 + n" if "0 < n" for n
    using assms that order_le_less_trans[of "rw_now env (Suc 0)" "rw_now env 3"] by (simp add: test_clock_def)
  show "latest_mutable_row_wins_per_emitter env"
    by (rule two_rows[OF assms, of ?a "(''a'', DS_Emitted, False, 10)"])
      (auto simp: latest_mutable_row_wins_per_emitter_def aggregates_to_def aggregate_defs row_like_def clock)
  show "replay_history_does_not_poison_state env"
    by (rule three_rows[OF assms, of ?a "(''a'', DS_Emitted, False, 5)" "(''b'', DS_Emitted, False, 0)"])
      (auto simp: replay_history_does_not_poison_state_def aggregates_to_def aggregate_defs row_like_def clock)
  show "deliveries_summary_one_entry_per_emitter_latest_row env"
    by (rule three_rows[OF assms, of ?a "(''a'', DS_Emitted, False, 5)" "(''b'', DS_Failed, False, 0)"])
      (auto simp: deliveries_summary_one_entry_per_emitter_latest_row_def aggregate_defs row_like_def clock)
  show "equal_timestamps_first_entry_wins env" "empty_slice_returns_stored"
    by (simp_all add: equal_timestamps_first_entry_wins_def empty_slice_returns_stored_def aggregate_defs Let_def)
qed

section \<open>transitions.rs: backoff, labels and retries\<close>

definition test_policy :: "int \<Rightarrow> nat \<Rightarrow> nat \<Rightarrow> f64 \<Rightarrow> f64 \<Rightarrow> retry_policy" where
  "test_policy attempts initial_secs max_secs multiplier jit =
     \<lparr>max_attempts = attempts, initial_backoff = duration_from_secs initial_secs,
      max_backoff = duration_from_secs max_secs, backoff_multiplier = multiplier, jitter = jit\<rparr>"

definition test_policy_no_jitter :: retry_policy where
  "test_policy_no_jitter = test_policy 5 30 3600 (Fin 2) (Fin 0)"

definition attempt_1_returns_initial_backoff :: "backoff_env \<Rightarrow> bool" where
  "attempt_1_returns_initial_backoff env = (backoff_call env 0 1 test_policy_no_jitter = Some (duration_from_secs 30))"

definition attempt_2_doubles :: "backoff_env \<Rightarrow> bool" where
  "attempt_2_doubles env = (backoff_call env 0 2 test_policy_no_jitter = Some (duration_from_secs 60))"

definition attempt_5_clamped_to_max :: "backoff_env \<Rightarrow> bool" where
  "attempt_5_clamped_to_max env =
     (backoff_call env 0 3 (test_policy 10 60 120 (Fin 4) (Fin 0)) = Some (duration_from_secs 120))"

definition attempt_0_panics_in_debug :: "backoff_env \<Rightarrow> bool" where
  "attempt_0_panics_in_debug env = (if bo_debug env then backoff_call env 0 0 test_policy_no_jitter = None else True)"

definition jitter_within_bounds :: "backoff_env \<Rightarrow> bool" where
  "jitter_within_bounds env =
     (let p = test_policy_no_jitter\<lparr>jitter := f64_round (1 / 5)\<rparr> in
      list_all (\<lambda>k.
        (case (backoff_call env k 1 p, from_secs_f64 (f64_mul (Fin 30) (f64_round (4 / 5))),
               from_secs_f64 (f64_mul (Fin 30) (f64_round (6 / 5)))) of
           (Some d, Some lo, Some hi) \<Rightarrow> lo \<le> d \<and> d \<le> hi
         | _ \<Rightarrow> False)) [0 ..< 1000])"

definition jittered_delay_never_exceeds_max_backoff :: "backoff_env \<Rightarrow> bool" where
  "jittered_delay_never_exceeds_max_backoff env =
     (let p = test_policy 10 60 120 (Fin 4) (Fin 1) in
      list_all (\<lambda>k. case backoff_call env k 5 p of None \<Rightarrow> False | Some d \<Rightarrow> d \<le> max_backoff p) [0 ..< 5000])"

definition invalid_jitter_does_not_panic_in_release :: "backoff_env \<Rightarrow> bool" where
  "invalid_jitter_does_not_panic_in_release env =
     (if \<not> bo_debug env
      then list_all (\<lambda>k. backoff_call env k 1 (test_policy 5 30 3600 (Fin 2) (Fin 2)) \<noteq> None) [0 ..< 1000] else True)"

definition invalid_backoff_multiplier_does_not_panic_in_release :: "backoff_env \<Rightarrow> bool" where
  "invalid_backoff_multiplier_does_not_panic_in_release env =
     (if \<not> bo_debug env
      then list_all (\<lambda>bad. list_all (\<lambda>attempt.
             backoff_call env attempt (int attempt) (test_policy 5 30 3600 bad (Fin 0))
               = Some (min (duration_from_secs 30) (duration_from_secs 3600))) [1 ..< 11])
             [Fin (- 2), Fin 0, NaN, PInf, NInf]
      else True)"

definition nan_multiplier_returns_fallback_not_panic :: "backoff_env \<Rightarrow> bool" where
  "nan_multiplier_returns_fallback_not_panic env =
     (let res = backoff_call env 0 1 (test_policy 5 30 3600 NaN (Fin 0)) in
      if bo_debug env then res = None else res = Some (min (duration_from_secs 30) (duration_from_secs 3600)))"

definition zero_jitter_produces_deterministic_result :: "backoff_env \<Rightarrow> bool" where
  "zero_jitter_produces_deterministic_result env =
     list_all (\<lambda>k. backoff_call env k 1 (test_policy 10 10 1000 (Fin 1) (Fin 0)) = Some (duration_from_secs 10)) [0 ..< 100]"

definition verification_status_label_maps_all_variants :: bool where
  "verification_status_label_maps_all_variants \<longleftrightarrow>
     verification_status_label VS_Verified = ''verified'' \<and> verification_status_label VS_Failed = ''failed''
     \<and> verification_status_label VS_Skipped = ''skipped''"

definition dedupe_decision_label_maps_all_variants :: bool where
  "dedupe_decision_label_maps_all_variants \<longleftrightarrow>
     dedupe_decision_label DD_New = ''new'' \<and> dedupe_decision_label DD_Duplicate = ''duplicate''
     \<and> dedupe_decision_label DD_Conflict = ''conflict''"

definition retry_next_state_emits_before_exhaustion :: bool where
  "retry_next_state_emits_before_exhaustion = (retry_next_state 0 3 = (1, PS_EmitFailed))"

definition retry_next_state_dead_letters_at_max :: bool where
  "retry_next_state_dead_letters_at_max = (retry_next_state 2 3 = (3, PS_DeadLettered))"

definition is_findable_by_worker_only_for_emit_failed_under_limit :: bool where
  "is_findable_by_worker_only_for_emit_failed_under_limit \<longleftrightarrow>
     is_findable_by_worker 0 PS_EmitFailed 3 \<and> \<not> is_findable_by_worker 3 PS_EmitFailed 3
     \<and> \<not> is_findable_by_worker 0 PS_Emitted 3 \<and> \<not> is_findable_by_worker 0 PS_DeadLettered 3"

text \<open>The surroundings: small powers are exact and the others not negative; samples are in \<open>[0, 1)\<close>.\<close>

definition backoff_env_ok :: "backoff_env \<Rightarrow> bool" where
  "backoff_env_ok env \<longleftrightarrow>
     bo_powi env (Fin 1) 0 = Fin 1 \<and> bo_powi env (Fin 2) 0 = Fin 1 \<and> bo_powi env (Fin 2) 1 = Fin 2
     \<and> bo_powi env (Fin 4) 2 = Fin 16
     \<and> (\<forall>k. \<exists>t. bo_samples env k = Fin t \<and> 0 \<le> t \<and> t < 1)"

lemma backoff_whole:
  assumes "0 < n" and "0 < m" and "0 < i" and "0 < r" and "i * r \<le> 2 ^ 53" and "s \<le> 2 ^ 53"
    and "bo_powi env (Fin m) (n - 1) = Fin (of_nat r)"
  shows "backoff_call env k n (test_policy a i s (Fin m) (Fin 0)) = Some (duration_from_secs (min (i * r) s))"
proof -
  have "i \<le> i * r" using assms(4) by simp
  then have i: "i \<le> 2 ^ 53" using assms(5) by (rule order_trans)
  have s: "s < 2 ^ 64" "min (i * r) s < 2 ^ 64" using assms(5,6) by (auto simp: min_def intro: le_less_trans)
  have "f64_round (of_nat i * of_nat r) = Fin (of_nat (i * r))" using f64_round_nat[OF assms(5)] by simp
  then have "capped_secs i s (Fin (of_nat r)) = of_nat (min (i * r) s)"
    by (auto simp: capped_secs_def f64_min_def min_def simp flip: of_nat_mult)
  moreover have "f64_round (of_nat (min (i * r) s)) = Fin (of_nat (min (i * r) s))"
    by (rule f64_round_nat) (use assms(5,6) in \<open>simp add: min_def\<close>)
  ultimately have "backoff_secs i s (Fin (of_nat r)) = Fin (of_nat (min (i * r) s))" by (simp add: backoff_secs_def)
  moreover have "backoff_call env k n (test_policy a i s (Fin m) (Fin 0)) =
      from_secs_f64 (backoff_secs i s (bo_powi env (Fin m) (n - 1)))"
    unfolding backoff_call_def
    by (rule compute_backoff_no_jitter) (use assms i in \<open>simp_all add: test_policy_def\<close>)
  ultimately show ?thesis using from_secs_f64_whole[OF s(2)] assms(7) by simp
qed

lemma backoff_exact_unit_tests_pass:
  assumes "backoff_env_ok env"
  shows "attempt_1_returns_initial_backoff env" "attempt_2_doubles env" "attempt_5_clamped_to_max env"
    "zero_jitter_produces_deterministic_result env"
proof -
  note ok = assms[unfolded backoff_env_ok_def]
  show "attempt_1_returns_initial_backoff env"
    unfolding attempt_1_returns_initial_backoff_def test_policy_no_jitter_def
    using ok backoff_whole[of 1 2 30 1 3600 env 0 5] by simp
  show "attempt_2_doubles env"
    unfolding attempt_2_doubles_def test_policy_no_jitter_def
    using ok backoff_whole[of 2 2 30 2 3600 env 0 5] by simp
  show "attempt_5_clamped_to_max env"
    unfolding attempt_5_clamped_to_max_def using ok backoff_whole[of 3 4 60 16 120 env 0 10] by simp
  show "zero_jitter_produces_deterministic_result env"
    unfolding zero_jitter_produces_deterministic_result_def
    using ok backoff_whole[of 1 1 10 1 1000 env _ 10] by (simp add: list_all_iff)
qed

text \<open>Debug assertions do not change the answer for a policy that satisfies them.\<close>

lemma compute_backoff_builds_agree:
  assumes "0 < n" and "f64_le (Fin 0) (jitter p)" and "f64_le (jitter p) (Fin 1)"
    and "f64_is_finite (backoff_multiplier p)" and "f64_lt (Fin 0) (backoff_multiplier p)"
  shows "compute_backoff debug f sample n p = compute_backoff False f sample n p"
  using assms by (simp add: compute_backoff_def del: from_secs_f64.simps)

lemma backoff_guard_unit_tests_pass:
  "attempt_0_panics_in_debug env" "jittered_delay_never_exceeds_max_backoff env"
  "invalid_jitter_does_not_panic_in_release env" "nan_multiplier_returns_fallback_not_panic env"
  "invalid_backoff_multiplier_does_not_panic_in_release env"
proof -
  let ?p = "test_policy 10 60 120 (Fin 4) (Fin 1)" and ?q = "test_policy 5 30 3600 (Fin 2) (Fin 2)"
  have "\<exists>d. backoff_call env k 5 ?p = Some d \<and> d \<le> max_backoff ?p" for k
    using compute_backoff_bounded[of 5 ?p 120 "bo_powi env" "bo_samples env k"]
      compute_backoff_builds_agree[of 5 ?p "bo_debug env" "bo_powi env" "bo_samples env k"]
    by (simp add: backoff_call_def test_policy_def)
  then show "jittered_delay_never_exceeds_max_backoff env"
    unfolding jittered_delay_never_exceeds_max_backoff_def Let_def list_all_iff by (metis option.simps(5))
  have "\<exists>d. compute_backoff False (bo_powi env) (bo_samples env k) 1 ?q = Some d" for k
    using compute_backoff_bounded[of 1 ?q 3600] by (auto simp: test_policy_def)
  then show "invalid_jitter_does_not_panic_in_release env"
    by (simp add: invalid_jitter_does_not_panic_in_release_def backoff_call_def list_all_iff)
  show "attempt_0_panics_in_debug env" "nan_multiplier_returns_fallback_not_panic env"
    by (simp_all add: attempt_0_panics_in_debug_def nan_multiplier_returns_fallback_not_panic_def backoff_call_def
        compute_backoff_def test_policy_no_jitter_def test_policy_def Let_def f64_le_def)
  show "invalid_backoff_multiplier_does_not_panic_in_release env"
    by (simp add: invalid_backoff_multiplier_does_not_panic_in_release_def backoff_call_def compute_backoff_def
        test_policy_def f64_le_def list_all_iff)
qed

lemma f64_fifth_is_double: "f64_round (3602879701896397 / 2 ^ 54) = Fin (3602879701896397 / 2 ^ 54)"
proof -
  have "(2::rat) powi (- 3) \<le> 3602879701896397 / 2 ^ 54" "3602879701896397 / 2 ^ 54 < (2::rat) powi (- 3 + 1)"
    by (simp_all add: power_int_minus)
  note f64_round_eval[OF this]
  then show ?thesis using round_half_even_near[of 7205759403792794 7205759403792794] by simp
qed

lemma jitter_unit_test_passes:
  assumes "backoff_env_ok env"
  shows "jitter_within_bounds env"
proof -
  let ?j = "3602879701896397 / 2 ^ 54 :: rat" and ?p = "test_policy_no_jitter\<lparr>jitter := f64_round (1 / 5)\<rparr>"
  let ?hi = "5404319552844595 / 2 ^ 52 :: rat"
  have p: "jitter ?p = Fin ?j" "backoff_multiplier ?p = Fin 2" "initial_backoff ?p = duration_from_secs 30"
      "max_backoff ?p = duration_from_secs 3600"
    by (simp_all add: test_policy_no_jitter_def test_policy_def f64_literals)
  have pow: "bo_powi env (Fin 2) 0 = Fin 1" using assms by (simp add: backoff_env_ok_def)
  have base: "backoff_base (bo_powi env) 1 ?p = Fin 30"
    using as_secs_f64_whole[of 30] as_secs_f64_whole[of 3600] f64_round_nat[of 30] pow
    by (simp add: backoff_base_def p f64_min_def)
  obtain y where y: "f64_round (30 * ?hi) = Fin y" "y \<le> 60"
    using f64_round_bounded[of "30 * ?hi" 60] by auto
  have ok: "\<exists>d lo hi. backoff_call env k 1 ?p = Some d \<and> from_secs_f64 (f64_mul (Fin 30) (f64_round (4 / 5))) = Some lo
      \<and> from_secs_f64 (f64_mul (Fin 30) (f64_round (6 / 5))) = Some hi \<and> lo \<le> d \<and> d \<le> hi" for k
  proof -
    obtain t where t: "bo_samples env k = Fin t" "0 \<le> t" "t < 1" using assms by (auto simp: backoff_env_ok_def)
    have one: "f64_add (Fin 1) (f64_neg (jitter ?p)) = f64_round (4 / 5)" "f64_add (Fin 1) (jitter ?p) = Fin ?hi"
      using f64_one_minus_fifth f64_one_plus_fifth by (simp_all only: p f64_add.simps f64_neg.simps f64_literals) simp_all
    have "f64_min (f64_mul (Fin 30) (Fin ?hi)) (as_secs_f64 (max_backoff ?p)) = f64_mul (Fin 30) (f64_round (6 / 5))"
      using y as_secs_f64_whole[of 3600] unfolding p by (simp add: f64_min_def f64_literals)
    then show ?thesis
      using jitter_window[of 1 ?p 2 ?j t 30 3600 "bo_powi env" "bo_debug env"] f64_fifth_is_double t pow one base p
      unfolding backoff_call_def by (simp only: t) simp
  qed
  show ?thesis
    unfolding jitter_within_bounds_def Let_def list_all_iff using ok by (fastforce split: option.split)
qed

end
