(* ===== verification/Pipeline_Tests.thy ===== *)
theory Pipeline_Tests
  imports Memory
begin

text \<open>
  The unit tests of \<^verbatim>\<open>crates/hookbox/src/pipeline.rs\<close> with their storages and verifiers, and the default
  \<^verbatim>\<open>store_with_deliveries\<close> of the \<^verbatim>\<open>Storage\<close> trait (\<^verbatim>\<open>traits.rs\<close>). A test is a predicate on the hash function and
  on what the ingest reads (identifiers, clock); a panic or a failed assertion makes it false. Shown:
  the tests pass in every such surrounding; and, beyond the examples, the default implementation never
  drops a fan-out, and a pipeline calls its storage once per webhook that verifies and not at all
  otherwise.
\<close>

section \<open>The default of the Storage trait\<close>

definition default_store_with_deliveries ::
  "(webhook_receipt \<Rightarrow> 's \<Rightarrow> store_result answer \<times> 's) \<Rightarrow> webhook_receipt \<Rightarrow> string list \<Rightarrow> 's
     \<Rightarrow> store_result answer \<times> 's" where
  "default_store_with_deliveries store_fn receipt emitter_names s =
     (if emitter_names \<noteq> [] then (Err SE_FanOutNotImplemented, s) else store_fn receipt s)"

section \<open>The storages of the tests\<close>

type_synonym unit_storage = "webhook_receipt list"

definition unit_store :: "webhook_receipt \<Rightarrow> unit_storage \<Rightarrow> store_result answer \<times> unit_storage" where
  "unit_store receipt rs =
     (case find (\<lambda>r. dedupe_key r = dedupe_key receipt) rs of
        Some existing \<Rightarrow> (Ok (SR_Duplicate (receipt_id existing)), rs)
      | None \<Rightarrow> (Ok SR_Stored, rs @ [receipt]))"

definition unit_get :: "uuid \<Rightarrow> unit_storage \<Rightarrow> webhook_receipt option answer" where
  "unit_get u rs = Ok (find (\<lambda>r. rid_uuid (receipt_id r) = u) rs)"

definition unit_update_state ::
  "uuid \<Rightarrow> processing_state \<Rightarrow> string option \<Rightarrow> unit_storage \<Rightarrow> unit answer \<times> unit_storage" where
  "unit_update_state u st error rs =
     (Ok (), update_first (\<lambda>r. rid_uuid (receipt_id r) = u)
               (\<lambda>r. r\<lparr>processing_state := st, last_error := error\<rparr>) rs)"

definition unit_query :: "receipt_filter \<Rightarrow> unit_storage \<Rightarrow> webhook_receipt list answer" where
  "unit_query f rs = Ok rs"

definition unit_store_with_deliveries ::
  "dbenv \<Rightarrow> webhook_receipt \<Rightarrow> string list \<Rightarrow> unit_storage \<Rightarrow> store_result answer \<times> unit_storage" where
  "unit_store_with_deliveries env = default_store_with_deliveries unit_store"

record mock_storage =
  mk_calls :: "(uuid \<times> string list) list"
  mk_return_duplicate :: bool

definition mock_new :: mock_storage where
  "mock_new = \<lparr>mk_calls = [], mk_return_duplicate = False\<rparr>"

definition mock_new_returning_duplicate :: mock_storage where
  "mock_new_returning_duplicate = \<lparr>mk_calls = [], mk_return_duplicate = True\<rparr>"

definition recorded_calls :: "mock_storage \<Rightarrow> (uuid \<times> string list) list" where
  "recorded_calls s = mk_calls s"

text \<open>\<^verbatim>\<open>store\<close> panics: \<open>None\<close>.\<close>

definition mock_store :: "webhook_receipt \<Rightarrow> mock_storage \<Rightarrow> (store_result answer \<times> mock_storage) option" where
  "mock_store receipt s = None"

definition mock_get :: "uuid \<Rightarrow> mock_storage \<Rightarrow> webhook_receipt option answer" where
  "mock_get u s = Ok None"

definition mock_update_state ::
  "uuid \<Rightarrow> processing_state \<Rightarrow> string option \<Rightarrow> mock_storage \<Rightarrow> unit answer \<times> mock_storage" where
  "mock_update_state u st error s = (Ok (), s)"

definition mock_query :: "receipt_filter \<Rightarrow> mock_storage \<Rightarrow> webhook_receipt list answer" where
  "mock_query f s = Ok []"

definition mock_store_with_deliveries ::
  "dbenv \<Rightarrow> webhook_receipt \<Rightarrow> string list \<Rightarrow> mock_storage \<Rightarrow> store_result answer \<times> mock_storage" where
  "mock_store_with_deliveries env receipt emitter_names s =
     (let s1 = s\<lparr>mk_calls := mk_calls s @ [(rid_uuid (receipt_id receipt), emitter_names)]\<rparr> in
      (Ok (if mk_return_duplicate s then SR_Duplicate (receipt_id receipt) else SR_Stored), s1))"

section \<open>The verifiers of the tests\<close>

definition constant_verifier :: "verification_status \<Rightarrow> string option \<Rightarrow> verifier" where
  "constant_verifier status reason =
     \<lparr>v_provider_name = ''test-provider'', v_verify = (\<lambda>_ _ _. \<lparr>vr_status = status, vr_reason = reason\<rparr>)\<rparr>"

definition unit_pass_verifier :: verifier where
  "unit_pass_verifier = constant_verifier VS_Verified (Some ''signature_valid'')"

definition unit_fail_verifier :: verifier where
  "unit_fail_verifier = constant_verifier VS_Failed (Some ''invalid_signature'')"

definition fail_verifier_no_reason :: verifier where
  "fail_verifier_no_reason = constant_verifier VS_Failed None"

definition pass_verifier_no_reason :: verifier where
  "pass_verifier_no_reason = constant_verifier VS_Verified None"

definition skip_verifier_no_reason :: verifier where
  "skip_verifier_no_reason = constant_verifier VS_Skipped None"

section \<open>Building and running a pipeline\<close>

text \<open>The builder calls of the tests; the state is the cache and the storage.\<close>

definition test_pipeline ::
  "(dbenv \<Rightarrow> webhook_receipt \<Rightarrow> string list \<Rightarrow> 's \<Rightarrow> store_result answer \<times> 's) \<Rightarrow> string list \<Rightarrow> verifier list
     \<Rightarrow> (recent_dedupe \<times> 's) pipeline option" where
  "test_pipeline store_fn names vs =
     builder_build (fold verifier_boxed vs (builder_emitter_names names
       (builder_dedupe (\<lambda>w k h. recent_check (fst w) k h)
          (\<lambda>w k h. case recent_record (fst w) k h of (res, c) \<Rightarrow> (res, (c, snd w)))
          (builder_storage (\<lambda>env r ns w. case store_fn env r ns (snd w) of (res, s) \<Rightarrow> (res, (fst w, s))) pipeline_builder))))"

text \<open>Ingest the bodies one after the other into a fresh pipeline with a cache of 100 entries: the answers
  and the final state; \<open>None\<close> when the pipeline cannot be built.\<close>

fun ingest_all ::
  "externals \<Rightarrow> 'w pipeline \<Rightarrow> (nat \<Rightarrow> 'w ingest_env) \<Rightarrow> string \<Rightarrow> string list \<Rightarrow> 'w
     \<Rightarrow> (ingest_result, ingest_error) result list \<times> 'w" where
  "ingest_all x p envs provider [] w = ([], w)"
| "ingest_all x p envs provider (body # bodies) w =
     (case ingest x p (envs 0) provider [] body w of (res, _, w1) \<Rightarrow>
      (case ingest_all x p (\<lambda>k. envs (Suc k)) provider bodies w1 of (rs, w2) \<Rightarrow> (res # rs, w2)))"

definition run_pipeline ::
  "externals \<Rightarrow> (dbenv \<Rightarrow> webhook_receipt \<Rightarrow> string list \<Rightarrow> 's \<Rightarrow> store_result answer \<times> 's) \<Rightarrow> 's \<Rightarrow> string list
     \<Rightarrow> verifier list \<Rightarrow> (nat \<Rightarrow> (recent_dedupe \<times> 's) ingest_env) \<Rightarrow> string \<Rightarrow> string list
     \<Rightarrow> ((ingest_result, ingest_error) result list \<times> 's) option" where
  "run_pipeline x store_fn s names vs envs provider bodies =
     (case (recent_new 100, test_pipeline store_fn names vs) of
        (Some cache, Some p) \<Rightarrow> Some (apsnd snd (ingest_all x p envs provider bodies (cache, s)))
      | _ \<Rightarrow> None)"

section \<open>The tests\<close>

fun is_accepted :: "(ingest_result, ingest_error) result \<Rightarrow> bool" where
  "is_accepted (Ok (IR_Accepted _)) = True"
| "is_accepted _ = False"

fun is_duplicate :: "(ingest_result, ingest_error) result \<Rightarrow> bool" where
  "is_duplicate (Ok (IR_Duplicate _)) = True"
| "is_duplicate _ = False"

definition payment_body :: string where
  "payment_body = ''{\"event\":\"payment.completed\"}''"

definition event_body :: string where
  "event_body = ''{\"event\":\"test\"}''"

type_synonym unit_envs = "nat \<Rightarrow> (recent_dedupe \<times> unit_storage) ingest_env"
type_synonym mock_envs = "nat \<Rightarrow> (recent_dedupe \<times> mock_storage) ingest_env"

definition unit_run ::
  "externals \<Rightarrow> unit_envs \<Rightarrow> verifier list \<Rightarrow> string \<Rightarrow> string list
     \<Rightarrow> ((ingest_result, ingest_error) result list \<times> unit_storage) option" where
  "unit_run x envs vs provider bodies = run_pipeline x unit_store_with_deliveries [] [] vs envs provider bodies"

definition ingest_accepted_on_valid_webhook :: "externals \<Rightarrow> unit_envs \<Rightarrow> bool" where
  "ingest_accepted_on_valid_webhook x envs =
     (case unit_run x envs [unit_pass_verifier] ''test-provider'' [payment_body] of
        Some ([Ok (IR_Accepted i)], _) \<Rightarrow> rid_uuid i \<noteq> 0
      | _ \<Rightarrow> False)"

definition ingest_duplicate_on_same_body :: "externals \<Rightarrow> unit_envs \<Rightarrow> bool" where
  "ingest_duplicate_on_same_body x envs =
     (case unit_run x envs [unit_pass_verifier] ''test-provider'' [payment_body, payment_body] of
        Some ([first, second], _) \<Rightarrow> is_accepted first \<and> is_duplicate second
      | _ \<Rightarrow> False)"

definition rejected_with :: "((ingest_result, ingest_error) result list \<times> unit_storage) option \<Rightarrow> string \<Rightarrow> bool" where
  "rejected_with res expected =
     (case res of Some ([Ok (IR_VerificationFailed reason)], _) \<Rightarrow> reason = expected | _ \<Rightarrow> False)"

definition accepted_once :: "((ingest_result, ingest_error) result list \<times> 's) option \<Rightarrow> bool" where
  "accepted_once res = (case res of Some ([r], _) \<Rightarrow> is_accepted r | _ \<Rightarrow> False)"

definition ingest_verification_failed :: "externals \<Rightarrow> unit_envs \<Rightarrow> bool" where
  "ingest_verification_failed x envs =
     rejected_with (unit_run x envs [unit_fail_verifier] ''test-provider'' [payment_body]) ''invalid_signature''"

definition ingest_skipped_verification_when_no_verifier :: "externals \<Rightarrow> unit_envs \<Rightarrow> bool" where
  "ingest_skipped_verification_when_no_verifier x envs =
     accepted_once (unit_run x envs [] ''unknown-provider'' [payment_body])"

definition ingest_verification_failed_with_no_reason :: "externals \<Rightarrow> unit_envs \<Rightarrow> bool" where
  "ingest_verification_failed_with_no_reason x envs =
     rejected_with (unit_run x envs [fail_verifier_no_reason] ''test-provider'' [event_body]) ''verification_failed''"

definition ingest_verified_with_no_reason_label :: "externals \<Rightarrow> unit_envs \<Rightarrow> bool" where
  "ingest_verified_with_no_reason_label x envs =
     accepted_once (unit_run x envs [pass_verifier_no_reason] ''test-provider'' [event_body])"

definition ingest_skipped_with_no_reason_label :: "externals \<Rightarrow> unit_envs \<Rightarrow> bool" where
  "ingest_skipped_with_no_reason_label x envs =
     accepted_once (unit_run x envs [skip_verifier_no_reason] ''test-provider'' [event_body])"

definition memory_storage_get_returns_stored_receipt :: "externals \<Rightarrow> unit_envs \<Rightarrow> bool" where
  "memory_storage_get_returns_stored_receipt x envs =
     (case unit_run x envs [unit_pass_verifier] ''test-provider'' [event_body] of
        Some ([Ok (IR_Accepted i)], s) \<Rightarrow>
          (case unit_get (rid_uuid i) s of
             Ok (Some found) \<Rightarrow> receipt_id found = i
               \<and> (case unit_query receipt_filter_default s of Ok all \<Rightarrow> all \<noteq> [] | Err _ \<Rightarrow> False)
           | _ \<Rightarrow> False)
      | _ \<Rightarrow> False)"

definition pipeline_calls_store_with_deliveries_with_correct_names :: "externals \<Rightarrow> mock_envs \<Rightarrow> bool" where
  "pipeline_calls_store_with_deliveries_with_correct_names x envs =
     (case run_pipeline x mock_store_with_deliveries mock_new [''kafka'', ''sqs''] [] envs ''test-provider''
             [''{\"event\":\"fan-out-test\"}''] of
        Some ([r], s) \<Rightarrow> is_accepted r \<and> length (recorded_calls s) = 1
          \<and> snd (recorded_calls s ! 0) = [''kafka'', ''sqs'']
      | _ \<Rightarrow> False)"

definition pipeline_returns_duplicate_when_storage_reports_conflict :: "externals \<Rightarrow> mock_envs \<Rightarrow> bool" where
  "pipeline_returns_duplicate_when_storage_reports_conflict x envs =
     (case run_pipeline x mock_store_with_deliveries mock_new_returning_duplicate [''kafka''] [] envs ''test-provider''
             [''{\"event\":\"duplicate-test\"}''] of
        Some ([r], s) \<Rightarrow> is_duplicate r \<and> length (recorded_calls s) = 1
      | _ \<Rightarrow> False)"

definition emitter_names_returns_configured_names :: bool where
  "emitter_names_returns_configured_names =
     (case test_pipeline unit_store_with_deliveries [''alpha'', ''beta''] [] of
        None \<Rightarrow> False
      | Some p \<Rightarrow> length (p_emitter_names p) = 2 \<and> p_emitter_names p ! 0 = ''alpha'' \<and> p_emitter_names p ! 1 = ''beta''
          \<and> p_emitter_names p = [''alpha'', ''beta''])"

text \<open>\<open>as_object().get(k).as_str()\<close>.\<close>

fun object_str :: "json \<Rightarrow> string \<Rightarrow> string option" where
  "object_str (JObject m) k = (case map_of m k of Some (JString v) \<Rightarrow> Some v | _ \<Rightarrow> None)"
| "object_str _ k = None"

definition headers_to_json_produces_correct_object :: "externals \<Rightarrow> bool" where
  "headers_to_json_produces_correct_object x =
     (let v = headers_to_json x [(''content-type'', ''application/json''), (''x-custom-header'', ''my-value'')] in
      (\<exists>m. v = JObject m) \<and> object_str v ''content-type'' = Some ''application/json''
      \<and> object_str v ''x-custom-header'' = Some ''my-value'')"

definition headers_to_json_empty_map_returns_empty_object :: "externals \<Rightarrow> bool" where
  "headers_to_json_empty_map_returns_empty_object x = (headers_to_json x [] = JObject [])"

definition fan_out_receipt :: "uuid \<Rightarrow> timestamp \<Rightarrow> webhook_receipt" where
  "fan_out_receipt rid now =
     \<lparr>receipt_id = ReceiptId rid, provider_name = ''test'', provider_event_id = None, external_reference = None,
      dedupe_key = ''k'', payload_hash = ''h'', raw_body = [], parsed_payload = None, raw_headers = JObject [],
      normalized_event_type = None, verification_status = VS_Verified, verification_reason = None,
      processing_state = PS_Stored, emit_count = 0, last_error = None, received_at = now, processed_at = None,
      metadata = JObject []\<rparr>"

definition default_store_with_deliveries_rejects_non_empty_emitter_names :: "dbenv \<Rightarrow> uuid \<Rightarrow> timestamp \<Rightarrow> bool" where
  "default_store_with_deliveries_rejects_non_empty_emitter_names env rid now =
     (case unit_store_with_deliveries env (fan_out_receipt rid now) [] [] of
        (Ok SR_Stored, s) \<Rightarrow>
          fst (unit_store_with_deliveries env (fan_out_receipt rid now) [''kafka''] s) = Err SE_FanOutNotImplemented
      | _ \<Rightarrow> False)"

section \<open>They pass\<close>

text \<open>A test has its pipeline to itself, and generated identifiers are not nil.\<close>

definition alone :: "(nat \<Rightarrow> 'w ingest_env) \<Rightarrow> bool" where
  "alone envs \<longleftrightarrow> (\<forall>k. ie_gap1 (envs k) = (\<lambda>w. w) \<and> ie_gap2 (envs k) = (\<lambda>w. w) \<and> ie_receipt_id (envs k) \<noteq> 0)"

lemmas run_defs = unit_run_def run_pipeline_def test_pipeline_def builder_build_def builder_storage_def
  builder_dedupe_def builder_emitter_names_def pipeline_builder_def verifier_boxed_def constant_verifier_def
  ingest_def run_verification_def recent_new_def recent_check_def recent_record_def recent_evict_def
  unit_store_with_deliveries_def default_store_with_deliveries_def unit_store_def build_receipt_def Let_def

lemma ingest_unit_tests_pass:
  assumes "alone envs"
  shows "ingest_accepted_on_valid_webhook x envs" "ingest_duplicate_on_same_body x envs"
    "ingest_verification_failed x envs" "ingest_skipped_verification_when_no_verifier x envs"
    "ingest_verification_failed_with_no_reason x envs" "ingest_verified_with_no_reason_label x envs"
    "ingest_skipped_with_no_reason_label x envs" "memory_storage_get_returns_stored_receipt x envs"
proof -
  note env = assms[unfolded alone_def]
  show "ingest_accepted_on_valid_webhook x envs" "memory_storage_get_returns_stored_receipt x envs"
    using env by (simp_all add: ingest_accepted_on_valid_webhook_def memory_storage_get_returns_stored_receipt_def
        unit_pass_verifier_def unit_get_def unit_query_def run_defs)
  show "ingest_duplicate_on_same_body x envs"
    using env by (simp add: ingest_duplicate_on_same_body_def unit_pass_verifier_def run_defs)
  show "ingest_verification_failed x envs" "ingest_verification_failed_with_no_reason x envs"
    by (simp_all add: ingest_verification_failed_def ingest_verification_failed_with_no_reason_def rejected_with_def
        unit_fail_verifier_def fail_verifier_no_reason_def run_defs)
  show "ingest_skipped_verification_when_no_verifier x envs" "ingest_verified_with_no_reason_label x envs"
    "ingest_skipped_with_no_reason_label x envs"
    using env by (simp_all add: ingest_skipped_verification_when_no_verifier_def ingest_verified_with_no_reason_label_def
        ingest_skipped_with_no_reason_label_def accepted_once_def pass_verifier_no_reason_def skip_verifier_no_reason_def
        run_defs)
qed

lemma storage_unit_tests_pass:
  assumes "alone envs"
  shows "pipeline_calls_store_with_deliveries_with_correct_names x envs"
    "pipeline_returns_duplicate_when_storage_reports_conflict x envs"
    "emitter_names_returns_configured_names" "default_store_with_deliveries_rejects_non_empty_emitter_names env rid now"
  using assms
  by (simp_all add: pipeline_calls_store_with_deliveries_with_correct_names_def
      pipeline_returns_duplicate_when_storage_reports_conflict_def emitter_names_returns_configured_names_def
      default_store_with_deliveries_rejects_non_empty_emitter_names_def fan_out_receipt_def mock_new_def
      mock_new_returning_duplicate_def mock_store_with_deliveries_def recorded_calls_def alone_def run_defs)

text \<open>\<^verbatim>\<open>HeaderValue::to_str\<close> returns a value of visible ASCII characters as it is.\<close>

definition visible_headers_readable :: "externals \<Rightarrow> bool" where
  "visible_headers_readable x \<longleftrightarrow>
     (\<forall>v. list_all (\<lambda>c. 32 \<le> byte c \<and> byte c < 127) v \<longrightarrow> x_header_to_str x v = Some v)"

lemma header_unit_tests_pass:
  assumes "visible_headers_readable x"
  shows "headers_to_json_produces_correct_object x" "headers_to_json_empty_map_returns_empty_object x"
proof -
  have low: "to_ascii_lowercase ''content-type'' = ''content-type''"
    "to_ascii_lowercase ''x-custom-header'' = ''x-custom-header''"
    by (simp_all add: to_ascii_lowercase_def byte_def)
  have "x_header_to_str x ''application/json'' = Some ''application/json''" "x_header_to_str x ''my-value'' = Some ''my-value''"
    using assms by (simp_all add: visible_headers_readable_def byte_def)
  then show "headers_to_json_produces_correct_object x"
    by (simp add: headers_to_json_produces_correct_object_def headers_to_json_def header_keys_def header_get_all_def
        low jobj_def List.map_filter_simps Let_def map_of_bt_insert bt_sorted_insert)
  show "headers_to_json_empty_map_returns_empty_object x"
    by (simp add: headers_to_json_empty_map_returns_empty_object_def headers_to_json_def header_keys_def jobj_def)
qed

section \<open>Beyond the examples\<close>

text \<open>A storage that keeps the default never loses a delivery silently: when it answers that a receipt is
  stored, there was nothing to fan out.\<close>

lemma default_store_with_deliveries_honest:
  assumes "default_store_with_deliveries store_fn r names s = (Ok res, s')"
  shows "names = [] \<and> store_fn r s = (Ok res, s')"
  using assms by (simp add: default_store_with_deliveries_def split: if_splits)

definition lets_in :: "'w pipeline \<Rightarrow> 'w ingest_env \<Rightarrow> string \<Rightarrow> string \<Rightarrow> bool" where
  "lets_in p env provider body = is_ok (fst (run_verification p (ie_clock env) provider [] body))"

lemma test_pipeline_fields:
  assumes "test_pipeline mock_store_with_deliveries names vs = Some p"
  shows "p_store p env r ns w = (case mock_store_with_deliveries env r ns (snd w) of (res, s) \<Rightarrow> (res, (fst w, s)))"
    and "p_emitter_names p = names" and "p_check p w k h = recent_check (fst w) k h"
    and "snd (snd (p_record p w k h)) = snd w"
proof -
  have "b_storage (fold verifier_boxed vs b) = b_storage b \<and> b_dedupe (fold verifier_boxed vs b) = b_dedupe b
      \<and> b_emitter_names (fold verifier_boxed vs b) = b_emitter_names b" for b :: "(recent_dedupe \<times> mock_storage) pipeline_builder"
    by (induction vs arbitrary: b) (simp_all add: verifier_boxed_def)
  then show "p_store p env r ns w = (case mock_store_with_deliveries env r ns (snd w) of (res, s) \<Rightarrow> (res, (fst w, s)))"
    and "p_emitter_names p = names" and "p_check p w k h = recent_check (fst w) k h"
    and "snd (snd (p_record p w k h)) = snd w"
    using assms by (auto simp: test_pipeline_def builder_build_def builder_storage_def builder_dedupe_def
        builder_emitter_names_def split: prod.split)
qed

text \<open>Whatever verifiers and emitters a pipeline has and whatever is ingested, its storage is called once,
  with all emitter names, for each webhook the verifier lets in, in order, and never otherwise.\<close>

lemma mock_records_every_ingest:
  assumes "test_pipeline mock_store_with_deliveries names vs = Some p" and "alone envs"
  shows "recorded_calls (snd (snd (ingest_all x p envs provider bodies w))) = recorded_calls (snd w)
    @ concat (map (\<lambda>k. if lets_in p (envs k) provider (bodies ! k) then [(ie_receipt_id (envs k), names)] else [])
        [0 ..< length bodies])"
  using assms(2)
proof (induction bodies arbitrary: envs w)
  case (Cons body bodies)
  obtain res ms w1 where one: "ingest x p (envs 0) provider [] body w = (res, ms, w1)" by (metis prod_cases3)
  have "recorded_calls (snd w1) = recorded_calls (snd w) @
      (if lets_in p (envs 0) provider body then [(ie_receipt_id (envs 0), names)] else [])"
    using Cons.prems one recent_check_def[of "fst w"]
    by (auto simp: ingest_def lets_in_def is_ok_def alone_def test_pipeline_fields[OF assms(1)] recorded_calls_def
        mock_store_with_deliveries_def build_receipt_def Let_def recent_check_def
        split: prod.splits result.splits option.splits if_splits)
  moreover have "alone (\<lambda>k. envs (Suc k))" using Cons.prems by (simp add: alone_def)
  note Cons.IH[OF this, of w1]
  moreover have "[0 ..< length (body # bodies)] = 0 # map Suc [0 ..< length bodies]"
    by (simp add: map_Suc_upt upt_conv_Cons del: upt_Suc)
  ultimately show ?case using one by (simp add: case_prod_unfold comp_def del: upt_Suc)
qed simp

end
