(* ===== verification/Leases.thy ===== *)
theory Leases
  imports System
begin

text \<open>
  Who holds a delivery (\<^verbatim>\<open>crates/hookbox-postgres/src/storage.rs\<close>). A lease is the state \<^verbatim>\<open>in_flight\<close> of a row; it has no
  token that names its holder. Two consequences are worked out here. First, the guard of the marks: a
  late mark bounces as long as no one has claimed the row again, and goes through once someone has.
  Second, \<^verbatim>\<open>FOR UPDATE SKIP LOCKED\<close>: claims that run at the same time are split into the moment at which
  they lock their rows and the moment at which they commit, with any other statement in between; the set
  of locked rows, a parameter of \<open>claim_stmt\<close>, is here what the open claims have locked.
\<close>

section \<open>Late marks\<close>

definition leased :: "uuid \<Rightarrow> db \<Rightarrow> bool" where
  "leased u d = list_ex (\<lambda>r. dr_delivery_id r = u \<and> dr_state r = ''in_flight'') (deliveries d)"

text \<open>Statements of any task after which nobody holds the delivery.\<close>

inductive unclaimed_step :: "deployment \<Rightarrow> uuid \<Rightarrow> db \<Rightarrow> db \<Rightarrow> bool" for D u where
  "table_step D d d' \<Longrightarrow> \<not> leased u d' \<Longrightarrow> unclaimed_step D u d d'"

lemma mark_bounces:
  assumes "\<not> leased u d"
  shows "snd (mark_emitted env (DeliveryId u) d) = d" "snd (mark_failed env (DeliveryId u) n t e d) = d"
    "snd (mark_dead_lettered env (DeliveryId u) e d) = d"
    and "e_io env 0 = IO_Ok \<Longrightarrow> fst (mark_emitted env (DeliveryId u) d) = Ok ()"
    and "e_io env 0 = IO_Ok \<Longrightarrow> fst (mark_failed env (DeliveryId u) n t e d) = Ok ()"
    and "e_io env 0 = IO_Ok \<Longrightarrow> fst (mark_dead_lettered env (DeliveryId u) e d) = Ok ()"
proof -
  have "\<not> in_flight_row (DeliveryId u) r" if "r \<in> set (deliveries d)" for r
    using assms that by (auto simp: leased_def list_ex_iff in_flight_row_def)
  note none = update_none[OF this]
  show "snd (mark_emitted env (DeliveryId u) d) = d" "snd (mark_failed env (DeliveryId u) n t e d) = d"
    "snd (mark_dead_lettered env (DeliveryId u) e d) = d"
    by (simp_all add: mark_emitted_def mark_failed_def mark_dead_lettered_def exec_stmt_def none split: io.splits)
  show "e_io env 0 = IO_Ok \<Longrightarrow> fst (mark_emitted env (DeliveryId u) d) = Ok ()"
    "e_io env 0 = IO_Ok \<Longrightarrow> fst (mark_failed env (DeliveryId u) n t e d) = Ok ()"
    "e_io env 0 = IO_Ok \<Longrightarrow> fst (mark_dead_lettered env (DeliveryId u) e d) = Ok ()"
    by (simp_all add: mark_emitted_def mark_failed_def mark_dead_lettered_def exec_stmt_def none discard_count_def)
qed

text \<open>A failed row stays as it is until it is claimed.\<close>

lemma failed_row_waits:
  assumes "table_step D d d'" and "db_inv d" and "r \<in> set (deliveries d)" and "dr_state r = ''failed''"
    and "\<not> leased (dr_delivery_id r) d'"
  shows "r \<in> set (deliveries d')"
proof -
  obtain old new where old: "deliveries d' = old @ new" "list_all2 row_step (deliveries d) old"
    using table_step_db_step[OF assms(1,2)] by (auto simp: db_step_def)
  from list_all2_image[OF old(2) assms(3)] obtain r' where r': "r' \<in> set old" "row_step r r'" by blast
  then have "r' \<in> set (deliveries d')" using old(1) by simp
  then have "dr_delivery_id r' = dr_delivery_id r \<Longrightarrow> dr_state r' \<noteq> ''in_flight''"
    using assms(5) by (auto simp: leased_def list_ex_iff)
  then have "r' = r" using r'(2) assms(4) by (auto simp: row_step_def life_cycle_def)
  then show ?thesis using \<open>r' \<in> set (deliveries d')\<close> by simp
qed

lemma failed_row_waits_on:
  assumes "(unclaimed_step D (dr_delivery_id r))\<^sup>*\<^sup>* d d'" and "db_inv d" and "r \<in> set (deliveries d)"
    and "dr_state r = ''failed''"
  shows "r \<in> set (deliveries d') \<and> db_inv d'"
  using assms
proof (induction rule: rtranclp_induct)
  case (step y z)
  then have "table_step D y z" "\<not> leased (dr_delivery_id r) z" by (auto elim: unclaimed_step.cases)
  then show ?case using step failed_row_waits table_step_db_step by blast
qed simp

lemma unclaimed_not_leased:
  assumes "db_inv d" and "r \<in> set (deliveries d)" and "dr_state r \<noteq> ''in_flight''"
  shows "\<not> leased (dr_delivery_id r) d"
  using assms by (auto simp: leased_def list_ex_iff db_inv_def wf_db_def distinct_map inj_on_def)

text \<open>C19. The lease guard protects a reclaim. When \<^verbatim>\<open>reclaim_expired\<close> has taken back a row whose lease
  expired, then after any sequence of statements of any tasks (with any faults) during which nobody
  claims the row again, the row is still as the reclaim left it, due for the next claim, and a late
  \<^verbatim>\<open>mark_emitted\<close>, \<^verbatim>\<open>mark_failed\<close> or \<^verbatim>\<open>mark_dead_lettered\<close> by the worker that lost it changes nothing, and succeeds if
  the database answers. The protection ends when the row is claimed again (\<open>guard_has_no_token\<close>).\<close>

theorem late_marks_bounce_until_claimed:
  assumes "db_inv d" and "r \<in> set (deliveries d)" and "lease_expired (e_now env) us em r"
    and "interval_of_secs (as_secs_f64 l) = Ok us" and "reclaim_expired env em l d = (Ok n, d1)"
    and "(unclaimed_step D (dr_delivery_id r))\<^sup>*\<^sup>* d1 d2"
  shows "reclaimed (e_now env) r \<in> set (deliveries d2)
    \<and> claimable (e_now env) em (reclaimed (e_now env) r)
    \<and> snd (mark_emitted env2 (DeliveryId (dr_delivery_id r)) d2) = d2
    \<and> snd (mark_failed env2 (DeliveryId (dr_delivery_id r)) c t err d2) = d2
    \<and> snd (mark_dead_lettered env2 (DeliveryId (dr_delivery_id r)) err d2) = d2
    \<and> (e_io env2 0 = IO_Ok \<longrightarrow>
         fst (mark_emitted env2 (DeliveryId (dr_delivery_id r)) d2) = Ok ()
         \<and> fst (mark_failed env2 (DeliveryId (dr_delivery_id r)) c t err d2) = Ok ()
         \<and> fst (mark_dead_lettered env2 (DeliveryId (dr_delivery_id r)) err d2) = Ok ())"
proof -
  let ?r = "reclaimed (e_now env) r"
  have io: "e_io env 0 = IO_Ok"
    using assms(5) by (auto simp: reclaim_expired_def exec_stmt_def split: io.splits result.splits)
  have "deliveries d1 = map (\<lambda>r. if lease_expired (e_now env) us em r then reclaimed (e_now env) r else r) (deliveries d)"
    using reclaim_expired_run[OF io assms(4), of em d] assms(5) by auto
  then have r1: "?r \<in> set (deliveries d1)" using assms(2,3) by force
  have id: "dr_delivery_id ?r = dr_delivery_id r" and st: "dr_state ?r = ''failed''" by (simp_all add: reclaimed_def)
  have "db_inv d1" using reclaim_step[OF assms(1), of env em l] assms(5) by simp
  then have r2: "?r \<in> set (deliveries d2) \<and> db_inv d2"
    using failed_row_waits_on[of D ?r d1 d2] r1 st assms(6) by (simp add: id)
  have "claimable (e_now env) em ?r"
    using assms(3) by (simp add: claimable_def reclaimed_def lease_expired_def)
  moreover have "\<not> leased (dr_delivery_id r) d2"
    using unclaimed_not_leased[of d2 ?r] r2 st by (simp add: id)
  ultimately show ?thesis using r2 by (simp add: mark_bounces)
qed

text \<open>The limit: whoever claimed the row, a mark of any worker takes it out of flight.\<close>

lemma guard_has_no_token:
  assumes "leased u d" and "e_io env 0 = IO_Ok"
  shows "mark_emitted env (DeliveryId u) d =
    (Ok (), d\<lparr>deliveries := map (\<lambda>r. if in_flight_row (DeliveryId u) r then emitted_row (e_now env) r else r) (deliveries d)\<rparr>)"
    (is "_ = (Ok (), ?d)")
    and "\<exists>r \<in> set (deliveries (snd (mark_emitted env (DeliveryId u) d))). dr_delivery_id r = u \<and> dr_state r = ''emitted''"
proof -
  show run: "mark_emitted env (DeliveryId u) d = (Ok (), ?d)"
    using assms(2) by (simp add: mark_emitted_def exec_stmt_def update_deliveries_def discard_count_def)
  obtain r where r: "r \<in> set (deliveries d)" "in_flight_row (DeliveryId u) r"
    using assms(1) by (auto simp: leased_def list_ex_iff in_flight_row_def)
  then have "emitted_row (e_now env) r \<in> set (deliveries ?d)" by force
  moreover have "dr_delivery_id (emitted_row (e_now env) r) = u" "dr_state (emitted_row (e_now env) r) = ''emitted''"
    using r(2) by (simp_all add: emitted_row_def in_flight_row_def)
  ultimately show "\<exists>r \<in> set (deliveries (snd (mark_emitted env (DeliveryId u) d))). dr_delivery_id r = u \<and> dr_state r = ''emitted''"
    unfolding run snd_conv by blast
qed

text \<open>A reclaimed row, a replay of its receipt, then the late mark.\<close>

definition site_a :: deployment where
  "site_a = \<lparr>dp_ext = ext0, dp_names = [''a''], dp_verifiers = []\<rparr>"

definition reclaimed_db :: db where
  "reclaimed_db = expired_db\<lparr>deliveries := [reclaimed 70000000 expired_row]\<rparr>"

definition replayed_db :: db where
  "replayed_db = snd (insert_replay (env_ok 75000000 30) (ReceiptId 1) ''a'' reclaimed_db)"

lemma expired_row_expired: "lease_expired 70000000 60000000 ''a'' expired_row"
  by (simp add: lease_expired_def expired_row_def lease_def pending_row_def)

lemma reclaim_example:
  "reclaim_expired (env_ok 70000000 0) ''a'' (duration_from_secs 60) expired_db = (Ok 1, reclaimed_db)"
  using reclaim_expired_run[OF _ interval_60s, of "env_ok 70000000 0" "''a''" expired_db] expired_row_expired
  by (simp add: reclaimed_db_def expired_db_def env_ok_def)

lemma replayed_db_rows:
  "deliveries replayed_db = [reclaimed 70000000 expired_row, pending_row 75000000 30 1 ''a'']"
  by (simp add: replayed_db_def insert_replay_def exec_stmt_def insert_delivery_def reclaimed_db_def expired_db_def
      env_ok_def has_receipt_def has_delivery_def reclaimed_def expired_row_def lease_def pending_row_def receipt_to_row_def)

theorem late_marks_bounce_until_claimed_witness:
  "deliveries replayed_db = [reclaimed 70000000 expired_row, pending_row 75000000 30 1 ''a'']
   \<and> mark_emitted (env_ok 80000000 0) (DeliveryId 10) replayed_db = (Ok (), replayed_db)"
proof -
  have id: "dr_delivery_id expired_row = 10" by (simp add: expired_row_def lease_def pending_row_def)
  have "table_step site_a reclaimed_db replayed_db"
    unfolding replayed_db_def by (rule table_step.Replay) (simp add: site_a_def)
  moreover have "\<not> leased 10 replayed_db"
    by (simp add: leased_def replayed_db_rows reclaimed_def pending_row_def)
  ultimately have run: "(unclaimed_step site_a (dr_delivery_id expired_row))\<^sup>*\<^sup>* reclaimed_db replayed_db"
    by (auto simp: id intro: unclaimed_step.intros)
  have "expired_row \<in> set (deliveries expired_db)" by (simp add: expired_db_def)
  moreover have "lease_expired (e_now (env_ok 70000000 0)) 60000000 ''a'' expired_row"
    using expired_row_expired by (simp add: env_ok_def)
  ultimately have "mark_emitted (env_ok 80000000 0) (DeliveryId 10) replayed_db = (Ok (), replayed_db)"
    using late_marks_bounce_until_claimed[OF expired_db_inv _ _ interval_60s reclaim_example run,
        of "env_ok 80000000 0" 1 1 "[]"]
    by (simp add: id prod_eq_iff) (simp add: env_ok_def)
  then show ?thesis using replayed_db_rows by blast
qed

section \<open>Claims with their locks\<close>

text \<open>A claim between the moment its subquery has locked rows and its commit.\<close>

record open_claim =
  cl_id :: nat
  cl_now :: timestamp
  cl_emitter :: string
  cl_rows :: "delivery_row list"

record lock_state =
  ls_db :: db
  ls_open :: "open_claim list"
  ls_leases :: "(uuid \<times> nat) list" \<comment> \<open>which claim took a delivery that has been in flight ever since\<close>
  ls_next :: nat

definition locked :: "lock_state \<Rightarrow> uuid list" where
  "locked s = concat (map (\<lambda>c. map dr_delivery_id (cl_rows c)) (ls_open s))"

text \<open>A lease ends when its row leaves the state \<^verbatim>\<open>in_flight\<close>.\<close>

definition settle :: "lock_state \<Rightarrow> lock_state" where
  "settle s = s\<lparr>ls_leases := filter (\<lambda>(u, _). leased u (ls_db s)) (ls_leases s)\<rparr>"

definition commit_claim :: "open_claim \<Rightarrow> db \<Rightarrow> db" where
  "commit_claim c d =
     d\<lparr>deliveries := map (\<lambda>r. if dr_delivery_id r \<in> dr_delivery_id ` set (cl_rows c) then lease (cl_now c) r else r)
                        (deliveries d)\<rparr>"

text \<open>All statements but claims. They wait for no lock: a locked row is pending or failed, and the updates
  among them are of rows in flight.\<close>

inductive other_step :: "deployment \<Rightarrow> db \<Rightarrow> db \<Rightarrow> bool" for D where
  "admissible D r \<Longrightarrow> other_step D d (snd (store_with_deliveries env r (dp_names D) d))"
| "other_step D d (snd (reclaim_expired env e dur d))"
| "other_step D d (snd (mark_emitted env i d))"
| "other_step D d (snd (mark_failed env i n t m d))"
| "other_step D d (snd (mark_dead_lettered env i m d))"
| "name \<in> set (dp_names D) \<Longrightarrow> other_step D d (snd (insert_replay env i name d))"
| "set names \<subseteq> set (dp_names D) \<Longrightarrow> other_step D d (snd (insert_replays env i names d))"

inductive lock_step :: "deployment \<Rightarrow> lock_state \<Rightarrow> lock_state \<Rightarrow> bool" for D where
  Lock: "lock_step D s (s\<lparr>ls_open := \<lparr>cl_id = ls_next s, cl_now = now, cl_emitter = e,
             cl_rows = claimed_rows now (locked s) e n (ls_db s)\<rparr> # ls_open s, ls_next := Suc (ls_next s)\<rparr>)"
| Commit: "c \<in> set (ls_open s) \<Longrightarrow> lock_step D s (settle (s\<lparr>ls_db := commit_claim c (ls_db s), ls_open := remove1 c (ls_open s),
             ls_leases := map (\<lambda>r. (dr_delivery_id r, cl_id c)) (cl_rows c) @ ls_leases s\<rparr>))"
| Abort: "c \<in> set (ls_open s) \<Longrightarrow> lock_step D s (s\<lparr>ls_open := remove1 c (ls_open s)\<rparr>)"
| Other: "other_step D (ls_db s) d \<Longrightarrow> lock_step D s (settle (s\<lparr>ls_db := d\<rparr>))"

inductive_cases lock_stepE: "lock_step D s s'"

definition lock_start :: "db \<Rightarrow> lock_state" where
  "lock_start d = \<lparr>ls_db = d, ls_open = [], ls_leases = [], ls_next = 0\<rparr>"

text \<open>A claim holds a delivery from the moment it locks the row until it fails, or, once it has committed,
  until the row leaves the state \<^verbatim>\<open>in_flight\<close>.\<close>

definition holds :: "lock_state \<Rightarrow> nat \<Rightarrow> uuid \<Rightarrow> bool" where
  "holds s k u \<longleftrightarrow>
     (\<exists>c \<in> set (ls_open s). cl_id c = k \<and> u \<in> dr_delivery_id ` set (cl_rows c)) \<or> (u, k) \<in> set (ls_leases s)"

subsection \<open>Other statements leave unleased rows alone\<close>

definition leaves_unleased :: "db \<Rightarrow> db \<Rightarrow> bool" where
  "leaves_unleased d d' \<longleftrightarrow>
     (\<exists>f new. deliveries d' = map f (deliveries d) @ new
        \<and> (\<forall>r. dr_delivery_id (f r) = dr_delivery_id r \<and> (dr_state r \<noteq> ''in_flight'' \<longrightarrow> f r = r)))"

lemma leaves_unleased_update:
  assumes "\<And>r. p r \<Longrightarrow> dr_state r = ''in_flight''" and "\<And>r. dr_delivery_id (f r) = dr_delivery_id r"
  shows "leaves_unleased d (snd (exec_stmt out (update_deliveries p f) d))"
proof -
  have same: "leaves_unleased d d"
    unfolding leaves_unleased_def by (intro exI[of _ "\<lambda>r. r"] exI[of _ "[]"]) simp
  have "leaves_unleased d (d\<lparr>deliveries := map (\<lambda>r. if p r then f r else r) (deliveries d)\<rparr>)"
    unfolding leaves_unleased_def using assms
    by (intro exI[of _ "\<lambda>r. if p r then f r else r"] exI[of _ "[]"]) auto
  then show ?thesis using same by (auto simp: exec_stmt_def update_deliveries_def split: io.splits)
qed

lemma leaves_unleased_append:
  "deliveries d' = deliveries d @ new \<Longrightarrow> leaves_unleased d d'"
  unfolding leaves_unleased_def by (intro exI[of _ "\<lambda>r. r"] exI[of _ new]) simp

lemma other_step_leaves:
  assumes "other_step D d d'"
  shows "leaves_unleased d d'"
  using assms
proof cases
  case (1 r env)
  obtain res where run: "store_with_deliveries env r (dp_names D) d = (res, d')"
    using 1(1) by (metis prod.collapse)
  then show ?thesis
    by (cases rule: store_with_deliveries_cases) (auto simp: fanout_def intro: leaves_unleased_append[of _ _ "[]"] leaves_unleased_append)
next
  case (2 env e dur)
  show ?thesis
  proof (cases "interval_of_secs (as_secs_f64 dur)")
    case (Ok us)
    then have "reclaim_stmt (e_now env) (as_secs_f64 dur) e = update_deliveries (lease_expired (e_now env) us e) (reclaimed (e_now env))"
      by (intro ext) (simp add: reclaim_stmt_def)
    then show ?thesis unfolding 2 reclaim_expired_def
      by (auto simp: lease_expired_def reclaimed_def intro!: leaves_unleased_update)
  next
    case (Err m)
    then have "d' = d" by (simp add: 2 reclaim_expired_def reclaim_stmt_def exec_stmt_def split: io.splits)
    then show ?thesis by (auto intro: leaves_unleased_append[of _ _ "[]"])
  qed
next
  case (6 name env i)
  obtain res where run: "insert_replay env i name d = (res, d')" using 6(1) by (metis prod.collapse)
  then show ?thesis
    by (cases rule: insert_replay_cases) (auto intro: leaves_unleased_append[of _ _ "[]"] leaves_unleased_append)
next
  case (7 names env i)
  obtain res where run: "insert_replays env i names d = (res, d')" using 7(1) by (metis prod.collapse)
  then show ?thesis
    by (cases rule: insert_replays_cases) (auto intro: leaves_unleased_append[of _ _ "[]"] leaves_unleased_append)
qed (auto simp: mark_emitted_def mark_failed_def mark_dead_lettered_def in_flight_row_def marked_rows
      intro!: leaves_unleased_update)

lemma other_step_inv: "other_step D d d' \<Longrightarrow> db_inv d \<Longrightarrow> db_inv d'"
  by (erule other_step.cases) (auto dest: table_step_db_step[rotated] intro: table_step.intros)

subsection \<open>The rows of an open claim\<close>

definition claim_ok :: "db \<Rightarrow> open_claim \<Rightarrow> bool" where
  "claim_ok d c \<longleftrightarrow>
     set (cl_rows c) \<subseteq> set (deliveries d)
     \<and> (\<forall>r \<in> set (cl_rows c). claimable (cl_now c) (cl_emitter c) r)
     \<and> cl_rows c = sort_key dr_next_attempt_at (filter (\<lambda>r. r \<in> set (cl_rows c)) (deliveries d))"

lemma distinct_deliveries: "db_inv d \<Longrightarrow> distinct (deliveries d)"
  by (simp add: db_inv_def wf_db_def distinct_map)

lemma same_delivery:
  "db_inv d \<Longrightarrow> r \<in> set (deliveries d) \<Longrightarrow> r' \<in> set (deliveries d) \<Longrightarrow> dr_delivery_id r = dr_delivery_id r' \<Longrightarrow> r = r'"
  by (auto simp: db_inv_def wf_db_def distinct_map inj_on_def)

lemma claimable_not_leased:
  assumes "db_inv d" and "r \<in> set (deliveries d)" and "claimable now e r"
  shows "\<not> leased (dr_delivery_id r) d"
  using unclaimed_not_leased[OF assms(1,2)] assms(3) by (auto simp: claimable_def)

lemma filter_take_distinct: "distinct ys \<Longrightarrow> filter (\<lambda>y. y \<in> set (take n ys)) ys = take n ys"
proof -
  assume "distinct ys"
  then have "distinct (take n ys @ drop n ys)" by simp
  then have "filter (\<lambda>y. y \<in> set (take n ys)) (drop n ys) = []"
    using set_take_disj_set_drop_if_distinct[OF \<open>distinct ys\<close>, of n n] by (auto simp: filter_empty_conv)
  then have "filter (\<lambda>y. y \<in> set (take n ys)) (take n ys @ drop n ys) = take n ys" by (simp del: append_take_drop_id)
  then show ?thesis by simp
qed

lemma claimed_rows_ok:
  assumes "db_inv d"
  shows "claim_ok d \<lparr>cl_id = k, cl_now = now, cl_emitter = e, cl_rows = claimed_rows now locks e n d\<rparr>"
    and "distinct (map dr_delivery_id (claimed_rows now locks e n d))"
proof -
  let ?Q = "\<lambda>r. claimable now e r \<and> dr_delivery_id r \<notin> set locks"
  let ?ys = "sort_key dr_next_attempt_at (filter ?Q (deliveries d))"
  let ?zs = "claimed_rows now locks e n d"
  have zs: "?zs = take n ?ys" by (simp add: claimed_rows_def)
  have sub: "set ?zs \<subseteq> {r \<in> set (deliveries d). ?Q r}" using set_claimed_rows by blast
  have "filter (\<lambda>r. r \<in> set ?zs) (deliveries d) = filter (\<lambda>r. r \<in> set ?zs) (filter ?Q (deliveries d))"
    using sub by (auto simp: intro!: filter_cong)
  then have "sort_key dr_next_attempt_at (filter (\<lambda>r. r \<in> set ?zs) (deliveries d)) = filter (\<lambda>r. r \<in> set ?zs) ?ys"
    by (simp add: filter_sort)
  also have "\<dots> = ?zs"
    unfolding zs by (rule filter_take_distinct) (simp add: distinct_deliveries[OF assms])
  finally show "claim_ok d \<lparr>cl_id = k, cl_now = now, cl_emitter = e, cl_rows = ?zs\<rparr>"
    using sub by (auto simp: claim_ok_def)
  have "distinct ?zs" by (simp add: zs distinct_deliveries[OF assms])
  then show "distinct (map dr_delivery_id ?zs)"
    using sub same_delivery[OF assms] by (auto simp: distinct_map inj_on_def)
qed

text \<open>What leaves the rows of a claim alone keeps it.\<close>

lemma claim_ok_kept:
  assumes "claim_ok d c" and "db_inv d" and "db_inv d'" and "deliveries d' = map f (deliveries d) @ new"
    and "\<And>r. dr_delivery_id (f r) = dr_delivery_id r" and "\<And>r. r \<in> set (cl_rows c) \<Longrightarrow> f r = r"
  shows "claim_ok d' c"
proof -
  let ?R = "set (cl_rows c)"
  have sub: "?R \<subseteq> set (deliveries d)" using assms(1) by (simp add: claim_ok_def)
  have old: "(f r \<in> ?R) = (r \<in> ?R)" if "r \<in> set (deliveries d)" for r
    using same_delivery[OF assms(2) that, of "f r"] assms(5)[of r] assms(6) sub by fastforce
  have "r \<notin> ?R" if "r \<in> set new" for r
  proof
    assume "r \<in> ?R"
    then have "r \<in> set (map f (deliveries d))" using sub assms(6) by (metis image_eqI list.set_map subsetD)
    then show False using that distinct_deliveries[OF assms(3)] assms(4) by auto
  qed
  moreover have "filter (\<lambda>r. r \<in> ?R) (map f ds) = filter (\<lambda>r. r \<in> ?R) ds" if "set ds \<subseteq> set (deliveries d)" for ds
    using that by (induction ds) (auto simp: old assms(6))
  ultimately have "filter (\<lambda>r. r \<in> ?R) (deliveries d') = filter (\<lambda>r. r \<in> ?R) (deliveries d)"
    by (simp add: assms(4) filter_False)
  moreover have "?R \<subseteq> set (deliveries d')"
    using sub assms(4,6) by (auto simp: image_iff) (metis subsetD)
  ultimately show ?thesis using assms(1) by (simp add: claim_ok_def)
qed

text \<open>The commit of a claim is the claim statement, run at that moment with all other rows locked.\<close>

lemma commit_is_claim:
  assumes "db_inv d" and "claim_ok d c"
  defines "locks \<equiv> map dr_delivery_id (filter (\<lambda>r. r \<notin> set (cl_rows c)) (deliveries d))"
  shows "claimed_rows (cl_now c) locks (cl_emitter c) (length (cl_rows c)) d = cl_rows c"
    and "claim_stmt (cl_now c) locks (cl_emitter c) (int (length (cl_rows c))) d =
      Ok (map (lease (cl_now c)) (cl_rows c), commit_claim c d)"
    and "db_inv (commit_claim c d)"
proof -
  let ?R = "set (cl_rows c)"
  have c: "?R \<subseteq> set (deliveries d)" "\<forall>r \<in> ?R. claimable (cl_now c) (cl_emitter c) r"
    "sort_key dr_next_attempt_at (filter (\<lambda>r. r \<in> ?R) (deliveries d)) = cl_rows c"
    using assms(2) by (simp_all add: claim_ok_def)
  have "dr_delivery_id r \<in> set locks \<longleftrightarrow> r \<notin> ?R" if "r \<in> set (deliveries d)" for r
    using that same_delivery[OF assms(1)] by (auto simp: locks_def)
  then have "filter (\<lambda>r. claimable (cl_now c) (cl_emitter c) r \<and> dr_delivery_id r \<notin> set locks) (deliveries d)
      = filter (\<lambda>r. r \<in> ?R) (deliveries d)"
    using c(2) by (intro filter_cong) auto
  then show rows: "claimed_rows (cl_now c) locks (cl_emitter c) (length (cl_rows c)) d = cl_rows c"
    by (simp add: claimed_rows_def c(3))
  have after: "after_claim (cl_now c) locks (cl_emitter c) (length (cl_rows c)) d = commit_claim c d"
  proof -
    have "dr_delivery_id r \<in> dr_delivery_id ` ?R \<longleftrightarrow> r \<in> ?R" if "r \<in> set (deliveries d)" for r
      using same_delivery[OF assms(1) that] c(1) by blast
    then show ?thesis unfolding after_claim_def commit_claim_def rows by (simp cong: map_cong)
  qed
  show "claim_stmt (cl_now c) locks (cl_emitter c) (int (length (cl_rows c))) d =
      Ok (map (lease (cl_now c)) (cl_rows c), commit_claim c d)"
    using assms(1) by (simp add: claim_stmt_eq db_inv_def rows after)
  show "db_inv (commit_claim c d)"
    using after_claim_step[OF assms(1)] after by metis
qed

subsection \<open>Nobody holds what another holds\<close>

definition lock_inv :: "lock_state \<Rightarrow> bool" where
  "lock_inv s \<longleftrightarrow>
     db_inv (ls_db s) \<and> (\<forall>c \<in> set (ls_open s). claim_ok (ls_db s) c) \<and> distinct (locked s)
     \<and> (\<forall>(u, k) \<in> set (ls_leases s). leased u (ls_db s)) \<and> distinct (map fst (ls_leases s))"

lemma settle_inv:
  assumes "db_inv (ls_db s)" and "\<And>c. c \<in> set (ls_open s) \<Longrightarrow> claim_ok (ls_db s) c" and "distinct (locked s)"
    and "distinct (map fst (ls_leases s))"
  shows "lock_inv (settle s)"
  using assms by (auto simp: lock_inv_def settle_def locked_def distinct_map_filter)

lemma split_locked:
  assumes "distinct (locked s)" and "c \<in> set (ls_open s)"
  shows "distinct (locked (s\<lparr>ls_open := remove1 c (ls_open s)\<rparr>))"
    and "c' \<in> set (remove1 c (ls_open s)) \<Longrightarrow>
      dr_delivery_id ` set (cl_rows c) \<inter> dr_delivery_id ` set (cl_rows c') = {}"
    and "distinct (map dr_delivery_id (cl_rows c))"
proof -
  obtain pre post where open_eq: "ls_open s = pre @ c # post" "c \<notin> set pre"
    using split_list_first[OF assms(2)] by blast
  then have rest: "remove1 c (ls_open s) = pre @ post" by (simp add: remove1_append)
  have d: "distinct (concat (map (\<lambda>c. map dr_delivery_id (cl_rows c)) (pre @ c # post)))"
    using assms(1) by (simp add: locked_def open_eq)
  show "distinct (locked (s\<lparr>ls_open := remove1 c (ls_open s)\<rparr>))"
    using d by (simp add: locked_def rest) blast
  show "dr_delivery_id ` set (cl_rows c) \<inter> dr_delivery_id ` set (cl_rows c') = {}"
    if "c' \<in> set (remove1 c (ls_open s))"
    using d that by (simp add: rest) blast
  show "distinct (map dr_delivery_id (cl_rows c))" using d by simp
qed

lemma commit_inv:
  assumes "lock_inv s" and "c \<in> set (ls_open s)"
  shows "lock_inv (settle (s\<lparr>ls_db := commit_claim c (ls_db s), ls_open := remove1 c (ls_open s),
             ls_leases := map (\<lambda>r. (dr_delivery_id r, cl_id c)) (cl_rows c) @ ls_leases s\<rparr>))"
proof (rule settle_inv)
  let ?d = "ls_db s" and ?d' = "commit_claim c (ls_db s)"
  have inv: "db_inv ?d" "claim_ok ?d c" "distinct (locked s)" using assms by (simp_all add: lock_inv_def)
  note split = split_locked[OF inv(3) assms(2)]
  have inv': "db_inv ?d'" by (rule commit_is_claim[OF inv(1,2)])
  show "db_inv (ls_db (s\<lparr>ls_db := ?d', ls_open := remove1 c (ls_open s),
      ls_leases := map (\<lambda>r. (dr_delivery_id r, cl_id c)) (cl_rows c) @ ls_leases s\<rparr>))"
    using inv' by simp
  show "distinct (locked (s\<lparr>ls_db := ?d', ls_open := remove1 c (ls_open s),
      ls_leases := map (\<lambda>r. (dr_delivery_id r, cl_id c)) (cl_rows c) @ ls_leases s\<rparr>))"
    using split(1) by (simp add: locked_def)
  have "\<not> leased (dr_delivery_id r) ?d" if "r \<in> set (cl_rows c)" for r
    using inv(2) that claimable_not_leased[OF inv(1), of r "cl_now c" "cl_emitter c"] unfolding claim_ok_def by blast
  then show "distinct (map fst (ls_leases (s\<lparr>ls_db := ?d', ls_open := remove1 c (ls_open s),
      ls_leases := map (\<lambda>r. (dr_delivery_id r, cl_id c)) (cl_rows c) @ ls_leases s\<rparr>)))"
    using assms(1) split(3) by (fastforce simp: lock_inv_def comp_def)
  fix c' assume "c' \<in> set (ls_open (s\<lparr>ls_db := ?d', ls_open := remove1 c (ls_open s),
      ls_leases := map (\<lambda>r. (dr_delivery_id r, cl_id c)) (cl_rows c) @ ls_leases s\<rparr>))"
  then have c': "c' \<in> set (remove1 c (ls_open s))" by simp
  then have ok: "claim_ok ?d c'" using assms(1) by (auto simp: lock_inv_def dest: notin_set_remove1)
  have "claim_ok ?d' c'"
    by (rule claim_ok_kept[OF ok inv(1) inv', where new = "[]" and
          f = "\<lambda>r. if dr_delivery_id r \<in> dr_delivery_id ` set (cl_rows c) then lease (cl_now c) r else r"])
      (use split(2)[OF c'] in \<open>auto simp: commit_claim_def lease_def\<close>)
  then show "claim_ok (ls_db (s\<lparr>ls_db := ?d', ls_open := remove1 c (ls_open s),
      ls_leases := map (\<lambda>r. (dr_delivery_id r, cl_id c)) (cl_rows c) @ ls_leases s\<rparr>)) c'"
    by simp
qed

lemma other_inv:
  assumes "lock_inv s" and "other_step D (ls_db s) d"
  shows "lock_inv (settle (s\<lparr>ls_db := d\<rparr>))"
proof (rule settle_inv)
  have inv: "db_inv (ls_db s)" using assms(1) by (simp add: lock_inv_def)
  have inv': "db_inv d" by (rule other_step_inv[OF assms(2) inv])
  show "db_inv (ls_db (s\<lparr>ls_db := d\<rparr>))" "distinct (locked (s\<lparr>ls_db := d\<rparr>))" "distinct (map fst (ls_leases (s\<lparr>ls_db := d\<rparr>)))"
    using assms(1) inv' by (simp_all add: lock_inv_def locked_def)
  fix c assume "c \<in> set (ls_open (s\<lparr>ls_db := d\<rparr>))"
  then have ok: "claim_ok (ls_db s) c" using assms(1) by (simp add: lock_inv_def)
  obtain f new where f: "deliveries d = map f (deliveries (ls_db s)) @ new" "\<And>r. dr_delivery_id (f r) = dr_delivery_id r"
    "\<And>r. dr_state r \<noteq> ''in_flight'' \<Longrightarrow> f r = r"
    using other_step_leaves[OF assms(2)] by (auto simp: leaves_unleased_def)
  have "f r = r" if "r \<in> set (cl_rows c)" for r
    using ok that by (intro f(3)) (auto simp: claim_ok_def claimable_def)
  then show "claim_ok (ls_db (s\<lparr>ls_db := d\<rparr>)) c"
    using claim_ok_kept[OF ok inv inv' f(1,2)] by simp
qed

lemma lock_step_inv:
  assumes "lock_step D s s'" and "lock_inv s"
  shows "lock_inv s'"
  using assms(1)
proof cases
  case (Lock now e n)
  have "dr_delivery_id r \<notin> set (locked s)" if "r \<in> set (claimed_rows now (locked s) e n (ls_db s))" for r
    using set_claimed_rows[OF that] by simp
  then show ?thesis
    using assms(2) claimed_rows_ok[of "ls_db s"] by (auto simp: Lock lock_inv_def locked_def)
next
  case (Abort c)
  then show ?thesis
    using assms(2) split_locked(1)[of s c] by (auto simp: lock_inv_def dest: notin_set_remove1)
qed (use assms(2) commit_inv other_inv in blast)+

lemma lock_run_inv:
  assumes "(lock_step D)\<^sup>*\<^sup>* (lock_start d) s" and "db_inv d"
  shows "lock_inv s"
  using assms(1)
proof (induction rule: rtranclp_induct)
  case base
  then show ?case using assms(2) by (simp add: lock_inv_def lock_start_def locked_def)
next
  case (step y z)
  then show ?case using lock_step_inv by blast
qed

text \<open>Runs with locks are runs of the system whose claims are single statements.\<close>

lemma lock_step_refines:
  assumes "lock_step D s s'" and "lock_inv s"
  shows "steps D (ls_db s) (ls_db s')"
  using assms(1)
proof cases
  case (Commit c)
  have inv: "db_inv (ls_db s)" "claim_ok (ls_db s) c" using assms(2) Commit(2) by (simp_all add: lock_inv_def)
  obtain locks where stmt: "claim_stmt (cl_now c) locks (cl_emitter c) (int (length (cl_rows c))) (ls_db s)
      = Ok (map (lease (cl_now c)) (cl_rows c), commit_claim c (ls_db s))"
    using commit_is_claim(2)[OF inv] by blast
  let ?env = "\<lparr>e_now = cl_now c, e_uuid = (\<lambda>_. 0), e_io = (\<lambda>_. IO_Ok), e_locked = locks\<rparr>"
  have "snd (claim_pending ?env (cl_emitter c) (int (length (cl_rows c))) (ls_db s)) = commit_claim c (ls_db s)"
    by (simp add: claim_pending_def exec_stmt_def stmt)
  then have "table_step D (ls_db s) (commit_claim c (ls_db s))" by (metis table_step.Claim)
  then show ?thesis by (simp add: Commit settle_def)
next
  case (Other d)
  then have "table_step D (ls_db s) d" by (auto elim!: other_step.cases intro: table_step.intros)
  then show ?thesis by (simp add: Other settle_def)
qed simp_all

lemma holder_unique:
  assumes "lock_inv s" and "holds s k u" and "holds s k' u"
  shows "k' = k"
proof -
  have open_lease: "(u, k'') \<notin> set (ls_leases s)" if c: "c \<in> set (ls_open s)" "u \<in> dr_delivery_id ` set (cl_rows c)" for c k''
  proof
    assume "(u, k'') \<in> set (ls_leases s)"
    then have "leased u (ls_db s)" using assms(1) by (auto simp: lock_inv_def)
    moreover obtain r where r: "r \<in> set (cl_rows c)" "dr_delivery_id r = u" using c(2) by blast
    moreover have "claim_ok (ls_db s) c" "db_inv (ls_db s)" using assms(1) c(1) by (simp_all add: lock_inv_def)
    ultimately show False
      using claimable_not_leased[of "ls_db s" r "cl_now c" "cl_emitter c"] unfolding claim_ok_def by blast
  qed
  have open_open: "c' = c" if in_both: "c \<in> set (ls_open s)" "c' \<in> set (ls_open s)" "u \<in> dr_delivery_id ` set (cl_rows c)"
    "u \<in> dr_delivery_id ` set (cl_rows c')" for c c'
  proof (rule ccontr)
    assume "c' \<noteq> c"
    then have "c' \<in> set (remove1 c (ls_open s))" using in_both(2) by (simp add: in_set_remove1)
    then show False using split_locked(2)[OF _ in_both(1)] assms(1) in_both(3,4) unfolding lock_inv_def by blast
  qed
  have "k' = k" if "(u, k) \<in> set (ls_leases s)" "(u, k') \<in> set (ls_leases s)"
    using that assms(1) unfolding lock_inv_def by (metis eq_key_imp_eq_value)
  then show ?thesis using assms(2,3) open_lease open_open unfolding holds_def by blast
qed

lemma held_is_taken:
  assumes "lock_inv s" and "holds s k u"
  shows "u \<notin> dr_delivery_id ` set (claimed_rows now (locked s) e n (ls_db s))"
proof
  assume "u \<in> dr_delivery_id ` set (claimed_rows now (locked s) e n (ls_db s))"
  then obtain r where r: "r \<in> set (claimed_rows now (locked s) e n (ls_db s))" "dr_delivery_id r = u" by blast
  note r' = set_claimed_rows[OF r(1)]
  have "u \<notin> set (locked s)" using r' r(2) by simp
  then have "leased u (ls_db s)" using assms by (auto simp: holds_def locked_def lock_inv_def)
  then show False
    using claimable_not_leased[of "ls_db s" r now e] r' r(2) assms(1) by (simp add: lock_inv_def)
qed

text \<open>C21. No two claims hold a delivery at once. In every run in which claims lock their rows and commit or
  fail later, with any statements and other claims in between, a delivery that a claim has locked, or has
  taken and that has been in flight ever since, is held by that claim alone, and a claim made now does
  not get it. It can be claimed again only after a mark or a reclaim has taken it out of flight.\<close>

theorem claims_disjoint:
  assumes "db_inv d" and "(lock_step D)\<^sup>*\<^sup>* (lock_start d) s" and "holds s k u"
  shows "(holds s k' u \<longrightarrow> k' = k)
    \<and> u \<notin> dr_delivery_id ` set (claimed_rows now (locked s) e n (ls_db s))"
  using holder_unique held_is_taken lock_run_inv[OF assms(2,1)] assms(3) by blast

text \<open>Two claims of one row each run at once; the first has committed.\<close>

definition two_db :: db where
  "two_db = \<lparr>receipts = [row_of (sample_receipt 1 ''k'')], deliveries = [pending_row 5 10 1 ''a'', pending_row 6 11 1 ''a'']\<rparr>"

definition first_claim :: open_claim where
  "first_claim = \<lparr>cl_id = 0, cl_now = 9, cl_emitter = ''a'', cl_rows = [pending_row 5 10 1 ''a'']\<rparr>"

definition second_claim :: open_claim where
  "second_claim = \<lparr>cl_id = 1, cl_now = 9, cl_emitter = ''a'', cl_rows = [pending_row 6 11 1 ''a'']\<rparr>"

definition one_committed :: lock_state where
  "one_committed = \<lparr>ls_db = commit_claim first_claim two_db, ls_open = [second_claim], ls_leases = [(10, 0)], ls_next = 2\<rparr>"

lemma two_db_inv: "db_inv two_db"
  by (simp add: db_inv_def wf_db_def history_at_rest_def has_receipt_def pending_row_def two_db_def)

lemma two_claims_run: "(lock_step D)\<^sup>*\<^sup>* (lock_start two_db) one_committed"
proof -
  let ?s1 = "\<lparr>ls_db = two_db, ls_open = [first_claim], ls_leases = [], ls_next = 1\<rparr>"
  let ?s2 = "\<lparr>ls_db = two_db, ls_open = [second_claim, first_claim], ls_leases = [], ls_next = 2\<rparr>"
  have "lock_step D (lock_start two_db) ?s1"
    using lock_step.Lock[of D "lock_start two_db" 9 "''a''" 1]
    by (simp add: lock_start_def first_claim_def claimed_rows_def two_db_def claimable_def pending_row_def locked_def)
  moreover have "lock_step D ?s1 ?s2"
    using lock_step.Lock[of D ?s1 9 "''a''" 1]
    by (simp add: first_claim_def second_claim_def claimed_rows_def two_db_def claimable_def pending_row_def locked_def
        numeral_2_eq_2)
  moreover have "lock_step D ?s2 one_committed"
    using lock_step.Commit[of first_claim ?s2 D]
    by (simp add: one_committed_def settle_def first_claim_def second_claim_def pending_row_def leased_def commit_claim_def
        two_db_def lease_def)
  ultimately show ?thesis by (meson converse_rtranclp_into_rtranclp rtranclp.rtrancl_refl)
qed

theorem claims_disjoint_witness:
  "holds one_committed 0 10 \<and> holds one_committed 1 11
   \<and> \<not> holds one_committed 1 10
   \<and> 10 \<notin> dr_delivery_id ` set (claimed_rows 9 (locked one_committed) ''a'' 4 (ls_db one_committed))
   \<and> 11 \<notin> dr_delivery_id ` set (claimed_rows 9 (locked one_committed) ''a'' 4 (ls_db one_committed))"
proof -
  have h: "holds one_committed 0 10" "holds one_committed 1 11"
    by (simp_all add: holds_def one_committed_def second_claim_def pending_row_def)
  note disjoint = claims_disjoint[OF two_db_inv two_claims_run]
  have "\<not> holds one_committed 1 10" using disjoint[OF h(1), of 1] by simp
  moreover have "u \<notin> dr_delivery_id ` set (claimed_rows 9 (locked one_committed) ''a'' 4 (ls_db one_committed))"
    if "holds one_committed k u" for k u
    using disjoint[OF that] by (rule conjunct2)
  ultimately show ?thesis using h by blast
qed

end
