(* ===== verification/Handover.thy ===== *)
theory Handover
  imports Emitters
begin

text \<open>
  From the configuration of an emitter to the consumer of its messages
  (\<^verbatim>\<open>crates/hookbox-server/src/emitter_factory.rs\<close>, \<^verbatim>\<open>crates/hookbox-emitter-*\<close>): what the factory builds for a
  section of the configuration hands every event to the client that the section names, as one message
  addressed as the section says, from which the derived \<^verbatim>\<open>Deserialize\<close> of \<^verbatim>\<open>NormalizedEvent\<close>
  (\<^verbatim>\<open>crates/hookbox/src/types.rs\<close>) reads the event back; and it answers as the client does. The parsers of JSON,
  UUIDs and timestamps are parameters.
\<close>

section \<open>Reading an event\<close>

record readers =
  rd_uuid :: "string \<Rightarrow> uuid option"
  rd_datetime :: "string \<Rightarrow> timestamp option"

definition event_fields :: "string list" where
  "event_fields = [''receipt_id'', ''provider_name'', ''event_type'', ''external_reference'', ''parsed_payload'',
     ''payload_hash'', ''received_at'', ''metadata'']"

text \<open>A struct is read from an object, where other keys are skipped and one of its own must not come twice,
  or from an array of its fields.\<close>

definition struct_fields :: "string list \<Rightarrow> json \<Rightarrow> (string \<times> json) list option" where
  "struct_fields names j =
     (case j of
        JObject fs \<Rightarrow> (let known = filter (\<lambda>(k, _). k \<in> set names) fs in if distinct (map fst known) then Some known else None)
      | JArray vs \<Rightarrow> if length vs = length names then Some (zip names vs) else None
      | _ \<Rightarrow> None)"

definition json_string :: "json \<Rightarrow> string option" where
  "json_string j = (case j of JString s \<Rightarrow> Some s | _ \<Rightarrow> None)"

text \<open>An optional field: missing and null are \<open>None\<close>.\<close>

definition optional_field :: "(json \<Rightarrow> 'a option) \<Rightarrow> (string \<times> json) list \<Rightarrow> string \<Rightarrow> 'a option option" where
  "optional_field rd fs k =
     (case map_of fs k of None \<Rightarrow> Some None | Some j \<Rightarrow> if j = JNull then Some None else map_option Some (rd j))"

definition event_from_json :: "readers \<Rightarrow> json \<Rightarrow> normalized_event option" where
  "event_from_json rd j =
     Option.bind (struct_fields event_fields j) (\<lambda>fs.
     Option.bind (Option.bind (Option.bind (map_of fs ''receipt_id'') json_string) (rd_uuid rd)) (\<lambda>u.
     Option.bind (Option.bind (map_of fs ''provider_name'') json_string) (\<lambda>provider.
     Option.bind (optional_field json_string fs ''event_type'') (\<lambda>ty.
     Option.bind (optional_field json_string fs ''external_reference'') (\<lambda>ext.
     Option.bind (optional_field Some fs ''parsed_payload'') (\<lambda>payload.
     Option.bind (Option.bind (map_of fs ''payload_hash'') json_string) (\<lambda>hash.
     Option.bind (Option.bind (Option.bind (map_of fs ''received_at'') json_string) (rd_datetime rd)) (\<lambda>received.
     Option.bind (map_of fs ''metadata'') (\<lambda>metadata.
       Some \<lparr>ne_receipt_id = ReceiptId u, ne_provider_name = provider, ne_event_type = ty, ne_external_reference = ext,
             ne_parsed_payload = payload, ne_payload_hash = hash, ne_received_at = received, ne_metadata = metadata\<rparr>)))))))))"

definition event_from_slice :: "externals \<Rightarrow> readers \<Rightarrow> bytes \<Rightarrow> normalized_event option" where
  "event_from_slice x rd b = Option.bind (x_json_from_slice x b) (event_from_json rd)"

text \<open>The reader undoes the writer, but for a payload that is null.\<close>

lemma event_reads_back:
  assumes "rd_uuid rd (x_uuid_to_string x (rid_uuid (ne_receipt_id e))) = Some (rid_uuid (ne_receipt_id e))"
    and "rd_datetime rd (pr_datetime pr (ne_received_at e)) = Some (ne_received_at e)"
  shows "event_from_json rd (event_to_json x pr e) = Some (event_view e)"
  using assms
  by (cases "ne_event_type e"; cases "ne_external_reference e"; cases "ne_parsed_payload e"; cases "ne_receipt_id e")
    (simp_all add: event_from_json_def event_to_json_def struct_fields_def event_fields_def Let_def optional_field_def
      json_string_def jopt_def event_view_def payload_view_def)

section \<open>Messages and their addresses\<close>

datatype wire = W_Kafka kafka_record | W_Nats string bytes | W_Redis xadd_command | W_Sqs sqs_request

text \<open>Where a consumer finds the event.\<close>

fun wire_body :: "wire \<Rightarrow> bytes option" where
  "wire_body (W_Kafka m) = Some (kr_payload m)"
| "wire_body (W_Nats _ b) = Some b"
| "wire_body (W_Redis m) = map_of (xa_fields m) ''data''"
| "wire_body (W_Sqs m) = Some (sr_body m)"

text \<open>The section of the configuration that an emitter is built from.\<close>

datatype target =
    T_Kafka kafka_emitter_config | T_Nats nats_emitter_config | T_Redis redis_emitter_config | T_Sqs sqs_emitter_config

definition target_of :: "emitter_config \<Rightarrow> target option" where
  "target_of cfg =
     (if ec_emitter_type cfg = ''kafka'' then map_option T_Kafka (ec_kafka cfg)
      else if ec_emitter_type cfg = ''nats'' then map_option T_Nats (ec_nats cfg)
      else if ec_emitter_type cfg = ''redis'' then map_option T_Redis (ec_redis cfg)
      else if ec_emitter_type cfg = ''sqs'' then map_option T_Sqs (ec_sqs cfg)
      else None)"

text \<open>The message of an event goes where the section says, under the id of its receipt where the broker
  has a place for one.\<close>

fun addressed :: "externals \<Rightarrow> target \<Rightarrow> normalized_event \<Rightarrow> wire \<Rightarrow> bool" where
  "addressed x (T_Kafka k) e (W_Kafka m) \<longleftrightarrow>
     kr_topic m = kc_topic k \<and> kr_key m = x_uuid_to_string x (rid_uuid (ne_receipt_id e))"
| "addressed x (T_Nats n) e (W_Nats subject _) \<longleftrightarrow> subject = nc_subject n"
| "addressed x (T_Redis r) e (W_Redis m) \<longleftrightarrow>
     xa_stream m = rdc_stream r \<and> xa_maxlen m = rdc_maxlen r \<and> xa_id m = ''*'' \<and> length (xa_fields m) = 1"
| "addressed x (T_Sqs q) e (W_Sqs m) \<longleftrightarrow>
     sr_queue_url m = qc_queue_url q
     \<and> sr_group_id m = (if qc_fifo q then Some (ne_provider_name e) else None)
     \<and> sr_dedup_id m = (if qc_fifo q then Some (x_uuid_to_string x (rid_uuid (ne_receipt_id e))) else None)"
| "addressed _ _ _ _ \<longleftrightarrow> False"

text \<open>The client that the section makes, and its answer to a message, within the time the section allows.\<close>

fun opened :: "brokers \<Rightarrow> target \<Rightarrow> client \<Rightarrow> bool" where
  "opened bk (T_Kafka k) h \<longleftrightarrow>
     bk_kafka_create bk [(''bootstrap.servers'', kc_brokers k), (''client.id'', kc_client_id k), (''acks'', kc_acks k),
       (''delivery.timeout.ms'', dec (kc_timeout_ms k))] = Ok h"
| "opened bk (T_Nats n) h \<longleftrightarrow> bk_nats_connect bk (nc_url n) = Ok h"
| "opened bk (T_Redis r) h \<longleftrightarrow>
     (\<exists>c. bk_redis_open bk (rdc_url r) = Ok c
        \<and> bk_redis_connect bk c (duration_from_millis (rdc_timeout_ms r)) = Finished (Ok h))"
| "opened bk (T_Sqs q) h \<longleftrightarrow> h = bk_sqs_client bk (qc_region q) (qc_endpoint_url q)"

fun client_answer :: "brokers \<Rightarrow> target \<Rightarrow> client \<Rightarrow> wire \<Rightarrow> (unit, string) result timed" where
  "client_answer bk (T_Kafka k) h (W_Kafka m) = Finished (bk_kafka_send bk h m (duration_from_millis (kc_timeout_ms k)))"
| "client_answer bk (T_Nats _) h (W_Nats subject b) = Finished (bk_nats_publish bk h subject b)"
| "client_answer bk (T_Redis r) h (W_Redis m) = bk_redis_xadd bk h m (duration_from_millis (rdc_timeout_ms r))"
| "client_answer bk (T_Sqs _) h (W_Sqs m) = bk_sqs_send bk h m (duration_from_secs 10)"
| "client_answer _ _ _ _ = Elapsed"

text \<open>Too late: the timer of Redis and SQS went off, or the text of Kafka's error says so.\<close>

fun too_late :: "target \<Rightarrow> (unit, string) result timed \<Rightarrow> bool" where
  "too_late _ Elapsed = True"
| "too_late (T_Kafka _) (Finished (Err t)) = kafka_late_text t"
| "too_late _ _ = False"

section \<open>Handing over\<close>

lemma anyhow_emit_Ok: "anyhow_emit msg r = Ok a \<longleftrightarrow> r = Ok a"
  by (cases r) (simp_all add: anyhow_emit_def with_context_def)

lemma section_required_Ok: "section_required kind s = Ok c \<longleftrightarrow> s = Some c"
  by (cases s) (simp_all add: section_required_def)

text \<open>What the factory builds.\<close>

lemma build_emitter_ready:
  assumes "build_emitter bk cfg = Ok (BE_Ready em)"
  obtains (Kafka) k h where "target_of cfg = Some (T_Kafka k)" "opened bk (T_Kafka k) h"
      "em = EO_Kafka \<lparr>ke_producer = h, ke_topic = kc_topic k, ke_timeout = duration_from_millis (kc_timeout_ms k)\<rparr>"
  | (Nats) n h where "target_of cfg = Some (T_Nats n)" "opened bk (T_Nats n) h"
      "em = EO_Nats \<lparr>na_client = h, na_subject = nc_subject n\<rparr>"
  | (Redis) r h where "target_of cfg = Some (T_Redis r)" "opened bk (T_Redis r) h"
      "em = EO_Redis \<lparr>re_conn = h, re_stream = rdc_stream r, re_maxlen = rdc_maxlen r,
        re_timeout = duration_from_millis (rdc_timeout_ms r)\<rparr>"
  | (Sqs) q h where "target_of cfg = Some (T_Sqs q)" "opened bk (T_Sqs q) h"
      "em = EO_Sqs \<lparr>sq_client = h, sq_queue_url = qc_queue_url q, sq_fifo = qc_fifo q\<rparr>"
proof -
  let ?kind = "ec_emitter_type cfg"
  consider "?kind = ''kafka''" | "?kind = ''nats''" | "?kind = ''sqs''" | "?kind = ''redis''"
    using assms by (auto simp: build_emitter_def Let_def channel_new_def split: if_splits)
  then show ?thesis
  proof cases
    case 1
    then show ?thesis using assms Kafka
      by (auto simp: build_emitter_def target_of_def section_required_Ok anyhow_emit_Ok kafka_new_def elim!: and_then_OkE map_err.elims)
  next
    case 2
    then show ?thesis using assms Nats
      by (auto simp: build_emitter_def target_of_def section_required_Ok anyhow_emit_Ok nats_new_def elim!: and_then_OkE map_err.elims)
  next
    case 3
    then show ?thesis using assms Sqs
      by (auto simp: build_emitter_def target_of_def section_required_Ok anyhow_emit_Ok sqs_new_def elim!: and_then_OkE)
  next
    case 4
    then show ?thesis using assms Redis
      by (auto simp: build_emitter_def target_of_def section_required_Ok anyhow_emit_Ok redis_new_def Let_def
          elim!: and_then_OkE map_err.elims split: timed.splits result.splits)
  qed
qed

text \<open>C33. An emitter built from a section of the configuration hands over whole events. Provided that the event's
  UUID, timestamp and JSON print so that they can be read back,
  emitting sends one message with the client that the section makes: it goes where the section says (topic
  and key, subject, stream with its cap, queue with its FIFO ids), a consumer reads from it the very
  event, a null payload apart, and the answer is \<open>Ok\<close> exactly when the client acknowledges that message
  within the time that the section allows, and \<^verbatim>\<open>Timeout\<close> exactly when it is too late (\<open>too_late\<close>).\<close>

theorem emit_is_handover:
  assumes "rd_uuid rd (x_uuid_to_string x (rid_uuid (ne_receipt_id e))) = Some (rid_uuid (ne_receipt_id e))"
    and "rd_datetime rd (pr_datetime pr (ne_received_at e)) = Some (ne_received_at e)"
    and json: "\<And>b. pr_json pr (event_to_json x pr e) = Ok b \<Longrightarrow> x_json_from_slice x b = Some (event_to_json x pr e)"
    and encoded: "encode_event x pr e = Ok body" and "build_emitter bk cfg = Ok (BE_Ready em)"
  shows "\<exists>T h m. target_of cfg = Some T \<and> opened bk T h \<and> addressed x T e m
    \<and> Option.bind (wire_body m) (event_from_slice x rd) = Some (event_view e)
    \<and> (emitter_emit x pr bk em e = Ok () \<longleftrightarrow> client_answer bk T h m = Finished (Ok ()))
    \<and> ((\<exists>t. emitter_emit x pr bk em e = Err (EE_Timeout t)) \<longleftrightarrow> too_late T (client_answer bk T h m))"
proof -
  have "x_json_from_slice x body = Some (event_to_json x pr e)"
    using json encoded by (auto simp: encode_event_def elim: map_err.elims)
  then have read: "event_from_slice x rd body = Some (event_view e)"
    using event_reads_back[OF assms(1,2)] by (simp add: event_from_slice_def)
  note outcome = handover.emit_outcome[of x pr bk em e]
  from assms(5) show ?thesis
  proof (cases rule: build_emitter_ready)
    case (Kafka k h)
    let ?m = "\<lparr>kr_topic = kc_topic k, kr_key = x_uuid_to_string x (rid_uuid (ne_receipt_id e)), kr_payload = body\<rparr>"
    show ?thesis
      using outcome Kafka
      by (intro exI[of _ "T_Kafka k"] exI[of _ h] exI[of _ "W_Kafka ?m"])
        (simp add: encoded read split: result.splits)
  next
    case (Nats n h)
    have "\<not> too_late (T_Nats n) (Finished (bk_nats_publish bk h (nc_subject n) body))"
      by (cases "bk_nats_publish bk h (nc_subject n) body") simp_all
    then show ?thesis
      using outcome Nats by (intro exI[of _ "T_Nats n"] exI[of _ h] exI[of _ "W_Nats (nc_subject n) body"])
        (simp add: encoded read)
  next
    case (Redis r h)
    let ?m = "\<lparr>xa_stream = rdc_stream r, xa_maxlen = rdc_maxlen r, xa_id = ''*'', xa_fields = [(''data'', body)]\<rparr>"
    let ?a = "bk_redis_xadd bk h ?m (duration_from_millis (rdc_timeout_ms r))"
    have "too_late (T_Redis r) ?a = (?a = Elapsed)" by (cases "(T_Redis r, ?a)" rule: too_late.cases) simp_all
    then show ?thesis
      using outcome Redis by (intro exI[of _ "T_Redis r"] exI[of _ h] exI[of _ "W_Redis ?m"]) (simp add: encoded read)
  next
    case (Sqs q h)
    let ?m = "sqs_message x \<lparr>sq_client = h, sq_queue_url = qc_queue_url q, sq_fifo = qc_fifo q\<rparr> e body"
    let ?a = "bk_sqs_send bk h ?m (duration_from_secs 10)"
    have "too_late (T_Sqs q) ?a = (?a = Elapsed)" by (cases "(T_Sqs q, ?a)" rule: too_late.cases) simp_all
    moreover have "addressed x (T_Sqs q) e (W_Sqs ?m)" "sr_body ?m = body"
      by (simp_all add: sqs_message_def Let_def)
    ultimately show ?thesis
      using outcome Sqs by (intro exI[of _ "T_Sqs q"] exI[of _ h] exI[of _ "W_Sqs ?m"])
        (simp add: encoded read SQS_TIMEOUT_def del: addressed.simps)
  qed
qed

text \<open>A FIFO queue that takes the event.\<close>

definition ext_reading :: externals where
  "ext_reading = ext_unary\<lparr>x_json_from_slice :=
     (\<lambda>b. if b = ''first'' then Some (event_to_json ext_unary printers0 (event0 1 None)) else None)\<rparr>"

definition readers0 :: readers where
  "readers0 = \<lparr>rd_uuid = (\<lambda>s. if s = unary 1 then Some 1 else None), rd_datetime = (\<lambda>s. if s = unary 5 then Some 5 else None)\<rparr>"

definition brokers0 :: brokers where
  "brokers0 = \<lparr>bk_kafka_create = (\<lambda>_. Err ''down''), bk_kafka_send = (\<lambda>_ _ _. Err ''down''),
     bk_nats_connect = (\<lambda>_. Err ''down''), bk_nats_publish = (\<lambda>_ _ _. Err ''down''),
     bk_redis_open = (\<lambda>_. Err ''down''), bk_redis_connect = (\<lambda>_ _. Elapsed), bk_redis_xadd = (\<lambda>_ _ _. Elapsed),
     bk_sqs_client = (\<lambda>_ _. 7), bk_sqs_send = (\<lambda>h m _. if h = 7 then Finished (Ok ()) else Elapsed)\<rparr>"

definition queue0 :: sqs_emitter_config where
  "queue0 = \<lparr>qc_queue_url = ''q.fifo'', qc_region = None, qc_fifo = True, qc_endpoint_url = None\<rparr>"

definition to_queue :: emitter_config where
  "to_queue = emitter_config_default\<lparr>ec_emitter_type := ''sqs'', ec_sqs := Some queue0\<rparr>"

definition at_queue :: emitter_obj where
  "at_queue = EO_Sqs \<lparr>sq_client = 7, sq_queue_url = ''q.fifo'', sq_fifo = True\<rparr>"

lemma to_queue_ready: "build_emitter brokers0 to_queue = Ok (BE_Ready at_queue)"
  by (simp add: build_emitter_def to_queue_def at_queue_def queue0_def brokers0_def section_required_def sqs_new_def
      anyhow_emit_def with_context_def Let_def)

lemma ext_reading_prints: "event_to_json ext_reading pr e = event_to_json ext_unary pr e"
  by (simp add: ext_reading_def event_to_json_def)

lemma event0_read:
  shows "rd_uuid readers0 (x_uuid_to_string ext_reading (rid_uuid (ne_receipt_id (event0 1 p)))) = Some 1"
    and "rd_datetime readers0 (pr_datetime printers0 5) = Some 5"
    and "encode_event ext_reading printers0 (event0 1 None) = Ok ''first''"
  by (simp_all add: readers0_def ext_reading_def ext_unary_def event0_def printers0_def encode_event_def
      event_to_json_def jopt_def)

theorem emit_is_handover_witness:
  "build_emitter brokers0 to_queue = Ok (BE_Ready at_queue)
   \<and> encode_event ext_reading printers0 (event0 1 None) = Ok ''first''
   \<and> (\<exists>T h m. target_of to_queue = Some T \<and> opened brokers0 T h \<and> addressed ext_reading T (event0 1 None) m
      \<and> Option.bind (wire_body m) (event_from_slice ext_reading readers0) = Some (event0 1 None)
      \<and> client_answer brokers0 T h m = Finished (Ok ()))
   \<and> emitter_emit ext_reading printers0 brokers0 at_queue (event0 1 None) = Ok ()"
proof -
  have sent: "emitter_emit ext_reading printers0 brokers0 at_queue (event0 1 None) = Ok ()"
    by (simp add: at_queue_def emit_defs event0_read brokers0_def)
  have json: "x_json_from_slice ext_reading b = Some (event_to_json ext_reading printers0 (event0 1 None))"
    if "pr_json printers0 (event_to_json ext_reading printers0 (event0 1 None)) = Ok b" for b
    using that event0_read(3) by (simp add: encode_event_def) (simp add: ext_reading_def ext_reading_prints[unfolded ext_reading_def])
  have "event_view (event0 1 None) = event0 1 None"
    by (simp add: event_view_def payload_view_def event0_def)
  with emit_is_handover[OF _ _ json event0_read(3) to_queue_ready, of readers0] show ?thesis
    using sent to_queue_ready event0_read by (auto simp: event0_def)
qed

end
