(* ===== verification/Spec2Isabelle.thy ===== *)
theory Spec2Isabelle
  imports End_To_End Shutdown Provider_Tests Worker_Tests Server_Tests Migration Typing Features Core_Tests Pipeline_Tests Leases Handover
begin

text \<open>
  Hookbox is a durable webhook inbox. A provider posts a webhook; the server verifies its signature,
  stores it in PostgreSQL together with one delivery row per configured emitter, and only then
  answers. Background workers claim delivery rows, hand the event to their emitter (Kafka, NATS, SQS,
  Redis, or an in-process channel) and record the outcome, with retries, backoff and a dead-letter
  state. An admin API and a command line inspect receipts and queue replays. This development models
  the Rust crates under \<^verbatim>\<open>src/crates\<close> and the in-memory scenario suite under \<^verbatim>\<open>src/scenario-tests\<close>, and proves what
  makes the inbox durable, safe and live.

  \<^bold>\<open>Theories and sources\<close> (paths under \<^verbatim>\<open>src/crates\<close>)

  \<^item> \<open>Prelude\<close>: results, JSON, machine integers, ordered maps, generic lemmas. \<open>Float64\<close>: the IEEE double
    arithmetic and durations that the backoff uses. \<open>Rust_Strings\<close>: strings, UTF-8 and header lookup.
  \<^item> \<open>Domain\<close>: \<^verbatim>\<open>hookbox/src/{state,types,error,hash}.rs\<close>; the record \<open>externals\<close> holds third-party functions.
  \<^item> \<open>Transitions\<close>: \<^verbatim>\<open>hookbox/src/transitions.rs\<close>.
  \<^item> \<open>Postgres\<close>, \<open>Deliveries\<close>: \<^verbatim>\<open>hookbox-postgres/src/storage.rs\<close> over the two tables; one definition per SQL
    statement and per method. \<open>Wire\<close>: the column lists of its queries and the readers of its rows; \<open>Migration\<close>:
    \<^verbatim>\<open>hookbox-postgres/migrations\<close>. \<open>Dedupe\<close>: \<^verbatim>\<open>hookbox/src/dedupe.rs\<close> and \<^verbatim>\<open>hookbox-postgres/src/dedupe.rs\<close>.
  \<^item> \<open>Pipeline\<close>: \<^verbatim>\<open>hookbox/src/pipeline.rs\<close>, \<^verbatim>\<open>traits.rs\<close> and the route \<^verbatim>\<open>hookbox-server/src/routes/ingest.rs\<close>.
  \<^item> \<open>Verifiers\<close>: \<^verbatim>\<open>hookbox-providers/src\<close>; \<open>Signing\<close>: how a provider signs what they verify. \<open>Emitters\<close>: \<^verbatim>\<open>hookbox-emitter-*/src/lib.rs\<close>, \<^verbatim>\<open>hookbox/src/emitter.rs\<close>
    and \<^verbatim>\<open>hookbox-server/src/emitter_factory.rs\<close>. \<open>Handover\<close>: from a section of the configuration to what a consumer reads.
  \<^item> \<open>Worker\<close>, \<open>Progress\<close>: \<^verbatim>\<open>hookbox-server/src/worker.rs\<close>. \<open>Config\<close>: \<^verbatim>\<open>config.rs\<close> and \<^verbatim>\<open>bootstrap.rs\<close> there.
    \<open>Config_File\<close>: the \<^verbatim>\<open>Deserialize\<close> implementations of \<^verbatim>\<open>config.rs\<close>. \<open>Serve\<close>: \<^verbatim>\<open>serve.rs\<close>. \<open>Shutdown\<close>: \<^verbatim>\<open>shutdown.rs\<close>. \<open>Admin\<close>: \<^verbatim>\<open>routes/admin.rs\<close>, \<^verbatim>\<open>routes/health.rs\<close> and the router in \<^verbatim>\<open>lib.rs\<close>.
  \<^item> \<open>Cli\<close>: \<^verbatim>\<open>hookbox-cli/src\<close>.
  \<^item> \<open>System\<close>, \<open>End_To_End\<close> and this theory: all tasks over the same tables. \<open>Typing\<close>: what reading them can answer.
    \<open>Leases\<close>: claims as locks that are taken, held and committed, and how long a lease protects.
  \<^item> \<open>Memory\<close>, \<open>Scenario\<close>: \<^verbatim>\<open>scenario-tests/src/world.rs\<close> and \<^verbatim>\<open>fake_emitter.rs\<close> (in-memory storage, fake emitters,
    the test world and its drivers); \<open>Features\<close>: \<^verbatim>\<open>steps.rs\<close> and \<^verbatim>\<open>features/core\<close> there.
  \<^item> \<open>Property_Tests\<close>: \<^verbatim>\<open>hookbox-verify/src\<close>, every harness as a predicate on what its generator draws.
    \<open>Core_Tests\<close>, \<open>Pipeline_Tests\<close>: the unit tests of \<^verbatim>\<open>dedupe.rs\<close>, \<^verbatim>\<open>transitions.rs\<close> and \<^verbatim>\<open>pipeline.rs\<close> in \<^verbatim>\<open>hookbox/src\<close>, with
    the storages they use and the default of the \<^verbatim>\<open>Storage\<close> trait. \<open>Provider_Tests\<close>, \<open>Worker_Tests\<close>, \<open>Config_Tests\<close>, \<open>Server_Tests\<close>: those
    of the providers, of \<^verbatim>\<open>worker.rs\<close>, of \<^verbatim>\<open>config.rs\<close> and \<^verbatim>\<open>bootstrap.rs\<close>, and of smaller modules. \<open>Jitter\<close>: the jitter
    of the backoff.

  \<^bold>\<open>Modelling\<close>

  Structs are records, enums datatypes, \<^verbatim>\<open>Result\<close> is \<open>result\<close>; \<open>None\<close> of a definition whose source cannot
  return is a panic. A table is the list of its rows and carries its constraints: a violated one is
  an error of the statement. Every round trip has an outcome \<open>io\<close>: it works, it fails before the
  statement runs, or the statement runs and the reply is lost. A transaction works on a copy which the
  commit publishes. A value that PostgreSQL refuses (a NUL character in a text or JSON column) counts as a
  statement that fails. How the spawned tasks end is an argument of \<open>serve_inner\<close> (\<open>sv_ends\<close>). Clock readings, generated ids, random samples, what brokers answer and the outcome
  of each round trip are arguments (\<open>dbenv\<close>, \<open>ingest_env\<close>, \<open>tick_env\<close>, \<open>api_env\<close>, \<open>cli_env\<close>), so the theorems hold
  for all of them. \<^verbatim>\<open>i32\<close>, \<^verbatim>\<open>i64\<close> and \<^verbatim>\<open>usize\<close> arithmetic is written out where it can wrap, fail or saturate;
  doubles are exact rationals with one rounding per operation. Loops are structural recursions, or
  functions with a measure (\<open>trim_with\<close>); a worker runs over the list of the iterations it has met, so no
  fuel is needed. The drivers of the scenario suite count their rounds as the code does (50 and 200);
  five rounds are shown to be enough for the second.

  \<^bold>\<open>Concurrency\<close>

  The unit of interleaving is the SQL statement or transaction, as PostgreSQL runs them, and the
  critical section of the cache's mutex. Handlers take what other tasks do between two of their
  storage calls as functions (\<open>ie_gap1\<close>, \<open>ae_gap\<close>, \<open>ce_gap\<close>; \<open>amid_ops\<close> for the worker). \<open>System\<close> restricts these to
  sequences of \<open>table_step\<close>, the statements the tasks issue, and shows that every handler run amid such
  steps is itself a sequence of them; \<open>system_step\<close> lets any task, or a restart, happen. Row locks of
  concurrent claims are the argument \<open>e_locked\<close>; \<open>Leases\<close> splits a claim into taking its locks and committing,
  with other statements and claims in between, and shows that its commit is the claim made in one step
  with the locks that the others hold at that time (\<open>commit_is_claim\<close>, \<open>lock_step_refines\<close>).

  \<^bold>\<open>What is shown\<close>

  \<^item> Ingestion: an accepted webhook is durable with its whole fan-out, a redelivery is recognised, a
    rejected one leaves no trace; only signed webhooks get in, and each verifier accepts exactly the
    signatures its scheme defines, which are the ones a provider makes with the shared secret (locales \<open>ingest_storage\<close>, interpreted on the PostgreSQL pipeline and on
    the in-memory one, and \<open>signature_scheme\<close>).
  \<^item> Delivery: rows move only along the life cycle, claims are exact, and no two hold a delivery
    at once, also while their transactions overlap; marks that come after a reclaim bounce until the row
    is claimed again; what is marked emitted was handed to the emitter, attempts stay below the maximum
    (locales \<open>delivery_store\<close>, \<open>broker_emitter\<close>); a worker that meets no faults drains its backlog.
    An emitter sends its event, addressed as configured and readable as it was, and answers as its client does.
    An accepted webhook reaches every configured emitter under any interleaving of the workers'
    iterations that is long enough, once faults have ceased.
  \<^item> Deduplication: the cache refines a bounded queue (locales \<open>dedupe_strategy\<close>, \<open>layered_dedupe\<close>); in a
    running system its advice is exact.
  \<^item> Operation: which configurations are accepted, that every configured provider and emitter is served,
    that panics are reported, that readiness is exact, that the admin API needs its token, and that
    replays insert exactly what they report. What the configuration file can make the server do: numbers
    lie within their widths, workers are sane, misspelt keys of emitters are rejected. The server stops
    exactly when it hears a signal.
  \<^item> Storage: every query selects the columns its reader asks for, at their types; the backfill of the
    second migration keeps the invariant and the states that the API shows, and workers leave it alone.
  \<^item> Tests: the server's pipeline refines the pipeline the scenarios run on, so what they show carries
    over; the core scenarios pass for every identifier, clock and hash; retries end within the allowed
    attempts and the derived state follows the emitters; the harnesses and the unit tests of the core
    crate hold for all inputs and surroundings they can meet, and so do those of the providers, the
    worker and the server (but three, which need a clock that stands still), the backoff ones down to the rounding of
    doubles; jitter never leaves its window.
  \<^item> The system: every reachable state satisfies the table invariant and \<open>inbox\<close>, nothing is lost, and
    no read meets a row that does not decode.
    Two consequences are defects: receipts never leave the state \<^verbatim>\<open>stored\<close>, so filters by any other state
    and \<^verbatim>\<open>hookbox replay failed\<close> find nothing.

  \<^bold>\<open>Parameters\<close>

  SHA-256, HMAC, RSA, hex, Base64, JSON and TOML parsing (a TOML document is given as a tree), UUID and time printing, the broker clients,
  the power function of the platform, files, sockets and the standard streams. The verifier theorems
  hold for any such functions; the round trips of the emitters' messages and the exactness of the
  dedupe advice name the property of the parameter they need.

  \<^bold>\<open>Not modelled\<close>

  Indexes of the tables, structs written as arrays and dates in TOML, clap, axum's routing and extraction, connection pools, tracing, and the tests that drive a live server and
  database (\<^verbatim>\<open>integration-tests\<close>; \<^verbatim>\<open>ServerWorld\<close>, \<^verbatim>\<open>server_harness.rs\<close> and \<^verbatim>\<open>steps_server.rs\<close> of \<^verbatim>\<open>scenario-tests\<close>). Of
  \<^verbatim>\<open>hookbox-verify\<close>, the tests of serde's JSON parser, of SHA-256 collisions and of Base64 alone. The command line is assumed to read the configuration the
  server runs with, and the configuration is fixed while the system runs. Durations of histograms are
  not modelled. The dispatches of a batch run one after the other in the order in which they complete:
  they share one task, and each makes a single storage call, on a row of its own.
\<close>

section \<open>A small run\<close>

text \<open>One emitter, no verifiers, a constant digest; one webhook has been accepted.\<close>

definition site0 :: deployment where
  "site0 = \<lparr>dp_ext = ext0\<lparr>x_sha256 := (\<lambda>_. ''h'')\<rparr>, dp_names = [''kafka''], dp_verifiers = []\<rparr>"

definition run0 :: world where
  "run0 = snd (snd (ingest_webhook (dp_ext site0) (dp_pipeline site0 IO_Ok) (ienv0 1 10) ''stripe'' [] ''{}'' world0))"

lemma idle_gap: "wothers D (interference [] [])"
  by (simp add: wothers_def)

lemma run0_running: "running site0 run0"
proof -
  obtain resp ms where "ingest_webhook (dp_ext site0) (dp_pipeline site0 IO_Ok) (ienv0 1 10) ''stripe'' [] ''{}'' world0
      = (resp, ms, run0)"
    unfolding run0_def by (metis prod.collapse)
  then have "system_step site0 world0 run0"
    by (rule Webhook[rotated 2]) (simp_all add: ienv0_def idle_gap)
  moreover have "recent_new 2 = Some (fst world0)" "world0 = (fst world0, empty_db)"
    by (simp_all add: recent_new_def world0_def)
  ultimately show ?thesis unfolding running_def by (metis r_into_rtranclp)
qed

lemma run0_receipts: "map rr_dedupe_key (receipts (snd run0)) = [''stripe:h'']"
  by (simp add: run0_def ingest_webhook_def ingest_def run_verification_def dp_pipeline_def server_pipeline_def
      ienv0_def layered_check_def recent_check_def world0_def storage_dedupe_check_def empty_db_def pg_store_def
      store_with_deliveries_def env_ok_def tx_stmt_def insert_receipt_def has_key_def has_receipt_def
      has_delivery_def receipt_to_row_def build_receipt_def insert_delivery_def commit_tx_def Let_def
      site0_def compute_payload_hash_def ext0_def)

section \<open>Properties of the whole system\<close>

text \<open>C6. Every state the running system can reach, whatever webhooks, workers, admin requests and commands
  have run, interleaved in whatever way, with whatever faults and restarts, is sound: ids and keys are
  unique and rows refer to receipts; every receipt is exactly as the pipeline built it from a request
  that passed verification, with its deliveries to all configured emitters committed alongside; every
  delivery is for a configured emitter; and the cache holds only keys of stored receipts.\<close>

theorem inbox_invariant:
  assumes "running D w"
  shows "db_inv (snd w) \<and> inbox D (snd w) \<and> recent_inv (fst w)
    \<and> set (recent_abs (fst w)) \<subseteq> row_pairs (snd w)"
  using running_ok[OF assms] by (simp add: world_ok_def)

theorem inbox_invariant_witness:
  "receipts (snd run0) \<noteq> [] \<and> inbox site0 (snd run0)"
  using inbox_invariant[OF run0_running] run0_receipts by auto

text \<open>C7. Nothing is ever lost: as the system runs on, receipts stay where they are and unchanged, and
  delivery rows stay where they are with their identity, and unchanged once emitted or dead-lettered.\<close>

theorem nothing_is_lost:
  assumes "running D w" and "(system_step D)\<^sup>*\<^sup>* w w'"
  shows "later (snd w) (snd w')"
  using running_ok[OF assms(1)] system_steps_ok[OF assms(2)] steps_later
  by (auto simp: world_ok_def)

theorem nothing_is_lost_witness:
  "\<exists>c. later (snd run0) (snd (c :: recent_dedupe, snd run0)) \<and> recent_new 5 = Some c"
proof -
  obtain c where c: "recent_new 5 = Some c" by (simp add: recent_new_def)
  have "system_step site0 run0 (c, snd run0)"
    using Restart[OF c, of site0 "fst run0" "snd run0"] by simp
  from nothing_is_lost[OF run0_running r_into_rtranclp, of "(c, snd run0)", OF this] c show ?thesis by blast
qed

text \<open>C2. An accepted webhook is delivered everywhere. In a running system, once a webhook has been accepted,
  any interleaving of iterations of the emitters' workers that can take in what each emitter has open
  ends, if the database answers and the downstreams accept from then on, with one delivery of the
  receipt per configured emitter, all of them emitted; its derived state, if any emitter is configured,
  is then \<^verbatim>\<open>emitted\<close>.\<close>

theorem accepted_is_delivered:
  assumes "running D w" and "wothers D (ie_gap1 env)" and "ie_gap2 env = (\<lambda>w. w)"
    and "ingest (dp_ext D) (dp_pipeline D out) env provider hs body w = (Ok (IR_Accepted i), ms, w')"
    and "e_now (ie_db env) \<le> t0" and "list_all (calm_entry t0) sched"
    and "list_all (\<lambda>e. backlog e (snd w') \<le> capacity e sched) (dp_names D)"
  shows "\<exists>d' ds. run_schedule powi_fn sched (snd w') = Some d'
    \<and> get_deliveries_for_receipt IO_Ok i d' = Ok ds
    \<and> mset (map wd_emitter_name ds) = mset (dp_names D)
    \<and> list_all (\<lambda>d. wd_state d = DS_Emitted) ds
    \<and> (dp_names D \<noteq> [] \<longrightarrow> receipt_aggregate_state ds PS_Stored = PS_Emitted)"
proof -
  obtain d' ds where out: "run_schedule powi_fn sched (snd w') = Some d'"
      "get_deliveries_for_receipt IO_Ok i d' = Ok ds" "mset (map wd_emitter_name ds) = mset (dp_names D)"
    and rows: "list_all (\<lambda>d. wd_state d = DS_Emitted \<and> \<not> wd_immutable d) ds"
    using accepted_delivered[OF running_ok[OF assms(1)] assms(2-7)] by blast
  have "ds \<noteq> []" if "dp_names D \<noteq> []" using that out(3) by auto
  then have "dp_names D \<noteq> [] \<longrightarrow> receipt_aggregate_state ds PS_Stored = PS_Emitted"
    using all_emitted_aggregate[OF _ rows] by blast
  moreover have "list_all (\<lambda>d. wd_state d = DS_Emitted) ds" using rows by (simp add: list_all_iff)
  ultimately show ?thesis using out by blast
qed

definition kafka_worker :: emitter_worker where
  "kafka_worker = worker0\<lparr>ew_name := ''kafka''\<rparr>"

theorem accepted_is_delivered_witness:
  "\<exists>d' ds. run_schedule (\<lambda>_ _. Fin 1) [(kafka_worker, calm9)]
       (snd (snd (snd (ingest (dp_ext site0) (dp_pipeline site0 IO_Ok) ((ienv0 1 10)\<lparr>ie_gap2 := (\<lambda>w. w)\<rparr>) ''stripe'' [] ''{}'' world0)))) = Some d'
     \<and> get_deliveries_for_receipt IO_Ok (ReceiptId 1) d' = Ok ds
     \<and> receipt_aggregate_state ds PS_Stored = PS_Emitted"
proof -
  let ?env = "(ienv0 1 10)\<lparr>ie_gap2 := (\<lambda>w. w)\<rparr>"
  let ?out = "ingest (dp_ext site0) (dp_pipeline site0 IO_Ok) ?env ''stripe'' [] ''{}'' world0"
  have acc: "fst ?out = Ok (IR_Accepted (ReceiptId 1))
      \<and> deliveries (snd (snd (snd ?out))) = [pending_row 5 10 1 ''kafka'']"
    by (simp add: ingest_def run_verification_def dp_pipeline_def server_pipeline_def
      ienv0_def layered_check_def recent_check_def world0_def storage_dedupe_check_def empty_db_def pg_store_def
      store_with_deliveries_def env_ok_def tx_stmt_def insert_receipt_def has_key_def has_receipt_def
      has_delivery_def receipt_to_row_def build_receipt_def insert_delivery_def commit_tx_def Let_def
      site0_def compute_payload_hash_def ext0_def)
  then have out: "?out = (Ok (IR_Accepted (ReceiptId 1)), fst (snd ?out), snd (snd ?out))"
    by (metis prod.collapse)
  have start: "running site0 world0"
    unfolding running_def by (intro exI[of _ 2] exI[of _ "fst world0"]) (simp add: recent_new_def world0_def)
  have calm: "list_all (calm_entry 9) [(kafka_worker, calm9)]"
    by (simp add: calm_entry_def calm_tick_def calm9_def tick_with_def env_ok_def kafka_worker_def worker0_def)
  have room: "list_all (\<lambda>e. backlog e (snd (snd (snd ?out))) \<le> capacity e [(kafka_worker, calm9)]) (dp_names site0)"
    using acc by (simp add: backlog_def capacity_def kafka_worker_def worker0_def site0_def)
  have gap: "wothers site0 (ie_gap1 ?env)" "ie_gap2 ?env = (\<lambda>w. w)" "e_now (ie_db ?env) \<le> 9" "dp_names site0 \<noteq> []"
    by (simp_all add: ienv0_def idle_gap env_ok_def site0_def)
  from accepted_is_delivered[OF start gap(1,2) out gap(3) calm room] gap(4) show ?thesis by blast
qed

text \<open>C13. The tables are type safe: in a running system, whatever has been ingested, delivered, replayed or
  retried, with whatever faults, no read of receipts or deliveries and no claim answers that a row
  could not be decoded (a serialization error).\<close>

theorem reads_are_well_typed:
  assumes "running D w"
  shows "well_typed (storage_get out u (snd w)) \<and> well_typed (storage_query out f (snd w))
    \<and> well_typed (query_for_retry out n (snd w)) \<and> well_typed (query_by_external_reference out eref lmt (snd w))
    \<and> well_typed (query_failed_since out provider since lmt (snd w))
    \<and> well_typed (get_delivery env i (snd w)) \<and> well_typed (get_deliveries_for_receipt out j (snd w))
    \<and> well_typed (list_dlq env emitter pg off (snd w)) \<and> well_typed (fst (claim_pending env e b (snd w)))"
proof -
  have inv: "db_inv (snd w)" using running_ok[OF assms] by (simp add: world_ok_def)
  then have "wf_db (snd w)" by (simp add: db_inv_def)
  then show ?thesis
    by (simp add: inv get_typed receipt_reads_typed delivery_reads_typed claim_typed)
qed

theorem reads_are_well_typed_witness:
  "well_typed (storage_get IO_Ok 1 (snd run0)) \<and> receipts (snd run0) \<noteq> []"
  using reads_are_well_typed[OF run0_running] run0_receipts by auto

text \<open>C36. In a running system the advisory duplicate check is exact: with digests of one length, a check
  that reaches the database answers \<^verbatim>\<open>Duplicate\<close> if the payload is stored and \<^verbatim>\<open>New\<close> otherwise, from
  the cache or not; \<^verbatim>\<open>Conflict\<close> never occurs.\<close>

theorem advice_is_exact:
  assumes "running D w"
    and "\<And>b b'. length (compute_payload_hash (dp_ext D) b) = length (compute_payload_hash (dp_ext D) b')"
  shows "let h = compute_payload_hash (dp_ext D) body; k = provider @ '':'' @ h in
    p_check (dp_pipeline D IO_Ok) w k h = Ok (if has_key k (snd w) then DD_Duplicate else DD_New)"
proof -
  let ?h = "compute_payload_hash (dp_ext D) body"
  let ?k = "provider @ '':'' @ ?h"
  let ?check = "layered_check recent_check (storage_dedupe_check IO_Ok) w ?k ?h"
  have ok: "recent_inv (fst w)" "wf_db (snd w)" "set (recent_abs (fst w)) \<subseteq> row_pairs (snd w)" "inbox D (snd w)"
    using running_ok[OF assms(1)] by (auto simp: world_ok_def db_inv_def)
  have pair: "h' = ?h" if "(?k, h') \<in> row_pairs (snd w)" for h'
    by (rule inbox_pairs[OF ok(4) that assms(2)])
  have key: "has_key ?k (snd w) \<longleftrightarrow> (?k, ?h) \<in> row_pairs (snd w)"
    using pair by (force simp: has_key_iff row_pairs_def)
  obtain a where a: "?check = Ok a" using layered_check_total[of w] ok(1) by blast
  consider "a = DD_Duplicate" "(?k, ?h) \<in> row_pairs (snd w)" | "a = DD_New" "\<not> has_key ?k (snd w)"
  proof (cases a)
    case DD_New
    then show thesis
      using that(2) a storage_dedupe_check_iff(3)[OF ok(2), of ?k ?h]
      by (auto simp: layered_check_def split: result.splits dedupe_decision.splits)
  next
    case DD_Duplicate
    then show thesis using that(1) layers.L.check_Duplicate[of w IO_Ok ?k ?h] a ok by auto
  next
    case DD_Conflict
    then show thesis using layers.L.check_Conflict[of w IO_Ok ?k ?h] a ok pair by auto
  qed
  then show ?thesis
    using a key by cases (simp_all add: Let_def dp_pipeline_def server_pipeline_def)
qed

theorem advice_is_exact_witness:
  "p_check (dp_pipeline site0 IO_Ok) run0 ''stripe:h'' ''h'' = Ok DD_Duplicate"
proof -
  have h: "compute_payload_hash (dp_ext site0) b = ''h''" for b
    by (simp add: site0_def compute_payload_hash_def ext0_def)
  have "has_key ''stripe:h'' (snd run0)"
    using run0_receipts by (auto simp: has_key_iff simp flip: list.set_map)
  then show ?thesis
    using advice_is_exact[OF run0_running, of "''{}''" "''stripe''"] by (simp add: h Let_def)
qed

text \<open>The column \<^verbatim>\<open>processing_state\<close> of a running system says \<^verbatim>\<open>stored\<close> for ever, so a listing filtered by
  any other state is empty, however the receipts' deliveries have fared.\<close>

lemma state_filter_finds_nothing:
  assumes "running D w" and "rf_processing_state f = Some st" and "st \<noteq> PS_Stored"
    and "storage_query out f (snd w) = Ok rs"
  shows "rs = []"
proof -
  have "processing_state_name st \<noteq> ''stored''" using assms(3) by (cases st) simp_all
  then have "filter (filter_matches f (Some (processing_state_name st))) (receipts (snd w)) = []"
    using running_ok[OF assms(1)] inbox_stored
    by (auto simp: filter_empty_conv filter_matches_def opt_matches_def world_ok_def)
  then show ?thesis
    using assms(2,4)
    by (auto simp: storage_query_def Let_def read_stmt_Ok sql_window_def newest_first_def
        elim!: and_then_OkE split: if_splits option.splits io.splits)
qed

lemma state_filter_finds_nothing_example:
  "storage_query IO_Ok (receipt_filter_default\<lparr>rf_processing_state := Some PS_Emitted\<rparr>) (snd run0) = Ok []"
proof -
  let ?f = "receipt_filter_default\<lparr>rf_processing_state := Some PS_Emitted\<rparr>"
  have wf: "wf_db (snd run0)" using running_ok[OF run0_running] by (simp add: world_ok_def db_inv_def)
  have no_page: "rf_limit ?f = None" "rf_offset ?f = None" by (simp_all add: receipt_filter_default_def)
  obtain rs where "storage_query IO_Ok ?f (snd run0) = Ok rs"
    by (rule storage_query_total[OF wf no_page])
  then show ?thesis
    using state_filter_finds_nothing[OF run0_running, of ?f PS_Emitted IO_Ok rs] by simp
qed

text \<open>C40. \<^verbatim>\<open>hookbox replay failed\<close> does nothing to a running system: whatever window it is given and however many
  deliveries have failed or are dead-lettered, it resets no receipt and queues no delivery; when it
  reports success, the tables are as its query found them.\<close>

theorem replay_failed_is_futile:
  assumes "running D w" and "\<And>k. others D (ce_gap ce k)"
    and "replay_failed x ce url provider since lmt (snd w) = Some (res, d')"
  shows "d' = snd w \<and> (\<exists>e. res = Err e) \<or> d' = ce_gap ce 0 (snd w)"
proof -
  have g: "steps D (snd w) (ce_gap ce 0 (snd w))" by (rule others_steps[OF assms(2)])
  have "inbox D (ce_gap ce 0 (snd w))"
    using steps_inbox[OF g] running_ok[OF assms(1)] by (simp add: world_ok_def)
  note none = inbox_no_failed[OF this]
  show ?thesis
    using assms(3) by (auto simp: replay_failed_def Let_def split: result.splits option.splits dest!: none dest: sym)
qed

lemma idle_commands: "others D (ce_gap ce0 k)"
  by (simp add: others_def ce0_tables)

theorem replay_failed_is_futile_witness:
  "\<exists>res. replay_failed ext0 ce0 ''url'' None ''90m'' 100 (snd run0) = Some (res, snd run0)"
proof -
  have "trim ''90m'' = ''90m''" using trim_padded[of "''90m''" 0 0] by (simp add: solid_def byte_def)
  then have "parse_duration ce0 ''90m'' = Some (Ok 5400)"
    by (simp add: parse_duration_def cont_byte_def byte_def parse_i64_def parse_digits_def is_digit_def
        unit_secs.simps chrono_seconds_def chrono_max_secs_def)
  moreover have "utc_sub (ce_now ce0) 5400 = Some (- 5399999991)"
    by (simp add: utc_sub_def ce0_def chrono_min_utc_def chrono_max_utc_def)
  moreover have "with_context ''migration failed'' (anyhow_storage (ce_migrate ce0)) = Ok ()"
    by (simp add: ce0_def with_context_def anyhow_storage_def)
  ultimately have "\<exists>p. replay_failed ext0 ce0 ''url'' None ''90m'' 100 (snd run0) = Some p"
    by (simp add: replay_failed_def connect0 Let_def split: result.split)
  then obtain res d' where run: "replay_failed ext0 ce0 ''url'' None ''90m'' 100 (snd run0) = Some (res, d')"
    by auto
  have "d' = snd run0"
    using replay_failed_is_futile[OF run0_running idle_commands run] by (auto simp: ce0_tables)
  then show ?thesis using run by blast
qed

end
